(* ===== verification/Prelude.thy ===== *)
theory Prelude
  imports Complex_Main "HOL-Library.Word" "HOL-Library.AList" "HOL-Library.Sublist"
    "HOL-Library.List_Lexorder" "HOL-Library.Char_ord"
begin

text \<open>Shared vocabulary of the development: Go strings as byte lists, the dynamic values
  that any holds after JSON decoding, Go maps as association lists, the named
  collections of facts that the component theories extend, and the generic lemmas on
  lists, association lists and words that several components use.\<close>

named_theorems go_string \<open>computation rules of the Go string operations\<close>
named_theorems go_map \<open>lookup rules of Go maps\<close>
named_theorems wf_intros \<open>preservation of component invariants\<close>

type_synonym 'a gomap = "(string \<times> 'a) list"

section \<open>Go maps\<close>

text \<open>A Go map is an association list with at most one entry per key; its list order
  carries no meaning, so results that come from ranging over a map are stated up to
  permutation or through lookups.\<close>

abbreviation lookup :: "'a gomap \<Rightarrow> string \<Rightarrow> 'a option" where
  "lookup m k \<equiv> map_of m k"

abbreviation put :: "string \<Rightarrow> 'a \<Rightarrow> 'a gomap \<Rightarrow> 'a gomap" where
  "put k v m \<equiv> AList.update k v m"

abbreviation remove :: "string \<Rightarrow> 'a gomap \<Rightarrow> 'a gomap" where
  "remove k m \<equiv> AList.delete k m"

definition keys_of :: "'a gomap \<Rightarrow> string list" where
  "keys_of m = map fst m"

definition gomap :: "'a gomap \<Rightarrow> bool" where
  "gomap m \<longleftrightarrow> distinct (map fst m)"

lemma gomap_Nil [simp]: "gomap []"
  by (simp add: gomap_def)

lemma gomap_put [simp]: "gomap m \<Longrightarrow> gomap (put k v m)"
  by (simp add: gomap_def distinct_update)

lemma gomap_remove [simp]: "gomap m \<Longrightarrow> gomap (remove k m)"
  by (simp add: gomap_def distinct_delete)

lemma lookup_put [go_map]: "lookup (put k v m) k' = (if k' = k then Some v else lookup m k')"
  by (simp add: update_conv')

lemma lookup_remove [go_map]: "lookup (remove k m) k' = (if k' = k then None else lookup m k')"
  by (simp add: delete_conv')

lemma set_keys_dom: "set (map fst m) = dom (map_of m)"
  by (simp add: dom_map_of_conv_image_fst)

section \<open>Dynamic values\<close>

text \<open>encoding/json decodes an object to map[string]any, an array to
  []any and a number to a float64, kept here as the exact rational it
  stands for.  VInt is a Go int that the code itself stores.\<close>

datatype jval =
    VNull
  | VBool bool
  | VInt int
  | VFloat rat
  | VStr string
  | VArr "jval list"
  | VMap "(string \<times> jval) list"

type_synonym jmap = "(string \<times> jval) list"

fun as_map :: "jval option \<Rightarrow> jmap option" where
  "as_map (Some (VMap m)) = Some m"
| "as_map _ = None"

fun as_arr :: "jval option \<Rightarrow> jval list option" where
  "as_arr (Some (VArr a)) = Some a"
| "as_arr _ = None"

fun as_str :: "jval option \<Rightarrow> string option" where
  "as_str (Some (VStr s)) = Some s"
| "as_str _ = None"

text \<open>The two-result type assertion with its value used whatever ok is: the zero
  value of the asserted type on failure.\<close>

definition str_or_empty :: "jval option \<Rightarrow> string" where
  "str_or_empty v = (case as_str v of Some s \<Rightarrow> s | None \<Rightarrow> [])"

definition map_or_nil :: "jval option \<Rightarrow> jmap" where
  "map_or_nil v = (case as_map v of Some m \<Rightarrow> m | None \<Rightarrow> [])"

definition arr_or_nil :: "jval option \<Rightarrow> jval list" where
  "arr_or_nil v = (case as_arr v of Some a \<Rightarrow> a | None \<Rightarrow> [])"

lemma as_map_eq_Some [simp]: "as_map v = Some m \<longleftrightarrow> v = Some (VMap m)"
  by (cases v rule: as_map.cases) auto

lemma as_arr_eq_Some [simp]: "as_arr v = Some a \<longleftrightarrow> v = Some (VArr a)"
  by (cases v rule: as_arr.cases) auto

lemma as_str_eq_Some [simp]: "as_str v = Some s \<longleftrightarrow> v = Some (VStr s)"
  by (cases v rule: as_str.cases) auto

lemma str_or_empty_simps [simp]:
  "str_or_empty (Some (VStr s)) = s"
  "str_or_empty None = []"
  by (simp_all add: str_or_empty_def)

section \<open>Go strings\<close>

text \<open>Strings are byte lists.  Case folding and white space are those of the ASCII range,
  which is what the texts the program parses use.\<close>

definition has_prefix :: "string \<Rightarrow> string \<Rightarrow> bool" where
  "has_prefix s p \<longleftrightarrow> take (length p) s = p"

definition has_suffix :: "string \<Rightarrow> string \<Rightarrow> bool" where
  "has_suffix s p \<longleftrightarrow> length p \<le> length s \<and> drop (length s - length p) s = p"

definition contains_text :: "string \<Rightarrow> string \<Rightarrow> bool" where
  "contains_text s sub \<longleftrightarrow> list_ex (\<lambda>t. has_prefix t sub) (suffixes s)"

definition is_space :: "char \<Rightarrow> bool" where
  "is_space c \<longleftrightarrow> c \<in> {CHR '' '', CHR 0x09, CHR 0x0A, CHR 0x0B, CHR 0x0C, CHR 0x0D}"

definition trim_left :: "string \<Rightarrow> string" where
  "trim_left s = dropWhile is_space s"

definition trim_space :: "string \<Rightarrow> string" where
  "trim_space s = rev (dropWhile is_space (rev (dropWhile is_space s)))"

lemma trim_space_id: "list_all (\<lambda>c. \<not> is_space c) s \<Longrightarrow> trim_space s = s"
proof -
  assume a: "list_all (\<lambda>c. \<not> is_space c) s"
  have d: "dropWhile is_space t = t" if "list_all (\<lambda>c. \<not> is_space c) t" for t
    using that by (cases t) auto
  from a have "list_all (\<lambda>c. \<not> is_space c) (rev s)" by (simp add: list_all_iff)
  with a show ?thesis by (simp add: trim_space_def d)
qed

definition lower_char :: "char \<Rightarrow> char" where
  "lower_char c = (if 65 \<le> (of_char c :: nat) \<and> (of_char c :: nat) \<le> 90
     then char_of ((of_char c :: nat) + 32) else c)"

definition to_lower :: "string \<Rightarrow> string" where
  "to_lower s = map lower_char s"

definition is_digit :: "char \<Rightarrow> bool" where
  "is_digit c \<longleftrightarrow> 48 \<le> (of_char c :: nat) \<and> (of_char c :: nat) \<le> 57"

lemma has_prefix_append [simp]: "has_prefix (p @ s) p"
  by (simp add: has_prefix_def)

lemma has_prefix_iff: "has_prefix s p \<longleftrightarrow> (\<exists>t. s = p @ t)"
  by (metis append_take_drop_id has_prefix_append has_prefix_def)

lemma has_suffix_append [simp]: "has_suffix (s @ p) p"
  by (simp add: has_suffix_def)

text \<open>Decimal and hexadecimal renderings.\<close>

definition digit_char :: "nat \<Rightarrow> char" where
  "digit_char d = char_of (if d < 10 then 48 + d else 87 + d)"

fun base_digits :: "nat \<Rightarrow> nat \<Rightarrow> string" where
  "base_digits b n =
     (if b < 2 \<or> n < b then [digit_char n]
      else base_digits b (n div b) @ [digit_char (n mod b)])"

declare base_digits.simps [simp del]

definition format_int :: "nat \<Rightarrow> int \<Rightarrow> string" where
  "format_int b z =
     (if z < 0 then CHR ''-'' # base_digits b (nat (- z)) else base_digits b (nat z))"

definition digit_val :: "char \<Rightarrow> nat" where
  "digit_val c = (let n = of_char c in if n < 58 then n - 48 else n - 87)"

definition base_val :: "nat \<Rightarrow> string \<Rightarrow> nat" where
  "base_val b s = fold (\<lambda>c a. a * b + digit_val c) s 0"

lemma digit_char_table [go_string]:
  "digit_char 0 = CHR ''0''" "digit_char (Suc 0) = CHR ''1''" "digit_char 1 = CHR ''1''" "digit_char 2 = CHR ''2''"
  "digit_char 3 = CHR ''3''" "digit_char 4 = CHR ''4''" "digit_char 5 = CHR ''5''"
  "digit_char 6 = CHR ''6''" "digit_char 7 = CHR ''7''" "digit_char 8 = CHR ''8''" "digit_char 9 = CHR ''9''"
  by (simp_all add: digit_char_def char_of_def bit_simps bit_Suc bit_0)

lemma digit_val_char [simp]: "d < 36 \<Longrightarrow> digit_val (digit_char d) = d"
  by (auto simp: digit_val_def digit_char_def Let_def)

lemma digit_char_not_minus [simp]: "d < 36 \<Longrightarrow> digit_char d \<noteq> CHR ''-''"
proof
  assume "d < 36" "digit_char d = CHR ''-''"
  then have "(of_char (digit_char d) :: nat) = 45" by simp
  with \<open>d < 36\<close> show False by (simp add: digit_char_def split: if_splits)
qed

lemma base_val_zeros: "base_val b (replicate n (CHR ''0'') @ s) = base_val b s"
  by (induction n) (simp_all add: base_val_def digit_val_def)

lemma base_val_base_digits:
  assumes "2 \<le> b" "b \<le> 36" shows "base_val b (base_digits b n) = n"
proof (induction n rule: less_induct)
  case (less n)
  show ?case
  proof (cases "n < b")
    case True
    with assms show ?thesis by (simp add: base_digits.simps [of b n] base_val_def)
  next
    case False
    with assms have "n div b < n" by (simp add: div_less_dividend)
    from less.IH [OF this] have "base_val b (base_digits b (n div b)) = n div b" .
    moreover have "digit_val (digit_char (n mod b)) = n mod b"
      using assms by (simp add: less_le_trans [OF mod_less_divisor])
    ultimately show ?thesis
      using False assms by (simp add: base_digits.simps [of b n] base_val_def)
  qed
qed

lemma minus_notin_base_digits:
  assumes "2 \<le> b" "b \<le> 36" shows "CHR ''-'' \<notin> set (base_digits b n)"
proof (induction n rule: less_induct)
  case (less n)
  have d: "n mod b < 36" using assms by (simp add: less_le_trans [OF mod_less_divisor])
  show ?case
  proof (cases "n < b")
    case True
    with assms show ?thesis
      by (auto simp: base_digits.simps [of b n] digit_char_not_minus [THEN not_sym])
  next
    case False
    with assms have "n div b < n" by (simp add: div_less_dividend)
    from less.IH [OF this] False assms d show ?thesis
      by (simp add: base_digits.simps [of b n] digit_char_not_minus [OF d, THEN not_sym])
  qed
qed

section \<open>int64\<close>

text \<open>The value of an int64 computation whose exact result is an integer.\<close>

definition wrap64 :: "int \<Rightarrow> int" where
  "wrap64 z = (z + 2 ^ 63) mod 2 ^ 64 - 2 ^ 63"

lemma wrap64_id: "- (2 ^ 63) \<le> z \<Longrightarrow> z < 2 ^ 63 \<Longrightarrow> wrap64 z = z"
  by (simp add: wrap64_def)

lemma wrap64_add: "wrap64 (wrap64 a + b) = wrap64 (a + b)"
  by (simp add: wrap64_def mod_add_left_eq algebra_simps) (simp add: mod_simps ac_simps)

end
