(* ===== verification/GoNet.thy ===== *)
theory GoNet
  imports Prelude
begin

text \<open>The parts of the Go standard library that the program's own parsers are built from:
  strings.Split and strings.SplitN on one character, strconv.Atoi, net.SplitHostPort,
  net.ParseIP / netip.ParseAddr and base64.StdEncoding.  They are written as functions, so
  the components that call them stay executable.\<close>

section \<open>Splitting and numbers\<close>

fun split_on :: "char \<Rightarrow> string \<Rightarrow> string list" where
  "split_on c [] = [[]]"
| "split_on c (x # xs) =
     (if x = c then [] # split_on c xs
      else (case split_on c xs of [] \<Rightarrow> [[x]] | w # ws \<Rightarrow> (x # w) # ws))"

fun join_with :: "string \<Rightarrow> string list \<Rightarrow> string" where
  "join_with sep [] = []"
| "join_with sep [w] = w"
| "join_with sep (w # v # ws) = w @ sep @ join_with sep (v # ws)"

text \<open>The part before the first separator: strings.SplitN(s, sep, 2)[0].\<close>

definition before :: "char \<Rightarrow> string \<Rightarrow> string" where
  "before c s = takeWhile (\<lambda>x. x \<noteq> c) s"

lemma split_on_not_Nil [simp]: "split_on c s \<noteq> []"
  by (induction s) (auto split: list.splits)

lemma join_split_on: "join_with [c] (split_on c s) = s"
proof (induction s)
  case (Cons x xs)
  then show ?case
    by (cases "split_on c xs"; cases "tl (split_on c xs)") (auto split: list.splits)
qed simp

lemma split_on_no_sep: "w \<in> set (split_on c s) \<Longrightarrow> c \<notin> set w"
proof (induction s arbitrary: w)
  case (Cons x xs)
  then show ?case by (auto split: if_splits list.splits)
qed simp

lemma split_on_id: "c \<notin> set s \<Longrightarrow> split_on c s = [s]"
  by (induction s) auto

lemma split_on_append: "c \<notin> set p \<Longrightarrow> split_on c (p @ c # s) = p # split_on c s"
  by (induction p) auto

lemma split_on_join:
  "\<lbrakk>ws \<noteq> []; \<forall>w\<in>set ws. c \<notin> set w\<rbrakk> \<Longrightarrow> split_on c (join_with [c] ws) = ws"
  by (induction "[c]" ws rule: join_with.induct) (auto simp: split_on_id split_on_append)

text \<open>A decimal number without a sign, of a value below the limit.\<close>

definition parse_digits :: "string \<Rightarrow> nat option" where
  "parse_digits s = (if s \<noteq> [] \<and> list_all is_digit s then Some (base_val 10 s) else None)"

definition parse_uint :: "nat \<Rightarrow> string \<Rightarrow> nat option" where
  "parse_uint bits s = (case parse_digits s of
     Some n \<Rightarrow> if n < 2 ^ bits then Some n else None | None \<Rightarrow> None)"

definition atoi :: "string \<Rightarrow> int option" where
  "atoi s = (case s of
     CHR ''-'' # ds \<Rightarrow> (case parse_digits ds of
        Some n \<Rightarrow> if n \<le> 2 ^ 63 then Some (- int n) else None | None \<Rightarrow> None)
   | CHR ''+'' # ds \<Rightarrow> (case parse_digits ds of
        Some n \<Rightarrow> if n < 2 ^ 63 then Some (int n) else None | None \<Rightarrow> None)
   | _ \<Rightarrow> (case parse_digits s of
        Some n \<Rightarrow> if n < 2 ^ 63 then Some (int n) else None | None \<Rightarrow> None))"

text \<open>A signed decimal number of any size (big.Int.SetString in base 10), and
  strconv.ParseInt with its error dropped: 0 for a syntax error, the nearest bound for a range
  error.\<close>

definition parse_big :: "string \<Rightarrow> int option" where
  "parse_big s = (case s of
     [] \<Rightarrow> None
   | c # ds \<Rightarrow>
       if c = CHR ''-'' then map_option (\<lambda>n. - int n) (parse_digits ds)
       else if c = CHR ''+'' then map_option int (parse_digits ds)
       else map_option int (parse_digits s))"

definition parse_int64 :: "string \<Rightarrow> int" where
  "parse_int64 s = (case parse_big s of
     None \<Rightarrow> 0
   | Some v \<Rightarrow> max (- (2 ^ 63)) (min (2 ^ 63 - 1) v))"

text \<open>strings.Split at the separator of the core's counter names.\<close>

fun split_gt :: "string \<Rightarrow> string list" where
  "split_gt [] = [[]]"
| "split_gt (c # r) =
     (if has_prefix (c # r) ''>>>'' then [] # split_gt (drop 2 r)
      else (case split_gt r of [] \<Rightarrow> [[c]] | w # ws \<Rightarrow> (c # w) # ws))"

lemma is_digit_char [simp]: "d < 10 \<Longrightarrow> is_digit (digit_char d)"
  by (simp add: is_digit_def digit_char_def)

lemma base_digits_decimal: "list_all is_digit (base_digits 10 n) \<and> base_digits 10 n \<noteq> []"
proof (induction n rule: less_induct)
  case (less n)
  show ?case
  proof (cases "n < 10")
    case True
    then show ?thesis by (simp add: base_digits.simps [of 10 n])
  next
    case False
    then have "n div 10 < n" by simp
    from less.IH [OF this] False show ?thesis by (simp add: base_digits.simps [of 10 n])
  qed
qed

lemma parse_digits_decimal [simp]: "parse_digits (base_digits 10 n) = Some n"
  using base_digits_decimal [of n] by (simp add: parse_digits_def base_val_base_digits)

lemma parse_uint_decimal: "n < 2 ^ b \<Longrightarrow> parse_uint b (base_digits 10 n) = Some n"
  by (simp add: parse_uint_def)

lemma digit_not_sign: "is_digit c \<Longrightarrow> c \<noteq> CHR ''-'' \<and> c \<noteq> CHR ''+''"
  by (auto simp: is_digit_def)

lemma parse_big_format [simp]: "parse_big (format_int 10 z) = Some z"
proof -
  have d: "list_all is_digit (base_digits 10 n)" "base_digits 10 n \<noteq> []" for n
    using base_digits_decimal by auto
  have "\<exists>c ds. base_digits 10 n = c # ds \<and> is_digit c" for n
    using d [of n] by (cases "base_digits 10 n") auto
  then obtain c ds where "base_digits 10 (nat z) = c # ds" "is_digit c" by blast
  then show ?thesis
    using digit_not_sign [of c] parse_digits_decimal [of "nat z"]
    by (auto simp: parse_big_def format_int_def split: list.splits)
qed

lemma parse_int64_format: "- (2 ^ 63) \<le> z \<Longrightarrow> z < 2 ^ 63 \<Longrightarrow> parse_int64 (format_int 10 z) = z"
  by (simp add: parse_int64_def)

text \<open>strings.Fields.\<close>

function split_fields :: "string \<Rightarrow> string list" where
  "split_fields s = (let t = dropWhile is_space s in
     if t = [] then []
     else takeWhile (\<lambda>c. \<not> is_space c) t # split_fields (dropWhile (\<lambda>c. \<not> is_space c) t))"
  by auto
termination
proof (relation "measure length", simp)
  fix s t assume t: "t = dropWhile is_space s" "t \<noteq> []"
  have "\<not> is_space (hd t)" unfolding t(1) by (rule hd_dropWhile) (use t in simp)
  then obtain c u where u: "t = c # u" "\<not> is_space c" using t(2) by (cases t) auto
  then have "length (dropWhile (\<lambda>c. \<not> is_space c) t) < length t"
    using length_dropWhile_le [of "\<lambda>c. \<not> is_space c" u] by (simp add: le_imp_less_Suc)
  with t(1) show "(dropWhile (\<lambda>c. \<not> is_space c) t, s) \<in> measure length"
    using length_dropWhile_le [of is_space s] by simp
qed

declare split_fields.simps [simp del]

text \<open>bufio.Scanner over the lines of a text, and whether it stopped at a line that does not fit into its
  buffer.\<close>

definition drop_cr :: "string \<Rightarrow> string" where
  "drop_cr l = (if l \<noteq> [] \<and> last l = CHR 0x0D then butlast l else l)"

definition scan_lines :: "string \<Rightarrow> string list \<times> bool" where
  "scan_lines s =
     (let ls = split_on (CHR 0x0A) s; ls' = (if last ls = [] then butlast ls else ls);
          ok = takeWhile (\<lambda>l. length l < 65536) ls' in
      (map drop_cr ok, length ok < length ls'))"

section \<open>IP addresses\<close>

datatype ip_addr = IP4 nat | IP6 nat

definition octet :: "string \<Rightarrow> nat option" where
  "octet w = (if length w > 1 \<and> hd w = CHR ''0'' then None
     else case parse_digits w of Some n \<Rightarrow> if n \<le> 255 then Some n else None | None \<Rightarrow> None)"

definition parse_ipv4 :: "string \<Rightarrow> nat option" where
  "parse_ipv4 s = (case map octet (split_on (CHR ''.'') s) of
     [Some a, Some b, Some c, Some d] \<Rightarrow> Some (((a * 256 + b) * 256 + c) * 256 + d)
   | _ \<Rightarrow> None)"

definition hex_char :: "char \<Rightarrow> bool" where
  "hex_char c \<longleftrightarrow> is_digit c
     \<or> (97 \<le> (of_char c :: nat) \<and> (of_char c :: nat) \<le> 102)
     \<or> (65 \<le> (of_char c :: nat) \<and> (of_char c :: nat) \<le> 70)"

definition hex_val :: "string \<Rightarrow> nat" where
  "hex_val s = base_val 16 (map lower_char s)"

text \<open>The loop of netip's IPv6 parser over at most eight groups: what is left to read, the
  place of the ellipsis and the groups read so far.\<close>

fun v6_groups :: "nat \<Rightarrow> nat option \<Rightarrow> nat list \<Rightarrow> string \<Rightarrow> (nat list \<times> nat option \<times> string) option"
where
  "v6_groups 0 ell acc s = Some (acc, ell, s)"
| "v6_groups (Suc n) ell acc s =
     (let h = takeWhile hex_char s; rest = drop (length h) s; acc' = acc @ [hex_val h] in
      if h = [] \<or> length h > 4 then None
      else case rest of
        [] \<Rightarrow> Some (acc', ell, [])
      | c # s' \<Rightarrow>
          if c = CHR ''.'' then
            (if ell = None \<and> length acc \<noteq> 6 \<or> length acc > 6 then None
             else map_option (\<lambda>v. (acc @ [v div 65536, v mod 65536], ell, [])) (parse_ipv4 s))
          else if c \<noteq> CHR '':'' \<or> s' = [] then None
          else if hd s' = CHR '':'' then
            (if ell \<noteq> None then None
             else if tl s' = [] then Some (acc', Some (length acc'), [])
             else v6_groups n (Some (length acc')) acc' (tl s'))
          else v6_groups n ell acc' s')"

definition v6_value :: "nat list \<Rightarrow> nat" where
  "v6_value gs = fold (\<lambda>g a. a * 65536 + g) gs 0"

definition v6_finish :: "(nat list \<times> nat option \<times> string) option \<Rightarrow> nat option" where
  "v6_finish r = (case r of
     Some (gs, ell, []) \<Rightarrow>
       (if length gs < 8
        then map_option (\<lambda>e. v6_value (take e gs @ replicate (8 - length gs) 0 @ drop e gs)) ell
        else if ell = None then Some (v6_value gs) else None)
   | _ \<Rightarrow> None)"

definition parse_ipv6 :: "string \<Rightarrow> nat option" where
  "parse_ipv6 s =
     (if has_prefix s ''::'' then
        (if length s = 2 then Some 0 else v6_finish (v6_groups 8 (Some 0) [] (drop 2 s)))
      else v6_finish (v6_groups 8 None [] s))"

text \<open>netip.ParseAddr: the address and its zone.\<close>

definition parse_addr :: "string \<Rightarrow> (ip_addr \<times> string) option" where
  "parse_addr s = (case dropWhile (\<lambda>c. c \<notin> {CHR ''.'', CHR '':'', CHR ''%''}) s of
     c # _ \<Rightarrow>
       if c = CHR ''.'' then map_option (\<lambda>n. (IP4 n, [])) (parse_ipv4 s)
       else if c = CHR '':'' then
         (let a = before (CHR ''%'') s; zone = drop (Suc (length a)) s in
          if length a < length s \<and> zone = [] then None
          else map_option (\<lambda>n. (IP6 n, zone)) (parse_ipv6 a))
       else None
   | [] \<Rightarrow> None)"

text \<open>net.ParseIP and net.IP.To4.  The 16-byte form of net.IP does not tell an IPv4 address
  from its IPv4-mapped form; both have a To4.\<close>

definition parse_ip :: "string \<Rightarrow> ip_addr option" where
  "parse_ip s = (case parse_addr s of Some (a, []) \<Rightarrow> Some a | _ \<Rightarrow> None)"

fun to4 :: "ip_addr \<Rightarrow> nat option" where
  "to4 (IP4 n) = Some n"
| "to4 (IP6 n) = (if n div 2 ^ 32 = 0xFFFF then Some (n mod 2 ^ 32) else None)"

definition is_ipv4 :: "string \<Rightarrow> bool" where
  "is_ipv4 s \<longleftrightarrow> (case parse_ip s of Some a \<Rightarrow> to4 a \<noteq> None | None \<Rightarrow> False)"

section \<open>Host and port\<close>

definition last_index :: "char \<Rightarrow> string \<Rightarrow> nat option" where
  "last_index c s =
     (if c \<in> set s then Some (length s - 1 - length (takeWhile (\<lambda>x. x \<noteq> c) (rev s))) else None)"

definition split_host_port :: "string \<Rightarrow> (string \<times> string) option" where
  "split_host_port hp = (case last_index (CHR '':'') hp of
     None \<Rightarrow> None
   | Some i \<Rightarrow>
       if hd hp = CHR ''['' then
         (let end = length (before (CHR '']'') hp) in
          if CHR '']'' \<notin> set hp \<or> Suc end \<noteq> i then None
          else if CHR ''['' \<in> set (drop 1 hp) \<or> CHR '']'' \<in> set (drop (Suc end) hp) then None
          else Some (take (end - 1) (drop 1 hp), drop (Suc i) hp))
       else
         (let host = take i hp in
          if CHR '':'' \<in> set host \<or> CHR ''['' \<in> set hp \<or> CHR '']'' \<in> set hp then None
          else Some (host, drop (Suc i) hp)))"

section \<open>Base 64\<close>

definition b64_digit :: "char \<Rightarrow> nat option" where
  "b64_digit c = (let n = (of_char c :: nat) in
     if 65 \<le> n \<and> n \<le> 90 then Some (n - 65)
     else if 97 \<le> n \<and> n \<le> 122 then Some (n - 71)
     else if 48 \<le> n \<and> n \<le> 57 then Some (n + 4)
     else if c = CHR ''+'' then Some 62
     else if c = CHR ''/'' then Some 63 else None)"

fun b64_quads :: "string \<Rightarrow> nat list option" where
  "b64_quads [] = Some []"
| "b64_quads (a # b # c # d # rest) =
     (case (b64_digit a, b64_digit b) of
        (Some w, Some x) \<Rightarrow>
          if c = CHR ''='' then
            (if d = CHR ''='' \<and> rest = [] then Some [w * 4 + x div 16] else None)
          else (case b64_digit c of
            None \<Rightarrow> None
          | Some y \<Rightarrow>
              if d = CHR ''='' then
                (if rest = [] then Some [w * 4 + x div 16, (x mod 16) * 16 + y div 4] else None)
              else (case b64_digit d of
                None \<Rightarrow> None
              | Some z \<Rightarrow> map_option (\<lambda>bs.
                  [w * 4 + x div 16, (x mod 16) * 16 + y div 4, (y mod 4) * 64 + z] @ bs)
                  (b64_quads rest)))
      | _ \<Rightarrow> None)"
| "b64_quads _ = None"

definition base64_decode :: "string \<Rightarrow> nat list option" where
  "base64_decode s = b64_quads (filter (\<lambda>c. c \<noteq> CHR 0x0A \<and> c \<noteq> CHR 0x0D) s)"

definition b64_char :: "nat \<Rightarrow> char" where
  "b64_char n = (if n < 26 then char_of (n + 65) else if n < 52 then char_of (n + 71)
     else if n < 62 then char_of (n - 4) else if n = 62 then CHR ''+'' else CHR ''/'')"

fun b64_encode_bytes :: "nat list \<Rightarrow> string" where
  "b64_encode_bytes [] = []"
| "b64_encode_bytes [a] = [b64_char (a div 4), b64_char ((a mod 4) * 16), CHR ''='', CHR ''='']"
| "b64_encode_bytes [a, b] =
     [b64_char (a div 4), b64_char ((a mod 4) * 16 + b div 16), b64_char ((b mod 16) * 4), CHR ''='']"
| "b64_encode_bytes (a # b # c # rest) =
     [b64_char (a div 4), b64_char ((a mod 4) * 16 + b div 16),
      b64_char ((b mod 16) * 4 + c div 64), b64_char (c mod 64)] @ b64_encode_bytes rest"

definition base64_encode :: "string \<Rightarrow> string" where
  "base64_encode s = b64_encode_bytes (map of_char s)"

lemmas v6_groups_numeral = v6_groups.simps(2) [of "pred_numeral k" for k, folded numeral_eq_Suc]

lemmas funpow_numeral_eq = funpow.simps(2) [of "pred_numeral k" for k, folded numeral_eq_Suc]

text \<open>The definitions that evaluate a parser on a concrete text.\<close>

lemmas net_eval = v6_groups_numeral funpow_numeral_eq is_ipv4_def parse_ip_def parse_addr_def parse_ipv4_def parse_ipv6_def octet_def
  parse_digits_def parse_uint_def atoi_def is_digit_def base_val_def digit_val_def before_def
  has_prefix_def has_suffix_def v6_finish_def v6_value_def hex_val_def hex_char_def lower_char_def
  split_host_port_def last_index_def base64_decode_def b64_digit_def trim_space_def is_space_def

lemma digit_char_hex: "n < 16 \<Longrightarrow> hex_char (digit_char n) \<and> lower_char (digit_char n) = digit_char n"
proof -
  assume "n < 16"
  then have "(of_char (digit_char n) :: nat) = (if n < 10 then 48 + n else 87 + n)" by (simp add: digit_char_def)
  with \<open>n < 16\<close> show ?thesis by (simp add: hex_char_def is_digit_def lower_char_def)
qed

end
