(* ===== verification/ApiConfig.thy ===== *)
theory ApiConfig
  imports Prelude GoNet
begin

text \<open>internal/xray/apiconfig.go and internal/xray/warp_guard.go: how the panel's Xray
  configuration becomes the one the core is started with.  The node adds its gRPC inbound and
  the routing rule to it, the statistics policy, the WARP probe inbound, the torrent blocker
  outbound with its webhook, and forces a WARP outbound to IPv4.

  The configuration is a decoded JSON object.  Environment variables and the CAP_NET_ADMIN
  test are fields of a record that the definitions take.\<close>

record config_env =
  env_warp_probe_port :: string
  env_warp_client_id :: string
  env_has_net_admin :: bool

record torrent_options =
  tb_enabled :: bool
  tb_include_rule_tags :: "string list"
  tb_socket_path :: string
  tb_rest_token :: string

section \<open>Copies through JSON\<close>

text \<open>cloneMap of internal/xray/manager.go marshals and unmarshals: the value is the same but
  an int comes back as a float64.\<close>

fun clone_val :: "jval \<Rightarrow> jval" where
  "clone_val (VInt i) = VFloat (of_int i)"
| "clone_val (VArr vs) = VArr (map clone_val vs)"
| "clone_val (VMap m) = VMap (map (\<lambda>(k, v). (k, clone_val v)) m)"
| "clone_val v = v"

definition clone_map :: "jmap \<Rightarrow> jmap" where
  "clone_map m = map (\<lambda>(k, v). (k, clone_val v)) m"

lemma lookup_clone_map [go_map]: "lookup (clone_map m) k = map_option clone_val (lookup m k)"
  by (simp add: clone_map_def map_of_map)

lemma gomap_clone_map [simp]: "gomap m \<Longrightarrow> gomap (clone_map m)"
  by (simp add: gomap_def clone_map_def comp_def split_beta)

lemma clone_val_VStr [simp]: "clone_val v = VStr s \<longleftrightarrow> v = VStr s"
  by (cases v) auto

section \<open>Pieces of the generated configuration\<close>

definition api_tag :: string where "api_tag = ''REMNAWAVE_API''"
definition api_inbound_tag :: string where "api_inbound_tag = ''REMNAWAVE_API_INBOUND''"
definition torrent_tag :: string where "torrent_tag = ''RW_TB_OUTBOUND_BLOCK''"
definition probe_inbound_tag :: string where "probe_inbound_tag = ''REMNAWAVE_WARP_PROBE_INBOUND''"

definition array_from :: "jval option \<Rightarrow> jval list" where
  "array_from value = (case value of
     None \<Rightarrow> []
   | Some (VArr typed) \<Rightarrow> typed
   | Some _ \<Rightarrow> [])"

definition build_webhook_url :: "string \<Rightarrow> string" where
  "build_webhook_url socket_path = ''/'' @ socket_path @ '':/internal/webhook''"

definition api_inbound :: "string \<Rightarrow> jval" where
  "api_inbound socket_name = VMap
     [(''tag'', VStr api_inbound_tag),
      (''listen'', VStr (''@'' @ socket_name)),
      (''protocol'', VStr ''tunnel'')]"

definition level_zero :: "jval option \<Rightarrow> jmap" where
  "level_zero existing = (case as_map existing of
     None \<Rightarrow> []
   | Some existing_policy \<Rightarrow> (case as_map (lookup existing_policy ''levels'') of
       None \<Rightarrow> []
     | Some levels \<Rightarrow> (case as_map (lookup levels ''0'') of
         None \<Rightarrow> []
       | Some zero \<Rightarrow> zero)))"

definition policy_from :: "jval option \<Rightarrow> bool \<Rightarrow> jmap" where
  "policy_from existing stats_user_online =
     [(''levels'', VMap [(''0'', VMap
         (put ''statsUserOnline'' (VBool stats_user_online)
          (put ''statsUserDownlink'' (VBool True)
          (put ''statsUserUplink'' (VBool True) (level_zero existing)))))]),
      (''system'', VMap
        [(''statsInboundDownlink'', VBool True),
         (''statsInboundUplink'', VBool True),
         (''statsOutboundDownlink'', VBool True),
         (''statsOutboundUplink'', VBool True)])]"

definition api_rule :: jval where
  "api_rule = VMap [(''inboundTag'', VArr [VStr api_inbound_tag]), (''outboundTag'', VStr api_tag)]"

text \<open>A rule that routes to the API, which the code drops before it adds its own.\<close>

definition is_api_rule :: "jval \<Rightarrow> bool" where
  "is_api_rule item = (case item of
     VMap rule \<Rightarrow> str_or_empty (lookup rule ''outboundTag'') = api_tag
   | _ \<Rightarrow> False)"

definition routing_from :: "jval option \<Rightarrow> jmap" where
  "routing_from existing =
     (let routing = (case as_map existing of Some m \<Rightarrow> m | None \<Rightarrow> []);
          rules = api_rule # filter (\<lambda>item. \<not> is_api_rule item) (array_from (lookup routing ''rules''))
      in put ''rules'' (VArr rules) routing)"

section \<open>The WARP guard\<close>

definition disabled_warp_endpoint :: string where
  "disabled_warp_endpoint = ''warp-is-disabled-on-this-remnanode.invalid:9''"

definition valid_port :: "string \<Rightarrow> bool" where
  "valid_port value = (case atoi value of Some port \<Rightarrow> 1 \<le> port \<and> port \<le> 65535 | None \<Rightarrow> False)"

definition valid_ipv4_endpoint :: "string \<Rightarrow> bool" where
  "valid_ipv4_endpoint endpoint = (case split_host_port endpoint of
     None \<Rightarrow> False
   | Some (host, port) \<Rightarrow> is_ipv4 host \<and> valid_port port)"

definition alnum :: "char \<Rightarrow> bool" where
  "alnum c \<longleftrightarrow> is_digit c \<or> (97 \<le> (of_char c :: nat) \<and> (of_char c :: nat) \<le> 122)
     \<or> (65 \<le> (of_char c :: nat) \<and> (of_char c :: nat) \<le> 90)"

text \<open>The label test with its regular expression: letters, digits and inner hyphens.\<close>

definition valid_label :: "string \<Rightarrow> bool" where
  "valid_label label \<longleftrightarrow> length label \<noteq> 0 \<and> length label \<le> 63
     \<and> alnum (hd label) \<and> alnum (last label)
     \<and> list_all (\<lambda>c. alnum c \<or> c = CHR ''-'') label"

definition valid_hostname_endpoint :: "string \<Rightarrow> bool" where
  "valid_hostname_endpoint endpoint = (case split_host_port endpoint of
     None \<Rightarrow> False
   | Some (host, port) \<Rightarrow>
       \<not> (host = [] \<or> parse_ip host \<noteq> None \<or> length host > 253 \<or> \<not> valid_port port)
       \<and> list_all valid_label (split_on (CHR ''.'') host))"

fun first_ipv4_address :: "jval list \<Rightarrow> string" where
  "first_ipv4_address [] = []"
| "first_ipv4_address (value # rest) =
     (let address = str_or_empty (Some value) in
      if is_ipv4 (before (CHR ''/'') address) then address else first_ipv4_address rest)"

definition reserved_from_env :: "config_env \<Rightarrow> jmap \<Rightarrow> (string + jmap)" where
  "reserved_from_env env new_settings =
     (let client_id = trim_space (env_warp_client_id env) in
      if client_id = [] then Inr new_settings
      else (case base64_decode client_id of
          None \<Rightarrow> Inl ''WARP_CLIENT_ID must encode exactly three bytes as base64''
        | Some decoded \<Rightarrow>
            if length decoded \<noteq> 3 \<or> length client_id \<noteq> 4
            then Inl ''WARP_CLIENT_ID must encode exactly three bytes as base64''
            else Inr (put ''reserved'' (VArr (map (\<lambda>b. VInt (int b)) decoded)) new_settings)))"

definition force_stream :: "jmap \<Rightarrow> jmap \<Rightarrow> jmap" where
  "force_stream outbound new_outbound =
     (case as_map (lookup outbound ''streamSettings'') of
        None \<Rightarrow> new_outbound
      | Some stream \<Rightarrow> (case as_map (lookup stream ''sockopt'') of
          None \<Rightarrow> new_outbound
        | Some sockopt \<Rightarrow> put ''streamSettings''
            (VMap (put ''sockopt''
               (VMap (put ''domainStrategy'' (VStr ''ForceIPv4'') (clone_map sockopt)))
               (clone_map stream))) new_outbound))"

definition warp_peer :: "jmap \<Rightarrow> jmap option" where
  "warp_peer settings = (case as_arr (lookup settings ''peers'') of
     Some [VMap peer] \<Rightarrow> Some peer
   | _ \<Rightarrow> None)"

text \<open>The guard of one WARP outbound that has settings: the replacement, or the error.\<close>

definition guard_warp :: "config_env \<Rightarrow> jmap \<Rightarrow> jmap \<Rightarrow> (string + jmap)" where
  "guard_warp env outbound settings = (case warp_peer settings of
     None \<Rightarrow> Inl ''managed WARP requires exactly one peer''
   | Some peer \<Rightarrow>
      (let endpoint = str_or_empty (lookup peer ''endpoint'');
           ipv4_address = first_ipv4_address (arr_or_nil (lookup settings ''address'')) in
       if endpoint \<noteq> disabled_warp_endpoint \<and> \<not> valid_ipv4_endpoint endpoint
          \<and> \<not> valid_hostname_endpoint endpoint
       then Inl ''managed WARP requires an IPv4 or hostname peer endpoint''
       else if ipv4_address = [] then Inl ''managed WARP requires an IPv4 tunnel address''
       else
        (let base = put ''peers''
               (VArr [VMap (put ''allowedIPs'' (VArr [VStr ''0.0.0.0/0'']) (clone_map peer))])
               (put ''domainStrategy'' (VStr ''ForceIPv4'')
               (put ''address'' (VArr [VStr ipv4_address]) (clone_map settings))) in
         case (if endpoint \<noteq> disabled_warp_endpoint \<and> lookup settings ''reserved'' = None
               then reserved_from_env env base else Inr base) of
           Inl e \<Rightarrow> Inl e
         | Inr new_settings \<Rightarrow> Inr (force_stream outbound
             (put ''targetStrategy'' (VStr ''ForceIPv4'')
             (put ''settings'' (VMap new_settings) (clone_map outbound)))))))"

fun as_warp :: "jval \<Rightarrow> jmap option" where
  "as_warp (VMap outbound) = (if lookup outbound ''tag'' = Some (VStr ''WARP'') then Some outbound else None)"
| "as_warp _ = None"

text \<open>The loop over the outbounds, with the number of WARP outbounds seen so far.\<close>

fun guard_loop :: "config_env \<Rightarrow> nat \<Rightarrow> bool \<Rightarrow> jval list \<Rightarrow> (string + jval list \<times> bool)" where
  "guard_loop env warp_count applied [] = Inr ([], applied)"
| "guard_loop env warp_count applied (value # rest) =
     (let keep = (\<lambda>count app item. case guard_loop env count app rest of
            Inl e \<Rightarrow> Inl e | Inr (items, app') \<Rightarrow> Inr (item # items, app')) in
      case as_warp value of
        None \<Rightarrow> keep warp_count applied value
      | Some outbound \<Rightarrow>
          if Suc warp_count > 1 \<or> lookup outbound ''protocol'' \<noteq> Some (VStr ''wireguard'')
          then Inl ''conflicting WARP outbound''
          else (case as_map (lookup outbound ''settings'') of
              None \<Rightarrow> keep (Suc warp_count) applied value
            | Some settings \<Rightarrow> (case guard_warp env outbound settings of
                Inl e \<Rightarrow> Inl e
              | Inr new_outbound \<Rightarrow> keep (Suc warp_count) True (VMap new_outbound))))"

definition guard_warp_outbounds :: "config_env \<Rightarrow> jval list \<Rightarrow> (string + jval list \<times> bool)" where
  "guard_warp_outbounds env outbounds = guard_loop env 0 False outbounds"

section \<open>The generated configuration\<close>

definition probe_port :: "config_env \<Rightarrow> int list \<Rightarrow> int" where
  "probe_port env configured =
     (let from_env = (case atoi (env_warp_probe_port env) of
            Some parsed \<Rightarrow> if env_warp_probe_port env \<noteq> [] \<and> 0 < parsed \<and> parsed \<le> 65535
              then parsed else 61001
          | None \<Rightarrow> 61001)
      in case configured of
           p # _ \<Rightarrow> if 0 < p \<and> p \<le> 65535 then p else from_env
         | [] \<Rightarrow> from_env)"

definition probe_inbound :: "int \<Rightarrow> jval" where
  "probe_inbound port = VMap
     [(''tag'', VStr probe_inbound_tag), (''listen'', VStr ''127.0.0.1''), (''port'', VInt port),
      (''protocol'', VStr ''socks''),
      (''settings'', VMap [(''auth'', VStr ''noauth''), (''udp'', VBool False)])]"

definition probe_rule :: jval where
  "probe_rule = VMap
     [(''inboundTag'', VArr [VStr probe_inbound_tag]), (''outboundTag'', VStr ''WARP'')]"

definition webhook_value :: "string \<Rightarrow> jval" where
  "webhook_value url = VMap [(''url'', VStr url), (''deduplication'', VInt 5)]"

definition torrent_rule :: "string \<Rightarrow> jval" where
  "torrent_rule url = VMap
     [(''protocol'', VArr [VStr ''bittorrent'']), (''outboundTag'', VStr torrent_tag),
      (''webhook'', webhook_value url)]"

definition torrent_outbound :: jval where
  "torrent_outbound = VMap [(''tag'', VStr torrent_tag), (''protocol'', VStr ''blackhole'')]"

definition insert_probe_rule :: "jval list \<Rightarrow> jval list" where
  "insert_probe_rule rules = (case rules of
     [] \<Rightarrow> [VMap [], probe_rule]
   | r # rs \<Rightarrow> r # probe_rule # rs)"

definition insert_torrent_rule :: "string \<Rightarrow> jval list \<Rightarrow> jval list" where
  "insert_torrent_rule url rules = (case rules of
     [] \<Rightarrow> [torrent_rule url]
   | r # rs \<Rightarrow> r # torrent_rule url # rs)"

text \<open>The in-place update of the rules whose tag is included.\<close>

definition add_webhook :: "string \<Rightarrow> string list \<Rightarrow> jval \<Rightarrow> jval" where
  "add_webhook url tags item = (case item of
     VMap rule \<Rightarrow> if str_or_empty (lookup rule ''ruleTag'') \<in> set tags
       then VMap (put ''webhook'' (webhook_value url) rule) else item
   | _ \<Rightarrow> item)"

definition update_rules :: "(jval list \<Rightarrow> jval list) \<Rightarrow> jmap \<Rightarrow> jmap" where
  "update_rules f result =
     (let routing = map_or_nil (lookup result ''routing'')
      in put ''routing'' (VMap (put ''rules'' (VArr (f (array_from (lookup routing ''rules'')))) routing))
           result)"

definition add_torrent :: "torrent_options \<Rightarrow> jmap \<Rightarrow> jmap" where
  "add_torrent torrent result =
     (let url = build_webhook_url (tb_socket_path torrent);
          result1 = put ''outbounds''
            (VArr (array_from (lookup result ''outbounds'') @ [torrent_outbound])) result
      in update_rules (\<lambda>rules.
           (if tb_include_rule_tags torrent \<noteq> []
            then map (add_webhook url (tb_include_rule_tags torrent)) (insert_torrent_rule url rules)
            else insert_torrent_rule url rules)) result1)"

text \<open>The part that does not depend on the torrent blocker: statistics, the API, the inbounds,
  the guarded outbounds, the policy and the routing with the API rule.\<close>

definition inject_api ::
  "config_env \<Rightarrow> string \<Rightarrow> int list \<Rightarrow> bool \<Rightarrow> jval list \<Rightarrow> jmap \<Rightarrow> jmap" where
  "inject_api env xtls_socket configured_probe_port warp outbounds result =
     (let r1 = put ''stats'' (VMap []) result;
          r2 = put ''api'' (VMap
                 [(''services'', VArr [VStr ''HandlerService'', VStr ''StatsService'', VStr ''RoutingService'']),
                  (''tag'', VStr api_tag)]) r1;
          inbounds = api_inbound xtls_socket
            # (if warp then [probe_inbound (probe_port env configured_probe_port)] else [])
            @ array_from (lookup r2 ''inbounds'');
          r3 = put ''inbounds'' (VArr inbounds) r2;
          r4 = put ''outbounds'' (VArr outbounds) r3;
          r5 = put ''policy'' (VMap (policy_from (lookup r4 ''policy'') (env_has_net_admin env))) r4
      in put ''routing'' (VMap (routing_from (lookup r5 ''routing''))) r5)"

definition generate_api_config ::
  "config_env \<Rightarrow> jmap \<Rightarrow> string \<Rightarrow> torrent_options \<Rightarrow> int list \<Rightarrow> jmap" where
  "generate_api_config env input xtls_socket torrent configured_probe_port =
     (let cloned = clone_map input;
          own_outbounds = array_from (lookup cloned ''outbounds'');
          (warp, outbounds, r0) = (case guard_warp_outbounds env own_outbounds of
              Inl e \<Rightarrow> (False, own_outbounds, put ''__warpGuardError'' (VStr e) cloned)
            | Inr (guarded, w) \<Rightarrow> (w, guarded, cloned));
          r6 = inject_api env xtls_socket configured_probe_port warp outbounds r0;
          r7 = (if warp then update_rules insert_probe_rule r6 else r6)
      in if tb_enabled torrent then add_torrent torrent r7 else r7)"

section \<open>Reading the result\<close>

definition rules_of :: "jmap \<Rightarrow> jval list" where
  "rules_of config = array_from (lookup (map_or_nil (lookup config ''routing'')) ''rules'')"

definition inbounds_of :: "jmap \<Rightarrow> jval list" where
  "inbounds_of config = array_from (lookup config ''inbounds'')"

definition outbounds_of :: "jmap \<Rightarrow> jval list" where
  "outbounds_of config = array_from (lookup config ''outbounds'')"

definition has_warp :: "config_env \<Rightarrow> jmap \<Rightarrow> bool" where
  "has_warp env input = (case guard_warp_outbounds env (outbounds_of (clone_map input)) of
     Inl _ \<Rightarrow> False | Inr (_, w) \<Rightarrow> w)"

lemma array_from_VArr [simp]: "array_from (Some (VArr a)) = a"
  by (simp add: array_from_def)

lemma map_or_nil_VMap [simp]: "map_or_nil (Some (VMap m)) = m"
  by (simp add: map_or_nil_def)

lemma rules_of_put: "k \<noteq> ''routing'' \<Longrightarrow> rules_of (put k v c) = rules_of c"
  by (simp add: rules_of_def go_map)

lemma rules_of_update [simp]: "rules_of (update_rules f c) = f (rules_of c)"
  by (simp add: rules_of_def update_rules_def Let_def go_map)

lemma lookup_update_rules: "k \<noteq> ''routing'' \<Longrightarrow> lookup (update_rules f c) k = lookup c k"
  by (simp add: update_rules_def Let_def go_map)

lemma rules_of_routing_from:
  "rules_of (put ''routing'' (VMap (routing_from v)) c)
     = api_rule # filter (\<lambda>x. \<not> is_api_rule x) (array_from (lookup (map_or_nil v) ''rules''))"
  by (simp add: rules_of_def routing_from_def Let_def go_map map_or_nil_def)

lemma rules_of_inject:
  "rules_of (inject_api env socket ports warp obs r)
     = api_rule # filter (\<lambda>x. \<not> is_api_rule x) (rules_of r)"
  by (simp add: inject_api_def Let_def rules_of_routing_from rules_of_def [of r] go_map)

lemma lookup_inject:
  "lookup (inject_api env socket ports warp obs r) ''inbounds''
     = Some (VArr (api_inbound socket # (if warp then [probe_inbound (probe_port env ports)] else [])
         @ inbounds_of r))"
  "lookup (inject_api env socket ports warp obs r) ''outbounds'' = Some (VArr obs)"
  "lookup (inject_api env socket ports warp obs r) ''policy''
     = Some (VMap (policy_from (lookup r ''policy'') (env_has_net_admin env)))"
  by (simp_all add: inject_api_def Let_def inbounds_of_def go_map)

lemma lookup_inject_other:
  "k \<notin> {''stats'', ''api'', ''inbounds'', ''outbounds'', ''policy'', ''routing''}
    \<Longrightarrow> lookup (inject_api env socket ports warp obs r) k = lookup r k"
  by (simp add: inject_api_def Let_def go_map)

lemma add_webhook_Nil [simp]: "add_webhook url [] = id"
  by (auto simp: add_webhook_def fun_eq_iff split: jval.splits)

lemma rules_of_add_torrent:
  "rules_of (add_torrent torrent r) =
     map (add_webhook (build_webhook_url (tb_socket_path torrent)) (tb_include_rule_tags torrent))
       (insert_torrent_rule (build_webhook_url (tb_socket_path torrent)) (rules_of r))"
  by (simp add: add_torrent_def Let_def rules_of_put)

lemma lookup_add_torrent:
  "k \<noteq> ''routing'' \<Longrightarrow> lookup (add_torrent torrent r) k =
     (if k = ''outbounds'' then Some (VArr (outbounds_of r @ [torrent_outbound]))
      else lookup r k)"
  by (simp add: add_torrent_def Let_def lookup_update_rules go_map outbounds_of_def)

lemmas generate_rules = generate_api_config_def Let_def rules_of_add_torrent rules_of_inject
  rules_of_put

text \<open>The node's own values in the order the code adds them.\<close>

definition added_rules :: "config_env \<Rightarrow> jmap \<Rightarrow> torrent_options \<Rightarrow> jval list" where
  "added_rules env input torrent =
     [api_rule]
     @ (if tb_enabled torrent then [torrent_rule (build_webhook_url (tb_socket_path torrent))] else [])
     @ (if has_warp env input then [probe_rule] else [])"

definition hooked :: "torrent_options \<Rightarrow> jval \<Rightarrow> jval" where
  "hooked torrent =
     (if tb_enabled torrent
      then add_webhook (build_webhook_url (tb_socket_path torrent)) (tb_include_rule_tags torrent)
      else id)"

lemma is_api_rule_hook [simp]: "is_api_rule (add_webhook url tags r) = is_api_rule r"
  by (cases r) (auto simp: is_api_rule_def add_webhook_def go_map)

lemma is_api_rule_hooked [simp]: "is_api_rule (hooked torrent r) = is_api_rule r"
  by (simp add: hooked_def)

lemma filter_api_map_hooked:
  "filter is_api_rule (map (hooked torrent) rs) = map (hooked torrent) (filter is_api_rule rs)"
  by (simp add: filter_map comp_def)

lemma lookup_hooked_routing:
  assumes "hooked torrent (VMap rule) = VMap rule'" "k \<noteq> ''webhook''"
  shows "lookup rule' k = lookup rule k"
  using assms by (auto simp: hooked_def add_webhook_def go_map split: if_splits)

lemma hooked_VMap: "\<exists>rule'. hooked torrent (VMap rule) = VMap rule'"
  by (auto simp: hooked_def add_webhook_def)

lemma generated_rules_eq:
  "rules_of (generate_api_config env input socket torrent ports)
     = map (hooked torrent)
         (added_rules env input torrent
          @ filter (\<lambda>r. \<not> is_api_rule r) (rules_of (clone_map input)))"
  by (cases "guard_warp_outbounds env (outbounds_of (clone_map input))")
    (auto simp: generate_rules has_warp_def outbounds_of_def hooked_def added_rules_def
      insert_probe_rule_def insert_torrent_rule_def)

section \<open>Properties of the generated configuration\<close>

text \<open>C6: The routing rules of the generated configuration are exactly: the API rule, the
  torrent rule when the blocker is enabled, the probe rule when the guard accepted a WARP
  outbound, then the panel's own rules in their order without any that routes to the API; and
  the webhook is put on exactly the included rules of that list.\<close>

theorem generated_rules:
  "rules_of (generate_api_config env input socket torrent ports)
     = map (hooked torrent)
         (added_rules env input torrent
          @ filter (\<lambda>r. \<not> is_api_rule r) (rules_of (clone_map input)))"
  by (rule generated_rules_eq)

text \<open>The generated configuration routes to the API by one rule only, and it is the first:
  the rule that takes the traffic of the node's own API inbound.  Whatever rules the panel
  sends, no earlier rule catches the node's gRPC traffic and no other one reaches the API.\<close>

theorem api_rule_first_and_only:
  "\<exists>rule rest. rules_of (generate_api_config env input socket torrent ports) = VMap rule # rest
     \<and> lookup rule ''inboundTag'' = Some (VArr [VStr api_inbound_tag])
     \<and> lookup rule ''outboundTag'' = Some (VStr api_tag)
     \<and> filter is_api_rule rest = []"
proof -
  let ?own = "filter (\<lambda>r. \<not> is_api_rule r) (rules_of (clone_map input))"
  note rules = generated_rules_eq [of env input socket torrent ports]
  obtain rule where rule: "hooked torrent api_rule = VMap rule"
    unfolding api_rule_def using hooked_VMap by blast
  have look: "lookup rule k = lookup [(''inboundTag'', VArr [VStr api_inbound_tag]), (''outboundTag'', VStr api_tag)] k"
    if "k \<noteq> ''webhook''" for k
    using lookup_hooked_routing rule that unfolding api_rule_def by blast
  have "filter is_api_rule (map (hooked torrent) (tl (added_rules env input torrent) @ ?own)) = []"
    unfolding filter_api_map_hooked
    by (auto simp: added_rules_def is_api_rule_def torrent_rule_def probe_rule_def api_tag_def
        torrent_tag_def)
  with rules rule look show ?thesis
    by (auto simp: added_rules_def)
qed

section \<open>The guard\<close>

text \<open>What a guarded WARP outbound looks like: tunnelled over wireguard, one IPv4 tunnel
  address, one peer that is offered IPv4 routes only, and every name resolution forced to
  IPv4.\<close>

definition ipv4_settings :: "jmap \<Rightarrow> bool" where
  "ipv4_settings settings \<longleftrightarrow>
     lookup settings ''domainStrategy'' = Some (VStr ''ForceIPv4'')
     \<and> (case lookup settings ''address'' of
          Some (VArr [VStr a]) \<Rightarrow> is_ipv4 (before (CHR ''/'') a) | _ \<Rightarrow> False)
     \<and> (case lookup settings ''peers'' of
          Some (VArr [VMap p]) \<Rightarrow> lookup p ''allowedIPs'' = Some (VArr [VStr ''0.0.0.0/0''])
        | _ \<Rightarrow> False)"

definition ipv4_stream :: "jval option \<Rightarrow> bool" where
  "ipv4_stream v = (case as_map v of
     None \<Rightarrow> True
   | Some stream \<Rightarrow> (case as_map (lookup stream ''sockopt'') of
       None \<Rightarrow> True
     | Some sockopt \<Rightarrow> lookup sockopt ''domainStrategy'' = Some (VStr ''ForceIPv4'')))"

definition ipv4_only :: "jval \<Rightarrow> bool" where
  "ipv4_only item = (case as_warp item of
     None \<Rightarrow> False
   | Some ob \<Rightarrow> lookup ob ''protocol'' = Some (VStr ''wireguard'')
       \<and> lookup ob ''targetStrategy'' = Some (VStr ''ForceIPv4'')
       \<and> ipv4_settings (map_or_nil (lookup ob ''settings''))
       \<and> ipv4_stream (lookup ob ''streamSettings''))"

definition warp_with_settings :: "jval \<Rightarrow> bool" where
  "warp_with_settings item = (case as_warp item of
     None \<Rightarrow> False | Some ob \<Rightarrow> as_map (lookup ob ''settings'') \<noteq> None)"

definition guarded_item :: "jval \<Rightarrow> jval \<Rightarrow> bool" where
  "guarded_item o1 o2 \<longleftrightarrow> (if warp_with_settings o1 then ipv4_only o2 else o2 = o1)"

lemma warp_with_settings_simps:
  "as_warp v = None \<Longrightarrow> \<not> warp_with_settings v"
  "as_warp v = Some ob \<Longrightarrow> warp_with_settings v \<longleftrightarrow> as_map (lookup ob ''settings'') \<noteq> None"
  by (simp_all add: warp_with_settings_def)

lemma as_warp_Some: "as_warp v = Some ob \<longleftrightarrow> v = VMap ob \<and> lookup ob ''tag'' = Some (VStr ''WARP'')"
  by (cases v) auto

lemma first_ipv4_address_ok:
  "first_ipv4_address vs \<noteq> [] \<Longrightarrow> is_ipv4 (before (CHR ''/'') (first_ipv4_address vs))"
  by (induction vs) (auto simp: Let_def)

lemma reserved_from_env_keeps:
  "\<lbrakk>reserved_from_env env base = Inr s; k \<noteq> ''reserved''\<rbrakk> \<Longrightarrow> lookup s k = lookup base k"
  by (auto simp: reserved_from_env_def Let_def go_map split: if_splits option.splits)

lemma clone_not_map: "as_map (map_option clone_val v) = None \<longleftrightarrow> as_map v = None"
  by (cases v rule: as_map.cases) auto

lemma lookup_force_stream:
  "k \<noteq> ''streamSettings'' \<Longrightarrow> lookup (force_stream ob nob) k = lookup nob k"
  by (simp add: force_stream_def go_map split: option.splits)

lemma force_stream_ok:
  assumes "lookup nob ''streamSettings'' = map_option clone_val (lookup ob ''streamSettings'')"
  shows "ipv4_stream (lookup (force_stream ob nob) ''streamSettings'')"
proof (cases "as_map (lookup ob ''streamSettings'')")
  case None
  with assms show ?thesis
    using clone_not_map [of "lookup ob ''streamSettings''"]
    by (simp add: force_stream_def ipv4_stream_def del: not_None_eq)
next
  case (Some stream)
  show ?thesis
  proof (cases "as_map (lookup stream ''sockopt'')")
    case None
    with Some assms clone_not_map [of "lookup stream ''sockopt''"] show ?thesis
      by (auto simp: force_stream_def ipv4_stream_def clone_map_def [symmetric] go_map)
  next
    case (Some sockopt)
    with \<open>as_map (lookup ob ''streamSettings'') = Some stream\<close> show ?thesis
      by (auto simp: force_stream_def ipv4_stream_def go_map)
  qed
qed

lemma guard_warp_ipv4:
  assumes guard: "guard_warp env ob settings = Inr nob"
    and tag: "lookup ob ''tag'' = Some (VStr ''WARP'')"
    and wg: "lookup ob ''protocol'' = Some (VStr ''wireguard'')"
  shows "ipv4_only (VMap nob)"
proof -
  obtain peer where peer: "warp_peer settings = Some peer"
    using guard by (auto simp: guard_warp_def split: option.splits)
  define a where "a = first_ipv4_address (arr_or_nil (lookup settings ''address''))"
  define base where "base = put ''peers''
               (VArr [VMap (put ''allowedIPs'' (VArr [VStr ''0.0.0.0/0'']) (clone_map peer))])
               (put ''domainStrategy'' (VStr ''ForceIPv4'')
               (put ''address'' (VArr [VStr a]) (clone_map settings)))"
  from guard peer obtain s where ne: "a \<noteq> []"
    and s: "s = base \<or> reserved_from_env env base = Inr s"
    and nob: "nob = force_stream ob
             (put ''targetStrategy'' (VStr ''ForceIPv4'')
             (put ''settings'' (VMap s) (clone_map ob)))"
    unfolding guard_warp_def Let_def a_def base_def
    by (simp split: if_splits sum.splits) blast+
  have keep: "lookup s k = lookup base k" if "k \<noteq> ''reserved''" for k
    using s reserved_from_env_keeps that by blast
  have "ipv4_settings s"
    using first_ipv4_address_ok [of "arr_or_nil (lookup settings ''address'')"] ne
    by (simp add: ipv4_settings_def keep base_def go_map a_def)
  moreover have "ipv4_stream (lookup nob ''streamSettings'')"
    unfolding nob by (rule force_stream_ok) (simp add: go_map)
  ultimately show ?thesis
    using tag wg by (simp add: ipv4_only_def nob lookup_force_stream go_map)
qed

lemma guard_loop_sound:
  assumes "guard_loop env c app obs = Inr (obs', w)"
  shows "list_all2 guarded_item obs obs'
    \<and> (w \<longleftrightarrow> app \<or> list_ex warp_with_settings obs)
    \<and> (c \<le> 1 \<longrightarrow> c + length (filter (\<lambda>i. as_warp i \<noteq> None) obs') \<le> 1)"
  using assms
proof (induction env c app obs arbitrary: obs' w rule: guard_loop.induct)
  case (1 env c app)
  then show ?case by simp
next
  case (2 env c app v rest)
  show ?case
  proof (cases "as_warp v")
    case None
    with "2.prems" obtain tail where tail: "guard_loop env c app rest = Inr (tail, w)"
      and obs': "obs' = v # tail" by (auto split: sum.splits prod.splits)
    from "2.IH" [OF tail] None show ?thesis
      by (simp add: obs' guarded_item_def warp_with_settings_simps)
  next
    case (Some ob)
    note warp = this
    with "2.prems" have c0: "c = 0" and wg: "lookup ob ''protocol'' = Some (VStr ''wireguard'')"
      by (auto split: if_splits)
    show ?thesis
    proof (cases "as_map (lookup ob ''settings'')")
      case None
      with warp "2.prems" c0 wg obtain tail where tail: "guard_loop env (Suc c) app rest = Inr (tail, w)"
        and obs': "obs' = v # tail" by (auto split: sum.splits prod.splits)
      from "2.IH" [OF tail] None c0 wg warp show ?thesis
        by (simp add: obs' guarded_item_def warp_with_settings_simps)
    next
      case (Some settings)
      with warp "2.prems" c0 wg obtain nob tail where
        nob: "guard_warp env ob settings = Inr nob"
        and tail: "guard_loop env (Suc c) True rest = Inr (tail, w)" and obs': "obs' = VMap nob # tail"
        by (auto split: sum.splits prod.splits)
      have only: "ipv4_only (VMap nob)"
        using guard_warp_ipv4 [OF nob] wg warp by (simp add: as_warp_Some)
      then have "as_warp (VMap nob) \<noteq> None" by (auto simp: ipv4_only_def split: option.splits if_splits)
      with "2.IH" [OF tail] Some c0 wg warp only show ?thesis
        by (simp add: obs' guarded_item_def warp_with_settings_simps)
    qed
  qed
qed

text \<open>C7: When the guard accepts the outbounds, no outbound outside WARP is changed, there is at
  most one WARP outbound in the result, and a WARP outbound that has a settings map is replaced
  by one that can only carry IPv4: one tunnel address with an IPv4 host, one peer whose allowed
  IPs are 0.0.0.0/0, and the IPv4 strategy at every level where the core reads one.  A WARP
  outbound without a settings map is left as it is; the guard says that it has applied itself
  exactly when there is one with settings.\<close>

theorem guarded_warp_ipv4_only:
  assumes "guard_warp_outbounds env obs = Inr (obs', applied)"
  shows "list_all2 guarded_item obs obs'
    \<and> length (filter (\<lambda>i. as_warp i \<noteq> None) obs') \<le> 1
    \<and> (applied \<longleftrightarrow> list_ex warp_with_settings obs)"
  using guard_loop_sound [OF assms [unfolded guard_warp_outbounds_def]] by simp

definition sample_env :: config_env where
  "sample_env = \<lparr>env_warp_probe_port = [], env_warp_client_id = ''AQID'', env_has_net_admin = True\<rparr>"

definition sample_outbounds :: "jval list" where
  "sample_outbounds =
     [VMap [(''tag'', VStr ''direct''), (''protocol'', VStr ''freedom'')],
      VMap [(''tag'', VStr ''WARP''), (''protocol'', VStr ''wireguard''),
        (''settings'', VMap
          [(''address'', VArr [VStr ''2606:4700::1/128'', VStr ''172.16.0.2/32'']),
           (''peers'', VArr [VMap [(''endpoint'', VStr ''engage.example.com:2408'')]])])]]"

lemma sample_guard:
  "guard_warp_outbounds sample_env sample_outbounds =
     Inr ([VMap [(''tag'', VStr ''direct''), (''protocol'', VStr ''freedom'')],
       VMap [(''tag'', VStr ''WARP''), (''protocol'', VStr ''wireguard''),
        (''settings'', VMap
          [(''address'', VArr [VStr ''172.16.0.2/32'']),
           (''peers'', VArr [VMap [(''endpoint'', VStr ''engage.example.com:2408''),
              (''allowedIPs'', VArr [VStr ''0.0.0.0/0''])]]),
           (''domainStrategy'', VStr ''ForceIPv4''),
           (''reserved'', VArr [VInt 1, VInt 2, VInt 3])]),
        (''targetStrategy'', VStr ''ForceIPv4'')]], True)"
  by (simp add: guard_warp_outbounds_def sample_outbounds_def guard_warp_def warp_peer_def
      sample_env_def reserved_from_env_def force_stream_def arr_or_nil_def clone_map_def
      valid_hostname_endpoint_def valid_ipv4_endpoint_def valid_port_def valid_label_def alnum_def
      disabled_warp_endpoint_def str_or_empty_def net_eval)

theorem guarded_warp_ipv4_only_witness:
  "list_all2 guarded_item sample_outbounds
     (case guard_warp_outbounds sample_env sample_outbounds of Inr (obs, _) \<Rightarrow> obs | Inl _ \<Rightarrow> [])
   \<and> list_ex warp_with_settings sample_outbounds"
  using guarded_warp_ipv4_only [OF sample_guard] by (simp add: sample_guard)

text \<open>The inbounds of the generated configuration are the node's API inbound, the WARP
  probe inbound when a WARP outbound is guarded, and then the panel's inbounds unchanged and in
  their order.\<close>

theorem generated_inbounds:
  "inbounds_of (generate_api_config env input socket torrent ports)
     = api_inbound socket
       # (if has_warp env input then [probe_inbound (probe_port env ports)] else [])
       @ inbounds_of (clone_map input)"
  by (cases "guard_warp_outbounds env (outbounds_of (clone_map input))")
    (auto simp: generate_api_config_def Let_def has_warp_def outbounds_of_def inbounds_of_def
      lookup_inject lookup_update_rules go_map lookup_add_torrent)

lemma generated_frame_eq:
  assumes "k \<notin> {''stats'', ''api'', ''inbounds'', ''outbounds'', ''policy'', ''routing''}"
  shows "lookup (generate_api_config env input socket torrent ports) k
     = (case guard_warp_outbounds env (outbounds_of (clone_map input)) of
          Inl e \<Rightarrow> if k = ''__warpGuardError'' then Some (VStr e) else map_option clone_val (lookup input k)
        | Inr _ \<Rightarrow> map_option clone_val (lookup input k))"
  using assms
  by (cases "guard_warp_outbounds env (outbounds_of (clone_map input))")
    (auto simp: generate_api_config_def Let_def outbounds_of_def lookup_inject_other
      lookup_update_rules go_map lookup_add_torrent)

text \<open>The generator touches only the sections it owns: every other top-level section of the
  panel's configuration is copied, and the error key is set exactly when the guard refuses the
  outbounds.\<close>

theorem generated_frame:
  assumes "k \<notin> {''stats'', ''api'', ''inbounds'', ''outbounds'', ''policy'', ''routing''}"
  shows "lookup (generate_api_config env input socket torrent ports) k
     = (case guard_warp_outbounds env (outbounds_of (clone_map input)) of
          Inl e \<Rightarrow> if k = ''__warpGuardError'' then Some (VStr e) else map_option clone_val (lookup input k)
        | Inr _ \<Rightarrow> map_option clone_val (lookup input k))"
  using assms by (rule generated_frame_eq)

theorem generated_frame_witness:
  "lookup (generate_api_config sample_env [(''dns'', VMap []), (''outbounds'', VArr sample_outbounds)]
      ''s'' \<lparr>tb_enabled = True, tb_include_rule_tags = [], tb_socket_path = ''/run/x'', tb_rest_token = []\<rparr> [0])
     ''dns'' = Some (VMap [])"
  by (subst generated_frame) (simp, simp split: sum.split)

end
