(* ===== verification/HashedSet.thy ===== *)
theory HashedSet
  imports Prelude
begin

text \<open>internal/xray/hashedset.go: a set of strings that keeps, beside its members, the XOR
  of a 64-bit hash of each of them.  The node compares these hashes with the ones the panel
  sends to decide whether the core must be restarted.\<close>

unbundle bit_operations_syntax

section \<open>Runes and UTF-16 code units\<close>

text \<open>The conversion []rune(value): the bytes are decoded as UTF-8, an invalid byte
  gives U+FFFD and a step of one byte.\<close>

definition cont_byte :: "nat \<Rightarrow> bool" where
  "cont_byte b \<longleftrightarrow> 0x80 \<le> b \<and> b \<le> 0xBF"

definition second_ok :: "nat \<Rightarrow> nat \<Rightarrow> bool" where
  "second_ok lead b \<longleftrightarrow>
     (if lead = 0xE0 then 0xA0 \<le> b \<and> b \<le> 0xBF
      else if lead = 0xED then 0x80 \<le> b \<and> b \<le> 0x9F
      else if lead = 0xF0 then 0x90 \<le> b \<and> b \<le> 0xBF
      else if lead = 0xF4 then 0x80 \<le> b \<and> b \<le> 0x8F
      else cont_byte b)"

fun decode_rune :: "nat list \<Rightarrow> nat \<times> nat" where
  "decode_rune [] = (0xFFFD, 0)"
| "decode_rune (b0 # bs) =
     (if b0 < 0x80 then (b0, 1)
      else if 0xC2 \<le> b0 \<and> b0 \<le> 0xDF then
        (case bs of
           b1 # _ \<Rightarrow> if cont_byte b1 then ((b0 - 0xC0) * 64 + (b1 - 0x80), 2) else (0xFFFD, 1)
         | [] \<Rightarrow> (0xFFFD, 1))
      else if 0xE0 \<le> b0 \<and> b0 \<le> 0xEF then
        (case bs of
           b1 # b2 # _ \<Rightarrow> if second_ok b0 b1 \<and> cont_byte b2
             then ((b0 - 0xE0) * 4096 + (b1 - 0x80) * 64 + (b2 - 0x80), 3) else (0xFFFD, 1)
         | _ \<Rightarrow> (0xFFFD, 1))
      else if 0xF0 \<le> b0 \<and> b0 \<le> 0xF4 then
        (case bs of
           b1 # b2 # b3 # _ \<Rightarrow> if second_ok b0 b1 \<and> cont_byte b2 \<and> cont_byte b3
             then ((b0 - 0xF0) * 262144 + (b1 - 0x80) * 4096 + (b2 - 0x80) * 64 + (b3 - 0x80), 4)
             else (0xFFFD, 1)
         | _ \<Rightarrow> (0xFFFD, 1))
      else (0xFFFD, 1))"

lemma decode_rune_width: "bs \<noteq> [] \<Longrightarrow> 0 < snd (decode_rune bs)"
  by (cases bs) (auto split: list.splits)

function runes :: "nat list \<Rightarrow> nat list" where
  "runes bs =
     (if bs = [] then []
      else fst (decode_rune bs) # runes (drop (snd (decode_rune bs)) bs))"
  by auto
termination
proof (relation "measure length")
  show "wf (measure length)" by simp
next
  fix bs :: "nat list"
  assume "bs \<noteq> []"
  with decode_rune_width [OF this] show "(drop (snd (decode_rune bs)) bs, bs) \<in> measure length"
    by (simp add: diff_less)
qed

declare runes.simps [simp del]

fun utf16_units :: "nat \<Rightarrow> nat list" where
  "utf16_units r =
     (if r < 0xD800 \<or> 0xE000 \<le> r \<and> r < 0x10000 then [r]
      else if 0x10000 \<le> r \<and> r \<le> 0x10FFFF
        then [0xD800 + ((r - 0x10000) div 1024) mod 1024, 0xDC00 + (r - 0x10000) mod 1024]
      else [0xFFFD])"

definition utf16_encode :: "nat list \<Rightarrow> nat list" where
  "utf16_encode rs = concat (map utf16_units rs)"

definition bytes_of :: "string \<Rightarrow> nat list" where
  "bytes_of s = map of_char s"

definition code_units :: "string \<Rightarrow> nat list" where
  "code_units s = utf16_encode (runes (bytes_of s))"

section \<open>The double djb2 hash\<close>

definition djb2_step :: "nat \<Rightarrow> 32 word \<times> 32 word \<Rightarrow> 32 word \<times> 32 word" where
  "djb2_step unit = (\<lambda>(high, low).
     let char = (of_nat unit :: 32 word)
     in (push_bit 5 high + high + char, push_bit 6 low + low + char * 37))"

definition djb2_dual :: "string \<Rightarrow> 32 word \<times> 32 word" where
  "djb2_dual value = fold djb2_step (code_units value) (5381, 5387)"

section \<open>The set\<close>

record hashed_set =
  members :: "string list"
  hash_high :: "32 word"
  hash_low :: "32 word"

definition empty_set :: hashed_set where
  "empty_set = \<lparr>members = [], hash_high = 0, hash_low = 0\<rparr>"

definition hs_add :: "string \<Rightarrow> hashed_set \<Rightarrow> hashed_set" where
  "hs_add value s =
     (if value \<in> set (members s) then s
      else let (high, low) = djb2_dual value
        in \<lparr>members = value # members s,
            hash_high = hash_high s XOR high, hash_low = hash_low s XOR low\<rparr>)"

definition hs_delete :: "string \<Rightarrow> hashed_set \<Rightarrow> bool \<times> hashed_set" where
  "hs_delete value s =
     (if value \<notin> set (members s) then (False, s)
      else let (high, low) = djb2_dual value
        in (True, \<lparr>members = removeAll value (members s),
            hash_high = hash_high s XOR high, hash_low = hash_low s XOR low\<rparr>))"

definition hs_size :: "hashed_set \<Rightarrow> nat" where
  "hs_size s = length (members s)"

definition new_hashed_set :: "string list \<Rightarrow> hashed_set" where
  "new_hashed_set items = fold hs_add items empty_set"

text \<open>The local closure word of Hash64String: a signed 32-bit value in base 16,
  padded to eight characters.\<close>

definition word_text :: "32 word \<Rightarrow> string" where
  "word_text value =
     (let text = format_int 16 (sint value)
      in if length text < 8 then replicate (8 - length text) (CHR ''0'') @ text else text)"

definition hash64_string :: "hashed_set \<Rightarrow> string" where
  "hash64_string s = word_text (hash_high s) @ word_text (hash_low s)"

definition hash64_from_items :: "string list \<Rightarrow> string" where
  "hash64_from_items items = hash64_string (new_hashed_set (sort items))"

section \<open>Invariant: the hashes are the XOR over the members\<close>

interpretation xor_set: comm_monoid_set "(XOR) :: 32 word \<Rightarrow> 32 word \<Rightarrow> 32 word" "0"
  by unfold_locales (simp_all add: ac_simps)

definition high_of :: "string set \<Rightarrow> 32 word" where
  "high_of A = xor_set.F (\<lambda>x. fst (djb2_dual x)) A"

definition low_of :: "string set \<Rightarrow> 32 word" where
  "low_of A = xor_set.F (\<lambda>x. snd (djb2_dual x)) A"

definition hs_wf :: "hashed_set \<Rightarrow> bool" where
  "hs_wf s \<longleftrightarrow> distinct (members s)
     \<and> hash_high s = high_of (set (members s)) \<and> hash_low s = low_of (set (members s))"

lemma high_low_empty [simp]: "high_of {} = 0" "low_of {} = 0"
  by (simp_all add: high_of_def low_of_def)

lemma high_low_insert [simp]:
  assumes "finite A" "x \<notin> A"
  shows "high_of (insert x A) = fst (djb2_dual x) XOR high_of A"
    and "low_of (insert x A) = snd (djb2_dual x) XOR low_of A"
  using assms by (simp_all add: high_of_def low_of_def xor_set.insert)

lemma xor_cancel_right: "(a XOR b) XOR b = (a :: 32 word)"
  by (simp add: ac_simps)

lemma high_low_remove:
  assumes "finite A" "x \<in> A"
  shows "high_of (A - {x}) = high_of A XOR fst (djb2_dual x)"
    and "low_of (A - {x}) = low_of A XOR snd (djb2_dual x)"
proof -
  have "insert x (A - {x}) = A" using assms by auto
  with high_low_insert [of "A - {x}" x] assms
  have "high_of A = fst (djb2_dual x) XOR high_of (A - {x})"
    and "low_of A = snd (djb2_dual x) XOR low_of (A - {x})" by auto
  then show "high_of (A - {x}) = high_of A XOR fst (djb2_dual x)"
    and "low_of (A - {x}) = low_of A XOR snd (djb2_dual x)"
    by (simp_all add: ac_simps)
qed

lemma hs_wf_empty [wf_intros]: "hs_wf empty_set"
  by (simp add: hs_wf_def empty_set_def)

lemma hs_wf_add [wf_intros]: "hs_wf s \<Longrightarrow> hs_wf (hs_add x s)"
  by (auto simp: hs_wf_def hs_add_def split_beta ac_simps)

lemma hs_wf_delete [wf_intros]: "hs_wf s \<Longrightarrow> hs_wf (snd (hs_delete x s))"
  by (auto simp: hs_wf_def hs_delete_def split_beta high_low_remove distinct_removeAll)

lemma members_add [simp]: "set (members (hs_add x s)) = insert x (set (members s))"
  by (auto simp: hs_add_def split_beta)

lemma members_delete [simp]: "set (members (snd (hs_delete x s))) = set (members s) - {x}"
  by (auto simp: hs_delete_def split_beta)

lemma fst_delete [simp]: "fst (hs_delete x s) \<longleftrightarrow> x \<in> set (members s)"
  by (auto simp: hs_delete_def split_beta)

lemma members_fold_add: "set (members (fold hs_add xs s)) = set xs \<union> set (members s)"
  by (induction xs arbitrary: s) auto

lemma hs_wf_fold_add: "hs_wf s \<Longrightarrow> hs_wf (fold hs_add xs s)"
  by (induction xs arbitrary: s) (auto intro: wf_intros)

lemma hs_wf_new [wf_intros]: "hs_wf (new_hashed_set xs)"
  by (simp add: new_hashed_set_def hs_wf_fold_add hs_wf_empty)

lemma members_new [simp]: "set (members (new_hashed_set xs)) = set xs"
  by (simp add: new_hashed_set_def members_fold_add empty_set_def)

lemma hs_size_card: "hs_wf s \<Longrightarrow> hs_size s = card (set (members s))"
  by (simp add: hs_wf_def hs_size_def distinct_card)

lemma hash64_cong:
  "\<lbrakk>hs_wf s; hs_wf t; set (members s) = set (members t)\<rbrakk> \<Longrightarrow> hash64_string s = hash64_string t"
  by (simp add: hs_wf_def hash64_string_def)


lemma hash64_of_new: "hash64_string (new_hashed_set xs) = hash64_from_items xs"
  unfolding hash64_from_items_def by (rule hash64_cong) (simp_all add: hs_wf_new)

section \<open>The text of a word determines it\<close>

definition word_untext :: "string \<Rightarrow> int" where
  "word_untext t =
     (if CHR ''-'' \<in> set t
      then - int (base_val 16 (tl (dropWhile (\<lambda>c. c \<noteq> CHR ''-'') t)))
      else int (base_val 16 t))"

lemma dropWhile_zeros:
  "dropWhile (\<lambda>c. c \<noteq> CHR ''-'') (replicate n (CHR ''0'') @ CHR ''-'' # t) = CHR ''-'' # t"
  by (induction n) auto

lemma word_untext_pad:
  "word_untext (replicate n (CHR ''0'') @ format_int 16 z) = z"
proof (cases "z < 0")
  case True
  then show ?thesis
    by (simp add: format_int_def word_untext_def dropWhile_zeros base_val_base_digits)
next
  case False
  then show ?thesis
    using minus_notin_base_digits [of 16 "nat z"]
    by (auto simp: format_int_def word_untext_def base_val_zeros base_val_base_digits)
qed

lemma word_untext_text [simp]: "word_untext (word_text w) = sint w"
  using word_untext_pad [of "8 - length (format_int 16 (sint w))" "sint w"]
    word_untext_pad [of 0 "sint w"]
  by (simp add: word_text_def Let_def)

lemma word_text_inject [simp]: "word_text v = word_text w \<longleftrightarrow> v = w"
  by (metis signed_word_eqI word_untext_text)

text \<open>The two words are concatenated without a separator; the place of the minus signs
  separates them.\<close>

lemma base_digits_length:
  assumes "n < b ^ k" "2 \<le> b" "0 < k" shows "length (base_digits b n) \<le> k"
  using assms
proof (induction k arbitrary: n)
  case 0
  then show ?case by simp
next
  case (Suc k)
  show ?case
  proof (cases "n < b")
    case True
    then show ?thesis by (simp add: base_digits.simps [of b n])
  next
    case False
    from Suc.prems have "n div b < b ^ k" by (simp add: less_mult_imp_div_less mult.commute)
    moreover from False Suc.prems have "0 < k" by (cases k) auto
    ultimately have "length (base_digits b (n div b)) \<le> k" using Suc.IH Suc.prems by blast
    with False Suc.prems show ?thesis by (simp add: base_digits.simps [of b n])
  qed
qed

lemma nat_abs_sint_bound: "nat \<bar>sint (w :: 32 word)\<bar> \<le> 2 ^ 31"
  using sint_range_size [of w] by (simp add: word_size nat_le_iff abs_le_iff)

lemma nat_abs_sint_hex: "nat \<bar>sint (w :: 32 word)\<bar> < 16 ^ 8"
  using nat_abs_sint_bound [of w] by simp

lemma word_text_shape:
  "(length (word_text w) = 8)
   \<or> (length (word_text w) = 9 \<and> hd (word_text w) = CHR ''-'' \<and> CHR ''-'' \<notin> set (tl (word_text w)))"
proof (cases "sint w < 0")
  case True
  let ?d = "base_digits 16 (nat (- sint w))"
  have "length ?d \<le> 8"
    using True nat_abs_sint_hex [of w] by (intro base_digits_length) auto
  moreover have "CHR ''-'' \<notin> set ?d" by (rule minus_notin_base_digits) auto
  ultimately show ?thesis
    using True by (auto simp: word_text_def format_int_def Let_def)
next
  case False
  have "length (base_digits 16 (nat (sint w))) \<le> 8"
    using False nat_abs_sint_hex [of w] by (intro base_digits_length) auto
  with False show ?thesis by (auto simp: word_text_def format_int_def Let_def)
qed

lemma word_texts_inject:
  assumes "word_text a @ word_text b = word_text c @ word_text d"
  shows "a = c \<and> b = d"
proof -
  have key: "length (word_text v) = length (word_text w)"
    if eq: "word_text v @ word_text x = word_text w @ word_text y"
      and le: "length (word_text v) \<le> length (word_text w)" for v w x y
  proof (rule ccontr)
    assume ne: "length (word_text v) \<noteq> length (word_text w)"
    with le word_text_shape [of v] word_text_shape [of w]
    have v8: "length (word_text v) = 8" and w9: "length (word_text w) = 9"
      and nw: "CHR ''-'' \<notin> set (tl (word_text w))" by auto
    from arg_cong [OF eq, of length] v8 w9 word_text_shape [of x] word_text_shape [of y]
    have x9: "length (word_text x) = 9" and hx: "hd (word_text x) = CHR ''-''" by auto
    from arg_cong [OF eq, of "\<lambda>t. t ! 8"] v8 w9 x9
    have "word_text w ! 8 = hd (word_text x)"
      by (cases "word_text x") (auto simp: nth_append)
    moreover have "word_text w ! 8 \<in> set (tl (word_text w))"
      using w9 by (cases "word_text w") auto
    ultimately show False using hx nw by auto
  qed
  have "length (word_text a) = length (word_text c)"
    using key [OF assms] key [OF assms [symmetric]] by linarith
  with assms show ?thesis by simp
qed

section \<open>The contract the restart decision relies on\<close>

text \<open>What the users of the set (internal/xray/hashstate.go) rely on: operations on the
  members, and a digest that is a function of the member set.\<close>

locale member_digest =
  fixes ok :: "'s \<Rightarrow> bool"
    and elems :: "'s \<Rightarrow> string set"
    and ins :: "string \<Rightarrow> 's \<Rightarrow> 's"
    and del :: "string \<Rightarrow> 's \<Rightarrow> bool \<times> 's"
    and count :: "'s \<Rightarrow> nat"
    and digest :: "'s \<Rightarrow> string"
  assumes ok_ins: "ok s \<Longrightarrow> ok (ins x s)"
    and ok_del: "ok s \<Longrightarrow> ok (snd (del x s))"
    and elems_ins: "elems (ins x s) = insert x (elems s)"
    and elems_del: "elems (snd (del x s)) = elems s - {x}"
    and del_found: "fst (del x s) \<longleftrightarrow> x \<in> elems s"
    and count_elems: "ok s \<Longrightarrow> count s = card (elems s)"
    and digest_elems: "\<lbrakk>ok s; ok t; elems s = elems t\<rbrakk> \<Longrightarrow> digest s = digest t"
    and finite_elems: "finite (elems s)"
begin

lemma ins_member: "\<lbrakk>ok s; x \<in> elems s\<rbrakk> \<Longrightarrow> digest (ins x s) = digest s"
  by (rule digest_elems) (auto simp: ok_ins elems_ins)

lemma ins_then_del: "\<lbrakk>ok s; x \<notin> elems s\<rbrakk> \<Longrightarrow> digest (snd (del x (ins x s))) = digest s"
  by (rule digest_elems) (auto simp: ok_ins ok_del elems_ins elems_del)

lemma del_then_ins: "\<lbrakk>ok s; x \<in> elems s\<rbrakk> \<Longrightarrow> digest (ins x (snd (del x s))) = digest s"
  by (rule digest_elems) (auto simp: ok_ins ok_del elems_ins elems_del)

lemma count_zero: "ok s \<Longrightarrow> count s = 0 \<longleftrightarrow> elems s = {}"
  by (simp add: count_elems finite_elems)

end

interpretation hset: member_digest hs_wf "\<lambda>s. set (members s)" hs_add hs_delete hs_size hash64_string
  by unfold_locales (auto intro: wf_intros hash64_cong simp: hs_size_card)

section \<open>Properties\<close>

datatype set_op = Add string | Delete string

fun set_step :: "set_op \<Rightarrow> hashed_set \<Rightarrow> hashed_set" where
  "set_step (Add x) s = hs_add x s"
| "set_step (Delete x) s = snd (hs_delete x s)"

lemma hs_wf_steps: "hs_wf s \<Longrightarrow> hs_wf (fold set_step ops s)"
proof (induction ops arbitrary: s)
  case (Cons a ops)
  then show ?case by (cases a) (auto intro: wf_intros)
qed simp

text \<open>C8: After any sequence of Add and Delete calls on a fresh set, its Hash64String is the
  one that hash64FromItems computes from any listing of the members (with repetitions, in any
  order).  So the node's incrementally kept hash can be compared with a hash of the panel's
  list of users.\<close>

theorem hash_incremental:
  assumes "set items = set (members (fold set_step ops empty_set))"
  shows "hash64_string (fold set_step ops empty_set) = hash64_from_items items"
  unfolding hash64_from_items_def
  by (rule hash64_cong) (simp_all add: assms hs_wf_steps hs_wf_empty hs_wf_new)

theorem hash_incremental_witness:
  "hash64_string (fold set_step [Add ''u1'', Add ''u2'', Delete ''u1'', Add ''u3''] empty_set)
     = hash64_from_items [''u3'', ''u2'', ''u3'']"
  by (rule hash_incremental) (auto simp: empty_set_def hs_add_def hs_delete_def split_beta)

text \<open>Hash64String is injective on the pair of 32-bit words: two sets print the same text
  exactly when both their words agree, although the words are printed signed, with widths of
  eight or nine characters, and concatenated without a separator.\<close>

theorem hash64_string_inject:
  "hash64_string s = hash64_string t
     \<longleftrightarrow> hash_high s = hash_high t \<and> hash_low s = hash_low t"
  using word_texts_inject [of "hash_high s" "hash_low s" "hash_high t" "hash_low t"]
  by (auto simp: hash64_string_def)

end
