(* ===== verification/HashState.thy ===== *)
theory HashState
  imports HashedSet
begin

text \<open>internal/xray/hashstate.go and internal/xray/inbounds.go: the hashes of the users of each
  inbound, kept in step with the core by the user handlers, and the decision whether a start
  request needs a restart of the core.

  The state is the part of the manager that these files own.  None stands for a nil Go map: it
  reads as empty, and writing to it panics, which the operations report by None.\<close>

record inbound_hash =
  ih_users_count :: int
  ih_hash :: string
  ih_tag :: string

record config_hash =
  ch_empty_config :: string
  ch_inbounds :: "inbound_hash list"

record hash_state =
  empty_config_hash :: string
  inbound_hashes :: "hashed_set gomap option"
  inbound_tags :: "string list option"

definition initial_hash_state :: hash_state where
  "initial_hash_state = \<lparr>empty_config_hash = [], inbound_hashes = None, inbound_tags = None\<rparr>"

abbreviation hashes_of :: "hash_state \<Rightarrow> hashed_set gomap" where
  "hashes_of st \<equiv> (case inbound_hashes st of None \<Rightarrow> [] | Some h \<Rightarrow> h)"

abbreviation tags_of :: "hash_state \<Rightarrow> string list" where
  "tags_of st \<equiv> (case inbound_tags st of None \<Rightarrow> [] | Some t \<Rightarrow> t)"

section \<open>Reading users from a configuration\<close>

fun client_id :: "jval \<Rightarrow> string" where
  "client_id (VMap client) = str_or_empty (lookup client ''id'')"
| "client_id _ = []"

definition extract_client_ids :: "jmap \<Rightarrow> string list" where
  "extract_client_ids inbound = (case as_map (lookup inbound ''settings'') of
     None \<Rightarrow> []
   | Some settings \<Rightarrow> (case as_arr (lookup settings ''clients'') of
       None \<Rightarrow> []
     | Some clients \<Rightarrow> sort (filter (\<lambda>id. id \<noteq> []) (map client_id clients))))"

definition tag_of :: "jmap \<Rightarrow> string" where
  "tag_of inbound = str_or_empty (lookup inbound ''tag'')"

definition valid_tags :: "config_hash \<Rightarrow> string list" where
  "valid_tags hashes = filter (\<lambda>t. t \<noteq> []) (map ih_tag (ch_inbounds hashes))"

fun extract_loop ::
  "string list \<Rightarrow> jval list \<Rightarrow> hashed_set gomap \<times> string list \<Rightarrow> hashed_set gomap \<times> string list"
where
  "extract_loop valid [] acc = acc"
| "extract_loop valid (VMap inbound # rest) (hashes, tags) =
     (let tag = tag_of inbound in
      if tag = [] \<or> tag \<notin> set valid then extract_loop valid rest (hashes, tags)
      else extract_loop valid rest
             (put tag (new_hashed_set (extract_client_ids inbound)) hashes, List.insert tag tags))"
| "extract_loop valid (_ # rest) acc = extract_loop valid rest acc"

definition extract_users :: "config_hash \<Rightarrow> jmap \<Rightarrow> hash_state" where
  "extract_users hashes config =
     (let (hs, tags) = (case as_arr (lookup config ''inbounds'') of
            None \<Rightarrow> ([], [])
          | Some raw \<Rightarrow> extract_loop (valid_tags hashes) raw ([], []))
      in \<lparr>empty_config_hash = ch_empty_config hashes,
          inbound_hashes = Some hs, inbound_tags = Some tags\<rparr>)"

section \<open>The restart decision\<close>

text \<open>The loop over the map returns at the first difference, whatever the order: some inbound
  differs.\<close>

definition inbound_differs :: "config_hash \<Rightarrow> string \<times> hashed_set \<Rightarrow> bool" where
  "inbound_differs incoming = (\<lambda>(tag, users).
     case find (\<lambda>i. ih_tag i = tag) (ch_inbounds incoming) of
       None \<Rightarrow> True
     | Some i \<Rightarrow> hash64_string users \<noteq> ih_hash i)"

definition is_need_restart :: "hash_state \<Rightarrow> config_hash \<Rightarrow> bool" where
  "is_need_restart st incoming =
     (if empty_config_hash st = [] then True
      else if ch_empty_config incoming \<noteq> empty_config_hash st then True
      else if length (ch_inbounds incoming) \<noteq> length (hashes_of st) then True
      else list_ex (inbound_differs incoming) (hashes_of st))"

section \<open>Users added and removed in the running core\<close>

definition add_user_to_inbound_hash :: "string \<Rightarrow> string \<Rightarrow> hash_state \<Rightarrow> hash_state option" where
  "add_user_to_inbound_hash inbound_tag user_uuid st =
     (if inbound_tag = [] \<or> user_uuid = [] then Some st
      else
       (let (st1, users) = (case lookup (hashes_of st) inbound_tag of
              Some users \<Rightarrow> (st, users)
            | None \<Rightarrow> (st\<lparr>inbound_hashes := Some (hashes_of st), inbound_tags := Some (tags_of st)\<rparr>,
                 empty_set))
        in case inbound_tags st1 of
             None \<Rightarrow> None
           | Some tags \<Rightarrow> Some (st1\<lparr>
               inbound_hashes := Some (put inbound_tag (hs_add user_uuid users) (hashes_of st1)),
               inbound_tags := Some (List.insert inbound_tag tags)\<rparr>)))"

definition remove_user_from_inbound_hash :: "string \<Rightarrow> string \<Rightarrow> hash_state \<Rightarrow> hash_state" where
  "remove_user_from_inbound_hash inbound_tag user_uuid st =
     (if inbound_tag = [] \<or> user_uuid = [] then st
      else (case lookup (hashes_of st) inbound_tag of
          None \<Rightarrow> st
        | Some users \<Rightarrow>
            (let users' = snd (hs_delete user_uuid users) in
             if hs_size users' = 0
             then st\<lparr>inbound_hashes := map_option (remove inbound_tag) (inbound_hashes st),
                     inbound_tags := map_option (removeAll inbound_tag) (inbound_tags st)\<rparr>
             else st\<lparr>inbound_hashes := map_option (put inbound_tag users') (inbound_hashes st)\<rparr>)))"

definition clear_hash_state :: "hash_state \<Rightarrow> hash_state" where
  "clear_hash_state st = st\<lparr>empty_config_hash := [], inbound_hashes := None\<rparr>"

section \<open>Inbound tags\<close>

fun inbound_tag_of_item :: "jval \<Rightarrow> string list" where
  "inbound_tag_of_item (VMap inbound) = (case lookup inbound ''tag'' of
     Some (VStr tag) \<Rightarrow> if tag = [] then [] else [tag] | _ \<Rightarrow> [])"
| "inbound_tag_of_item _ = []"

definition extract_inbound_tags :: "jmap \<Rightarrow> string list" where
  "extract_inbound_tags config = (case lookup config ''inbounds'' of
     Some (VArr items) \<Rightarrow> concat (map inbound_tag_of_item items)
   | _ \<Rightarrow> [])"

definition reset_inbound_tags :: "string list \<Rightarrow> hash_state \<Rightarrow> hash_state" where
  "reset_inbound_tags tags st = st\<lparr>inbound_tags := Some (remdups tags)\<rparr>"

definition add_inbound_tag :: "string \<Rightarrow> hash_state \<Rightarrow> hash_state" where
  "add_inbound_tag tag st =
     (if tag = [] then st else st\<lparr>inbound_tags := Some (List.insert tag (tags_of st))\<rparr>)"

definition inbound_tags_list :: "hash_state \<Rightarrow> string list" where
  "inbound_tags_list st = (if length (tags_of st) = 0 then [] else tags_of st)"

definition clear_inbound_tags :: "hash_state \<Rightarrow> hash_state" where
  "clear_inbound_tags st = st\<lparr>inbound_tags := None\<rparr>"

section \<open>Invariant\<close>

text \<open>Every inbound that has a hash has a tag, so the tag map is there when a hash is: the write
  of AddUserToInboundHash to the tag map of a known inbound does not hit a nil map.\<close>

definition hash_inv :: "hash_state \<Rightarrow> bool" where
  "hash_inv st \<longleftrightarrow> gomap (hashes_of st)
     \<and> list_all (\<lambda>(tag, users). hs_wf users \<and> tag \<in> set (tags_of st)) (hashes_of st)
     \<and> distinct (tags_of st)"

lemma set_update_subset: "set (AList.update k v m) \<subseteq> insert (k, v) (set m)"
  by (induction m) auto

lemma list_all_put: "\<lbrakk>list_all P m; P (k, v)\<rbrakk> \<Longrightarrow> list_all P (put k v m)"
  using set_update_subset [of k v m] by (auto simp: list_all_iff)

lemma list_all_remove: "list_all P m \<Longrightarrow> list_all P (remove k m)"
  by (auto simp: list_all_iff AList.delete_eq)

lemma hash_inv_initial: "hash_inv initial_hash_state"
  by (simp add: hash_inv_def initial_hash_state_def)

lemma hash_inv_lookup:
  "\<lbrakk>hash_inv st; lookup (hashes_of st) t = Some users\<rbrakk> \<Longrightarrow> hs_wf users \<and> t \<in> set (tags_of st)"
  by (auto simp: hash_inv_def list_all_iff dest: map_of_SomeD)

definition pair_inv :: "hashed_set gomap \<Rightarrow> string list \<Rightarrow> bool" where
  "pair_inv hs tags \<longleftrightarrow> gomap hs \<and> list_all (\<lambda>(tag, users). hs_wf users \<and> tag \<in> set tags) hs
     \<and> distinct tags"

lemma hash_inv_pair: "hash_inv st \<longleftrightarrow> pair_inv (hashes_of st) (tags_of st)"
  by (simp add: hash_inv_def pair_inv_def)

lemma pair_inv_put: "\<lbrakk>pair_inv hs tags; hs_wf users\<rbrakk> \<Longrightarrow> pair_inv (put t users hs) (List.insert t tags)"
  by (auto simp: pair_inv_def list_all_iff dest!: subsetD [OF set_update_subset])

lemma extract_loop_inv:
  "\<lbrakk>pair_inv hs tags; extract_loop valid items (hs, tags) = (hs', tags')\<rbrakk> \<Longrightarrow> pair_inv hs' tags'"
proof (induction valid items "(hs, tags)" arbitrary: hs tags rule: extract_loop.induct)
  case (2 valid inbound rest hs tags)
  then show ?case
    by (auto simp: Let_def pair_inv_put hs_wf_new split: if_splits)
qed auto

lemma hash_inv_extract: "hash_inv (extract_users hashes config)"
proof (cases "as_arr (lookup config ''inbounds'')")
  case None
  then show ?thesis by (simp add: hash_inv_def extract_users_def)
next
  case (Some raw)
  obtain hs tags where e: "extract_loop (valid_tags hashes) raw ([], []) = (hs, tags)" by force
  have "pair_inv hs tags" by (rule extract_loop_inv [OF _ e]) (simp add: pair_inv_def)
  with Some e show ?thesis by (simp add: hash_inv_pair extract_users_def)
qed

lemma add_user_total:
  assumes "hash_inv st"
  shows "\<exists>st'. add_user_to_inbound_hash t u st = Some st' \<and> hash_inv st'"
proof (cases "lookup (hashes_of st) t")
  case None
  with assms show ?thesis
    by (auto simp: add_user_to_inbound_hash_def hash_inv_pair Let_def
        intro!: pair_inv_put hs_wf_add hs_wf_empty)
next
  case (Some users)
  with hash_inv_lookup [OF assms Some] obtain tags where
    tags: "inbound_tags st = Some tags" and "hs_wf users" by (cases "inbound_tags st") auto
  with Some assms show ?thesis
    by (auto simp: add_user_to_inbound_hash_def hash_inv_pair Let_def
        intro!: pair_inv_put hs_wf_add)
qed

lemma hash_inv_remove:
  assumes "hash_inv st" shows "hash_inv (remove_user_from_inbound_hash t u st)"
proof (cases "inbound_hashes st")
  case None
  with assms show ?thesis by (simp add: remove_user_from_inbound_hash_def)
next
  case (Some hs)
  show ?thesis
  proof (cases "lookup hs t")
    case None
    with Some assms show ?thesis by (simp add: remove_user_from_inbound_hash_def)
  next
    case (Some users)
    have wf: "hs_wf (snd (hs_delete u users))" and t: "t \<in> set (tags_of st)"
      using hash_inv_lookup [OF assms, of t users] Some \<open>inbound_hashes st = Some hs\<close>
      by (auto intro: wf_intros)
    have rem: "list_all (\<lambda>(tag, users). hs_wf users \<and> tag \<in> set (removeAll t tags)) (remove t hs)"
      if "list_all (\<lambda>(tag, users). hs_wf users \<and> tag \<in> set tags) hs" for tags
      using that by (auto simp: list_all_iff AList.delete_eq)
    show ?thesis
      using assms wf t rem Some \<open>inbound_hashes st = Some hs\<close>
      by (cases "inbound_tags st")
        (auto simp: remove_user_from_inbound_hash_def hash_inv_pair pair_inv_def Let_def
          distinct_removeAll intro: list_all_put)
  qed
qed

lemma hash_inv_clear: "hash_inv (clear_inbound_tags (clear_hash_state st))"
  by (simp add: hash_inv_def clear_hash_state_def clear_inbound_tags_def)

lemma hash_inv_add_tag: "hash_inv st \<Longrightarrow> hash_inv (add_inbound_tag t st)"
  by (auto simp: hash_inv_pair pair_inv_def add_inbound_tag_def list_all_iff)

lemmas hash_inv_intros [wf_intros] = hash_inv_initial hash_inv_extract hash_inv_remove
  hash_inv_clear hash_inv_add_tag

section \<open>Specification: the users of each inbound\<close>

type_synonym user_map = "string \<Rightarrow> string set option"

definition user_map :: "hash_state \<Rightarrow> user_map" where
  "user_map st = (\<lambda>t. map_option (\<lambda>s. set (members s)) (lookup (hashes_of st) t))"

datatype user_op = Add_User string string | Remove_User string string

fun run_user_op :: "user_op \<Rightarrow> hash_state \<Rightarrow> hash_state option" where
  "run_user_op (Add_User t u) st = add_user_to_inbound_hash t u st"
| "run_user_op (Remove_User t u) st = Some (remove_user_from_inbound_hash t u st)"

fun run_user_ops :: "user_op list \<Rightarrow> hash_state \<Rightarrow> hash_state option" where
  "run_user_ops [] st = Some st"
| "run_user_ops (op # ops) st = Option.bind (run_user_op op st) (run_user_ops ops)"

fun spec_user_op :: "user_op \<Rightarrow> user_map \<Rightarrow> user_map" where
  "spec_user_op (Add_User t u) f =
     (if t = [] \<or> u = [] then f else f(t \<mapsto> insert u (case f t of None \<Rightarrow> {} | Some A \<Rightarrow> A)))"
| "spec_user_op (Remove_User t u) f =
     (if t = [] \<or> u = [] then f
      else (case f t of None \<Rightarrow> f | Some A \<Rightarrow> if A \<subseteq> {u} then f(t := None) else f(t \<mapsto> A - {u})))"

lemma user_map_add:
  assumes "add_user_to_inbound_hash t u st = Some st'"
  shows "user_map st' = spec_user_op (Add_User t u) (user_map st)"
proof (cases "lookup (hashes_of st) t")
  case None
  with assms show ?thesis
    by (auto simp: add_user_to_inbound_hash_def user_map_def fun_eq_iff Let_def go_map empty_set_def
        split: if_splits)
next
  case (Some users)
  with assms show ?thesis
    by (auto simp: add_user_to_inbound_hash_def user_map_def fun_eq_iff Let_def go_map
        split: if_splits option.splits)
qed

lemma user_map_remove:
  assumes "hash_inv st"
  shows "user_map (remove_user_from_inbound_hash t u st) = spec_user_op (Remove_User t u) (user_map st)"
proof (cases "inbound_hashes st")
  case None
  then show ?thesis by (simp add: remove_user_from_inbound_hash_def user_map_def)
next
  case (Some hs)
  note hs = this
  show ?thesis
  proof (cases "lookup hs t")
    case None
    with hs show ?thesis by (simp add: remove_user_from_inbound_hash_def user_map_def)
  next
    case (Some users)
    with assms hs have wf: "hs_wf users" using hash_inv_lookup [of st t users] by simp
    have size: "hs_size (snd (hs_delete u users)) = 0 \<longleftrightarrow> set (members users) \<subseteq> {u}"
      using hset.count_zero [OF hs_wf_delete [OF wf], of u] by auto
    show ?thesis
      using hs Some size
      by (auto simp: remove_user_from_inbound_hash_def user_map_def fun_eq_iff Let_def go_map)
  qed
qed

lemma run_user_op_refines:
  assumes "hash_inv st"
  shows "\<exists>st'. run_user_op op st = Some st' \<and> hash_inv st' \<and> user_map st' = spec_user_op op (user_map st)
    \<and> empty_config_hash st' = empty_config_hash st"
proof (cases op)
  case (Add_User t u)
  with add_user_total [OF assms, of t u] obtain st' where
    st': "add_user_to_inbound_hash t u st = Some st'" "hash_inv st'" by blast
  moreover from st' have "empty_config_hash st' = empty_config_hash st"
    by (auto simp: add_user_to_inbound_hash_def Let_def split: if_splits option.splits)
  ultimately show ?thesis using Add_User user_map_add by simp
next
  case (Remove_User t u)
  with assms show ?thesis
    by (auto simp: user_map_remove hash_inv_remove)
      (auto simp: remove_user_from_inbound_hash_def Let_def split: option.splits)
qed

lemma run_user_ops_refines:
  assumes "hash_inv st"
  shows "\<exists>st'. run_user_ops ops st = Some st' \<and> hash_inv st'
    \<and> user_map st' = fold spec_user_op ops (user_map st) \<and> empty_config_hash st' = empty_config_hash st"
  using assms
proof (induction ops arbitrary: st)
  case (Cons op ops)
  from run_user_op_refines [OF Cons.prems, of op] obtain st1 where
    "run_user_op op st = Some st1" "hash_inv st1" "user_map st1 = spec_user_op op (user_map st)"
    "empty_config_hash st1 = empty_config_hash st" by blast
  with Cons.IH [of st1] show ?case by auto
qed simp

text \<open>From any state that satisfies the invariant, any sequence of AddUserToInboundHash and
  RemoveUserFromInboundHash calls runs without writing to a nil map and keeps the invariant,
  and the users tracked for each inbound are the ones the abstract map of user sets gives: an
  inbound appears with its first user and goes away with its last one.\<close>

theorem user_ops_refine_sets:
  assumes "hash_inv st"
  shows "\<exists>st'. run_user_ops ops st = Some st' \<and> hash_inv st'
    \<and> user_map st' = fold spec_user_op ops (user_map st)"
  using run_user_ops_refines [OF assms, of ops] by blast

theorem user_ops_refine_sets_witness:
  "\<exists>st'. run_user_ops [Add_User ''in'' ''u1'', Add_User ''in'' ''u2'', Remove_User ''in'' ''u1'']
     initial_hash_state = Some st' \<and> hash_inv st' \<and> user_map st' = [''in'' \<mapsto> {''u2''}]"
proof -
  have "fold spec_user_op [Add_User ''in'' ''u1'', Add_User ''in'' ''u2'', Remove_User ''in'' ''u1'']
      (user_map initial_hash_state) = [''in'' \<mapsto> {''u2''}]"
    by (auto simp: user_map_def initial_hash_state_def fun_eq_iff)
  then show ?thesis
    using user_ops_refine_sets [OF hash_inv_initial,
        of "[Add_User ''in'' ''u1'', Add_User ''in'' ''u2'', Remove_User ''in'' ''u1'']"]
    by (simp only:)
qed

section \<open>The decision in terms of the users\<close>

definition incoming_matches :: "config_hash \<Rightarrow> user_map \<Rightarrow> bool" where
  "incoming_matches incoming users \<longleftrightarrow>
     set (map ih_tag (ch_inbounds incoming)) = dom users
     \<and> (\<forall>i \<in> set (ch_inbounds incoming). \<exists>listing.
          users (ih_tag i) = Some (set listing) \<and> ih_hash i = hash64_from_items listing)"

lemma find_distinct_tags:
  assumes "distinct (map ih_tag xs)"
  shows "find (\<lambda>i. ih_tag i = t) xs = Some i \<longleftrightarrow> i \<in> set xs \<and> ih_tag i = t"
  using assms by (induction xs) auto

lemma hash_of_listing:
  "hs_wf users \<Longrightarrow> hash64_string users = hash64_from_items listing
     \<longleftrightarrow> hash64_string users = hash64_string (new_hashed_set listing)"
  unfolding hash64_from_items_def
  by (metis hash64_cong hs_wf_new members_new set_sort)

lemma list_ex_gomap: "gomap m \<Longrightarrow> list_ex P m \<longleftrightarrow> (\<exists>k v. lookup m k = Some v \<and> P (k, v))"
  by (auto simp: list_ex_iff gomap_def)

lemma length_gomap: "gomap m \<Longrightarrow> length m = card (dom (map_of m))"
  using distinct_card [of "map fst m"] by (simp add: gomap_def dom_map_of_conv_image_fst)

lemma differs_iff:
  assumes "distinct (map ih_tag (ch_inbounds inc))"
  shows "\<not> inbound_differs inc (t, users) \<longleftrightarrow>
    (\<exists>i \<in> set (ch_inbounds inc). ih_tag i = t \<and> ih_hash i = hash64_string users)"
proof (cases "find (\<lambda>i. ih_tag i = t) (ch_inbounds inc)")
  case None
  then have "\<not> (\<exists>i \<in> set (ch_inbounds inc). ih_tag i = t)" by (auto simp: find_None_iff)
  with None show ?thesis by (auto simp: inbound_differs_def)
next
  case (Some i)
  then have "j = i \<longleftrightarrow> j \<in> set (ch_inbounds inc) \<and> ih_tag j = t" for j
    using find_distinct_tags [OF assms, of t j] by auto
  with Some show ?thesis by (auto simp: inbound_differs_def) metis+
qed

lemma no_restart_iff:
  assumes inv: "hash_inv st" and e: "empty_config_hash st \<noteq> []"
    and d: "distinct (map ih_tag (ch_inbounds inc))"
  shows "\<not> is_need_restart st inc \<longleftrightarrow>
    ch_empty_config inc = empty_config_hash st \<and> incoming_matches inc (user_map st)"
proof -
  let ?T = "set (map ih_tag (ch_inbounds inc))"
  have g: "gomap (hashes_of st)" using inv by (simp add: hash_inv_def)
  have dom: "dom (user_map st) = dom (map_of (hashes_of st))"
    by (auto simp: user_map_def)
  have cT: "length (ch_inbounds inc) = card ?T" using distinct_card [OF d] by simp
  have fin: "finite (dom (map_of (hashes_of st)))" by (rule finite_dom_map_of)
  have digest: "ih_hash i = hash64_string users \<longleftrightarrow>
      (\<exists>listing. user_map st t = Some (set listing) \<and> ih_hash i = hash64_from_items listing)"
    if l: "lookup (hashes_of st) t = Some users" for t users and i :: inbound_hash
  proof -
    have wf: "hs_wf users" using hash_inv_lookup [OF inv l] by simp
    have eq: "hash64_from_items listing = hash64_string users" if "set listing = set (members users)" for listing
      unfolding hash64_from_items_def by (rule hash64_cong) (simp_all add: wf hs_wf_new that)
    show ?thesis using l eq [of "members users"] by (auto simp: user_map_def eq)
  qed
  show ?thesis
  proof
    assume "\<not> is_need_restart st inc"
    then have emp: "ch_empty_config inc = empty_config_hash st"
      and len: "card ?T = card (dom (map_of (hashes_of st)))"
      and all: "\<And>t users. lookup (hashes_of st) t = Some users \<Longrightarrow> \<not> inbound_differs inc (t, users)"
      using e g cT length_gomap [OF g] list_ex_gomap [OF g]
      by (auto simp: is_need_restart_def split: if_splits)
    have "dom (map_of (hashes_of st)) \<subseteq> ?T"
      using all differs_iff [OF d] by force
    with len have eqT: "?T = dom (map_of (hashes_of st))"
      by (metis List.finite_set card_subset_eq)
    have "\<exists>listing. user_map st (ih_tag i) = Some (set listing) \<and> ih_hash i = hash64_from_items listing"
      if i: "i \<in> set (ch_inbounds inc)" for i
    proof -
      from i eqT obtain users where l: "lookup (hashes_of st) (ih_tag i) = Some users" by force
      with all differs_iff [OF d] obtain j where
        "j \<in> set (ch_inbounds inc)" "ih_tag j = ih_tag i" "ih_hash j = hash64_string users" by blast
      with i d have "ih_hash i = hash64_string users"
        by (metis distinct_map inj_onD)
      with digest [OF l] show ?thesis by blast
    qed
    with emp eqT dom show "ch_empty_config inc = empty_config_hash st
        \<and> incoming_matches inc (user_map st)"
      by (simp add: incoming_matches_def)
  next
    assume r: "ch_empty_config inc = empty_config_hash st \<and> incoming_matches inc (user_map st)"
    then have eqT: "?T = dom (map_of (hashes_of st))" by (simp add: incoming_matches_def dom)
    have "\<not> inbound_differs inc (t, users)" if l: "lookup (hashes_of st) t = Some users" for t users
    proof -
      from eqT l have "t \<in> ?T" by (simp add: domI)
      then obtain i where i: "i \<in> set (ch_inbounds inc)" "ih_tag i = t" by auto
      with r digest [OF l, of i] have "ih_hash i = hash64_string users"
        by (auto simp: incoming_matches_def)
      with i show ?thesis using differs_iff [OF d] by blast
    qed
    with r e eqT cT length_gomap [OF g] list_ex_gomap [OF g] show "\<not> is_need_restart st inc"
      by (auto simp: is_need_restart_def)
  qed
qed

lemma no_restart_distinct:
  assumes inv: "hash_inv st" and same: "\<not> is_need_restart st inc"
  shows "distinct (map ih_tag (ch_inbounds inc))"
proof -
  let ?T = "set (map ih_tag (ch_inbounds inc))" and ?D = "dom (map_of (hashes_of st))"
  have g: "gomap (hashes_of st)" using inv by (simp add: hash_inv_def)
  from same have len: "length (ch_inbounds inc) = card ?D"
    and all: "\<And>t users. lookup (hashes_of st) t = Some users \<Longrightarrow> \<not> inbound_differs inc (t, users)"
    using length_gomap [OF g] list_ex_gomap [OF g] by (auto simp: is_need_restart_def split: if_splits)
  have "?D \<subseteq> ?T"
  proof
    fix t assume "t \<in> ?D"
    then obtain users where "lookup (hashes_of st) t = Some users" by auto
    from all [OF this] have "find (\<lambda>i. ih_tag i = t) (ch_inbounds inc) \<noteq> None"
      by (cases "find (\<lambda>i. ih_tag i = t) (ch_inbounds inc)") (simp_all add: inbound_differs_def)
    then show "t \<in> ?T" by (auto simp: find_None_iff)
  qed
  then have "card ?D \<le> card ?T" by (intro card_mono) simp_all
  with len card_length [of "map ih_tag (ch_inbounds inc)"] have "card ?T = length (map ih_tag (ch_inbounds inc))"
    by simp
  then show ?thesis by (rule card_distinct)
qed

text \<open>C4: After a start has recorded a configuration, and users were added to and removed from
  the running core in any order, a new start request is answered without a restart exactly when
  the recorded base hash is not empty, the request has the same base hash, it names no inbound
  twice, and it describes the users that are now in the core: the same inbounds, each with the
  hash of its present users.\<close>

theorem restart_iff_users_differ:
  assumes "run_user_ops ops (extract_users hashes config) = Some st"
  shows "\<not> is_need_restart st incoming \<longleftrightarrow>
    ch_empty_config hashes \<noteq> [] \<and> ch_empty_config incoming = ch_empty_config hashes
    \<and> distinct (map ih_tag (ch_inbounds incoming))
    \<and> incoming_matches incoming (fold spec_user_op ops (user_map (extract_users hashes config)))"
proof -
  have e: "empty_config_hash (extract_users hashes config) = ch_empty_config hashes"
    by (simp add: extract_users_def split: option.splits prod.splits)
  from run_user_ops_refines [OF hash_inv_extract, of ops hashes config] assms
  have st: "hash_inv st" "user_map st = fold spec_user_op ops (user_map (extract_users hashes config))"
    "empty_config_hash st = ch_empty_config hashes" by (auto simp: e)
  moreover have "is_need_restart st incoming" if "empty_config_hash st = []"
    using that by (simp add: is_need_restart_def)
  ultimately show ?thesis using no_restart_iff [of st incoming] no_restart_distinct [of st incoming] by auto
qed

fun inbound_maps :: "jval list \<Rightarrow> jmap list" where
  "inbound_maps [] = []"
| "inbound_maps (VMap m # rest) = m # inbound_maps rest"
| "inbound_maps (_ # rest) = inbound_maps rest"

lemma lookup_extract_loop:
  "lookup (fst (extract_loop valid raw (hs, tags))) t =
     (if t = [] \<or> t \<notin> set valid then lookup hs t
      else case rev (filter (\<lambda>ib. tag_of ib = t) (inbound_maps raw)) of
             [] \<Rightarrow> lookup hs t
           | ib # _ \<Rightarrow> Some (new_hashed_set (extract_client_ids ib)))"
proof (induction valid raw "(hs, tags)" arbitrary: hs tags rule: extract_loop.induct)
  case (2 valid inbound rest hs tags)
  then show ?case
    by (auto simp: Let_def go_map split: list.splits)
qed (auto split: list.splits)

lemma user_map_extract:
  assumes "as_arr (lookup config ''inbounds'') = Some raw" "t \<noteq> []"
  shows "user_map (extract_users hashes config) t =
    (if t \<notin> set (map ih_tag (ch_inbounds hashes)) then None
     else case rev (filter (\<lambda>ib. tag_of ib = t) (inbound_maps raw)) of
            [] \<Rightarrow> None
          | ib # _ \<Rightarrow> Some (set (extract_client_ids ib)))"
proof -
  obtain hs tags where e: "extract_loop (valid_tags hashes) raw ([], []) = (hs, tags)" by force
  have v: "t \<notin> set (valid_tags hashes) \<longleftrightarrow> t \<notin> set (map ih_tag (ch_inbounds hashes))"
    using assms(2) by (auto simp: valid_tags_def)
  show ?thesis
    using lookup_extract_loop [of "valid_tags hashes" raw "[]" "[]" t] e v assms
    by (auto simp: user_map_def extract_users_def split: list.splits)
qed

text \<open>A panel that sends again the configuration the core runs does not cause a restart:
  when each listed inbound occurs once in the configuration and its hash is that of its client
  ids, the state recorded by the first start accepts the same hashes.\<close>

theorem same_config_no_restart:
  assumes "as_arr (lookup config ''inbounds'') = Some raw"
    and "ch_empty_config hashes \<noteq> []"
    and "distinct (map ih_tag (ch_inbounds hashes))"
    and "\<forall>i \<in> set (ch_inbounds hashes). ih_tag i \<noteq> [] \<and>
      (\<exists>ib. filter (\<lambda>ib. tag_of ib = ih_tag i) (inbound_maps raw) = [ib]
         \<and> ih_hash i = hash64_from_items (extract_client_ids ib))"
  shows "\<not> is_need_restart (extract_users hashes config) hashes"
proof -
  let ?st = "extract_users hashes config"
  have e: "empty_config_hash ?st = ch_empty_config hashes"
    by (simp add: extract_users_def split: option.splits prod.splits)
  have listed: "\<exists>listing. user_map ?st (ih_tag i) = Some (set listing)
      \<and> ih_hash i = hash64_from_items listing" if i: "i \<in> set (ch_inbounds hashes)" for i
  proof -
    from assms(4) i obtain ib where "ih_tag i \<noteq> []"
      "filter (\<lambda>ib. tag_of ib = ih_tag i) (inbound_maps raw) = [ib]"
      "ih_hash i = hash64_from_items (extract_client_ids ib)" by blast
    with user_map_extract [OF assms(1), of "ih_tag i" hashes] i show ?thesis by auto
  qed
  have "t \<in> set (map ih_tag (ch_inbounds hashes))" if "t \<in> dom (user_map ?st)" for t
  proof (cases "t = []")
    case True
    have "lookup (fst (extract_loop (valid_tags hashes) raw ([], []))) [] = None"
      by (simp add: lookup_extract_loop)
    with that assms(1) True show ?thesis
      by (auto simp: user_map_def extract_users_def split: prod.splits)
  next
    case False
    with that user_map_extract [OF assms(1), of t hashes] show ?thesis
      by (auto split: if_splits)
  qed
  with listed have "incoming_matches hashes (user_map ?st)"
    by (fastforce simp: incoming_matches_def)
  with no_restart_iff [OF hash_inv_extract, of hashes config hashes] assms(2,3) e show ?thesis
    by simp
qed

definition sample_inbound :: jmap where
  "sample_inbound = [(''tag'', VStr ''in''), (''settings'', VMap [(''clients'', VArr
     [VMap [(''id'', VStr ''b'')], VMap [(''id'', VStr ''a'')], VMap [(''email'', VStr ''x'')]])])]"

definition sample_hashes :: config_hash where
  "sample_hashes = \<lparr>ch_empty_config = ''e'', ch_inbounds =
     [\<lparr>ih_users_count = 2, ih_hash = hash64_from_items (extract_client_ids sample_inbound), ih_tag = ''in''\<rparr>]\<rparr>"

lemma tag_of_sample_inbound [simp]: "tag_of sample_inbound = ''in''"
  by (simp add: sample_inbound_def tag_of_def)

theorem same_config_no_restart_witness:
  "\<not> is_need_restart (extract_users sample_hashes [(''inbounds'', VArr [VMap sample_inbound, VNull])])
     sample_hashes"
  by (rule same_config_no_restart [where raw = "[VMap sample_inbound, VNull]"])
    (simp_all add: sample_hashes_def)

theorem restart_iff_users_differ_witness:
  "\<exists>st. run_user_ops [Add_User ''in'' ''c''] (extract_users sample_hashes
       [(''inbounds'', VArr [VMap sample_inbound])]) = Some st
     \<and> is_need_restart st (sample_hashes\<lparr>ch_empty_config := ''f''\<rparr>)"
proof -
  let ?c = "[(''inbounds'', VArr [VMap sample_inbound])]"
  from run_user_ops_refines [OF hash_inv_extract, of "[Add_User ''in'' ''c'']" sample_hashes ?c]
  obtain st where st: "run_user_ops [Add_User ''in'' ''c''] (extract_users sample_hashes ?c) = Some st"
    by blast
  have "is_need_restart st (sample_hashes\<lparr>ch_empty_config := ''f''\<rparr>)"
    using restart_iff_users_differ [OF st, of "sample_hashes\<lparr>ch_empty_config := ''f''\<rparr>"]
    by (simp add: sample_hashes_def)
  with st show ?thesis by blast
qed

end
