(* ===== verification/PreStart.thy ===== *)
theory PreStart
  imports Prelude
begin

text \<open>internal/xray/prestart.go: before the core is spawned, stale Unix sockets that the torrent
  blocker plugin names are removed.  filepath.Glob and the file system are parameters: Glob
  gives the matches or an error, a path has a kind, and its removal may fail.\<close>

definition max_pre_start_matches :: nat where "max_pre_start_matches = 256"

datatype file_kind = Missing | Stat_Error | Socket_File | Other_File

definition has_glob_meta :: "string \<Rightarrow> bool" where
  "has_glob_meta pattern \<longleftrightarrow> (\<exists>c \<in> set pattern. c \<in> {CHR ''*'', CHR ''?'', CHR ''[''})"

definition pattern_matches :: "(string \<Rightarrow> string list option) \<Rightarrow> string \<Rightarrow> string list" where
  "pattern_matches glob pattern =
     (if has_glob_meta pattern
      then (case glob pattern of Some matches \<Rightarrow> matches | None \<Rightarrow> [])
      else [pattern])"

text \<open>The inner loop over the matches of one pattern; the flag says that the function returned
  because the limit was reached.\<close>

fun add_matches :: "string list \<Rightarrow> string list \<Rightarrow> string list \<times> bool" where
  "add_matches [] result = (result, False)"
| "add_matches (m # ms) result =
     (if m \<in> set result then add_matches ms result
      else if length result = max_pre_start_matches then (result, True)
      else add_matches ms (result @ [m]))"

fun resolve_loop :: "(string \<Rightarrow> string list option) \<Rightarrow> string list \<Rightarrow> string list \<Rightarrow> string list" where
  "resolve_loop glob [] result = result"
| "resolve_loop glob (p # ps) result =
     (case add_matches (pattern_matches glob p) result of
        (result', True) \<Rightarrow> result'
      | (result', False) \<Rightarrow> resolve_loop glob ps result')"

definition resolve_socket_patterns :: "(string \<Rightarrow> string list option) \<Rightarrow> string list \<Rightarrow> string list" where
  "resolve_socket_patterns glob patterns = resolve_loop glob patterns []"

definition remove_stale_socket :: "(string \<Rightarrow> file_kind) \<Rightarrow> (string \<Rightarrow> bool) \<Rightarrow> string \<Rightarrow> bool" where
  "remove_stale_socket kind remove_ok path = (case kind path of
     Missing \<Rightarrow> False
   | Stat_Error \<Rightarrow> False
   | Other_File \<Rightarrow> False
   | Socket_File \<Rightarrow> remove_ok path)"

text \<open>The paths that runPreStart removes; the provider is None when no plugin is set.\<close>

definition run_pre_start ::
  "(string \<Rightarrow> string list option) \<Rightarrow> (string \<Rightarrow> file_kind) \<Rightarrow> (string \<Rightarrow> bool)
    \<Rightarrow> (bool \<times> string list) option \<Rightarrow> string list" where
  "run_pre_start glob kind remove_ok provider = (case provider of
     None \<Rightarrow> []
   | Some (enabled, patterns) \<Rightarrow>
       if \<not> enabled \<or> length patterns = 0 then []
       else filter (remove_stale_socket kind remove_ok) (resolve_socket_patterns glob patterns))"

section \<open>Bounds\<close>

lemma add_matches_inv:
  "\<lbrakk>add_matches ms result = (result', stop); distinct result; length result \<le> max_pre_start_matches\<rbrakk>
    \<Longrightarrow> distinct result' \<and> length result' \<le> max_pre_start_matches
      \<and> set result' \<subseteq> set result \<union> set ms \<and> (\<not> stop \<longrightarrow> set result' = set result \<union> set ms)"
proof (induction ms result rule: add_matches.induct)
  case (2 m ms result)
  then show ?case by (auto split: if_splits)
qed auto

lemma resolve_loop_inv:
  "\<lbrakk>distinct result; length result \<le> max_pre_start_matches\<rbrakk> \<Longrightarrow>
    distinct (resolve_loop glob ps result) \<and> length (resolve_loop glob ps result) \<le> max_pre_start_matches
    \<and> set (resolve_loop glob ps result) \<subseteq> set result \<union> (\<Union>p\<in>set ps. set (pattern_matches glob p))"
proof (induction glob ps result rule: resolve_loop.induct)
  case (2 glob p ps result)
  obtain r stop where r: "add_matches (pattern_matches glob p) result = (r, stop)" by force
  from add_matches_inv [OF r "2.prems"] have
    "distinct r" "length r \<le> max_pre_start_matches" "set r \<subseteq> set result \<union> set (pattern_matches glob p)"
    by auto
  with "2.IH" [OF r [symmetric]] r show ?case by (cases stop) auto
qed auto

text \<open>The pre-start cleanup removes each path at most once and at most 256 of them, every
  removed path is a socket, and it is named by one of the provider's patterns, literally or as
  a match of its glob.\<close>

theorem pre_start_removes_sockets_only:
  assumes "run_pre_start glob kind remove_ok (Some (enabled, patterns)) = removed"
  shows "distinct removed \<and> length removed \<le> 256
    \<and> list_all (\<lambda>path. enabled \<and> kind path = Socket_File
         \<and> list_ex (\<lambda>p. path \<in> set (pattern_matches glob p)) patterns) removed"
proof -
  note inv = resolve_loop_inv [of "[]" glob patterns]
  have "length removed \<le> length (resolve_loop glob patterns [])"
    using assms by (auto simp: run_pre_start_def resolve_socket_patterns_def)
  with inv assms show ?thesis
    by (auto simp: run_pre_start_def resolve_socket_patterns_def remove_stale_socket_def
        max_pre_start_matches_def list_all_iff list_ex_iff split: file_kind.splits if_splits)
qed

theorem pre_start_removes_sockets_only_witness:
  "run_pre_start (\<lambda>p. Some [''/run/a.sock'', ''/run/b.txt'']) (\<lambda>p. if p = ''/run/b.txt'' then Other_File else Socket_File)
      (\<lambda>p. True) (Some (True, [''/run/*'', ''/run/a.sock''])) = [''/run/a.sock'']
   \<and> length [''/run/a.sock''] \<le> (256 :: nat)"
proof -
  have e: "run_pre_start (\<lambda>p. Some [''/run/a.sock'', ''/run/b.txt'']) (\<lambda>p. if p = ''/run/b.txt'' then Other_File else Socket_File)
      (\<lambda>p. True) (Some (True, [''/run/*'', ''/run/a.sock''])) = [''/run/a.sock'']"
    by (simp add: run_pre_start_def resolve_socket_patterns_def pattern_matches_def has_glob_meta_def
        max_pre_start_matches_def remove_stale_socket_def)
  from pre_start_removes_sockets_only [OF e] e show ?thesis by simp
qed

end
