(* ===== verification/GoPath.thy ===== *)
theory GoPath
  imports GoNet
begin

text \<open>path/filepath on Linux: Clean, Join, Base and Dir, with the facts that keep a name joined to
  a directory inside it.\<close>

section \<open>Paths\<close>

text \<open>filepath.Clean as a loop over the components with a stack, and filepath.Join: the non-empty
  elements joined by a slash and cleaned.\<close>

fun clean_push :: "bool \<Rightarrow> string \<Rightarrow> string list \<Rightarrow> string list" where
  "clean_push rooted w stack =
     (if w = [] \<or> w = ''.'' then stack
      else if w = ''..'' then
        (case stack of
           [] \<Rightarrow> (if rooted then [] else [''..''])
         | t # rest \<Rightarrow> if t = ''..'' then ''..'' # stack else rest)
      else w # stack)"

definition path_clean :: "string \<Rightarrow> string" where
  "path_clean p =
     (let rooted = has_prefix p ''/'';
          body = join_with ''/'' (rev (fold (clean_push rooted) (split_on (CHR ''/'') p) []))
      in if p = [] then ''.'' else if rooted then ''/'' @ body else if body = [] then ''.'' else body)"

definition path_join :: "string list \<Rightarrow> string" where
  "path_join elems =
     (let ws = filter (\<lambda>w. w \<noteq> []) elems in if ws = [] then [] else path_clean (join_with ''/'' ws))"

text \<open>filepath.Base and filepath.Dir.\<close>

definition path_base :: "string \<Rightarrow> string" where
  "path_base p =
     (let q = rev (dropWhile (\<lambda>c. c = CHR ''/'') (rev p)) in
      if p = [] then ''.'' else if q = [] then ''/''
      else rev (takeWhile (\<lambda>c. c \<noteq> CHR ''/'') (rev q)))"

definition path_dir :: "string \<Rightarrow> string" where
  "path_dir p = path_clean (rev (dropWhile (\<lambda>c. c \<noteq> CHR ''/'') (rev p)))"

declare clean_push.simps [simp del]

section \<open>Clean paths\<close>

text \<open>A stack of components, the last one first, as the loop of Clean leaves it.\<close>

definition plain_component :: "string \<Rightarrow> bool" where
  "plain_component w \<longleftrightarrow> w \<noteq> [] \<and> w \<noteq> ''.'' \<and> w \<noteq> ''..'' \<and> CHR ''/'' \<notin> set w"

fun clean_stack :: "bool \<Rightarrow> string list \<Rightarrow> bool" where
  "clean_stack rooted [] = True"
| "clean_stack rooted (w # st) =
     (if w = ''..'' then \<not> rooted \<and> list_all (\<lambda>v. v = ''..'') st
      else plain_component w \<and> clean_stack rooted st)"

lemma clean_stack_dots: "\<not> rooted \<Longrightarrow> list_all (\<lambda>v. v = ''..'') st \<Longrightarrow> clean_stack rooted st"
  by (cases st) auto

lemma clean_stack_tail: "clean_stack rooted (w # st) \<Longrightarrow> clean_stack rooted st"
  by (auto intro: clean_stack_dots split: if_splits)

lemma clean_push_skip [simp]: "clean_push rooted [] st = st" "clean_push rooted ''.'' st = st"
  by (simp_all add: clean_push.simps)

lemma clean_push_plain: "plain_component w \<Longrightarrow> clean_push rooted w st = w # st"
  by (simp add: clean_push.simps plain_component_def)

lemma clean_push_dots:
  "clean_push rooted ''..'' [] = (if rooted then [] else [''..''])"
  "clean_push rooted ''..'' (t # st) = (if t = ''..'' then ''..'' # t # st else st)"
  by (simp_all add: clean_push.simps)

lemma clean_push_stack:
  assumes "clean_stack rooted st" "CHR ''/'' \<notin> set w"
  shows "clean_stack rooted (clean_push rooted w st)"
proof (cases "w = [] \<or> w = ''.'' \<or> w = ''..''")
  case True
  with assms clean_stack_tail show ?thesis
    by (cases st) (auto simp: clean_push_dots)
next
  case False
  with assms have "plain_component w" by (simp add: plain_component_def)
  with assms False show ?thesis by (simp add: clean_push_plain)
qed

lemma clean_fold_stack:
  "\<lbrakk>clean_stack rooted st; \<forall>w\<in>set ws. CHR ''/'' \<notin> set w\<rbrakk>
   \<Longrightarrow> clean_stack rooted (fold (clean_push rooted) ws st)"
  by (induction ws arbitrary: st) (simp_all add: clean_push_stack)

text \<open>Pushing the components of a clean stack again gives it back.\<close>

lemma clean_push_fresh:
  assumes "clean_stack rooted (w # st)" shows "clean_push rooted w st = w # st"
proof (cases "w = ''..''")
  case True
  with assms show ?thesis by (cases st) (simp_all add: clean_push_dots)
next
  case False
  with assms show ?thesis by (simp add: clean_push_plain)
qed

lemma clean_refold:
  "clean_stack rooted st \<Longrightarrow> fold (clean_push rooted) (rev st) [] = st"
proof (induction st)
  case (Cons w st)
  have "fold (clean_push rooted) (rev st) [] = st"
    by (rule Cons.IH [OF clean_stack_tail [OF Cons.prems]])
  then have "fold (clean_push rooted) (rev (w # st)) [] = clean_push rooted w st" by simp
  also have "\<dots> = w # st" by (rule clean_push_fresh [OF Cons.prems])
  finally show ?case .
qed simp

lemma clean_stack_no_slash: "\<lbrakk>clean_stack rooted st; w \<in> set st\<rbrakk> \<Longrightarrow> CHR ''/'' \<notin> set w \<and> w \<noteq> []"
proof (induction st)
  case (Cons v st)
  then have st: "w \<in> set st \<Longrightarrow> CHR ''/'' \<notin> set w \<and> w \<noteq> []" using clean_stack_tail by blast
  show ?case
  proof (cases "w = v")
    case True
    with Cons.prems(1) show ?thesis by (cases "v = ''..''") (simp_all add: plain_component_def)
  qed (use st Cons.prems(2) in simp)
qed simp

definition path_stack :: "string \<Rightarrow> string list" where
  "path_stack p = fold (clean_push (has_prefix p ''/'')) (split_on (CHR ''/'') p) []"

lemma path_stack_clean: "clean_stack (has_prefix p ''/'') (path_stack p)"
  unfolding path_stack_def
  by (rule clean_fold_stack) (auto dest: split_on_no_sep)

definition path_text :: "bool \<Rightarrow> string list \<Rightarrow> string" where
  "path_text rooted st =
     (let body = join_with ''/'' (rev st) in
      if rooted then ''/'' @ body else if body = [] then ''.'' else body)"

lemma path_clean_text: "p \<noteq> [] \<Longrightarrow> path_clean p = path_text (has_prefix p ''/'') (path_stack p)"
  by (simp add: path_clean_def path_text_def path_stack_def Let_def)

lemma join_with_head: "ws \<noteq> [] \<Longrightarrow> \<exists>t. join_with sep ws = hd ws @ t"
  by (cases ws rule: remdups_adj.cases) auto

lemma has_prefix_slash: "has_prefix s ''/'' \<longleftrightarrow> s \<noteq> [] \<and> hd s = CHR ''/''"
  by (cases s) (auto simp: has_prefix_def)

lemma has_prefix_path_text:
  assumes "clean_stack rooted st" shows "has_prefix (path_text rooted st) ''/'' = rooted"
proof (cases rooted)
  case False
  show ?thesis
  proof (cases "st = []")
    case False
    then obtain t where t: "join_with ''/'' (rev st) = hd (rev st) @ t"
      using join_with_head [of "rev st"] by auto
    have "hd (rev st) \<in> set st" using False by (metis hd_in_set rev_is_Nil_conv set_rev)
    from clean_stack_no_slash [OF assms this] t \<open>\<not> rooted\<close> show ?thesis
      by (cases "hd (rev st)") (auto simp: path_text_def has_prefix_slash)
  qed (simp add: path_text_def \<open>\<not> rooted\<close> has_prefix_slash)
qed (simp add: path_text_def has_prefix_slash)

lemma split_on_snoc: "split_on c (p @ c # s) = split_on c p @ split_on c s"
proof (induction p)
  case (Cons x p)
  then show ?case by (cases "split_on c p") auto
qed simp

lemma split_path_text:
  assumes "clean_stack rooted st"
  shows "fold (clean_push rooted) (split_on (CHR ''/'') (path_text rooted st)) [] = st"
proof (cases "st = []")
  case True
  then show ?thesis by (cases rooted) (simp_all add: path_text_def)
next
  case False
  have all: "\<forall>w\<in>set (rev st). CHR ''/'' \<notin> set w" using clean_stack_no_slash [OF assms] by auto
  then have split: "split_on (CHR ''/'') (join_with ''/'' (rev st)) = rev st"
    using False by (intro split_on_join) auto
  have ne: "join_with ''/'' (rev st) \<noteq> []"
  proof
    assume "join_with ''/'' (rev st) = []"
    with split have "rev st = split_on (CHR ''/'') []" by (simp only:)
    then have "rev st = [[]]" by (simp only: split_on.simps)
    then have "[] \<in> set st" by (metis list.set_intros(1) set_rev)
    with clean_stack_no_slash [OF assms this] show False by simp
  qed
  have refold: "fold (clean_push rooted) (rev st) [] = st" by (rule clean_refold [OF assms])
  show ?thesis
  proof (cases rooted)
    case True
    have "split_on (CHR ''/'') (''/'' @ join_with ''/'' (rev st)) = [] # rev st" using split by simp
    with True refold show ?thesis by (simp add: path_text_def)
  next
    case False
    with refold show ?thesis by (simp add: path_text_def ne split)
  qed
qed

lemma path_clean_path_text:
  assumes "clean_stack rooted st"
  shows "path_clean (path_text rooted st) = path_text rooted st"
proof -
  have ne: "path_text rooted st \<noteq> []" by (simp add: path_text_def Let_def)
  show ?thesis
    by (simp only: path_clean_text [OF ne] path_stack_def has_prefix_path_text [OF assms]
        split_path_text [OF assms])
qed

lemma path_clean_idem [simp]: "path_clean (path_clean p) = path_clean p"
proof (cases "p = []")
  case True
  then show ?thesis by (simp add: path_clean_def has_prefix_def)
next
  case False
  then show ?thesis by (simp add: path_clean_text path_clean_path_text path_stack_clean)
qed

lemma path_clean_dir [simp]: "path_clean (path_dir p) = path_dir p"
  by (simp add: path_dir_def)


lemma path_base_no_slash:
  assumes "path_base w = w" "w \<noteq> ''/''" shows "CHR ''/'' \<notin> set w"
proof
  let ?q = "rev (dropWhile (\<lambda>c. c = CHR ''/'') (rev w))"
  let ?b = "rev (takeWhile (\<lambda>c. c \<noteq> CHR ''/'') (rev ?q))"
  have b: "CHR ''/'' \<notin> set ?b" using set_takeWhileD by fastforce
  assume s: "CHR ''/'' \<in> set w"
  then have "w \<noteq> []" by auto
  then have "path_base w = (if ?q = [] then ''/'' else ?b)" by (simp add: path_base_def Let_def)
  with assms have "w = ?b" by metis
  with s b show False by metis
qed

lemma path_dir_append:
  "CHR ''/'' \<notin> set w \<Longrightarrow> path_dir (d @ CHR ''/'' # w) = path_clean (d @ ''/'')"
proof -
  assume "CHR ''/'' \<notin> set w"
  then have "dropWhile (\<lambda>c. c \<noteq> CHR ''/'') (rev w @ CHR ''/'' # rev d) = CHR ''/'' # rev d"
    by (subst dropWhile_append2) auto
  then show ?thesis by (simp add: path_dir_def)
qed

lemma has_prefix_slash_append: "d \<noteq> [] \<Longrightarrow> has_prefix (d @ s) ''/'' = has_prefix d ''/''"
  by (cases d) (simp_all add: has_prefix_slash)

lemma path_clean_trailing:
  assumes "d \<noteq> []" shows "path_clean (d @ ''/'') = path_clean d"
proof -
  have "path_stack (d @ ''/'') = path_stack d"
    using assms by (simp add: path_stack_def has_prefix_slash_append split_on_snoc)
  with assms show ?thesis by (simp add: path_clean_text has_prefix_slash_append)
qed

lemma join_with_snoc: "ws \<noteq> [] \<Longrightarrow> join_with sep (ws @ [w]) = join_with sep ws @ sep @ w"
  by (induction sep ws rule: join_with.induct) auto

lemma path_text_Cons:
  assumes "w \<noteq> []" "clean_stack rooted st"
  shows "path_text rooted (w # st) =
    (if st = [] then (if rooted then ''/'' else []) @ w else
     (if rooted \<and> st = [] then [] else path_text rooted st) @ ''/'' @ w)"
proof (cases "st = []")
  case False
  then obtain t where "join_with ''/'' (rev st) = hd (rev st) @ t"
    using join_with_head [of "rev st"] by auto
  moreover have "hd (rev st) \<noteq> []"
    using clean_stack_no_slash [OF assms(2), of "hd (rev st)"] False
    by (metis hd_in_set rev_is_Nil_conv set_rev)
  ultimately show ?thesis using False by (simp add: path_text_def join_with_snoc Let_def)
qed (use assms(1) in \<open>simp add: path_text_def\<close>)

text \<open>A plain name joined to a directory names an entry of that directory.\<close>

lemma path_dir_plain: "CHR ''/'' \<notin> set w \<Longrightarrow> path_dir w = ''.''"
proof -
  assume "CHR ''/'' \<notin> set w"
  then have "dropWhile (\<lambda>c. c \<noteq> CHR ''/'') (rev w) = []" by auto
  then show ?thesis by (simp add: path_dir_def path_clean_def)
qed

lemma path_join_stack:
  assumes "d \<noteq> []" "plain_component w"
  shows "path_join [d, w] = path_text (has_prefix d ''/'') (w # path_stack d)"
proof -
  have "w \<noteq> []" "CHR ''/'' \<notin> set w" using assms(2) by (simp_all add: plain_component_def)
  then have "path_stack (d @ CHR ''/'' # w) = w # path_stack d"
    using assms by (simp add: path_stack_def split_on_snoc split_on_id has_prefix_slash_append clean_push_plain)
  then show ?thesis using assms(1) \<open>w \<noteq> []\<close>
    by (simp add: path_join_def path_clean_text has_prefix_slash_append)
qed

lemma path_base_join: "CHR ''/'' \<notin> set w \<Longrightarrow> w \<noteq> [] \<Longrightarrow> path_base (p @ CHR ''/'' # w) = w"
  and path_base_plain: "CHR ''/'' \<notin> set w \<Longrightarrow> w \<noteq> [] \<Longrightarrow> path_base w = w"
proof -
  assume w: "CHR ''/'' \<notin> set w" "w \<noteq> []"
  then have drop: "dropWhile (\<lambda>c. c = CHR ''/'') (rev w @ s) = rev w @ s" for s
    by (cases w rule: rev_cases) auto
  have "takeWhile (\<lambda>c. c \<noteq> CHR ''/'') (rev w @ CHR ''/'' # s) = rev w" for s
    using w(1) by (subst takeWhile_append2) auto
  with drop w(2) show "path_base (p @ CHR ''/'' # w) = w" by (simp add: path_base_def)
  have "takeWhile (\<lambda>c. c \<noteq> CHR ''/'') (rev w) = rev w"
    unfolding takeWhile_eq_all_conv using w(1) by auto
  with drop [of "[]"] w(2) show "path_base w = w" by (simp add: path_base_def del: takeWhile_eq_all_conv)
qed

lemma path_join_plain:
  assumes "d \<noteq> []" "plain_component w"
  shows "path_dir (path_join [d, w]) = path_clean d" "path_base (path_join [d, w]) = w"
proof -
  let ?r = "has_prefix d ''/''" and ?st = "path_stack d"
  have w: "w \<noteq> []" "CHR ''/'' \<notin> set w" using assms(2) by (simp_all add: plain_component_def)
  have clean: "clean_stack ?r ?st" by (rule path_stack_clean)
  have d: "path_clean d = path_text ?r ?st" by (rule path_clean_text [OF assms(1)])
  have joined: "path_join [d, w] = path_text ?r (w # ?st)" by (rule path_join_stack [OF assms])
  consider (dot) "path_join [d, w] = w" "path_clean d = ''.''"
    | (sub) p where "path_join [d, w] = p @ CHR ''/'' # w" "path_clean (p @ ''/'') = path_clean d"
  proof (cases "?st = []")
    case True
    have "path_clean ''/'' = ''/''" by (simp add: path_clean_def has_prefix_def)
    with True dot sub [of "[]"] show ?thesis
      by (cases ?r) (simp_all add: joined d path_text_Cons [OF w(1) clean] path_text_def w(1))
  next
    case False
    have "path_text ?r ?st \<noteq> []" by (simp add: path_text_def Let_def)
    then have "path_clean (path_text ?r ?st @ ''/'') = path_clean d"
      by (simp add: path_clean_trailing path_clean_path_text [OF clean] d)
    with False sub [of "path_text ?r ?st"] show ?thesis
      by (simp add: joined path_text_Cons [OF w(1) clean])
  qed
  then show "path_dir (path_join [d, w]) = path_clean d" "path_base (path_join [d, w]) = w"
    using w path_dir_append [OF w(2)] path_dir_plain [OF w(2)] path_base_join [OF w(2,1)]
      path_base_plain [OF w(2,1)] by (cases; simp)+
qed

end
