(* ===== verification/Manager.thy ===== *)
theory Manager
  imports ApiConfig HashState PreStart GoPath
begin

text \<open>internal/xray/manager.go with persist.go, running_config.go, managed_log.go and the gates of
  grpc.go: the life of the core process as the manager keeps it.

  The manager's fields are one record.  An operation that the Go code runs under its mutex is
  one function on that record.  Start, Stop, Health and RunningConfig below are what one call does
  when nothing happens between its critical sections; the sections one by one, and how those of
  several calls interleave, are in ManagerConcurrency, which proves that a call left alone does
  what is defined here.  What comes from outside (files, processes, the gRPC ping, the clock) is in
  the record of the outcomes of a call.\<close>

section \<open>Managed logs\<close>

definition managed_logs :: "(string \<times> string) list" where
  "managed_logs = [(''access'', ''access.log''), (''error'', ''error.log'')]"

fun configure_logs :: "string \<Rightarrow> (string \<times> string) list \<Rightarrow> jmap \<Rightarrow> jmap \<times> string list" where
  "configure_logs log_dir [] conf = (conf, [])"
| "configure_logs log_dir ((key, name) # items) conf =
     (if lookup conf key = Some (VStr (path_join [log_dir, name]))
      then (let pipe = path_join [log_dir, ''.'' @ name @ ''.pipe''];
                (conf', pumps) = configure_logs log_dir items (put key (VStr pipe) conf)
            in (conf', pipe # pumps))
      else configure_logs log_dir items conf)"

text \<open>configureManagedLogPaths: the configuration with the managed log paths replaced by FIFOs,
  and the FIFO paths of the pumps.\<close>

definition configure_managed_log_paths :: "jmap \<Rightarrow> string \<Rightarrow> jmap \<times> string list" where
  "configure_managed_log_paths config log_dir = (case as_map (lookup config ''log'') of
     None \<Rightarrow> (config, [])
   | Some conf \<Rightarrow>
       (let (conf', pumps) = configure_logs log_dir managed_logs conf
        in (put ''log'' (VMap conf') config, pumps)))"

section \<open>Requests, responses and the manager\<close>

record start_request =
  sr_force_restart :: bool
  sr_hashes :: config_hash
  sr_xray_config :: jmap

record start_reply =
  resp_is_started :: bool
  resp_version :: "string option"
  resp_error :: "string option"

record process_state =
  proc_pid :: nat
  proc_config :: jval
  proc_managed :: "string list"
  proc_exited :: bool
  proc_exit_err :: "string option"

text \<open>The field proc_config is the document that the core fetched from the internal socket when it
  started; the code has no such field.\<close>

record manager =
  xray_bin :: string
  geo_dir :: string
  log_dir :: string
  data_dir :: string
  socket_path :: string
  token :: string
  xtls_socket :: string
  disable_hash_check :: bool
  low_memory :: bool
  warp_probe_port :: int
  xray_version :: "string option"
  xray_online :: bool
  start_processing :: bool
  lifecycle_held :: bool
  last_start_request :: "start_request option"
  current_config :: "jmap option"
  current_config_json :: "jval option"
  running_config_json :: "jval option"
  running_config_captured_at :: string
  m_hash :: hash_state
  m_process :: "process_state option"
  open_pumps :: "string list"
  disk_start :: "start_request option"

text \<open>The last two fields are not in the Go record: the log pumps whose goroutine runs, and the
  content of last-start.json.\<close>

section \<open>Versions\<close>

fun match_semver :: "string \<Rightarrow> string option" where
  "match_semver s =
     (let a = takeWhile is_digit s in
      case drop (length a) s of
        c1 # r1 \<Rightarrow>
          (let b = takeWhile is_digit r1 in
           case drop (length b) r1 of
             c2 # r2 \<Rightarrow>
               (let c = takeWhile is_digit r2 in
                if a \<noteq> [] \<and> c1 = CHR ''.'' \<and> b \<noteq> [] \<and> c2 = CHR ''.'' \<and> c \<noteq> []
                then Some (a @ ''.'' @ b @ ''.'' @ c) else None)
           | [] \<Rightarrow> None)
      | [] \<Rightarrow> None)"

fun find_semver :: "string \<Rightarrow> string" where
  "find_semver [] = []"
| "find_semver (c # s) = (case match_semver (c # s) of Some v \<Rightarrow> v | None \<Rightarrow> find_semver s)"

definition extract_semver :: "string \<Rightarrow> string" where
  "extract_semver raw = (if raw = [] then [] else find_semver raw)"

definition coerce_semver :: "string \<Rightarrow> string" where
  "coerce_semver raw =
     (let r = trim_space raw in extract_semver (if has_prefix r ''v'' then drop 1 r else r))"

fun first_semver_line :: "string list \<Rightarrow> string" where
  "first_semver_line [] = []"
| "first_semver_line (l # ls) =
     (let line = trim_space l; v = extract_semver line in
      if line \<noteq> [] \<and> v \<noteq> [] then v else first_semver_line ls)"

definition parse_version_line :: "string \<Rightarrow> string \<Rightarrow> string" where
  "parse_version_line env_version output =
     (let env = trim_space env_version; v = coerce_semver env in
      if env \<noteq> [] \<and> v \<noteq> [] then v else first_semver_line (split_on (CHR 0x0A) output))"

text \<open>refreshVersion: the output of the version command is None when it fails.\<close>

definition refresh_version :: "string \<Rightarrow> string option \<Rightarrow> manager \<Rightarrow> manager" where
  "refresh_version env_version output m = (case output of
     None \<Rightarrow> m
   | Some out \<Rightarrow>
       (let version = parse_version_line env_version out
        in if version = [] then m else m\<lparr>xray_version := Some version\<rparr>))"

definition start_response :: "manager \<Rightarrow> bool \<Rightarrow> string option \<Rightarrow> start_reply" where
  "start_response m is_started message =
     \<lparr>resp_is_started = is_started, resp_version = xray_version m, resp_error = message\<rparr>"

section \<open>The command line of the core\<close>

definition build_config_url :: "string \<Rightarrow> string" where
  "build_config_url socket = ''http+unix://'' @ socket @ ''/internal/get-config''"

definition build_command_args :: "string \<Rightarrow> string list" where
  "build_command_args socket = [''-config'', build_config_url socket, ''-format'', ''json'']"

definition command_args :: "manager \<Rightarrow> string list" where
  "command_args m = build_command_args (socket_path m)"

definition current_config_response :: "manager \<Rightarrow> jmap" where
  "current_config_response m = (case current_config m of None \<Rightarrow> [] | Some c \<Rightarrow> clone_map c)"

definition current_config_json_response :: "manager \<Rightarrow> jval" where
  "current_config_json_response m =
     (case current_config_json m of None \<Rightarrow> VMap [] | Some doc \<Rightarrow> doc)"

section \<open>The persisted start request\<close>

definition save_persisted_start :: "bool \<Rightarrow> start_request \<Rightarrow> manager \<Rightarrow> manager" where
  "save_persisted_start write_ok req m =
     (if data_dir m = [] \<or> \<not> write_ok then m
      else m\<lparr>disk_start := Some (req\<lparr>sr_xray_config := clone_map (sr_xray_config req)\<rparr>)\<rparr>)"

text \<open>loadPersistedStart: an unreadable or unparsable file is an error, a missing or empty one
  gives no request.\<close>

definition load_persisted_start :: "bool \<Rightarrow> manager \<Rightarrow> (string + start_request option)" where
  "load_persisted_start read_ok m =
     (if data_dir m = [] then Inr None
      else if \<not> read_ok then Inl ''read start state''
      else (case disk_start m of
          None \<Rightarrow> Inr None
        | Some req \<Rightarrow> if length (sr_xray_config req) = 0 then Inr None
            else Inr (Some (req\<lparr>sr_force_restart := False\<rparr>))))"

definition clear_persisted_start :: "bool \<Rightarrow> manager \<Rightarrow> manager" where
  "clear_persisted_start remove_ok m =
     (if data_dir m = [] \<or> \<not> remove_ok then m else m\<lparr>disk_start := None\<rparr>)"

definition persist_start_request :: "bool \<Rightarrow> start_request \<Rightarrow> manager \<Rightarrow> manager" where
  "persist_start_request write_ok req m =
     save_persisted_start write_ok req (m\<lparr>last_start_request := Some req\<rparr>)"

definition flush_persisted_start :: "bool \<Rightarrow> manager \<Rightarrow> manager" where
  "flush_persisted_start write_ok m = (case last_start_request m of
     None \<Rightarrow> m
   | Some req \<Rightarrow> save_persisted_start write_ok req m)"

section \<open>Stopping the core\<close>

text \<open>stopProcessLocked: in_time says that the process was reaped within the two waits of five
  seconds.  Its pumps are closed by the goroutine that reaps it.\<close>

definition stop_process_locked :: "bool \<Rightarrow> bool \<Rightarrow> manager \<Rightarrow> manager \<times> string option" where
  "stop_process_locked in_time clear_config m0 =
     (let m = m0\<lparr>running_config_json := None, running_config_captured_at := []\<rparr> in
      case m_process m of
        None \<Rightarrow>
          (let m1 = m\<lparr>xray_online := False\<rparr>
           in (if clear_config then m1\<lparr>current_config := None, current_config_json := None\<rparr> else m1, None))
      | Some p \<Rightarrow>
          if \<not> in_time then (m, Some ''timed out stopping rw-core process'')
          else
           (let m1 = m\<lparr>m_process := None, xray_online := False,
                        open_pumps := fold remove1 (proc_managed p) (open_pumps m)\<rparr>
            in (if clear_config
                then m1\<lparr>current_config := None, current_config_json := None,
                         m_hash := clear_inbound_tags (clear_hash_state (m_hash m1))\<rparr>
                else m1, None)))"

text \<open>Stop from the moment it has the lifecycle lock until it releases it; its answer says whether
  the core was stopped.\<close>

definition stop :: "bool \<Rightarrow> bool \<Rightarrow> bool \<Rightarrow> manager \<Rightarrow> manager \<times> bool" where
  "stop disk_ok in_time clear_persist m =
     (let m1 = (if clear_persist then m else flush_persisted_start disk_ok m);
          (m2, err) = stop_process_locked in_time True m1;
          m3 = (if clear_persist then clear_persisted_start disk_ok (m2\<lparr>last_start_request := None\<rparr>)
                else m2)
      in (m3, err = None))"

definition stop_if_online :: "bool \<Rightarrow> bool \<Rightarrow> manager \<Rightarrow> manager \<times> bool" where
  "stop_if_online disk_ok in_time m = (if \<not> xray_online m then (m, False) else stop disk_ok in_time False m)"

text \<open>monitorProcess: the process ends and is marked; then, under the mutex, the manager forgets
  it if it is still the current one.\<close>

definition mark_exited :: "string option \<Rightarrow> manager \<Rightarrow> manager" where
  "mark_exited err m = (case m_process m of
     None \<Rightarrow> m
   | Some p \<Rightarrow> if proc_exited p then m else m\<lparr>m_process := Some (p\<lparr>proc_exited := True, proc_exit_err := err\<rparr>),
       open_pumps := fold remove1 (proc_managed p) (open_pumps m)\<rparr>)"

definition forget_process :: "manager \<Rightarrow> manager" where
  "forget_process m = (case m_process m of
     Some p \<Rightarrow> if proc_exited p then m\<lparr>m_process := None, xray_online := False\<rparr> else m
   | None \<Rightarrow> m)"

definition rw_core_exit_hint :: "manager \<Rightarrow> string" where
  "rw_core_exit_hint m = (case m_process m of
     None \<Rightarrow> ''rw-core is not running''
   | Some p \<Rightarrow>
       if \<not> proc_exited p then []
       else (case proc_exit_err p of Some e \<Rightarrow> ''rw-core exited: '' @ e | None \<Rightarrow> ''rw-core exited''))"

section \<open>Spawning the core\<close>

text \<open>The outcomes of the system calls of startProcessLocked: one optional error per pump, then the
  two log files and the exec.\<close>

record spawn_env =
  sp_pump_errors :: "string option list"
  sp_stdout_error :: "string option"
  sp_stderr_error :: "string option"
  sp_exec_error :: "string option"
  sp_pid :: nat

fun start_pumps :: "string option list \<Rightarrow> string list \<Rightarrow> string list \<Rightarrow> (string + string list)" where
  "start_pumps errs [] started = Inr started"
| "start_pumps (Some e # errs) (pipe # pipes) started = Inl e"
| "start_pumps (None # errs) (pipe # pipes) started = start_pumps errs pipes (started @ [pipe])"
| "start_pumps [] (pipe # pipes) started = start_pumps [] pipes (started @ [pipe])"

definition start_process_locked ::
  "spawn_env \<Rightarrow> string list \<Rightarrow> manager \<Rightarrow> manager \<times> (string + process_state)" where
  "start_process_locked env managed_pumps m =
     (case start_pumps (sp_pump_errors env) managed_pumps [] of
        Inl e \<Rightarrow> (m, Inl e)
      | Inr started \<Rightarrow>
         (let running = m\<lparr>open_pumps := open_pumps m @ started\<rparr> in
          case sp_stdout_error env of
            Some e \<Rightarrow> (running, Inl (''open xray stdout log: '' @ e))
          | None \<Rightarrow> (case sp_stderr_error env of
              Some e \<Rightarrow> (running, Inl (''open xray stderr log: '' @ e))
            | None \<Rightarrow> (case sp_exec_error env of
                Some e \<Rightarrow> (m, Inl (''start rw-core: '' @ e))
              | None \<Rightarrow> (running, Inr
                  \<lparr>proc_pid = sp_pid env, proc_config = current_config_json_response m,
                   proc_managed = managed_pumps, proc_exited = False, proc_exit_err = None\<rparr>)))))"

section \<open>Waiting for the core\<close>

text \<open>One round of waitForGRPC: what happened to the process since the last round, whether the
  ping succeeds, and whether the request was cancelled during the wait.  The list of the rounds
  ends at the deadline.\<close>

datatype core_event = Core_Alive | Core_Marked "string option" | Core_Forgotten "string option"

record grpc_probe =
  pr_event :: core_event
  pr_ping :: bool
  pr_cancelled :: bool

fun core_event_step :: "core_event \<Rightarrow> manager \<Rightarrow> manager" where
  "core_event_step Core_Alive m = m"
| "core_event_step (Core_Marked err) m = mark_exited err m"
| "core_event_step (Core_Forgotten err) m = forget_process (mark_exited err m)"

fun wait_for_grpc :: "grpc_probe list \<Rightarrow> manager \<Rightarrow> manager \<times> bool" where
  "wait_for_grpc [] m = (m, False)"
| "wait_for_grpc (p # ps) m =
     (let m1 = core_event_step (pr_event p) m; hint = rw_core_exit_hint m1 in
      if hint \<noteq> [] \<and> contains_text hint ''exited'' then (m1, False)
      else if pr_ping p then (m1, True)
      else if pr_cancelled p then (m1, False)
      else wait_for_grpc ps m1)"

definition grpc_startup_timeout :: "manager \<Rightarrow> nat" where
  "grpc_startup_timeout m = (if low_memory m then 90 else 20)"

definition timeout_text :: "manager \<Rightarrow> string" where
  "timeout_text m = (if low_memory m then ''1m30s'' else ''20s'')"

text \<open>tailLogFile: None when the file cannot be read.\<close>

definition tail_log_file :: "string option \<Rightarrow> nat \<Rightarrow> string" where
  "tail_log_file content max_lines = (case content of
     None \<Rightarrow> []
   | Some data \<Rightarrow>
       if data = [] then []
       else (let ls = split_on (CHR 0x0A) (trim_space data) in
             join_with '' | '' (if length ls > max_lines then drop (length ls - max_lines) ls else ls)))"

section \<open>Start\<close>

text \<open>The answers of the torrent blocker provider, when one is set.\<close>

record provider_view =
  pv_enabled :: bool
  pv_include_rule_tags :: "string list"
  pv_cleanup :: "bool \<times> string list"

text \<open>The outcomes of one call of Start.\<close>

record start_env =
  se_mkdir_error :: "string option"
  se_config_env :: config_env
  se_provider :: "provider_view option"
  se_ping :: bool
  se_core_prepare_error :: "string option"
  se_stop_in_time :: bool
  se_spawn :: spawn_env
  se_probes :: "grpc_probe list"
  se_fail_stop_in_time :: bool
  se_now :: string
  se_env_version :: string
  se_version_output :: "string option"
  se_disk_ok :: bool
  se_err_log :: "string option"

text \<open>What Start computes before it touches the manager: the configuration to run, its document
  and the pumps of its managed logs.\<close>

record start_ctx =
  ctx_request :: start_request
  ctx_config :: jmap
  ctx_json :: jval
  ctx_pumps :: "string list"

definition torrent_blocker_options :: "provider_view option \<Rightarrow> manager \<Rightarrow> torrent_options" where
  "torrent_blocker_options provider m =
     \<lparr>tb_enabled = (case provider of Some p \<Rightarrow> pv_enabled p | None \<Rightarrow> False),
      tb_include_rule_tags = (case provider of Some p \<Rightarrow> pv_include_rule_tags p | None \<Rightarrow> []),
      tb_socket_path = socket_path m, tb_rest_token = token m\<rparr>"

definition in_progress :: string where "in_progress = ''Request already in progress''"

text \<open>The entry of Start up to the lifecycle lock: the answer when the call is refused, because
  another Start has set startProcessing or because a Stop or a RunningConfig holds the lock.\<close>

definition start_enter :: "start_env \<Rightarrow> manager \<Rightarrow> manager \<times> start_reply option" where
  "start_enter env m = (case se_mkdir_error env of
     Some e \<Rightarrow> (m, Some (start_response m False (Some e)))
   | None \<Rightarrow>
       if start_processing m then (m, Some (start_response m False (Some in_progress)))
       else if lifecycle_held m then (m, Some (start_response m False (Some in_progress)))
       else (m\<lparr>start_processing := True, lifecycle_held := True\<rparr>, None))"

text \<open>The deferred unlocks.\<close>

definition start_leave :: "manager \<Rightarrow> manager" where
  "start_leave m = m\<lparr>start_processing := False, lifecycle_held := False\<rparr>"

definition start_render :: "start_env \<Rightarrow> start_request \<Rightarrow> manager \<Rightarrow> (string + start_ctx)" where
  "start_render env req m =
     (let (config, pumps) = configure_managed_log_paths
            (generate_api_config (se_config_env env) (sr_xray_config req) (xtls_socket m)
               (torrent_blocker_options (se_provider env) m) [warp_probe_port m]) (log_dir m);
          warp_error = str_or_empty (lookup config ''__warpGuardError'')
      in if warp_error \<noteq> [] then Inl warp_error
         else Inr \<lparr>ctx_request = req, ctx_config = config, ctx_json = VMap config, ctx_pumps = pumps\<rparr>)"

definition record_config :: "start_ctx \<Rightarrow> manager \<Rightarrow> manager" where
  "record_config ctx m = m\<lparr>current_config := Some (ctx_config ctx), current_config_json := Some (ctx_json ctx),
     m_hash := extract_users (sr_hashes (ctx_request ctx)) (ctx_config ctx)\<rparr>"

text \<open>The check that lets a start return without touching the core.\<close>

definition start_check :: "start_env \<Rightarrow> start_ctx \<Rightarrow> manager \<Rightarrow> manager \<times> start_reply option" where
  "start_check env ctx m =
     (if xray_online m \<and> \<not> disable_hash_check m \<and> \<not> sr_force_restart (ctx_request ctx)
      then
        (if se_ping env
         then
           (if \<not> is_need_restart (m_hash m) (sr_hashes (ctx_request ctx))
            then (let m1 = persist_start_request (se_disk_ok env) (ctx_request ctx) (record_config ctx m)
                  in (m1, Some (start_response m1 True None)))
            else (m, None))
         else (m\<lparr>xray_online := False\<rparr>, None))
      else (m, None))"

definition start_prepare :: "start_env \<Rightarrow> manager \<Rightarrow> manager \<times> start_reply option" where
  "start_prepare env m = (case se_core_prepare_error env of
     Some e \<Rightarrow> (m, Some (start_response m False (Some e)))
   | None \<Rightarrow> (m, None))"

text \<open>The new configuration is recorded and the old core stopped in one critical section.\<close>

definition start_install :: "start_env \<Rightarrow> start_ctx \<Rightarrow> manager \<Rightarrow> manager \<times> start_reply option" where
  "start_install env ctx m =
     (case stop_process_locked (se_stop_in_time env) False (record_config ctx m) of
        (m1, Some e) \<Rightarrow> (m1, Some (start_response m1 False (Some e)))
      | (m1, None) \<Rightarrow> (m1, None))"

definition start_spawn :: "start_env \<Rightarrow> start_ctx \<Rightarrow> manager \<Rightarrow> manager \<times> start_reply option" where
  "start_spawn env ctx m =
     (case start_process_locked (se_spawn env) (ctx_pumps ctx) m of
        (m1, Inl e) \<Rightarrow>
          (let m2 = m1\<lparr>xray_online := False\<rparr> in (m2, Some (start_response m2 False (Some e))))
      | (m1, Inr p) \<Rightarrow> (m1\<lparr>m_process := Some p, xray_online := False\<rparr>, None))"

definition start_fail_message :: "start_env \<Rightarrow> manager \<Rightarrow> string" where
  "start_fail_message env m =
     (let message = ''xray gRPC API on @'' @ xtls_socket m @ '' did not become reachable within ''
            @ timeout_text m @ '' (see '' @ log_dir m @ ''/xray.err.log)'';
          hint = rw_core_exit_hint m;
          err_tail = tail_log_file (se_err_log env) 3
      in message @ (if hint \<noteq> [] then ''; '' @ hint else [])
           @ (if err_tail \<noteq> [] then ''; xray.err: '' @ err_tail else []))"

text \<open>After the wait: the core is online, or it is stopped again.\<close>

definition start_finish :: "start_env \<Rightarrow> start_ctx \<Rightarrow> bool \<Rightarrow> manager \<Rightarrow> manager \<times> start_reply" where
  "start_finish env ctx started m =
     (if started
      then (let m1 = m\<lparr>xray_online := True, running_config_json := Some (ctx_json ctx),
                       running_config_captured_at := se_now env\<rparr>;
                m2 = persist_start_request (se_disk_ok env) (ctx_request ctx)
                       (refresh_version (se_env_version env) (se_version_output env) m1)
            in (m2, start_response m2 True None))
      else (let m1 = (fst (stop_process_locked (se_fail_stop_in_time env) False m))\<lparr>xray_online := False\<rparr>
            in (m1, start_response m1 False (Some (start_fail_message env m1)))))"

text \<open>An early return runs the deferred unlocks.\<close>

definition or_return ::
  "manager \<times> start_reply option \<Rightarrow> (manager \<Rightarrow> manager \<times> start_reply) \<Rightarrow> manager \<times> start_reply"
where
  "or_return r k = (case r of (m, Some resp) \<Rightarrow> (start_leave m, resp) | (m, None) \<Rightarrow> k m)"

definition start :: "start_env \<Rightarrow> start_request \<Rightarrow> manager \<Rightarrow> manager \<times> start_reply" where
  "start env req m = (case start_enter env m of
     (m0, Some resp) \<Rightarrow> (m0, resp)
   | (m0, None) \<Rightarrow>
      (case start_render env req m0 of
         Inl e \<Rightarrow> (start_leave m0, start_response m0 False (Some e))
       | Inr ctx \<Rightarrow>
           or_return (start_check env ctx m0) (\<lambda>m1.
           or_return (start_prepare env m1) (\<lambda>m2.
           or_return (start_install env ctx m2) (\<lambda>m3.
           or_return (start_spawn env ctx m3) (\<lambda>m4.
             (let (m5, started) = wait_for_grpc (se_probes env) m4;
                  (m6, resp) = start_finish env ctx started m5
              in (start_leave m6, resp))))))))"

section \<open>Restoring on boot, health, and the running configuration\<close>

text \<open>The attempts of RestoreOnBoot: the outcomes of each Start and whether the wait after it was
  cancelled.  The outcome list may be cut short when the node itself ends.\<close>

definition max_restore_attempts :: nat where "max_restore_attempts = 10"

fun restore_loop ::
  "nat \<Rightarrow> (start_env \<times> bool) list \<Rightarrow> start_request \<Rightarrow> manager \<Rightarrow> manager \<times> start_reply list"
where
  "restore_loop 0 envs req m = (m, [])"
| "restore_loop (Suc n) [] req m = (m, [])"
| "restore_loop (Suc n) ((env, cancelled) # envs) req m =
     (let (m1, resp) = start env req m in
      if resp_is_started resp then (m1, [resp])
      else if n = 0 then (m1, [resp])
      else if cancelled then (m1, [resp])
      else (let (m2, resps) = restore_loop n envs req m1 in (m2, resp # resps)))"

definition restore_on_boot ::
  "bool \<Rightarrow> bool \<Rightarrow> (start_env \<times> bool) list \<Rightarrow> manager \<Rightarrow> manager \<times> start_reply list" where
  "restore_on_boot cancelled read_ok envs m =
     (if cancelled then (m, [])
      else (case load_persisted_start read_ok m of
          Inl _ \<Rightarrow> (m, [])
        | Inr None \<Rightarrow> (m, [])
        | Inr (Some req) \<Rightarrow> restore_loop max_restore_attempts envs req m))"

record health_response =
  hr_status_cached :: bool
  hr_xray_version :: "string option"

definition health :: "string \<Rightarrow> string option \<Rightarrow> bool \<Rightarrow> manager \<Rightarrow> manager \<times> health_response" where
  "health env_version output ping m0 =
     (let m = (if xray_version m0 = None then refresh_version env_version output m0 else m0);
          online = (if m_process m \<noteq> None \<or> xray_online m then ping else xray_online m)
      in (m\<lparr>xray_online := online\<rparr>, \<lparr>hr_status_cached = online, hr_xray_version = xray_version m\<rparr>))"

datatype config_state = Busy | Stopped | Unavailable | Running jval string

definition running_config :: "bool \<Rightarrow> manager \<Rightarrow> config_state" where
  "running_config ping m =
     (if lifecycle_held m then Busy
      else if \<not> xray_online m \<or> \<not> ping then Stopped
      else (case running_config_json m of
          None \<Rightarrow> Unavailable
        | Some snapshot \<Rightarrow> if running_config_captured_at m = [] then Unavailable
            else Running snapshot (running_config_captured_at m)))"

text \<open>statsAPI and ReadAccountingCounters of grpc.go: the generation names the process whose
  counters were read.\<close>

definition stats_api :: "string option \<Rightarrow> bool \<Rightarrow> manager \<Rightarrow> string option" where
  "stats_api dial_error require_online m =
     (if require_online \<and> \<not> xray_online m then Some ''xray is not online'' else dial_error)"

definition read_accounting_counters ::
  "string option \<Rightarrow> (string + 'c) \<Rightarrow> manager \<Rightarrow> (string + 'c \<times> string)" where
  "read_accounting_counters dial_error result m = (case stats_api dial_error True m of
     Some e \<Rightarrow> Inl e
   | None \<Rightarrow> (case result of
       Inl e \<Rightarrow> Inl e
     | Inr counters \<Rightarrow> Inr (counters, case m_process m of
           None \<Rightarrow> ''xray-process-unknown''
         | Some p \<Rightarrow> ''xray-pid-'' @ base_digits 10 (proc_pid p))))"

end
