(* ===== verification/ManagerLifecycle.thy ===== *)
theory ManagerLifecycle
  imports Manager
begin

text \<open>What the operations of internal/xray/manager.go do when a call runs undisturbed: the frames of
  its critical sections, the answers of Start on every branch, and what its failure paths leave
  behind.  How the sections of several calls interleave is in ManagerConcurrency.\<close>

section \<open>What each section keeps\<close>

lemma hash_inv_stop:
  "hash_inv (m_hash m) \<Longrightarrow> hash_inv (m_hash (fst (stop_process_locked t c m)))"
  by (auto simp: stop_process_locked_def Let_def hash_inv_clear split: option.splits)

lemma stop_process_frame [simp]:
  "lifecycle_held (fst (stop_process_locked t c m)) = lifecycle_held m"
  "start_processing (fst (stop_process_locked t c m)) = start_processing m"
  "last_start_request (fst (stop_process_locked t c m)) = last_start_request m"
  "disk_start (fst (stop_process_locked t c m)) = disk_start m"
  "running_config_json (fst (stop_process_locked t c m)) = None"
  "\<not> c \<Longrightarrow> current_config_json (fst (stop_process_locked t c m)) = current_config_json m"
  by (auto simp: stop_process_locked_def Let_def split: option.splits)

lemma stop_process_ok:
  "snd (stop_process_locked t c m) = None \<Longrightarrow> m_process (fst (stop_process_locked t c m)) = None"
  by (auto simp: stop_process_locked_def Let_def split: option.splits if_splits)

lemma stop_process_keeps:
  "m_process (fst (stop_process_locked t c m)) = Some p \<Longrightarrow> m_process m = Some p"
  by (auto simp: stop_process_locked_def Let_def split: option.splits if_splits)

lemma save_persisted_frame [simp]:
  "m_hash (save_persisted_start w r m) = m_hash m"
  "lifecycle_held (save_persisted_start w r m) = lifecycle_held m"
  "start_processing (save_persisted_start w r m) = start_processing m"
  "running_config_json (save_persisted_start w r m) = running_config_json m"
  "m_process (save_persisted_start w r m) = m_process m"
  "last_start_request (save_persisted_start w r m) = last_start_request m"
  "current_config_json (save_persisted_start w r m) = current_config_json m"
  by (simp_all add: save_persisted_start_def)

lemma persist_start_frame [simp]:
  "m_hash (persist_start_request w r m) = m_hash m"
  "lifecycle_held (persist_start_request w r m) = lifecycle_held m"
  "start_processing (persist_start_request w r m) = start_processing m"
  "running_config_json (persist_start_request w r m) = running_config_json m"
  "m_process (persist_start_request w r m) = m_process m"
  by (simp_all add: persist_start_request_def)

lemma refresh_version_eq: "\<exists>v. refresh_version e out m = m\<lparr>xray_version := v\<rparr>"
  by (cases out; cases "parse_version_line e (the out) = []")
    (auto simp: refresh_version_def Let_def intro: exI [of _ "xray_version m"])

lemma hash_inv_user_op: "\<lbrakk>hash_inv h; run_user_op op h = Some h'\<rbrakk> \<Longrightarrow> hash_inv h'"
  using run_user_op_refines [of h op] by auto

lemma start_leave_frame [simp]:
  "m_hash (start_leave m) = m_hash m" "m_process (start_leave m) = m_process m"
  "running_config_json (start_leave m) = running_config_json m"
  "last_start_request (start_leave m) = last_start_request m"
  "disk_start (start_leave m) = disk_start m"
  "lifecycle_held (start_leave m) = False" "start_processing (start_leave m) = False"
  by (simp_all add: start_leave_def)

lemma record_config_frame [simp]:
  "lifecycle_held (record_config ctx m) = lifecycle_held m"
  "start_processing (record_config ctx m) = start_processing m"
  "last_start_request (record_config ctx m) = last_start_request m"
  "disk_start (record_config ctx m) = disk_start m"
  "current_config_json (record_config ctx m) = Some (ctx_json ctx)"
  "hash_inv (m_hash (record_config ctx m))"
  by (simp_all add: record_config_def hash_inv_extract)

lemma spawn_frame:
  assumes "start_process_locked env pumps m = (m1, r)"
  shows "m1 = m\<lparr>open_pumps := open_pumps m1\<rparr>"
    and "r = Inr p \<Longrightarrow> proc_config p = current_config_json_response m"
  using assms unfolding start_process_locked_def
  by (auto simp: Let_def split: sum.splits option.splits)

section \<open>A manager\<close>

definition example_manager :: manager where
  "example_manager = \<lparr>xray_bin = ''/usr/bin/rw-core'', geo_dir = ''/geo'', log_dir = ''/var/log/x'',
     data_dir = ''/data'', socket_path = ''/run/i.sock'', token = ''t'', xtls_socket = ''xt'',
     disable_hash_check = False, low_memory = False, warp_probe_port = 0, xray_version = None,
     xray_online = False, start_processing = False, lifecycle_held = False, last_start_request = None,
     current_config = None, current_config_json = None, running_config_json = None,
     running_config_captured_at = [], m_hash = initial_hash_state, m_process = None,
     open_pumps = [], disk_start = None\<rparr>"

section \<open>The answers of Start\<close>

lemma or_return_cases:
  assumes "or_return r k = (m', resp)"
  shows "(\<exists>m resp'. r = (m, Some resp') \<and> m' = start_leave m \<and> resp = resp')
    \<or> (\<exists>m. r = (m, None) \<and> k m = (m', resp))"
  using assms by (cases r; cases "snd r") (auto simp: or_return_def)

lemma start_unfold:
  assumes "start env req m = (m', resp)"
  shows "(\<exists>m0. start_enter env m = (m0, Some resp) \<and> m' = m0)
    \<or> (\<exists>m0 e. start_enter env m = (m0, None) \<and> start_render env req m0 = Inl e
          \<and> m' = start_leave m0 \<and> resp = start_response m0 False (Some e))
    \<or> (\<exists>m0 ctx. start_enter env m = (m0, None) \<and> start_render env req m0 = Inr ctx
          \<and> (or_return (start_check env ctx m0) (\<lambda>m1.
             or_return (start_prepare env m1) (\<lambda>m2.
             or_return (start_install env ctx m2) (\<lambda>m3.
             or_return (start_spawn env ctx m3) (\<lambda>m4.
               (let (m5, started) = wait_for_grpc (se_probes env) m4;
                    (m6, r) = start_finish env ctx started m5
                in (start_leave m6, r))))))) = (m', resp))"
  using assms by (auto simp: start_def split: prod.splits option.splits sum.splits)

text \<open>What a section keeps of the fields that the restart path sets.\<close>

definition same_request :: "manager \<Rightarrow> manager \<Rightarrow> bool" where
  "same_request m m' \<longleftrightarrow> last_start_request m' = last_start_request m \<and> disk_start m' = disk_start m"

lemma same_request_trans: "\<lbrakk>same_request a b; same_request b c\<rbrakk> \<Longrightarrow> same_request a c"
  by (simp add: same_request_def)

lemma same_request_leave [simp]: "same_request m (start_leave m') = same_request m m'"
  by (simp add: same_request_def)

lemma event_same: "same_request m (core_event_step e m)"
  by (cases e) (auto simp: same_request_def mark_exited_def forget_process_def split: option.splits)

lemma wait_same: "same_request m (fst (wait_for_grpc ps m))"
proof (induction ps m rule: wait_for_grpc.induct)
  case (2 p ps m)
  with event_same [of m "pr_event p"] show ?case
    by (auto simp: Let_def intro: same_request_trans)
qed (simp add: same_request_def)

lemma event_config:
  "current_config (core_event_step e m) = current_config m \<and> m_hash (core_event_step e m) = m_hash m
    \<and> (m_process (core_event_step e m) = None \<or> (\<exists>p p'. m_process m = Some p
         \<and> m_process (core_event_step e m) = Some p' \<and> proc_config p' = proc_config p))"
  by (cases e; cases "m_process m")
    (auto simp: mark_exited_def forget_process_def split: option.splits)

lemma wait_config:
  "current_config (fst (wait_for_grpc ps m)) = current_config m \<and> m_hash (fst (wait_for_grpc ps m)) = m_hash m
    \<and> (m_process (fst (wait_for_grpc ps m)) = None \<or> (\<exists>p p'. m_process m = Some p
         \<and> m_process (fst (wait_for_grpc ps m)) = Some p' \<and> proc_config p' = proc_config p))"
proof (induction ps m rule: wait_for_grpc.induct)
  case (1 m)
  then show ?case by (cases "m_process m") auto
next
  case (2 p ps m)
  note ev = event_config [of "pr_event p" m]
  from "2.IH" [OF refl refl] ev show ?case
    by (auto simp: Let_def)
qed

lemma sections_fail:
  "start_check env ctx m = (m', Some resp) \<Longrightarrow> resp_is_started resp"
  "start_check env ctx m = (m', None) \<Longrightarrow> same_request m m'"
  "start_prepare env m = (m', r) \<Longrightarrow> m' = m \<and> (case r of Some resp \<Rightarrow>
      \<not> resp_is_started resp \<and> resp_error resp \<noteq> None | None \<Rightarrow> True)"
  "start_spawn env ctx m = (m', r) \<Longrightarrow> same_request m m' \<and> (case r of Some resp \<Rightarrow>
      \<not> resp_is_started resp \<and> resp_error resp \<noteq> None | None \<Rightarrow> True)"
  by (auto simp: start_check_def start_prepare_def start_spawn_def start_response_def Let_def
      same_request_def start_process_locked_def split: if_splits option.splits sum.splits)

lemma install_fail:
  "start_install env ctx m = (m', r) \<Longrightarrow> same_request m m' \<and> (case r of Some resp \<Rightarrow>
      \<not> resp_is_started resp \<and> resp_error resp \<noteq> None | None \<Rightarrow> True)"
  by (auto simp: start_install_def stop_process_locked_def record_config_def start_response_def Let_def
      same_request_def split: if_splits option.splits prod.splits)

lemma finish_fail:
  "start_finish env ctx started m = (m', resp) \<Longrightarrow> resp_is_started resp = started
    \<and> (\<not> started \<longrightarrow> same_request m m' \<and> resp_error resp \<noteq> None)"
  by (auto simp: start_finish_def start_response_def Let_def same_request_def split: if_splits)

lemma enter_fail:
  "start_enter env m = (m', Some resp) \<Longrightarrow> m' = m \<and> \<not> resp_is_started resp \<and> resp_error resp \<noteq> None"
  "start_enter env m = (m', None) \<Longrightarrow> m' = m\<lparr>start_processing := True, lifecycle_held := True\<rparr>"
  by (auto simp: start_enter_def start_response_def split: option.splits if_splits)

text \<open>C3: A Start that is not answered with isStarted gives an error text and leaves both the
  request to restore on boot and the one in memory as they were, on every failing branch: the
  log directory, a call in progress, the WARP guard, the core loader, the stop of the old core,
  the spawn, and the wait for its API.\<close>

theorem failed_start_keeps_request:
  assumes "start env req m = (m', resp)" and "\<not> resp_is_started resp"
  shows "resp_error resp \<noteq> None \<and> last_start_request m' = last_start_request m
    \<and> disk_start m' = disk_start m"
proof -
  have "resp_error resp \<noteq> None \<and> same_request m m'"
    using start_unfold [OF assms(1)]
  proof (elim disjE exE conjE)
    fix m0 ctx
    assume enter: "start_enter env m = (m0, None)"
    assume run: "or_return (start_check env ctx m0) (\<lambda>m1. or_return (start_prepare env m1) (\<lambda>m2.
             or_return (start_install env ctx m2) (\<lambda>m3. or_return (start_spawn env ctx m3) (\<lambda>m4.
               (let (m5, started) = wait_for_grpc (se_probes env) m4;
                    (m6, r) = start_finish env ctx started m5
                in (start_leave m6, r)))))) = (m', resp)"
    have "same_request m m0" using enter_fail(2) [OF enter] by (simp add: same_request_def)
    with run assms(2) show ?thesis
      by (auto dest!: or_return_cases sections_fail install_fail finish_fail
          simp: wait_same [unfolded same_request_def] same_request_def split: prod.splits)
        (metis fst_conv same_request_def wait_same)+
  next
    fix m0 assume "start_enter env m = (m0, Some resp)" "m' = m0"
    with enter_fail(1) [of env m m0 resp] show ?thesis by (simp add: same_request_def)
  next
    fix m0 e assume "start_enter env m = (m0, None)" "m' = start_leave m0"
      "resp = start_response m0 False (Some e)"
    with enter_fail(2) [of env m m0] show ?thesis by (simp add: same_request_def start_response_def)
  qed
  then show ?thesis by (simp add: same_request_def)
qed

lemma check_success:
  assumes "start_check env ctx m = (m', Some resp)"
  shows "xray_online m \<and> \<not> sr_force_restart (ctx_request ctx) \<and> se_ping env
    \<and> \<not> is_need_restart (m_hash m) (sr_hashes (ctx_request ctx))
    \<and> m' = persist_start_request (se_disk_ok env) (ctx_request ctx) (record_config ctx m)"
  using assms by (auto simp: start_check_def Let_def split: if_splits)

lemma check_none:
  "start_check env ctx m = (m', None) \<Longrightarrow>
    \<not> (xray_online m \<and> \<not> disable_hash_check m \<and> \<not> sr_force_restart (ctx_request ctx) \<and> se_ping env
       \<and> \<not> is_need_restart (m_hash m) (sr_hashes (ctx_request ctx)))"
  by (auto simp: start_check_def Let_def split: if_splits)

lemma or_return_started:
  assumes "or_return r k = (m', resp)" "resp_is_started resp"
    and "\<And>m resp'. r = (m, Some resp') \<Longrightarrow> \<not> resp_is_started resp'"
  obtains m where "r = (m, None)" "k m = (m', resp)"
  using or_return_cases [OF assms(1)] assms(2,3) by blast

lemma persist_start_config [simp]:
  "current_config (persist_start_request w r m) = current_config m"
  "xray_online (persist_start_request w r m) = xray_online m"
  "last_start_request (persist_start_request w r m) = Some r"
  by (simp_all add: persist_start_request_def save_persisted_start_def)

lemma restart_success:
  assumes install: "start_install env ctx m = (m3, None)"
    and spawn: "start_spawn env ctx m3 = (m4, None)"
    and wait: "wait_for_grpc (se_probes env) m4 = (m5, True)"
    and finish: "start_finish env ctx True m5 = (m6, resp)"
  shows "current_config m6 = Some (ctx_config ctx)
    \<and> m_hash m6 = extract_users (sr_hashes (ctx_request ctx)) (ctx_config ctx)
    \<and> last_start_request m6 = Some (ctx_request ctx) \<and> xray_online m6
    \<and> running_config_json m6 = Some (ctx_json ctx)
    \<and> (case m_process m6 of Some p \<Rightarrow> proc_config p = ctx_json ctx | None \<Rightarrow> True)"
proof -
  have m3: "current_config m3 = Some (ctx_config ctx) \<and> current_config_json m3 = Some (ctx_json ctx)
      \<and> m_hash m3 = extract_users (sr_hashes (ctx_request ctx)) (ctx_config ctx)"
    using install by (auto simp: start_install_def stop_process_locked_def record_config_def Let_def
        split: if_splits option.splits prod.splits)
  obtain p where m4: "current_config m4 = current_config m3" "m_hash m4 = m_hash m3"
    "m_process m4 = Some p" "proc_config p = ctx_json ctx"
  proof -
    obtain m1 r where sp: "start_process_locked (se_spawn env) (ctx_pumps ctx) m3 = (m1, r)" by force
    from spawn sp obtain p where r: "r = Inr p" and m4: "m4 = m1\<lparr>m_process := Some p, xray_online := False\<rparr>"
      by (auto simp: start_spawn_def Let_def split: sum.splits)
    have "m4 = m3\<lparr>open_pumps := open_pumps m1, m_process := Some p, xray_online := False\<rparr>"
      unfolding m4 by (subst spawn_frame(1) [OF sp]) simp
    with spawn_frame(2) [OF sp r] m3 that show thesis by (simp add: current_config_json_response_def)
  qed
  have m5: "current_config m5 = current_config m4" "m_hash m5 = m_hash m4"
    "case m_process m5 of Some q \<Rightarrow> proc_config q = ctx_json ctx | None \<Rightarrow> True"
    using wait_config [of "se_probes env" m4] wait m4 by auto
  let ?m = "m5\<lparr>xray_online := True, running_config_json := Some (ctx_json ctx),
      running_config_captured_at := se_now env\<rparr>"
  obtain v where v: "refresh_version (se_env_version env) (se_version_output env) ?m = ?m\<lparr>xray_version := v\<rparr>"
    using refresh_version_eq by blast
  from finish v m3 m4 m5 show ?thesis by (auto simp: start_finish_def Let_def)
qed

text \<open>A start that goes past its check and succeeds has gone through every phase.\<close>

lemma start_rest_success:
  assumes rest: "or_return (start_prepare env m1) (\<lambda>m2. or_return (start_install env ctx m2)
        (\<lambda>m3. or_return (start_spawn env ctx m3) (\<lambda>m4.
               (let (m5, started) = wait_for_grpc (se_probes env) m4;
                    (m6, r) = start_finish env ctx started m5
                in (start_leave m6, r))))) = (m', resp)"
    and ok: "resp_is_started resp"
  obtains m2 m3 m4 m5 m6 where "start_install env ctx m2 = (m3, None)" "start_spawn env ctx m3 = (m4, None)"
    "wait_for_grpc (se_probes env) m4 = (m5, True)" "start_finish env ctx True m5 = (m6, resp)" "m' = start_leave m6"
proof -
  obtain m2 where prep: "start_prepare env m1 = (m2, None)"
    and rest2: "or_return (start_install env ctx m2) (\<lambda>m3. or_return (start_spawn env ctx m3) (\<lambda>m4.
               (let (m5, started) = wait_for_grpc (se_probes env) m4;
                    (m6, r) = start_finish env ctx started m5
                in (start_leave m6, r)))) = (m', resp)"
    by (rule or_return_started [OF rest ok]) (auto dest: sections_fail(3))
  obtain m3 where install: "start_install env ctx m2 = (m3, None)"
    and rest3: "or_return (start_spawn env ctx m3) (\<lambda>m4.
               (let (m5, started) = wait_for_grpc (se_probes env) m4;
                    (m6, r) = start_finish env ctx started m5
                in (start_leave m6, r))) = (m', resp)"
    by (rule or_return_started [OF rest2 ok]) (auto dest: install_fail)
  obtain m4 where spawn: "start_spawn env ctx m3 = (m4, None)"
    and last: "(let (m5, started) = wait_for_grpc (se_probes env) m4;
                    (m6, r) = start_finish env ctx started m5 in (start_leave m6, r)) = (m', resp)"
    by (rule or_return_started [OF rest3 ok]) (auto dest: sections_fail(4))
  obtain m5 st where w: "wait_for_grpc (se_probes env) m4 = (m5, st)" by force
  obtain m6 r where f: "start_finish env ctx st m5 = (m6, r)" by force
  from last w f have "m' = start_leave m6" "r = resp" by auto
  with finish_fail [OF f] ok install spawn w f that show ?thesis by simp
qed

text \<open>C2: A Start that is answered with isStarted has recorded the configuration generated from
  its request, the hashes of that configuration and the request itself, and either the core was
  online with the same users and is left alone, or the core's own document is the generated one
  and is kept as the running configuration.\<close>

theorem successful_start:
  assumes "start env req m = (m', resp)" and "resp_is_started resp"
  shows "\<exists>ctx. start_render env req (m\<lparr>start_processing := True, lifecycle_held := True\<rparr>) = Inr ctx
    \<and> current_config m' = Some (ctx_config ctx)
    \<and> m_hash m' = extract_users (sr_hashes req) (ctx_config ctx)
    \<and> last_start_request m' = Some req \<and> xray_online m'
    \<and> (if xray_online m \<and> \<not> sr_force_restart req \<and> \<not> disable_hash_check m \<and> se_ping env
          \<and> \<not> is_need_restart (m_hash m) (sr_hashes req)
       then m_process m' = m_process m
       else running_config_json m' = Some (ctx_json ctx)
         \<and> (case m_process m' of Some p \<Rightarrow> proc_config p = ctx_json ctx | None \<Rightarrow> True))"
  using start_unfold [OF assms(1)]
proof (elim disjE exE conjE)
  fix m0 assume "start_enter env m = (m0, Some resp)"
  with enter_fail(1) assms(2) show ?thesis by blast
next
  fix m0 e assume "resp = start_response m0 False (Some e)"
  with assms(2) show ?thesis by (simp add: start_response_def)
next
  fix m0 ctx
  assume enter: "start_enter env m = (m0, None)" and ctx: "start_render env req m0 = Inr ctx"
  assume run: "or_return (start_check env ctx m0) (\<lambda>m1. or_return (start_prepare env m1) (\<lambda>m2.
             or_return (start_install env ctx m2) (\<lambda>m3. or_return (start_spawn env ctx m3) (\<lambda>m4.
               (let (m5, started) = wait_for_grpc (se_probes env) m4;
                    (m6, r) = start_finish env ctx started m5
                in (start_leave m6, r)))))) = (m', resp)"
  have m0: "m0 = m\<lparr>start_processing := True, lifecycle_held := True\<rparr>"
    using enter_fail(2) [OF enter] .
  have req: "ctx_request ctx = req"
    using ctx by (auto simp: start_render_def Let_def split: prod.splits if_splits)
  have leave: "current_config (start_leave x) = current_config x" "xray_online (start_leave x) = xray_online x" for x
    by (simp_all add: start_leave_def)
  from or_return_cases [OF run] show ?thesis
  proof (elim disjE exE conjE)
    fix m1 resp' assume check: "start_check env ctx m0 = (m1, Some resp')" and m': "m' = start_leave m1"
    from check have "\<not> disable_hash_check m0" by (auto simp: start_check_def split: if_splits)
    with check_success [OF check] m' ctx m0 req show ?thesis
      by (intro exI [of _ ctx]) (simp add: leave record_config_def)
  next
    fix m1 assume check: "start_check env ctx m0 = (m1, None)"
      and rest: "or_return (start_prepare env m1) (\<lambda>m2. or_return (start_install env ctx m2)
        (\<lambda>m3. or_return (start_spawn env ctx m3) (\<lambda>m4.
               (let (m5, started) = wait_for_grpc (se_probes env) m4;
                    (m6, r) = start_finish env ctx started m5
                in (start_leave m6, r))))) = (m', resp)"
    have no_skip: "\<not> (xray_online m \<and> \<not> sr_force_restart req \<and> \<not> disable_hash_check m \<and> se_ping env
          \<and> \<not> is_need_restart (m_hash m) (sr_hashes req))"
      using check_none [OF check] m0 req by auto
    obtain m2 m3 m4 m5 m6 where "start_install env ctx m2 = (m3, None)" "start_spawn env ctx m3 = (m4, None)"
        "wait_for_grpc (se_probes env) m4 = (m5, True)" "start_finish env ctx True m5 = (m6, resp)" and m': "m' = start_leave m6"
      by (rule start_rest_success [OF rest assms(2)])
    from restart_success [OF this(1-4)] ctx m0 req m' show ?thesis
      unfolding if_not_P [OF no_skip] by (intro exI [of _ ctx]) (simp add: leave)
  qed
qed

section \<open>A concrete start\<close>

definition example_env :: start_env where
  "example_env = \<lparr>se_mkdir_error = None, se_config_env = sample_env, se_provider = None, se_ping = True,
     se_core_prepare_error = None, se_stop_in_time = True,
     se_spawn = \<lparr>sp_pump_errors = [], sp_stdout_error = None, sp_stderr_error = None, sp_exec_error = None, sp_pid = 7\<rparr>,
     se_probes = [\<lparr>pr_event = Core_Alive, pr_ping = False, pr_cancelled = False\<rparr>,
                  \<lparr>pr_event = Core_Alive, pr_ping = True, pr_cancelled = False\<rparr>],
     se_fail_stop_in_time = True, se_now = ''2025-01-01T00:00:00Z'', se_env_version = [],
     se_version_output = Some ''Xray 26.3.27'', se_disk_ok = True, se_err_log = None\<rparr>"

definition example_request :: start_request where
  "example_request = \<lparr>sr_force_restart = False, sr_hashes = sample_hashes,
     sr_xray_config = [(''inbounds'', VArr [VMap sample_inbound])]\<rparr>"

lemma example_render:
  assumes "xtls_socket m = ''xt''" "log_dir m = ''/var/log/x''"
  shows "\<exists>ctx. start_render example_env example_request m = Inr ctx"
proof -
  let ?c = "generate_api_config sample_env [(''inbounds'', VArr [VMap sample_inbound])] ''xt''
      (torrent_blocker_options None m) [warp_probe_port m]"
  have g: "guard_warp_outbounds sample_env (outbounds_of (clone_map [(''inbounds'', VArr [VMap sample_inbound])]))
      = Inr ([], False)"
    by (simp add: outbounds_of_def clone_map_def array_from_def guard_warp_outbounds_def)
  have "lookup ?c ''__warpGuardError'' = None" "lookup ?c ''log'' = None"
    by (subst generated_frame_eq; simp add: g)+
  then show ?thesis
    by (simp add: start_render_def example_env_def example_request_def configure_managed_log_paths_def assms
        Let_def)
qed

lemma example_started:
  "resp_is_started (snd (start example_env example_request example_manager))"
proof -
  let ?m = "example_manager\<lparr>start_processing := True, lifecycle_held := True\<rparr>"
  obtain ctx where ctx: "start_render example_env example_request ?m = Inr ctx"
    using example_render [of ?m] by (auto simp: example_manager_def)
  have enter: "start_enter example_env example_manager = (?m, None)"
    by (simp add: start_enter_def example_env_def example_manager_def)
  have "start_pumps [] ps q = Inr (q @ ps)" for ps q
    by (induction ps arbitrary: q) auto
  then show ?thesis
    unfolding start_def enter ctx prod.case option.case sum.case
    by (simp add: start_check_def start_prepare_def start_install_def start_spawn_def start_finish_def
        or_return_def stop_process_locked_def start_process_locked_def record_config_def Let_def
        example_env_def example_manager_def rw_core_exit_hint_def start_response_def split_beta)
qed

definition started_manager :: manager where
  "started_manager = fst (start example_env example_request example_manager)"

lemma started_run:
  "start example_env example_request example_manager
     = (started_manager, snd (start example_env example_request example_manager))"
  by (simp add: started_manager_def)

theorem successful_start_witness:
  "last_start_request started_manager = Some example_request \<and> xray_online started_manager"
  using successful_start [OF started_run example_started] by auto

lemma example_failed:
  "\<not> resp_is_started (snd (start (example_env\<lparr>se_core_prepare_error := Some ''checksum''\<rparr>)
       example_request example_manager))"
proof -
  let ?m = "example_manager\<lparr>start_processing := True, lifecycle_held := True\<rparr>"
  let ?env = "example_env\<lparr>se_core_prepare_error := Some ''checksum''\<rparr>"
  have "start_render ?env example_request ?m = start_render example_env example_request ?m"
    by (simp add: start_render_def)
  with example_render [of ?m] obtain ctx where ctx: "start_render ?env example_request ?m = Inr ctx"
    by (auto simp: example_manager_def)
  have enter: "start_enter ?env example_manager = (?m, None)"
    by (simp add: start_enter_def example_env_def example_manager_def)
  show ?thesis
    unfolding start_def enter ctx prod.case option.case sum.case
    by (simp add: start_check_def start_prepare_def or_return_def example_manager_def start_response_def)
qed

theorem failed_start_keeps_request_witness:
  "last_start_request (fst (start (example_env\<lparr>se_core_prepare_error := Some ''checksum''\<rparr>)
       example_request example_manager)) = None"
  using failed_start_keeps_request [OF prod.collapse [symmetric] example_failed]
  by (simp add: example_manager_def)

section \<open>What the failure paths leave behind\<close>





text \<open>The wait with the exit test left out.\<close>

fun wait_by_ping :: "grpc_probe list \<Rightarrow> bool" where
  "wait_by_ping [] = False"
| "wait_by_ping (p # ps) = (if pr_ping p then True else if pr_cancelled p then False else wait_by_ping ps)"

text \<open>The early exit of waitForGRPC does not work once monitorProcess has forgotten the
  process: the hint is then "rw-core is not running", which does not contain "exited", so the
  wait goes through all its rounds as if there were no exit test.\<close>

theorem forgotten_core_is_not_noticed:
  assumes "m_process m = None"
  shows "wait_for_grpc ps m = (m, wait_by_ping ps)"
proof -
  have event: "core_event_step e m = m" for e
    using assms by (cases e) (auto simp: mark_exited_def forget_process_def)
  have hint: "rw_core_exit_hint m = ''rw-core is not running''"
    using assms by (simp add: rw_core_exit_hint_def)
  have "\<not> contains_text ''rw-core is not running'' ''exited''"
    by (simp add: contains_text_def has_prefix_def)
  then show ?thesis
    by (induction ps) (auto simp: event hint Let_def)
qed

theorem forgotten_core_is_not_noticed_witness:
  "wait_for_grpc [\<lparr>pr_event = Core_Forgotten None, pr_ping = False, pr_cancelled = False\<rparr>,
      \<lparr>pr_event = Core_Alive, pr_ping = True, pr_cancelled = False\<rparr>] example_manager
    = (example_manager, True)"
  by (subst forgotten_core_is_not_noticed) (simp_all add: example_manager_def)

text \<open>When one of the two log files of the core cannot be opened, startProcessLocked returns
  the error with the pumps it has started still running, and no process refers to them; when
  the exec fails they are closed.\<close>

theorem log_open_error_leaks_pumps:
  assumes "start_pumps (sp_pump_errors sp) pumps [] = Inr started"
    and "start_process_locked sp pumps m = (m', Inl e)"
  shows "open_pumps m' = (if sp_stdout_error sp = None \<and> sp_stderr_error sp = None
     then open_pumps m else open_pumps m @ started) \<and> m_process m' = m_process m"
  using assms by (auto simp: start_process_locked_def Let_def split: option.splits)

theorem log_open_error_leaks_pumps_witness:
  "open_pumps (fst (start_process_locked
      \<lparr>sp_pump_errors = [None], sp_stdout_error = Some ''denied'', sp_stderr_error = None,
       sp_exec_error = None, sp_pid = 1\<rparr> [''/var/log/x/.access.log.pipe''] example_manager))
    = [''/var/log/x/.access.log.pipe'']"
proof -
  let ?sp = "\<lparr>sp_pump_errors = [None], sp_stdout_error = Some ''denied'', sp_stderr_error = None,
       sp_exec_error = None, sp_pid = 1\<rparr>"
  have s: "start_pumps (sp_pump_errors ?sp) [''/var/log/x/.access.log.pipe''] [] = Inr [''/var/log/x/.access.log.pipe'']"
    by simp
  have "start_process_locked ?sp [''/var/log/x/.access.log.pipe''] example_manager
      = (example_manager\<lparr>open_pumps := [''/var/log/x/.access.log.pipe'']\<rparr>, Inl (''open xray stdout log: '' @ ''denied''))"
    by (simp add: start_process_locked_def example_manager_def)
  from log_open_error_leaks_pumps [OF s this] this show ?thesis by (simp add: example_manager_def)
qed

text \<open>A stop that is asked to clear everything leaves the hash state and the inbound tags as they
  are when the process is already gone.\<close>

lemma stop_without_process_keeps_tags:
  "m_process m = None \<Longrightarrow> m_hash (fst (stop_process_locked t True m)) = m_hash m"
  by (simp add: stop_process_locked_def Let_def)

end
