(* ===== verification/ManagerConcurrency.thy ===== *)
theory ManagerConcurrency
  imports ManagerLifecycle
begin

text \<open>The calls of internal/xray/manager.go and running_config.go as they interleave.  Every call
  of Start, Stop, StopIfOnline, RunningConfig and Health is a thread with a program counter, and
  one step of it is one critical section under the mutex of the manager, one operation on the
  lifecycle lock, or one action outside both.  Any number of calls may be under way; the monitor of
  the process and the user handlers run in between.

  Manager.start and Manager.stop are what one call does when nothing happens between its
  sections; start_is_run and stop_is_run below show it.\<close>

section \<open>The sections of Start\<close>

text \<open>What the deferred functions of a Start that returns have to release.\<close>

datatype release = Release_None | Release_Claim | Release_Lock

datatype start_pc =
    Making_Dir | Claiming | Locking | Rendering
  | Gating start_ctx | Pinging start_ctx | Comparing start_ctx
  | Skipping start_ctx | Going_Offline start_ctx
  | Preparing start_ctx | Installing start_ctx | Clearing start_ctx | Spawning start_ctx
  | Waiting "grpc_probe list" start_ctx | Reaching grpc_probe "grpc_probe list" start_ctx
  | Going_Online start_ctx | Refreshing start_ctx
  | Giving_Up start_ctx | Explaining start_ctx
  | Remembering start_ctx | Saving start_ctx
  | Answering release bool "string option"
  | Unlocking start_reply | Unclaiming start_reply | Start_Done start_reply

text \<open>The rounds of waitForGRPC that are left until the deadline are in the program counter.  The
  core that was spawned fetches its configuration while Start waits.\<close>

fun start_step :: "start_env \<Rightarrow> start_request \<Rightarrow> start_pc \<Rightarrow> manager \<Rightarrow> (start_pc \<times> manager) option" where
  "start_step env req Making_Dir m = Some (case se_mkdir_error env of
     Some e \<Rightarrow> Answering Release_None False (Some e) | None \<Rightarrow> Claiming, m)"
| "start_step env req Claiming m = Some
     (if start_processing m then (Answering Release_None False (Some in_progress), m)
      else (Locking, m\<lparr>start_processing := True\<rparr>))"
| "start_step env req Locking m = Some
     (if lifecycle_held m then (Answering Release_Claim False (Some in_progress), m)
      else (Rendering, m\<lparr>lifecycle_held := True\<rparr>))"
| "start_step env req Rendering m = Some (case start_render env req m of
     Inl e \<Rightarrow> Answering Release_Lock False (Some e) | Inr ctx \<Rightarrow> Gating ctx, m)"
| "start_step env req (Gating ctx) m = Some
     (if xray_online m \<and> \<not> disable_hash_check m \<and> \<not> sr_force_restart req then Pinging ctx
      else Preparing ctx, m)"
| "start_step env req (Pinging ctx) m = Some (if se_ping env then Comparing ctx else Going_Offline ctx, m)"
| "start_step env req (Comparing ctx) m = Some
     (if \<not> is_need_restart (m_hash m) (sr_hashes req) then Skipping ctx else Preparing ctx, m)"
| "start_step env req (Skipping ctx) m = Some (Remembering ctx, record_config ctx m)"
| "start_step env req (Going_Offline ctx) m = Some (Preparing ctx, m\<lparr>xray_online := False\<rparr>)"
| "start_step env req (Preparing ctx) m = Some (case se_core_prepare_error env of
     Some e \<Rightarrow> Answering Release_Lock False (Some e) | None \<Rightarrow> Installing ctx, m)"
| "start_step env req (Installing ctx) m = Some
     (case stop_process_locked (se_stop_in_time env) False (record_config ctx m) of
        (m1, Some e) \<Rightarrow> (Answering Release_Lock False (Some e), m1)
      | (m1, None) \<Rightarrow> (Clearing ctx, m1))"
| "start_step env req (Clearing ctx) m = Some (Spawning ctx, m)"
| "start_step env req (Spawning ctx) m = Some
     (case start_process_locked (se_spawn env) (ctx_pumps ctx) m of
        (m1, Inl e) \<Rightarrow> (Answering Release_Lock False (Some e), m1\<lparr>xray_online := False\<rparr>)
      | (m1, Inr p) \<Rightarrow> (Waiting (se_probes env) ctx, m1\<lparr>m_process := Some p, xray_online := False\<rparr>))"
| "start_step env req (Waiting [] ctx) m = Some (Giving_Up ctx, m)"
| "start_step env req (Waiting (p # ps) ctx) m = Some
     (if rw_core_exit_hint m \<noteq> [] \<and> contains_text (rw_core_exit_hint m) ''exited'' then Giving_Up ctx
      else Reaching p ps ctx, m)"
| "start_step env req (Reaching p ps ctx) m = Some
     (if pr_ping p then Going_Online ctx else if pr_cancelled p then Giving_Up ctx else Waiting ps ctx, m)"
| "start_step env req (Going_Online ctx) m = Some (Refreshing ctx,
     m\<lparr>xray_online := True, running_config_json := Some (ctx_json ctx), running_config_captured_at := se_now env\<rparr>)"
| "start_step env req (Refreshing ctx) m = Some (Remembering ctx,
     refresh_version (se_env_version env) (se_version_output env) m)"
| "start_step env req (Giving_Up ctx) m = Some (Explaining ctx,
     (fst (stop_process_locked (se_fail_stop_in_time env) False m))\<lparr>xray_online := False\<rparr>)"
| "start_step env req (Explaining ctx) m = Some
     (Answering Release_Lock False (Some (start_fail_message env m)), m)"
| "start_step env req (Remembering ctx) m = Some (Saving ctx, m\<lparr>last_start_request := Some req\<rparr>)"
| "start_step env req (Saving ctx) m = Some
     (Answering Release_Lock True None, save_persisted_start (se_disk_ok env) req m)"
| "start_step env req (Answering r ok message) m = Some
     (case r of Release_None \<Rightarrow> Start_Done (start_response m ok message)
      | Release_Claim \<Rightarrow> Unclaiming (start_response m ok message)
      | Release_Lock \<Rightarrow> Unlocking (start_response m ok message), m)"
| "start_step env req (Unlocking resp) m = Some (Unclaiming resp, m\<lparr>lifecycle_held := False\<rparr>)"
| "start_step env req (Unclaiming resp) m = Some (Start_Done resp, m\<lparr>start_processing := False\<rparr>)"
| "start_step env req (Start_Done resp) m = None"

section \<open>The sections of the other calls\<close>

text \<open>Stop waits for the lifecycle lock; StopIfOnline first reads the online flag.\<close>

datatype stop_pc =
    Asking_Online | Stop_Locking | Reading_Last | Flushing start_request | Stopping
  | Removing bool | Stop_Unlocking bool | Stop_Done bool

fun stop_step :: "bool \<Rightarrow> bool \<Rightarrow> bool \<Rightarrow> stop_pc \<Rightarrow> manager \<Rightarrow> (stop_pc \<times> manager) option" where
  "stop_step disk_ok in_time clear Asking_Online m =
     Some (if xray_online m then Stop_Locking else Stop_Done False, m)"
| "stop_step disk_ok in_time clear Stop_Locking m =
     (if lifecycle_held m then None
      else Some (if clear then Stopping else Reading_Last, m\<lparr>lifecycle_held := True\<rparr>))"
| "stop_step disk_ok in_time clear Reading_Last m = Some (case last_start_request m of
     None \<Rightarrow> Stopping | Some req \<Rightarrow> Flushing req, m)"
| "stop_step disk_ok in_time clear (Flushing req) m = Some (Stopping, save_persisted_start disk_ok req m)"
| "stop_step disk_ok in_time clear Stopping m = Some
     (let (m1, err) = stop_process_locked in_time True m in
      if clear then (Removing (err = None), m1\<lparr>last_start_request := None\<rparr>)
      else (Stop_Unlocking (err = None), m1))"
| "stop_step disk_ok in_time clear (Removing ok) m = Some (Stop_Unlocking ok, clear_persisted_start disk_ok m)"
| "stop_step disk_ok in_time clear (Stop_Unlocking ok) m = Some (Stop_Done ok, m\<lparr>lifecycle_held := False\<rparr>)"
| "stop_step disk_ok in_time clear (Stop_Done ok) m = None"

datatype config_pc =
    Config_Locking | Config_Reading | Config_Pinging bool "jval option" string
  | Config_Unlocking config_state | Config_Done config_state

fun config_step :: "bool \<Rightarrow> config_pc \<Rightarrow> manager \<Rightarrow> (config_pc \<times> manager) option" where
  "config_step ping Config_Locking m = Some
     (if lifecycle_held m then (Config_Done Busy, m) else (Config_Reading, m\<lparr>lifecycle_held := True\<rparr>))"
| "config_step ping Config_Reading m = Some
     (Config_Pinging (xray_online m) (running_config_json m) (running_config_captured_at m), m)"
| "config_step ping (Config_Pinging online snapshot captured_at) m = Some (Config_Unlocking
     (if \<not> online \<or> \<not> ping then Stopped
      else (case snapshot of None \<Rightarrow> Unavailable
        | Some doc \<Rightarrow> if captured_at = [] then Unavailable else Running doc captured_at)), m)"
| "config_step ping (Config_Unlocking st) m = Some (Config_Done st, m\<lparr>lifecycle_held := False\<rparr>)"
| "config_step ping (Config_Done st) m = None"

text \<open>Health takes no lifecycle lock: what it writes may be older than what other calls wrote since.\<close>

datatype health_pc =
    Asking_Version | Probing_Version | Health_Reading | Health_Pinging bool bool "string option"
  | Health_Writing bool "string option" | Health_Done health_response

fun health_step ::
  "string \<Rightarrow> string option \<Rightarrow> bool \<Rightarrow> health_pc \<Rightarrow> manager \<Rightarrow> (health_pc \<times> manager) option" where
  "health_step env_version output ping Asking_Version m = Some
     (if xray_version m = None then Probing_Version else Health_Reading, m)"
| "health_step env_version output ping Probing_Version m = Some
     (Health_Reading, refresh_version env_version output m)"
| "health_step env_version output ping Health_Reading m = Some
     (Health_Pinging (m_process m \<noteq> None) (xray_online m) (xray_version m), m)"
| "health_step env_version output ping (Health_Pinging present cached version) m = Some
     (Health_Writing (if present \<or> cached then ping else cached) version, m)"
| "health_step env_version output ping (Health_Writing online version) m = Some
     (Health_Done \<lparr>hr_status_cached = online, hr_xray_version = version\<rparr>, m\<lparr>xray_online := online\<rparr>)"
| "health_step env_version output ping (Health_Done resp) m = None"

section \<open>The calls of a node\<close>

datatype call =
    Start_Call start_env start_request start_pc
  | Stop_Call bool bool bool stop_pc
  | Config_Call bool config_pc
  | Health_Call string "string option" bool health_pc

fun call_step :: "call \<Rightarrow> manager \<Rightarrow> (call \<times> manager) option" where
  "call_step (Start_Call env req pc) m = map_option (apfst (Start_Call env req)) (start_step env req pc m)"
| "call_step (Stop_Call disk_ok in_time clear pc) m =
     map_option (apfst (Stop_Call disk_ok in_time clear)) (stop_step disk_ok in_time clear pc m)"
| "call_step (Config_Call ping pc) m = map_option (apfst (Config_Call ping)) (config_step ping pc m)"
| "call_step (Health_Call env_version output ping pc) m =
     map_option (apfst (Health_Call env_version output ping)) (health_step env_version output ping pc m)"

fun arriving :: "call \<Rightarrow> bool" where
  "arriving (Start_Call env req pc) \<longleftrightarrow> pc = Making_Dir"
| "arriving (Stop_Call disk_ok in_time clear pc) \<longleftrightarrow> pc = Stop_Locking \<or> pc = Asking_Online \<and> \<not> clear"
| "arriving (Config_Call ping pc) \<longleftrightarrow> pc = Config_Locking"
| "arriving (Health_Call env_version output ping pc) \<longleftrightarrow> pc = Asking_Version"

fun finished :: "call \<Rightarrow> bool" where
  "finished (Start_Call env req (Start_Done resp)) = True"
| "finished (Stop_Call disk_ok in_time clear (Stop_Done ok)) = True"
| "finished (Config_Call ping (Config_Done st)) = True"
| "finished (Health_Call env_version output ping (Health_Done resp)) = True"
| "finished c = False"

record node =
  nd_manager :: manager
  nd_calls :: "call list"

inductive node_step :: "node \<Rightarrow> node \<Rightarrow> bool" where
  call_moves: "\<lbrakk>i < length cs; call_step (cs ! i) m = Some (c', m')\<rbrakk> \<Longrightarrow>
    node_step \<lparr>nd_manager = m, nd_calls = cs\<rparr> \<lparr>nd_manager = m', nd_calls = cs[i := c']\<rparr>"
| call_arrives: "arriving c \<Longrightarrow>
    node_step \<lparr>nd_manager = m, nd_calls = cs\<rparr> \<lparr>nd_manager = m, nd_calls = cs @ [c]\<rparr>"
| process_ended:
    "node_step \<lparr>nd_manager = m, nd_calls = cs\<rparr> \<lparr>nd_manager = mark_exited err m, nd_calls = cs\<rparr>"
| process_forgotten:
    "node_step \<lparr>nd_manager = m, nd_calls = cs\<rparr> \<lparr>nd_manager = forget_process m, nd_calls = cs\<rparr>"
| user_changed: "run_user_op op (m_hash m) = Some h \<Longrightarrow>
    node_step \<lparr>nd_manager = m, nd_calls = cs\<rparr> \<lparr>nd_manager = m\<lparr>m_hash := h\<rparr>, nd_calls = cs\<rparr>"
| tag_added:
    "node_step \<lparr>nd_manager = m, nd_calls = cs\<rparr>
       \<lparr>nd_manager = m\<lparr>m_hash := add_inbound_tag t (m_hash m)\<rparr>, nd_calls = cs\<rparr>"

definition fresh :: "manager \<Rightarrow> bool" where
  "fresh m \<longleftrightarrow> \<not> xray_online m \<and> \<not> start_processing m \<and> \<not> lifecycle_held m \<and> last_start_request m = None
     \<and> current_config m = None \<and> current_config_json m = None \<and> running_config_json m = None
     \<and> m_hash m = initial_hash_state \<and> m_process m = None \<and> open_pumps m = []"

text \<open>A node starts with the requests that earlier runs of it have accepted; one of them may be in
  last-start.json.\<close>

definition stored_form :: "start_request \<Rightarrow> start_request" where
  "stored_form req = req\<lparr>sr_xray_config := clone_map (sr_xray_config req)\<rparr>"

inductive reachable :: "start_request list \<Rightarrow> node \<Rightarrow> bool" for earlier where
  reach_init: "\<lbrakk>fresh m; case disk_start m of Some r \<Rightarrow> r \<in> stored_form ` set earlier | None \<Rightarrow> True\<rbrakk> \<Longrightarrow>
    reachable earlier \<lparr>nd_manager = m, nd_calls = []\<rparr>"
| reach_step: "\<lbrakk>reachable earlier s; node_step s t\<rbrakk> \<Longrightarrow> reachable earlier t"

section \<open>Who holds the lock, and who has claimed the start\<close>

fun start_locked :: "start_pc \<Rightarrow> bool" where
  "start_locked Making_Dir = False"
| "start_locked Claiming = False"
| "start_locked Locking = False"
| "start_locked (Answering r ok message) \<longleftrightarrow> r = Release_Lock"
| "start_locked (Unclaiming resp) = False"
| "start_locked (Start_Done resp) = False"
| "start_locked _ = True"

fun start_claimed :: "start_pc \<Rightarrow> bool" where
  "start_claimed Making_Dir = False"
| "start_claimed Claiming = False"
| "start_claimed (Answering r ok message) \<longleftrightarrow> r \<noteq> Release_None"
| "start_claimed (Start_Done resp) = False"
| "start_claimed _ = True"

fun holds_lock :: "call \<Rightarrow> bool" where
  "holds_lock (Start_Call env req pc) = start_locked pc"
| "holds_lock (Stop_Call disk_ok in_time clear pc) = (case pc of
     Asking_Online \<Rightarrow> False | Stop_Locking \<Rightarrow> False | Stop_Done ok \<Rightarrow> False | _ \<Rightarrow> True)"
| "holds_lock (Config_Call ping pc) = (case pc of Config_Locking \<Rightarrow> False | Config_Done st \<Rightarrow> False | _ \<Rightarrow> True)"
| "holds_lock (Health_Call env_version output ping pc) = False"

fun holds_claim :: "call \<Rightarrow> bool" where
  "holds_claim (Start_Call env req pc) = start_claimed pc"
| "holds_claim _ = False"

lemma filter_count_update:
  assumes "i < length xs"
  shows "length (filter P (xs[i := x])) + (if P (xs ! i) then 1 else 0)
     = length (filter P xs) + (if P x then 1 else 0)"
  using arg_cong [OF id_take_nth_drop [OF assms], of "\<lambda>ys. length (filter P ys)"]
  by (simp add: upd_conv_take_nth_drop [OF assms])

lemma all_after_update:
  assumes "P x" and "\<And>j. \<lbrakk>j < length xs; j \<noteq> i\<rbrakk> \<Longrightarrow> P (xs ! j)"
  shows "\<forall>y \<in> set (xs[i := x]). P y"
  using assms by (metis in_set_conv_nth length_list_update nth_list_update_eq nth_list_update_neq)

text \<open>A token that one of a list of threads may hold, with a flag that says whether it is taken.\<close>

locale shared_token =
  fixes moves :: "'c \<Rightarrow> 'm \<Rightarrow> ('c \<times> 'm) option"
    and holds :: "'c \<Rightarrow> bool"
    and taken :: "'m \<Rightarrow> bool"
  assumes acquires: "\<lbrakk>moves c m = Some (c', m'); \<not> holds c; holds c'\<rbrakk> \<Longrightarrow> \<not> taken m \<and> taken m'"
    and releases: "\<lbrakk>moves c m = Some (c', m'); holds c; \<not> holds c'\<rbrakk> \<Longrightarrow> \<not> taken m'"
    and keeps: "\<lbrakk>moves c m = Some (c', m'); holds c = holds c'\<rbrakk> \<Longrightarrow> taken m' = taken m"
begin

lemma count_after_move:
  assumes "length (filter holds cs) = (if taken m then 1 else 0)"
    and "i < length cs" and "moves (cs ! i) m = Some (c', m')"
  shows "length (filter holds (cs[i := c'])) = (if taken m' then 1 else 0)"
proof -
  note count = filter_count_update [OF assms(2), of holds c']
  have "holds (cs ! i) \<Longrightarrow> length (filter holds cs) > 0"
    using assms(2) by (metis filter_empty_conv length_greater_0_conv nth_mem)
  then show ?thesis
    using count assms(1) acquires [OF assms(3)] releases [OF assms(3)] keeps [OF assms(3)]
    by (cases "holds (cs ! i)"; cases "holds c'") (auto split: if_splits)
qed

lemma holder_alone:
  assumes "length (filter holds cs) = (if taken m then 1 else 0)"
    and "i < length cs" "j < length cs" "holds (cs ! i)" "holds (cs ! j)"
  shows "i = j"
proof (rule ccontr)
  assume "i \<noteq> j"
  then have "card {k. k < length cs \<and> holds (cs ! k)} \<ge> card {i, j}"
    using assms(2-5) by (intro card_mono) auto
  with \<open>i \<noteq> j\<close> assms(1) show False by (simp add: length_filter_conv_card split: if_splits)
qed

lemma holder_exists:
  assumes "length (filter holds cs) = (if taken m then 1 else 0)" and "taken m"
  obtains i where "i < length cs" "holds (cs ! i)"
proof -
  have "filter holds cs \<noteq> []" using assms by auto
  then obtain c where "c \<in> set cs" "holds c" by (metis filter_False)
  with that show thesis by (metis in_set_conv_nth)
qed

end

lemma stop_process_flags [simp]:
  "stop_process_locked t c m = (m1, r) \<Longrightarrow> lifecycle_held m1 = lifecycle_held m"
  "stop_process_locked t c m = (m1, r) \<Longrightarrow> start_processing m1 = start_processing m"
  using stop_process_frame(1,2) [of t c m] by simp_all

lemma spawn_flags [simp]:
  "start_process_locked e ps m = (m1, r) \<Longrightarrow> lifecycle_held m1 = lifecycle_held m"
  "start_process_locked e ps m = (m1, r) \<Longrightarrow> start_processing m1 = start_processing m"
  by (subst spawn_frame(1), assumption, simp)+

lemma refresh_frame [simp]:
  "lifecycle_held (refresh_version e out m) = lifecycle_held m"
  "start_processing (refresh_version e out m) = start_processing m"
  "running_config_json (refresh_version e out m) = running_config_json m"
  "current_config_json (refresh_version e out m) = current_config_json m"
  "last_start_request (refresh_version e out m) = last_start_request m"
  "disk_start (refresh_version e out m) = disk_start m"
  "m_process (refresh_version e out m) = m_process m" "m_hash (refresh_version e out m) = m_hash m"
  using refresh_version_eq [of e out m] by auto

lemma clear_persisted_frame [simp]:
  "lifecycle_held (clear_persisted_start ok m) = lifecycle_held m"
  "start_processing (clear_persisted_start ok m) = start_processing m"
  "running_config_json (clear_persisted_start ok m) = running_config_json m"
  "current_config_json (clear_persisted_start ok m) = current_config_json m"
  "last_start_request (clear_persisted_start ok m) = last_start_request m"
  "m_process (clear_persisted_start ok m) = m_process m" "m_hash (clear_persisted_start ok m) = m_hash m"
  by (simp_all add: clear_persisted_start_def)

lemmas section_splits = option.splits sum.splits prod.splits if_splits release.splits

lemma start_step_lock:
  assumes "start_step env req pc m = Some (pc', m')"
  shows "lifecycle_held m' = (if start_locked pc = start_locked pc' then lifecycle_held m else start_locked pc')"
    and "\<not> start_locked pc \<Longrightarrow> start_locked pc' \<Longrightarrow> \<not> lifecycle_held m"
    and "start_processing m' = (if start_claimed pc = start_claimed pc' then start_processing m else start_claimed pc')"
    and "\<not> start_claimed pc \<Longrightarrow> start_claimed pc' \<Longrightarrow> \<not> start_processing m"
  using assms by (cases "(env, req, pc, m)" rule: start_step.cases; auto split: section_splits)+

lemma stop_step_lock:
  assumes "stop_step d t c pc m = Some (pc', m')"
  shows "lifecycle_held m' = (if holds_lock (Stop_Call d t c pc) = holds_lock (Stop_Call d t c pc')
      then lifecycle_held m else holds_lock (Stop_Call d t c pc'))"
    and "\<not> holds_lock (Stop_Call d t c pc) \<Longrightarrow> holds_lock (Stop_Call d t c pc') \<Longrightarrow> \<not> lifecycle_held m"
    and "start_processing m' = start_processing m"
  using assms by (cases "(d, t, c, pc, m)" rule: stop_step.cases; auto split: section_splits)+

lemma config_step_lock:
  assumes "config_step ping pc m = Some (pc', m')"
  shows "lifecycle_held m' = (if holds_lock (Config_Call ping pc) = holds_lock (Config_Call ping pc')
      then lifecycle_held m else holds_lock (Config_Call ping pc'))"
    and "\<not> holds_lock (Config_Call ping pc) \<Longrightarrow> holds_lock (Config_Call ping pc') \<Longrightarrow> \<not> lifecycle_held m"
    and "start_processing m' = start_processing m"
  using assms by (cases "(ping, pc, m)" rule: config_step.cases; auto split: section_splits)+

lemma health_step_lock:
  assumes "health_step v out ping pc m = Some (pc', m')"
  shows "lifecycle_held m' = lifecycle_held m" "start_processing m' = start_processing m"
  using assms by (cases "(v, out, ping, pc, m)" rule: health_step.cases; auto split: section_splits)+

lemma call_step_lock:
  assumes "call_step c m = Some (c', m')"
  shows "lifecycle_held m' = (if holds_lock c = holds_lock c' then lifecycle_held m else holds_lock c')"
    and "\<not> holds_lock c \<Longrightarrow> holds_lock c' \<Longrightarrow> \<not> lifecycle_held m"
    and "start_processing m' = (if holds_claim c = holds_claim c' then start_processing m else holds_claim c')"
    and "\<not> holds_claim c \<Longrightarrow> holds_claim c' \<Longrightarrow> \<not> start_processing m"
proof -
  have "lifecycle_held m' = (if holds_lock c = holds_lock c' then lifecycle_held m else holds_lock c')
    \<and> (\<not> holds_lock c \<longrightarrow> holds_lock c' \<longrightarrow> \<not> lifecycle_held m)
    \<and> start_processing m' = (if holds_claim c = holds_claim c' then start_processing m else holds_claim c')
    \<and> (\<not> holds_claim c \<longrightarrow> holds_claim c' \<longrightarrow> \<not> start_processing m)"
  proof (cases c)
    case (Start_Call env req pc)
    with assms obtain pc' where "c' = Start_Call env req pc'" "start_step env req pc m = Some (pc', m')" by auto
    with start_step_lock [OF this(2)] Start_Call show ?thesis by simp
  next
    case (Stop_Call d t clear pc)
    with assms obtain pc' where "c' = Stop_Call d t clear pc'" "stop_step d t clear pc m = Some (pc', m')" by auto
    with stop_step_lock [OF this(2)] Stop_Call show ?thesis by (simp del: holds_lock.simps)
  next
    case (Config_Call ping pc)
    with assms obtain pc' where "c' = Config_Call ping pc'" "config_step ping pc m = Some (pc', m')" by auto
    with config_step_lock [OF this(2)] Config_Call show ?thesis by (simp del: holds_lock.simps)
  next
    case (Health_Call v out ping pc)
    with assms obtain pc' where "c' = Health_Call v out ping pc'" "health_step v out ping pc m = Some (pc', m')" by auto
    with health_step_lock [OF this(2)] Health_Call show ?thesis by simp
  qed
  then show "lifecycle_held m' = (if holds_lock c = holds_lock c' then lifecycle_held m else holds_lock c')"
    and "\<not> holds_lock c \<Longrightarrow> holds_lock c' \<Longrightarrow> \<not> lifecycle_held m"
    and "start_processing m' = (if holds_claim c = holds_claim c' then start_processing m else holds_claim c')"
    and "\<not> holds_claim c \<Longrightarrow> holds_claim c' \<Longrightarrow> \<not> start_processing m"
    by blast+
qed

interpretation lifecycle: shared_token call_step holds_lock lifecycle_held
  by unfold_locales (auto dest: call_step_lock)

interpretation claim: shared_token call_step holds_claim start_processing
  by unfold_locales (auto dest: call_step_lock)

section \<open>What the holder of the lock can rely on\<close>

text \<open>Facts about the shared state that a thread keeps while it holds the token: the steps of the
  others are quiet, which no such fact notices.\<close>

locale guarded_token = shared_token +
  fixes inside :: "'c \<Rightarrow> 'm \<Rightarrow> bool"
    and sound :: "'m \<Rightarrow> bool"
    and quiet :: "'m \<Rightarrow> 'm \<Rightarrow> bool"
  assumes outside: "\<not> holds c \<Longrightarrow> inside c m"
    and quiet_inside: "\<lbrakk>quiet m m'; inside c m\<rbrakk> \<Longrightarrow> inside c m'"
    and quiet_sound: "\<lbrakk>quiet m m'; sound m\<rbrakk> \<Longrightarrow> sound m'"
    and outside_quiet: "\<lbrakk>moves c m = Some (c', m'); \<not> holds c\<rbrakk> \<Longrightarrow> quiet m m'"
    and enters: "\<lbrakk>moves c m = Some (c', m'); \<not> holds c\<rbrakk> \<Longrightarrow> inside c' m'"
    and inside_moves: "\<lbrakk>moves c m = Some (c', m'); holds c; inside c m; sound m\<rbrakk> \<Longrightarrow> inside c' m' \<and> sound m'"
begin

lemma sections_after_move:
  assumes count: "length (filter holds cs) = (if taken m then 1 else 0)"
    and i: "i < length cs" and move: "moves (cs ! i) m = Some (c', m')"
    and sound: "sound m" and all: "\<forall>c \<in> set cs. inside c m"
  shows "sound m' \<and> (\<forall>c \<in> set (cs[i := c']). inside c m')"
proof (cases "holds (cs ! i)")
  case True
  from all i have "inside (cs ! i) m" by simp
  from inside_moves [OF move True this sound] have own: "inside c' m'" "sound m'" by auto
  have "inside (cs ! j) m'" if "j < length cs" "j \<noteq> i" for j
    using holder_alone [OF count that(1) i _ True] that(2) by (auto intro: outside)
  with own show ?thesis by (intro conjI all_after_update)
next
  case False
  note q = outside_quiet [OF move False]
  have "inside (cs ! j) m'" if "j < length cs" for j using all that by (auto intro: quiet_inside [OF q])
  with enters [OF move False] quiet_sound [OF q sound] show ?thesis by (intro conjI all_after_update)
qed

end

definition same_core :: "process_state option \<Rightarrow> process_state option \<Rightarrow> bool" where
  "same_core p p' \<longleftrightarrow> (case p' of None \<Rightarrow> True
     | Some q' \<Rightarrow> (case p of None \<Rightarrow> False | Some q \<Rightarrow> proc_config q' = proc_config q))"

text \<open>What others may do while a call holds the lock: the core may end, and flags, versions and
  user hashes may change.\<close>

definition quiet :: "manager \<Rightarrow> manager \<Rightarrow> bool" where
  "quiet m m' \<longleftrightarrow> running_config_json m' = running_config_json m
     \<and> current_config_json m' = current_config_json m
     \<and> last_start_request m' = last_start_request m \<and> disk_start m' = disk_start m
     \<and> (hash_inv (m_hash m) \<longrightarrow> hash_inv (m_hash m')) \<and> same_core (m_process m) (m_process m')"

definition runs_document :: "jval \<Rightarrow> manager \<Rightarrow> bool" where
  "runs_document doc m \<longleftrightarrow> (case m_process m of None \<Rightarrow> True | Some p \<Rightarrow> proc_config p = doc)"

definition sound :: "manager \<Rightarrow> bool" where
  "sound m \<longleftrightarrow> hash_inv (m_hash m)
     \<and> (case running_config_json m of None \<Rightarrow> True | Some doc \<Rightarrow> runs_document doc m)"

text \<open>Between the stop of the old core and the spawn there is no core; while Start waits the
  document that the internal socket serves is the one of this Start; the snapshot that
  RunningConfig has read stays the captured one until it answers.\<close>

definition no_core :: "start_ctx \<Rightarrow> manager \<Rightarrow> bool" where
  "no_core ctx m \<longleftrightarrow> running_config_json m = None \<and> m_process m = None \<and> current_config_json m = Some (ctx_json ctx)"

definition core_fetches :: "start_ctx \<Rightarrow> manager \<Rightarrow> bool" where
  "core_fetches ctx m \<longleftrightarrow> current_config_json m = Some (ctx_json ctx) \<and> runs_document (ctx_json ctx) m"

fun start_inside :: "start_pc \<Rightarrow> manager \<Rightarrow> bool" where
  "start_inside (Clearing ctx) m = no_core ctx m"
| "start_inside (Spawning ctx) m = no_core ctx m"
| "start_inside (Waiting ps ctx) m = core_fetches ctx m"
| "start_inside (Reaching p ps ctx) m = core_fetches ctx m"
| "start_inside (Going_Online ctx) m = core_fetches ctx m"
| "start_inside _ m = True"

fun config_inside :: "config_pc \<Rightarrow> manager \<Rightarrow> bool" where
  "config_inside (Config_Pinging online snapshot captured_at) m \<longleftrightarrow> snapshot = running_config_json m"
| "config_inside (Config_Unlocking (Running doc captured_at)) m \<longleftrightarrow> running_config_json m = Some doc"
| "config_inside _ m = True"

fun in_section :: "call \<Rightarrow> manager \<Rightarrow> bool" where
  "in_section (Start_Call env req pc) m = start_inside pc m"
| "in_section (Config_Call ping pc) m = config_inside pc m"
| "in_section _ m = True"

lemma same_core_refl [simp]: "same_core p p"
  by (simp add: same_core_def split: option.splits)

lemma quiet_fields:
  "quiet m m' \<Longrightarrow> running_config_json m' = running_config_json m \<and> current_config_json m' = current_config_json m"
  "quiet m m' \<Longrightarrow> m_process m = None \<Longrightarrow> m_process m' = None"
  "quiet m m' \<Longrightarrow> runs_document doc m \<Longrightarrow> runs_document doc m'"
  by (auto simp: quiet_def same_core_def runs_document_def split: option.splits)

lemma quiet_inside:
  assumes "quiet m m'"
  shows "start_inside pc m \<Longrightarrow> start_inside pc m'" "config_inside pc' m \<Longrightarrow> config_inside pc' m'"
    "in_section c m \<Longrightarrow> in_section c m'"
proof -
  show start: "start_inside pc m \<Longrightarrow> start_inside pc m'" for pc
    using quiet_fields [OF assms] by (cases "(pc, m)" rule: start_inside.cases) (auto simp: no_core_def core_fetches_def)
  show config: "config_inside pc' m \<Longrightarrow> config_inside pc' m'" for pc'
    using quiet_fields [OF assms] by (cases "(pc', m)" rule: config_inside.cases) auto
  from start config show "in_section c m \<Longrightarrow> in_section c m'" by (cases c) auto
qed

lemma quiet_sound:
  assumes "quiet m m'" "sound m" shows "sound m'"
proof (cases "running_config_json m")
  case None
  with assms show ?thesis by (simp add: sound_def quiet_def)
next
  case (Some doc)
  with assms quiet_fields(3) [OF assms(1), of doc] show ?thesis by (simp add: sound_def quiet_def)
qed

lemma quiet_same [simp]:
  "quiet m m" "quiet m (m\<lparr>xray_online := b\<rparr>)" "quiet m (m\<lparr>start_processing := b\<rparr>)"
  "quiet m (m\<lparr>lifecycle_held := b\<rparr>)" "quiet m (refresh_version e out m)"
  by (simp_all add: quiet_def)

lemma quiet_core: "quiet m (mark_exited err m)" "quiet m (forget_process m)"
  by (auto simp: quiet_def same_core_def mark_exited_def forget_process_def split: option.splits)

lemma sound_fields:
  "\<lbrakk>m_hash m' = m_hash m; running_config_json m' = running_config_json m; m_process m' = m_process m\<rbrakk>
    \<Longrightarrow> sound m' = sound m"
  by (simp add: sound_def runs_document_def split: option.splits)

lemma sound_updates [simp]:
  "sound (m\<lparr>xray_online := b\<rparr>) = sound m" "sound (m\<lparr>start_processing := b\<rparr>) = sound m"
  "sound (m\<lparr>lifecycle_held := b\<rparr>) = sound m" "sound (m\<lparr>last_start_request := r\<rparr>) = sound m"
  "sound (save_persisted_start w q m) = sound m" "sound (clear_persisted_start w m) = sound m"
  "sound (refresh_version e out m) = sound m"
  by (rule sound_fields; simp)+

lemma stop_section:
  assumes "stop_process_locked t c m = (m1, r)" "hash_inv (m_hash m)"
  shows "sound m1" "running_config_json m1 = None" "r = None \<Longrightarrow> m_process m1 = None"
    "\<not> c \<Longrightarrow> current_config_json m1 = current_config_json m"
  using assms hash_inv_stop [OF assms(2), of t c] stop_process_frame(5) [of t c m] stop_process_frame(6) [of c t m]
    stop_process_ok [of t c m]
  by (simp_all add: sound_def)

lemma start_step_outside:
  assumes "start_step env req pc m = Some (pc', m')" "\<not> start_locked pc"
  shows "quiet m m'" "start_inside pc' m'"
  using assms by (cases "(env, req, pc, m)" rule: start_step.cases; auto split: section_splits)+

lemma record_config_sound: "hash_inv (m_hash (record_config ctx m))"
  "running_config_json (record_config ctx m) = running_config_json m" "m_process (record_config ctx m) = m_process m"
  by (simp_all add: record_config_def hash_inv_extract)

lemma spawn_section:
  assumes "start_process_locked e ps m = (m1, r)"
  shows "m_hash m1 = m_hash m" "running_config_json m1 = running_config_json m" "m_process m1 = m_process m"
    "current_config_json m1 = current_config_json m"
  by (subst spawn_frame(1) [OF assms]; simp)+

lemma start_step_inside:
  assumes "start_step env req pc m = Some (pc', m')" "start_inside pc m" "sound m"
  shows "start_inside pc' m' \<and> sound m'"
proof (cases pc)
  case (Skipping ctx)
  with assms show ?thesis
    by (auto simp: sound_def runs_document_def record_config_sound split: option.splits)
next
  case (Installing ctx)
  obtain m1 r where st: "stop_process_locked (se_stop_in_time env) False (record_config ctx m) = (m1, r)" by force
  from stop_section [OF st record_config_sound(1)] st assms(1) Installing show ?thesis
    by (auto simp: no_core_def split: option.splits)
next
  case (Spawning ctx)
  obtain m1 r where sp: "start_process_locked (se_spawn env) (ctx_pumps ctx) m = (m1, r)" by force
  have "sound m1" using assms(3) sound_fields spawn_section(1-3) [OF sp] by blast
  moreover have "sound (m1\<lparr>m_process := Some p, xray_online := False\<rparr>)" for p
    using assms(2,3) Spawning by (simp add: sound_def no_core_def spawn_section [OF sp])
  ultimately show ?thesis
    using assms(1,2) Spawning sp spawn_frame(2) [OF sp] spawn_section(4) [OF sp]
    by (auto simp: no_core_def core_fetches_def runs_document_def current_config_json_response_def split: sum.splits)
next
  case (Waiting ps ctx)
  with assms show ?thesis by (cases ps) (auto split: if_splits)
next
  case (Going_Online ctx)
  with assms show ?thesis by (auto simp: sound_def core_fetches_def runs_document_def)
next
  case (Giving_Up ctx)
  obtain m1 r where st: "stop_process_locked (se_fail_stop_in_time env) False m = (m1, r)" by force
  from assms(3) have "hash_inv (m_hash m)" by (simp add: sound_def)
  from stop_section(1) [OF st this] st assms(1) Giving_Up show ?thesis by auto
qed (use assms in \<open>auto split: section_splits\<close>)

lemma stop_step_sound:
  assumes "stop_step d t c pc m = Some (pc', m')"
  shows "sound m \<Longrightarrow> sound m'" "\<not> holds_lock (Stop_Call d t c pc) \<Longrightarrow> quiet m m'"
proof -
  show "sound m'" if "sound m"
  proof (cases pc)
    case Stopping
    obtain m1 r where st: "stop_process_locked t True m = (m1, r)" by force
    from that have "hash_inv (m_hash m)" by (simp add: sound_def)
    from stop_section(1) [OF st this] st assms Stopping show ?thesis by (auto split: if_splits)
  qed (use assms that in \<open>auto split: section_splits\<close>)
  show "\<not> holds_lock (Stop_Call d t c pc) \<Longrightarrow> quiet m m'"
    using assms by (cases pc) (auto split: if_splits)
qed

lemma config_step_inside:
  assumes "config_step ping pc m = Some (pc', m')"
  shows "config_inside pc m \<Longrightarrow> config_inside pc' m'" "quiet m m'"
  using assms by (cases "(ping, pc, m)" rule: config_step.cases; auto split: section_splits)+

lemma health_step_quiet: "health_step v out ping pc m = Some (pc', m') \<Longrightarrow> quiet m m'"
  by (cases "(v, out, ping, pc, m)" rule: health_step.cases) (auto split: if_splits)

lemma call_step_outside:
  assumes "call_step c m = Some (c', m')" "\<not> holds_lock c"
  shows "quiet m m' \<and> in_section c' m'"
proof (cases c)
  case (Config_Call ping pc)
  with assms(2) have "config_inside pc m" by (cases "(pc, m)" rule: config_inside.cases) auto
  with assms(1) Config_Call show ?thesis by (auto dest: config_step_inside)
qed (use assms in \<open>auto dest: start_step_outside stop_step_sound health_step_quiet\<close>)

lemma call_step_inside:
  assumes "call_step c m = Some (c', m')" "in_section c m" "sound m"
  shows "in_section c' m' \<and> sound m'"
  using assms by (cases c)
    (auto dest: start_step_inside stop_step_sound config_step_inside health_step_quiet intro: quiet_sound)

lemma outside_in_section: "\<not> holds_lock c \<Longrightarrow> in_section c m"
proof (cases c)
  case (Start_Call env req pc)
  then show "\<not> holds_lock c \<Longrightarrow> in_section c m" by (cases "(pc, m)" rule: start_inside.cases) auto
next
  case (Config_Call ping pc)
  then show "\<not> holds_lock c \<Longrightarrow> in_section c m" by (cases "(pc, m)" rule: config_inside.cases) auto
qed auto

interpretation guarded: guarded_token call_step holds_lock lifecycle_held in_section sound quiet
  by unfold_locales
    (auto intro: outside_in_section quiet_sound dest: call_step_outside call_step_inside quiet_inside(3))

section \<open>The requests that were accepted\<close>

text \<open>A Start is accepted once the core runs the document of its request.\<close>

fun start_accepted :: "start_pc \<Rightarrow> bool" where
  "start_accepted (Refreshing ctx) = True"
| "start_accepted (Remembering ctx) = True"
| "start_accepted (Saving ctx) = True"
| "start_accepted (Answering r ok message) = ok"
| "start_accepted (Unlocking resp) = resp_is_started resp"
| "start_accepted (Unclaiming resp) = resp_is_started resp"
| "start_accepted (Start_Done resp) = resp_is_started resp"
| "start_accepted _ = False"

fun accepted_by :: "call \<Rightarrow> start_request set" where
  "accepted_by (Start_Call env req pc) = (if start_accepted pc then {req} else {})"
| "accepted_by _ = {}"

definition accepted :: "start_request list \<Rightarrow> call list \<Rightarrow> start_request set" where
  "accepted earlier cs = set earlier \<union> (\<Union>c \<in> set cs. accepted_by c)"

fun flushes :: "call \<Rightarrow> start_request option" where
  "flushes (Stop_Call disk_ok in_time clear (Flushing req)) = Some req"
| "flushes _ = None"

definition persist_inv :: "start_request set \<Rightarrow> manager \<Rightarrow> bool" where
  "persist_inv A m \<longleftrightarrow> set_option (last_start_request m) \<subseteq> A \<and> set_option (disk_start m) \<subseteq> stored_form ` A"

lemma persist_inv_mono: "\<lbrakk>persist_inv A m; A \<subseteq> B\<rbrakk> \<Longrightarrow> persist_inv B m"
  unfolding persist_inv_def by (blast dest: image_mono)

lemma persist_inv_same:
  "\<lbrakk>last_start_request m' = last_start_request m; disk_start m' = disk_start m\<rbrakk>
    \<Longrightarrow> persist_inv A m' = persist_inv A m"
  by (simp add: persist_inv_def)

lemma save_persist_inv: "\<lbrakk>persist_inv A m; r \<in> A\<rbrakk> \<Longrightarrow> persist_inv A (save_persisted_start w r m)"
  by (auto simp: persist_inv_def save_persisted_start_def stored_form_def)

lemma clear_persist_inv: "persist_inv A m \<Longrightarrow> persist_inv A (clear_persisted_start w m)"
  by (auto simp: persist_inv_def clear_persisted_start_def)

lemma quiet_persist_inv: "quiet m m' \<Longrightarrow> persist_inv A m' = persist_inv A m"
  by (rule persist_inv_same) (simp_all add: quiet_def)

lemma stop_process_persist:
  "stop_process_locked t c m = (m1, r) \<Longrightarrow> persist_inv A m1 = persist_inv A m"
  using stop_process_frame(3,4) [of t c m] by (intro persist_inv_same) simp_all

lemma start_step_persist:
  assumes "start_step env req pc m = Some (pc', m')"
  shows "start_accepted pc \<Longrightarrow> start_accepted pc'"
    and "\<lbrakk>persist_inv A m; start_accepted pc \<Longrightarrow> req \<in> A\<rbrakk> \<Longrightarrow> persist_inv A m'"
proof -
  show "start_accepted pc \<Longrightarrow> start_accepted pc'"
    using assms by (cases "(env, req, pc, m)" rule: start_step.cases)
      (auto split: section_splits simp: start_response_def)
next
  assume inv: "persist_inv A m" and req: "start_accepted pc \<Longrightarrow> req \<in> A"
  show "persist_inv A m'"
  proof (cases "last_start_request m' = last_start_request m \<and> disk_start m' = disk_start m")
    case True
    with inv persist_inv_same show ?thesis by blast
  next
    case False
    have "(\<exists>ctx. pc = Remembering ctx) \<or> (\<exists>ctx. pc = Saving ctx)"
    proof (cases pc)
      case (Spawning ctx)
      obtain m1 r where sp: "start_process_locked (se_spawn env) (ctx_pumps ctx) m = (m1, r)" by force
      have "last_start_request m1 = last_start_request m" "disk_start m1 = disk_start m"
        by (subst spawn_frame(1) [OF sp]; simp)+
      with assms Spawning sp False show ?thesis by (auto split: sum.splits)
    next
      case (Installing ctx)
      obtain m1 r where st: "stop_process_locked (se_stop_in_time env) False (record_config ctx m) = (m1, r)" by force
      with stop_process_frame(3,4) [of "se_stop_in_time env" False "record_config ctx m"]
      have "last_start_request m1 = last_start_request m" "disk_start m1 = disk_start m" by simp_all
      with assms Installing st False show ?thesis by (auto split: option.splits)
    next
      case (Waiting ps ctx)
      with assms False show ?thesis by (cases ps) (auto split: section_splits)
    qed (use assms False in \<open>auto split: section_splits\<close>)
    with assms req inv show ?thesis
      by (auto intro: save_persist_inv) (simp add: persist_inv_def)
  qed
qed

lemma stop_step_persist:
  assumes "stop_step d t c pc m = Some (pc', m')" and inv: "persist_inv A m"
    and flush: "set_option (flushes (Stop_Call d t c pc)) \<subseteq> A"
  shows "persist_inv A m' \<and> set_option (flushes (Stop_Call d t c pc')) \<subseteq> A"
proof (cases pc)
  case Stopping
  obtain m1 r where st: "stop_process_locked t True m = (m1, r)" by force
  from st inv stop_process_persist [OF st, of A] assms(1) Stopping show ?thesis
    by (auto split: if_splits simp: persist_inv_def)
next
  case Reading_Last
  with assms show ?thesis by (auto split: option.splits simp: persist_inv_def)
next
  case (Flushing req)
  with assms save_persist_inv show ?thesis by auto
next
  case (Removing ok)
  with assms clear_persist_inv show ?thesis by auto
qed (use assms in \<open>auto split: if_splits simp: persist_inv_def\<close>)

lemma call_step_persist:
  assumes "call_step c m = Some (c', m')" "persist_inv A m" "accepted_by c \<subseteq> A" "set_option (flushes c) \<subseteq> A"
  shows "accepted_by c \<subseteq> accepted_by c' \<and> persist_inv A m' \<and> set_option (flushes c') \<subseteq> A"
proof (cases c)
  case (Start_Call env req pc)
  with assms obtain pc' where c': "c' = Start_Call env req pc'" and st: "start_step env req pc m = Some (pc', m')"
    by auto
  have "start_accepted pc \<Longrightarrow> req \<in> A" using assms(3) Start_Call by simp
  from start_step_persist(1) [OF st] start_step_persist(2) [OF st assms(2) this] Start_Call c'
  show ?thesis by simp
next
  case (Stop_Call d t clear pc)
  with assms stop_step_persist [of d t clear pc m _ m' A] show ?thesis by auto
next
  case (Config_Call ping pc)
  with assms quiet_persist_inv show ?thesis by (auto dest: config_step_inside(2))
next
  case (Health_Call v out ping pc)
  with assms quiet_persist_inv show ?thesis by (auto dest: health_step_quiet)
qed

section \<open>The invariant of a node\<close>

definition node_inv :: "start_request list \<Rightarrow> node \<Rightarrow> bool" where
  "node_inv earlier s \<longleftrightarrow>
     length (filter holds_lock (nd_calls s)) = (if lifecycle_held (nd_manager s) then 1 else 0)
     \<and> length (filter holds_claim (nd_calls s)) = (if start_processing (nd_manager s) then 1 else 0)
     \<and> sound (nd_manager s) \<and> (\<forall>c \<in> set (nd_calls s). in_section c (nd_manager s))
     \<and> persist_inv (accepted earlier (nd_calls s)) (nd_manager s)
     \<and> (\<forall>c \<in> set (nd_calls s). set_option (flushes c) \<subseteq> accepted earlier (nd_calls s))"

lemma accepted_update:
  assumes "i < length cs" "accepted_by (cs ! i) \<subseteq> accepted_by c'"
  shows "accepted earlier cs \<subseteq> accepted earlier (cs[i := c'])"
proof
  fix r assume "r \<in> accepted earlier cs"
  then consider "r \<in> set earlier" | j where "j < length cs" "r \<in> accepted_by (cs ! j)"
    by (auto simp: accepted_def in_set_conv_nth)
  then show "r \<in> accepted earlier (cs[i := c'])"
  proof cases
    case 2
    then have "r \<in> accepted_by (cs[i := c'] ! j)" using assms by (cases "i = j") auto
    moreover have "cs[i := c'] ! j \<in> set (cs[i := c'])" using 2(1) by (intro nth_mem) simp
    ultimately show ?thesis by (auto simp: accepted_def)
  qed (simp add: accepted_def)
qed

lemma move_inv:
  assumes inv: "node_inv earlier \<lparr>nd_manager = m, nd_calls = cs\<rparr>"
    and i: "i < length cs" and move: "call_step (cs ! i) m = Some (c', m')"
  shows "node_inv earlier \<lparr>nd_manager = m', nd_calls = cs[i := c']\<rparr>"
proof -
  let ?A = "accepted earlier cs" and ?B = "accepted earlier (cs[i := c'])"
  have own: "accepted_by (cs ! i) \<subseteq> ?A" using i by (auto simp: accepted_def)
  from call_step_persist [OF move _ own] inv i
  have p: "accepted_by (cs ! i) \<subseteq> accepted_by c'" "persist_inv ?A m'" "set_option (flushes c') \<subseteq> ?A"
    by (simp_all add: node_inv_def)
  note mono = accepted_update [OF i p(1), of earlier]
  have "\<forall>c \<in> set (cs[i := c']). set_option (flushes c) \<subseteq> ?B"
  proof (rule all_after_update)
    show "set_option (flushes c') \<subseteq> ?B" using p(3) mono by (rule order_trans)
    show "set_option (flushes (cs ! j)) \<subseteq> ?B" if "j < length cs" "j \<noteq> i" for j
      using inv that nth_mem [OF that(1)] mono unfolding node_inv_def by (simp, blast)
  qed
  with inv persist_inv_mono [OF p(2) mono] lifecycle.count_after_move [OF _ i move]
    claim.count_after_move [OF _ i move] guarded.sections_after_move [OF _ i move]
  show ?thesis by (simp add: node_inv_def)
qed

lemma quiet_inv:
  assumes inv: "node_inv earlier \<lparr>nd_manager = m, nd_calls = cs\<rparr>" and q: "quiet m m'"
    and flags: "lifecycle_held m' = lifecycle_held m" "start_processing m' = start_processing m"
  shows "node_inv earlier \<lparr>nd_manager = m', nd_calls = cs\<rparr>"
  using inv flags quiet_sound [OF q] quiet_inside(3) [OF q] quiet_persist_inv [OF q] by (simp add: node_inv_def)

lemma arriving_plain:
  "arriving c \<Longrightarrow> \<not> holds_lock c \<and> \<not> holds_claim c \<and> accepted_by c = {} \<and> flushes c = None"
  by (cases c) auto

lemma node_step_inv: "\<lbrakk>node_step s t; node_inv earlier s\<rbrakk> \<Longrightarrow> node_inv earlier t"
proof (induction rule: node_step.induct)
  case (call_moves i cs m c' m')
  then show ?case by (blast intro: move_inv)
next
  case (call_arrives c m cs)
  with arriving_plain [of c] outside_in_section [of c m] show ?case by (auto simp: node_inv_def accepted_def)
next
  case (process_ended m cs err)
  then show ?case by (rule quiet_inv [OF _ quiet_core(1)]) (auto simp: mark_exited_def split: option.splits)
next
  case (process_forgotten m cs)
  then show ?case by (rule quiet_inv [OF _ quiet_core(2)]) (auto simp: forget_process_def split: option.splits)
next
  case (user_changed op m h cs)
  then have "quiet m (m\<lparr>m_hash := h\<rparr>)" by (auto simp: quiet_def intro: hash_inv_user_op)
  with user_changed show ?case by (auto intro: quiet_inv)
next
  case (tag_added m cs t)
  have "quiet m (m\<lparr>m_hash := add_inbound_tag t (m_hash m)\<rparr>)" by (simp add: quiet_def hash_inv_add_tag)
  with tag_added show ?case by (auto intro: quiet_inv)
qed

lemma reachable_inv: "reachable earlier s \<Longrightarrow> node_inv earlier s"
proof (induction rule: reachable.induct)
  case (reach_init m)
  then show ?case
    by (auto simp: node_inv_def fresh_def sound_def hash_inv_initial persist_inv_def accepted_def split: option.splits)
next
  case (reach_step s t)
  then show ?case by (blast intro: node_step_inv)
qed

section \<open>Calls that nothing disturbs\<close>

text \<open>The steps of one Start, with what may happen to the process in between.\<close>

definition start_moves :: "start_env \<Rightarrow> start_request \<Rightarrow> start_pc \<times> manager \<Rightarrow> start_pc \<times> manager \<Rightarrow> bool" where
  "start_moves env req x y \<longleftrightarrow> start_step env req (fst x) (snd x) = Some y
     \<or> fst y = fst x \<and> (\<exists>err. snd y = mark_exited err (snd x) \<or> snd y = forget_process (snd x))"

abbreviation start_leads :: "start_env \<Rightarrow> start_request \<Rightarrow> start_pc \<times> manager \<Rightarrow> start_pc \<times> manager \<Rightarrow> bool" where
  "start_leads env req \<equiv> (start_moves env req)\<^sup>*\<^sup>*"

lemma leads_step:
  "\<lbrakk>start_step env req pc m = Some y; start_leads env req y z\<rbrakk> \<Longrightarrow> start_leads env req (pc, m) z"
  by (rule converse_rtranclp_into_rtranclp) (simp_all add: start_moves_def)

lemma leads_event: "start_leads env req (pc, m) (pc, core_event_step e m)"
proof (cases e)
  case (Core_Marked err)
  then show ?thesis by (auto simp: start_moves_def intro!: r_into_rtranclp)
next
  case (Core_Forgotten err)
  have "start_moves env req (pc, m) (pc, mark_exited err m)"
    "start_moves env req (pc, mark_exited err m) (pc, forget_process (mark_exited err m))"
    by (auto simp: start_moves_def)
  with Core_Forgotten show ?thesis by (auto intro: converse_rtranclp_into_rtranclp)
qed simp

lemma leads_wait:
  "start_leads env req (Waiting ps ctx, m)
     (if snd (wait_for_grpc ps m) then Going_Online ctx else Giving_Up ctx, fst (wait_for_grpc ps m))"
proof (induction ps m rule: wait_for_grpc.induct)
  case (1 m)
  show ?case by (rule leads_step) auto
next
  case (2 p ps m)
  let ?m = "core_event_step (pr_event p) m"
  have "start_leads env req (Waiting (p # ps) ctx, ?m)
     (if snd (wait_for_grpc (p # ps) m) then Going_Online ctx else Giving_Up ctx, fst (wait_for_grpc (p # ps) m))"
  proof (cases "rw_core_exit_hint ?m \<noteq> [] \<and> contains_text (rw_core_exit_hint ?m) ''exited''")
    case True
    show ?thesis by (rule leads_step [OF start_step.simps(15)]) (use True in \<open>simp add: Let_def\<close>)
  next
    case False
    with "2.IH" [OF refl refl] have "start_leads env req (Reaching p ps ctx, ?m)
      (if snd (wait_for_grpc (p # ps) m) then Going_Online ctx else Giving_Up ctx, fst (wait_for_grpc (p # ps) m))"
      by (intro leads_step [OF start_step.simps(16)]) (auto simp: Let_def)
    with False show ?thesis by (intro leads_step [OF start_step.simps(15)]) (simp add: if_not_P)
  qed
  with leads_event show ?case by (rule rtranclp_trans)
qed

lemma start_leave_flags: "m\<lparr>lifecycle_held := False, start_processing := False\<rparr> = start_leave m"
  by (cases m) (simp add: start_leave_def)

lemma leads_answer:
  "start_leads env req (Answering Release_Lock ok msg, m) (Start_Done (start_response m ok msg), start_leave m)"
  by (rule leads_step, simp, rule leads_step, simp, rule leads_step, simp, simp add: start_leave_flags)

lemma leads_finish:
  "ctx_request ctx = req \<Longrightarrow> start_leads env req (if started then Going_Online ctx else Giving_Up ctx, m)
     (Start_Done (snd (start_finish env ctx started m)), start_leave (fst (start_finish env ctx started m)))"
  by (cases started)
    (auto simp: start_finish_def Let_def persist_start_request_def intro!: leads_step leads_answer)

lemma leads_return:
  assumes "\<And>m1 resp. r = (m1, Some resp) \<Longrightarrow> start_leads env req x (Start_Done resp, start_leave m1)"
    and "\<And>m1. r = (m1, None) \<Longrightarrow> start_leads env req x (Start_Done (snd (k m1)), fst (k m1))"
  shows "start_leads env req x (Start_Done (snd (or_return r k)), fst (or_return r k))"
  using assms by (cases r; cases "snd r") (auto simp: or_return_def)

lemma leads_check:
  assumes ctx: "ctx_request ctx = req"
    and rest: "\<And>m1. start_leads env req (Preparing ctx, m1) (Start_Done (snd (k m1)), fst (k m1))"
  shows "start_leads env req (Gating ctx, m)
    (Start_Done (snd (or_return (start_check env ctx m) k)), fst (or_return (start_check env ctx m) k))"
proof -
  let ?r = "or_return (start_check env ctx m) k" and ?m = "persist_start_request (se_disk_ok env) req (record_config ctx m)"
  let ?goal = "(Start_Done (snd ?r), fst ?r)"
  consider (plain) "\<not> (xray_online m \<and> \<not> disable_hash_check m \<and> \<not> sr_force_restart req)"
    | (offline) "xray_online m \<and> \<not> disable_hash_check m \<and> \<not> sr_force_restart req" "\<not> se_ping env"
    | (differs) "xray_online m \<and> \<not> disable_hash_check m \<and> \<not> sr_force_restart req" "se_ping env"
        "is_need_restart (m_hash m) (sr_hashes req)"
    | (skip) "xray_online m \<and> \<not> disable_hash_check m \<and> \<not> sr_force_restart req" "se_ping env"
        "\<not> is_need_restart (m_hash m) (sr_hashes req)" by blast
  then show ?thesis
  proof cases
    case plain
    then have "?r = k m" using ctx by (auto simp: start_check_def or_return_def)
    with rest [of m] plain show ?thesis by (intro leads_step [OF start_step.simps(5)]) (simp only: if_not_P if_False)
  next
    case offline
    then have "?r = k (m\<lparr>xray_online := False\<rparr>)" using ctx by (simp add: start_check_def or_return_def)
    with rest [of "m\<lparr>xray_online := False\<rparr>"] offline show ?thesis
      by (simp add: leads_step [OF start_step.simps(5)] leads_step [OF start_step.simps(6)]
          leads_step [OF start_step.simps(9)])
  next
    case differs
    then have "?r = k m" using ctx by (simp add: start_check_def or_return_def)
    with rest [of m] differs show ?thesis
      by (simp add: leads_step [OF start_step.simps(5)] leads_step [OF start_step.simps(6)]
          leads_step [OF start_step.simps(7)])
  next
    case skip
    then have r: "?r = (start_leave ?m, start_response ?m True None)"
      using ctx by (simp add: start_check_def or_return_def Let_def)
    have "start_leads env req (Skipping ctx, m) ?goal"
      unfolding r by (auto simp: persist_start_request_def intro!: leads_step leads_answer)
    with skip show ?thesis
      by (simp add: leads_step [OF start_step.simps(5)] leads_step [OF start_step.simps(6)]
          leads_step [OF start_step.simps(7)])
  qed
qed

lemma leads_sections:
  assumes ctx: "ctx_request ctx = req"
  shows "start_leads env req (Preparing ctx, m1)
    (let r = or_return (start_prepare env m1) (\<lambda>m2. or_return (start_install env ctx m2)
           (\<lambda>m3. or_return (start_spawn env ctx m3) (\<lambda>m4.
             (let (m5, started) = wait_for_grpc (se_probes env) m4;
                  (m6, resp) = start_finish env ctx started m5
              in (start_leave m6, resp)))))
     in (Start_Done (snd r), fst r))"
  unfolding Let_def
proof (rule leads_return)
  fix m2 resp assume "start_prepare env m1 = (m2, Some resp)"
  then show "start_leads env req (Preparing ctx, m1) (Start_Done resp, start_leave m2)"
    by (auto simp: start_prepare_def split: option.splits intro!: leads_step leads_answer)
next
  fix m2 assume "start_prepare env m1 = (m2, None)"
  then have p: "start_step env req (Preparing ctx) m1 = Some (Installing ctx, m2)"
    by (auto simp: start_prepare_def split: option.splits)
  let ?spawn = "\<lambda>m3. or_return (start_spawn env ctx m3) (\<lambda>m4.
             case wait_for_grpc (se_probes env) m4 of (m5, started) \<Rightarrow>
             case start_finish env ctx started m5 of (m6, resp) \<Rightarrow> (start_leave m6, resp))"
  show "start_leads env req (Preparing ctx, m1)
     (Start_Done (snd (or_return (start_install env ctx m2) ?spawn)), fst (or_return (start_install env ctx m2) ?spawn))"
  proof (rule leads_step [OF p], rule leads_return)
    fix m3 resp assume "start_install env ctx m2 = (m3, Some resp)"
    then show "start_leads env req (Installing ctx, m2) (Start_Done resp, start_leave m3)"
      by (auto simp: start_install_def split: option.splits prod.splits intro!: leads_step leads_answer)
  next
    fix m3 assume "start_install env ctx m2 = (m3, None)"
    then have i: "start_step env req (Installing ctx) m2 = Some (Clearing ctx, m3)"
      by (auto simp: start_install_def split: option.splits prod.splits)
    show "start_leads env req (Installing ctx, m2) (Start_Done (snd (?spawn m3)), fst (?spawn m3))"
    proof (rule leads_step [OF i], rule leads_step [OF start_step.simps(12)], rule leads_return)
      fix m4 resp assume "start_spawn env ctx m3 = (m4, Some resp)"
      then show "start_leads env req (Spawning ctx, m3) (Start_Done resp, start_leave m4)"
        by (auto simp: start_spawn_def Let_def split: sum.splits prod.splits intro!: leads_step leads_answer)
    next
      fix m4 assume "start_spawn env ctx m3 = (m4, None)"
      then have w: "start_step env req (Spawning ctx) m3 = Some (Waiting (se_probes env) ctx, m4)"
        by (auto simp: start_spawn_def Let_def split: sum.splits prod.splits)
      from leads_step [OF w rtranclp_trans [OF leads_wait leads_finish [OF ctx]]]
      show "start_leads env req (Spawning ctx, m3)
        (Start_Done (snd (case wait_for_grpc (se_probes env) m4 of (m5, started) \<Rightarrow>
             case start_finish env ctx started m5 of (m6, resp) \<Rightarrow> (start_leave m6, resp))),
         fst (case wait_for_grpc (se_probes env) m4 of (m5, started) \<Rightarrow>
             case start_finish env ctx started m5 of (m6, resp) \<Rightarrow> (start_leave m6, resp)))"
        by (simp add: split_beta)
    qed
  qed
qed

text \<open>A Start that is left alone, whatever happens to the process while it waits, does what
  Manager.start says.\<close>

lemma start_is_run:
  "start_leads env req (Making_Dir, m) (Start_Done (snd (start env req m)), fst (start env req m))"
proof (cases "start_enter env m")
  case (Pair m0 r)
  show ?thesis
  proof (cases r)
    case (Some resp)
    show ?thesis
    proof (cases "se_mkdir_error env = None \<and> \<not> start_processing m")
      case True
      with Pair Some have held: "lifecycle_held m" "m0 = m" "resp = start_response m False (Some in_progress)"
        by (auto simp: start_enter_def split: if_splits)
      have reset: "m\<lparr>start_processing := False\<rparr> = m" using True by (cases m) simp
      have "start_leads env req (Locking, m\<lparr>start_processing := True\<rparr>) (Start_Done resp, m)"
        by (rule leads_step, simp add: held(1), rule leads_step, simp, rule leads_step, simp)
          (simp add: held reset start_response_def)
      with True Pair Some held show ?thesis
        by (auto simp: start_def intro!: leads_step [OF start_step.simps(1)] leads_step [OF start_step.simps(2)])
    next
      case False
      with Pair Some show ?thesis
        by (auto simp: start_def start_enter_def split: option.splits if_splits intro!: leads_step)
    qed
  next
    case None
    then have m0: "se_mkdir_error env = None" "\<not> start_processing m" "\<not> lifecycle_held m"
      "m0 = m\<lparr>start_processing := True, lifecycle_held := True\<rparr>"
      using Pair by (auto simp: start_enter_def split: option.splits if_splits)
    have "start_leads env req (Rendering, m0) (Start_Done (snd (start env req m)), fst (start env req m))"
    proof (cases "start_render env req m0")
      case (Inl e)
      with Pair None show ?thesis by (auto simp: start_def intro!: leads_step leads_answer)
    next
      case (Inr ctx)
      then have ctx: "ctx_request ctx = req" by (auto simp: start_render_def Let_def split: prod.splits if_splits)
      have "start_step env req Rendering m0 = Some (Gating ctx, m0)" using Inr by simp
      from leads_step [OF this leads_check [OF ctx leads_sections [OF ctx, unfolded Let_def]]] Pair None Inr
      show ?thesis by (simp add: start_def split_beta)
    qed
    with m0 show ?thesis by (auto intro!: leads_step)
  qed
qed

text \<open>The other calls left alone, for at most the given number of steps.\<close>

fun alone :: "nat \<Rightarrow> call \<Rightarrow> manager \<Rightarrow> call \<times> manager" where
  "alone 0 c m = (c, m)"
| "alone (Suc n) c m = (case call_step c m of None \<Rightarrow> (c, m) | Some (c', m') \<Rightarrow> alone n c' m')"

lemma unlocked_again: "\<not> lifecycle_held m \<Longrightarrow> m\<lparr>lifecycle_held := False\<rparr> = m"
  by (cases m) simp

lemma config_is_run:
  "alone 4 (Config_Call ping Config_Locking) m = (Config_Call ping (Config_Done (running_config ping m)), m)"
  by (simp add: eval_nat_numeral running_config_def unlocked_again split: option.splits)

lemma health_is_run:
  "alone 5 (Health_Call v out ping Asking_Version) m
     = (Health_Call v out ping (Health_Done (snd (health v out ping m))), fst (health v out ping m))"
  by (simp add: eval_nat_numeral health_def Let_def)

lemma stop_process_with_lock:
  "stop_process_locked t c (m\<lparr>lifecycle_held := b\<rparr>)
     = apfst (\<lambda>m1. m1\<lparr>lifecycle_held := b\<rparr>) (stop_process_locked t c m)"
  by (cases m; cases c) (simp_all add: stop_process_locked_def Let_def split: option.splits)

lemma persisted_with_lock:
  "save_persisted_start w q (m\<lparr>lifecycle_held := b\<rparr>) = (save_persisted_start w q m)\<lparr>lifecycle_held := b\<rparr>"
  "clear_persisted_start w (m\<lparr>lifecycle_held := b\<rparr>) = (clear_persisted_start w m)\<lparr>lifecycle_held := b\<rparr>"
  by (cases m, simp add: save_persisted_start_def clear_persisted_start_def)+

lemmas with_lock = stop_process_with_lock persisted_with_lock

lemma stop_is_run:
  assumes "\<not> lifecycle_held m"
  shows "alone 6 (Stop_Call d t c Stop_Locking) m
     = (Stop_Call d t c (Stop_Done (snd (stop d t c m))), fst (stop d t c m))"
proof (cases c)
  case True
  obtain m1 r where st: "stop_process_locked t True m = (m1, r)" by force
  let ?m2 = "m1\<lparr>last_start_request := None\<rparr>"
  have "\<not> lifecycle_held m1" using assms st by simp
  then have free: "\<not> lifecycle_held (clear_persisted_start d ?m2)" by simp
  have held: "m1\<lparr>lifecycle_held := True, last_start_request := None\<rparr> = ?m2\<lparr>lifecycle_held := True\<rparr>"
    by (cases m1) simp
  show ?thesis
    using assms True by (simp add: eval_nat_numeral stop_def with_lock st held unlocked_again [OF free])
next
  case False
  define m0 where "m0 = flush_persisted_start d m"
  obtain m1 r where st: "stop_process_locked t True m0 = (m1, r)" by force
  have "\<not> lifecycle_held m0" using assms by (simp add: m0_def flush_persisted_start_def split: option.splits)
  then have free: "\<not> lifecycle_held m1" using st by simp
  have "stop d t c m = (m1, r = None)" using False st by (simp add: stop_def m0_def)
  with assms False st unlocked_again [OF free] show ?thesis
    by (cases "last_start_request m") (simp_all add: eval_nat_numeral with_lock m0_def flush_persisted_start_def)
qed

lemma leads_node_steps:
  assumes "start_leads env req x y" and "i < length cs"
  shows "node_step\<^sup>*\<^sup>* \<lparr>nd_manager = snd x, nd_calls = cs[i := Start_Call env req (fst x)]\<rparr>
     \<lparr>nd_manager = snd y, nd_calls = cs[i := Start_Call env req (fst y)]\<rparr>"
  using assms(1)
proof (induction rule: rtranclp_induct)
  case (step y z)
  let ?cs = "cs[i := Start_Call env req (fst y)]"
  have "node_step \<lparr>nd_manager = snd y, nd_calls = ?cs\<rparr>
     \<lparr>nd_manager = snd z, nd_calls = cs[i := Start_Call env req (fst z)]\<rparr>"
    using step(2) unfolding start_moves_def
  proof (elim disjE conjE exE)
    assume "start_step env req (fst y) (snd y) = Some z"
    with assms(2) have "call_step (?cs ! i) (snd y) = Some (Start_Call env req (fst z), snd z)" by (simp add: apfst_def map_prod_def split_beta)
    from node_step.call_moves [OF _ this] assms(2) show ?thesis by simp
  next
    fix err assume "fst z = fst y" "snd z = mark_exited err (snd y)"
    then show ?thesis by (simp add: node_step.process_ended)
  next
    assume "fst z = fst y" "snd z = forget_process (snd y)"
    then show ?thesis by (simp add: node_step.process_forgotten)
  qed
  with step(3) show ?case by (rule rtranclp.rtrancl_into_rtrancl)
qed simp

lemma reachable_steps: "\<lbrakk>node_step\<^sup>*\<^sup>* s t; reachable earlier s\<rbrakk> \<Longrightarrow> reachable earlier t"
  by (induction rule: rtranclp_induct) (auto intro: reach_step)

lemma reachable_after_start:
  assumes "reachable earlier \<lparr>nd_manager = m, nd_calls = cs\<rparr>"
  shows "reachable earlier \<lparr>nd_manager = fst (start env req m),
    nd_calls = cs @ [Start_Call env req (Start_Done (snd (start env req m)))]\<rparr>"
proof -
  let ?cs = "cs @ [Start_Call env req Making_Dir]"
  have "reachable earlier \<lparr>nd_manager = m, nd_calls = ?cs\<rparr>"
    using reach_step [OF assms node_step.call_arrives [of "Start_Call env req Making_Dir"]] by simp
  from reachable_steps [OF _ this] leads_node_steps [OF start_is_run [of env req m], of "length cs" ?cs]
  show ?thesis by simp
qed

section \<open>Every call is answered\<close>

text \<open>A bound on the steps that a call has left.\<close>

fun start_work :: "start_env \<Rightarrow> start_pc \<Rightarrow> nat" where
  "start_work env Making_Dir = 19 + 2 * length (se_probes env)"
| "start_work env Claiming = 18 + 2 * length (se_probes env)"
| "start_work env Locking = 17 + 2 * length (se_probes env)"
| "start_work env Rendering = 16 + 2 * length (se_probes env)"
| "start_work env (Gating ctx) = 15 + 2 * length (se_probes env)"
| "start_work env (Pinging ctx) = 14 + 2 * length (se_probes env)"
| "start_work env (Comparing ctx) = 13 + 2 * length (se_probes env)"
| "start_work env (Going_Offline ctx) = 13 + 2 * length (se_probes env)"
| "start_work env (Preparing ctx) = 12 + 2 * length (se_probes env)"
| "start_work env (Installing ctx) = 11 + 2 * length (se_probes env)"
| "start_work env (Clearing ctx) = 10 + 2 * length (se_probes env)"
| "start_work env (Spawning ctx) = 9 + 2 * length (se_probes env)"
| "start_work env (Waiting ps ctx) = 8 + 2 * length ps"
| "start_work env (Reaching p ps ctx) = 9 + 2 * length ps"
| "start_work env (Going_Online ctx) = 7"
| "start_work env (Refreshing ctx) = 6"
| "start_work env (Skipping ctx) = 6"
| "start_work env (Remembering ctx) = 5"
| "start_work env (Giving_Up ctx) = 5"
| "start_work env (Saving ctx) = 4"
| "start_work env (Explaining ctx) = 4"
| "start_work env (Answering r ok message) = 3"
| "start_work env (Unlocking resp) = 2"
| "start_work env (Unclaiming resp) = 1"
| "start_work env (Start_Done resp) = 0"

fun stop_work :: "stop_pc \<Rightarrow> nat" where
  "stop_work Asking_Online = 7" | "stop_work Stop_Locking = 6" | "stop_work Reading_Last = 5"
| "stop_work (Flushing req) = 4" | "stop_work Stopping = 3" | "stop_work (Removing ok) = 2"
| "stop_work (Stop_Unlocking ok) = 1" | "stop_work (Stop_Done ok) = 0"

fun config_work :: "config_pc \<Rightarrow> nat" where
  "config_work Config_Locking = 4" | "config_work Config_Reading = 3"
| "config_work (Config_Pinging online snapshot captured_at) = 2"
| "config_work (Config_Unlocking st) = 1" | "config_work (Config_Done st) = 0"

fun health_work :: "health_pc \<Rightarrow> nat" where
  "health_work Asking_Version = 5" | "health_work Probing_Version = 4" | "health_work Health_Reading = 3"
| "health_work (Health_Pinging present cached version) = 2" | "health_work (Health_Writing online version) = 1"
| "health_work (Health_Done resp) = 0"

fun work :: "call \<Rightarrow> nat" where
  "work (Start_Call env req pc) = start_work env pc"
| "work (Stop_Call disk_ok in_time clear pc) = stop_work pc"
| "work (Config_Call ping pc) = config_work pc"
| "work (Health_Call env_version output ping pc) = health_work pc"

text \<open>A run in which no call arrives, with the number of the steps of its calls; the process and
  the users change as they like in between.\<close>

inductive runs :: "nat \<Rightarrow> node \<Rightarrow> node \<Rightarrow> bool" where
  runs_nil: "runs 0 s s"
| runs_step: "\<lbrakk>runs n s t; node_step t u; length (nd_calls u) = length (nd_calls t)\<rbrakk> \<Longrightarrow>
    runs (if nd_calls u = nd_calls t then n else Suc n) s u"

lemma start_step_work: "start_step env req pc m = Some (pc', m') \<Longrightarrow> start_work env pc' < start_work env pc"
  by (cases "(env, req, pc, m)" rule: start_step.cases) (auto split: section_splits)

lemma call_step_work: "call_step c m = Some (c', m') \<Longrightarrow> work c' < work c"
proof (cases c)
  case (Stop_Call d t clear pc)
  then show "call_step c m = Some (c', m') \<Longrightarrow> work c' < work c" by (cases pc) (auto split: section_splits)
next
  case (Config_Call ping pc)
  then show "call_step c m = Some (c', m') \<Longrightarrow> work c' < work c" by (cases pc) (auto split: section_splits)
next
  case (Health_Call v out ping pc)
  then show "call_step c m = Some (c', m') \<Longrightarrow> work c' < work c" by (cases pc) (auto split: section_splits)
qed (auto dest: start_step_work)

lemma start_step_total: "start_step env req pc m = None \<longleftrightarrow> (\<exists>resp. pc = Start_Done resp)"
  by (cases "(env, req, pc, m)" rule: start_step.cases) auto

lemma blocked_call:
  "call_step c m = None \<Longrightarrow> finished c \<or> (\<exists>d t clear. c = Stop_Call d t clear Stop_Locking \<and> lifecycle_held m)"
proof (cases c)
  case (Stop_Call d t clear pc)
  then show "call_step c m = None \<Longrightarrow> finished c \<or> (\<exists>d t clear. c = Stop_Call d t clear Stop_Locking \<and> lifecycle_held m)"
    by (cases pc) (auto split: if_splits)
next
  case (Config_Call ping pc)
  then show "call_step c m = None \<Longrightarrow> finished c \<or> (\<exists>d t clear. c = Stop_Call d t clear Stop_Locking \<and> lifecycle_held m)"
    by (cases pc) auto
next
  case (Health_Call v out ping pc)
  then show "call_step c m = None \<Longrightarrow> finished c \<or> (\<exists>d t clear. c = Stop_Call d t clear Stop_Locking \<and> lifecycle_held m)"
    by (cases pc) auto
qed (auto simp: start_step_total)

lemma holder_moves: "holds_lock c \<Longrightarrow> call_step c m \<noteq> None"
proof
  assume "holds_lock c" "call_step c m = None"
  with blocked_call [of c m] show False by (cases c rule: finished.cases) auto
qed

lemma sum_work_update:
  "i < length cs \<Longrightarrow> work c' < work (cs ! i) \<Longrightarrow> sum_list (map work (cs[i := c'])) < sum_list (map work cs)"
  using arg_cong [OF id_take_nth_drop [of i cs], of "\<lambda>ys. sum_list (map work ys)"]
  by (simp add: upd_conv_take_nth_drop)

lemma runs_reachable: "\<lbrakk>runs n s t; reachable earlier s\<rbrakk> \<Longrightarrow> reachable earlier t"
  by (induction rule: runs.induct) (auto intro: reach_step)

lemma node_step_work:
  assumes "node_step t u" "length (nd_calls u) = length (nd_calls t)" "nd_calls u \<noteq> nd_calls t"
  shows "sum_list (map work (nd_calls u)) < sum_list (map work (nd_calls t))"
  using assms by (cases rule: node_step.cases) (auto intro: sum_work_update call_step_work)

lemma runs_work:
  "runs n s t \<Longrightarrow> n + sum_list (map work (nd_calls t)) \<le> sum_list (map work (nd_calls s))"
proof (induction rule: runs.induct)
  case (runs_step n s t u)
  with node_step_work [OF runs_step(2,3)] show ?case by auto
qed simp

section \<open>The properties of the calls\<close>

text \<open>C1: In every reachable state, with any number of calls of Start, Stop, StopIfOnline,
  RunningConfig and Health between any two of their critical sections: at most one call is in the
  region that the lifecycle lock guards, and the lock is held exactly when there is one; at most
  one Start has set startProcessing, and the flag is set exactly when there is one; a user can be
  added to or removed from the hashes without a write to a nil map; the document kept as the
  running configuration is the one the current process was started with; while a Start waits for
  its core, the internal socket serves the document of that Start; and a RunningConfig that is
  about to answer with a document answers with the one that is kept.\<close>

theorem reachable_manager_consistent:
  assumes "reachable earlier s"
  shows "length (filter holds_lock (nd_calls s)) = (if lifecycle_held (nd_manager s) then 1 else 0)
    \<and> length (filter holds_claim (nd_calls s)) = (if start_processing (nd_manager s) then 1 else 0)
    \<and> run_user_op op (m_hash (nd_manager s)) \<noteq> None
    \<and> (case (running_config_json (nd_manager s), m_process (nd_manager s)) of
         (Some doc, Some p) \<Rightarrow> proc_config p = doc
       | _ \<Rightarrow> True)
    \<and> (\<forall>env req ps ctx. Start_Call env req (Waiting ps ctx) \<in> set (nd_calls s)
         \<longrightarrow> current_config_json (nd_manager s) = Some (ctx_json ctx))
    \<and> (\<forall>ping doc since. Config_Call ping (Config_Unlocking (Running doc since)) \<in> set (nd_calls s)
         \<longrightarrow> running_config_json (nd_manager s) = Some doc)"
proof -
  from reachable_inv [OF assms] have inv: "sound (nd_manager s)"
    "length (filter holds_lock (nd_calls s)) = (if lifecycle_held (nd_manager s) then 1 else 0)"
    "length (filter holds_claim (nd_calls s)) = (if start_processing (nd_manager s) then 1 else 0)"
    "\<forall>c \<in> set (nd_calls s). in_section c (nd_manager s)" by (simp_all add: node_inv_def)
  from inv(1) have "hash_inv (m_hash (nd_manager s))" by (simp add: sound_def)
  from run_user_op_refines [OF this, of op] inv show ?thesis
    by (fastforce simp: sound_def runs_document_def core_fetches_def split: option.splits)
qed

text \<open>C9: No call waits for ever on the locks.  In a run that starts in a reachable state and in
  which no further call arrives, with the process and the users changing in between as they like,
  the calls together take at most as many steps as their bound says, which for one Start is 19 and
  two for each round of its wait; and when no call can take a step any more, every call has given
  its answer.  In particular a call that holds the lifecycle lock can always go on.\<close>

theorem every_call_is_answered:
  assumes "reachable earlier s" and "runs n s t"
  shows "n \<le> sum_list (map work (nd_calls s))
    \<and> ((\<forall>c \<in> set (nd_calls t). call_step c (nd_manager t) = None) \<longrightarrow> (\<forall>c \<in> set (nd_calls t). finished c))
    \<and> (\<forall>c \<in> set (nd_calls t). holds_lock c \<longrightarrow> call_step c (nd_manager t) \<noteq> None)"
proof (intro conjI impI ballI)
  show "n \<le> sum_list (map work (nd_calls s))" using runs_work [OF assms(2)] by simp
next
  fix c assume stuck: "\<forall>c \<in> set (nd_calls t). call_step c (nd_manager t) = None" and c: "c \<in> set (nd_calls t)"
  have count: "length (filter holds_lock (nd_calls t)) = (if lifecycle_held (nd_manager t) then 1 else 0)"
    using reachable_inv [OF runs_reachable [OF assms(2,1)]] by (simp add: node_inv_def)
  have "\<not> lifecycle_held (nd_manager t)"
  proof
    assume "lifecycle_held (nd_manager t)"
    with count obtain i where "i < length (nd_calls t)" "holds_lock (nd_calls t ! i)"
      by (rule lifecycle.holder_exists)
    with stuck nth_mem holder_moves show False by metis
  qed
  with stuck c blocked_call show "finished c" by blast
qed (use holder_moves in blast)

text \<open>What a boot restores: in every reachable state the request in last-start.json, and the one
  the manager flushes there on shutdown, is one whose Start brought the core to run its document,
  in this run of the node or in an earlier one; a refused or failed Start never becomes the boot
  configuration.\<close>

theorem persisted_request_was_accepted:
  assumes "reachable earlier s"
  shows "(case disk_start (nd_manager s) of
            Some r \<Rightarrow> r \<in> stored_form ` accepted earlier (nd_calls s) | None \<Rightarrow> True)
    \<and> (case last_start_request (nd_manager s) of
            Some r \<Rightarrow> r \<in> accepted earlier (nd_calls s) | None \<Rightarrow> True)"
  using reachable_inv [OF assms]
  by (cases "disk_start (nd_manager s)"; cases "last_start_request (nd_manager s)")
    (simp_all add: node_inv_def persist_inv_def)

section \<open>A concrete run\<close>

definition started_call :: call where
  "started_call = Start_Call example_env example_request (Start_Done (snd (start example_env example_request example_manager)))"

lemma started_reachable: "reachable [] \<lparr>nd_manager = started_manager, nd_calls = [started_call]\<rparr>"
proof -
  have "reachable [] \<lparr>nd_manager = example_manager, nd_calls = []\<rparr>"
    by (rule reach_init) (simp_all add: fresh_def example_manager_def)
  from reachable_after_start [OF this, of example_env example_request] show ?thesis
    by (simp add: started_manager_def started_call_def)
qed

lemma started_free: "\<not> lifecycle_held started_manager" "\<not> start_processing started_manager"
  using reachable_inv [OF started_reachable]
  by (auto simp: node_inv_def started_call_def split: if_splits)

text \<open>The core of the first Start runs; a RunningConfig has taken the lifecycle lock, and a second
  Start has set startProcessing and is about to try the lock.\<close>

definition contended_manager :: manager where
  "contended_manager = started_manager\<lparr>lifecycle_held := True, start_processing := True\<rparr>"

definition contended_calls :: "call list" where
  "contended_calls = [started_call, Config_Call True Config_Reading, Start_Call example_env example_request Locking]"

lemma contended_reachable: "reachable [] \<lparr>nd_manager = contended_manager, nd_calls = contended_calls\<rparr>"
proof -
  let ?s = example_request and ?e = example_env
  note r = started_reachable
  note r = reach_step [OF r node_step.call_arrives [of "Config_Call True Config_Locking"]]
  note r = reach_step [OF r node_step.call_moves [of 1 _ _ "Config_Call True Config_Reading" "started_manager\<lparr>lifecycle_held := True\<rparr>"]]
  note r = reach_step [OF r node_step.call_arrives [of "Start_Call ?e ?s Making_Dir"]]
  note r = reach_step [OF r node_step.call_moves [of 2 _ _ "Start_Call ?e ?s Claiming" "started_manager\<lparr>lifecycle_held := True\<rparr>"]]
  note r = reach_step [OF r node_step.call_moves [of 2 _ _ "Start_Call ?e ?s Locking" contended_manager]]
  show ?thesis
    using r by (simp add: contended_calls_def contended_manager_def started_free example_env_def eval_nat_numeral)
qed

theorem reachable_manager_consistent_witness:
  "lifecycle_held contended_manager \<and> start_processing contended_manager
    \<and> length (filter holds_lock contended_calls) = 1 \<and> length (filter holds_claim contended_calls) = 1
    \<and> run_user_op (Add_User ''in'' ''u'') (m_hash contended_manager) \<noteq> None"
  using reachable_manager_consistent [OF contended_reachable, of "Add_User ''in'' ''u''"]
  by (simp add: contended_manager_def)

lemma refused_run:
  "runs 1 \<lparr>nd_manager = contended_manager, nd_calls = contended_calls\<rparr>
     \<lparr>nd_manager = contended_manager, nd_calls = contended_calls[2 :=
        Start_Call example_env example_request (Answering Release_Claim False (Some in_progress))]\<rparr>"
proof -
  let ?c = "Start_Call example_env example_request (Answering Release_Claim False (Some in_progress))"
  have "node_step \<lparr>nd_manager = contended_manager, nd_calls = contended_calls\<rparr>
     \<lparr>nd_manager = contended_manager, nd_calls = contended_calls[2 := ?c]\<rparr>"
    by (rule node_step.call_moves) (simp_all add: contended_calls_def contended_manager_def)
  from runs_step [OF runs_nil this] show ?thesis by (simp add: contended_calls_def)
qed

theorem every_call_is_answered_witness:
  "1 \<le> sum_list (map work contended_calls)
    \<and> call_step (Config_Call True Config_Reading) contended_manager \<noteq> None"
  using every_call_is_answered [OF contended_reachable refused_run] by (simp add: contended_calls_def)

theorem persisted_request_was_accepted_witness:
  "case disk_start started_manager of Some r \<Rightarrow> r = stored_form example_request | None \<Rightarrow> True"
  using persisted_request_was_accepted [OF started_reachable]
  by (auto simp: accepted_def started_call_def split: option.splits if_splits)

end
