(* ===== verification/XtlsHandler.thy ===== *)
theory XtlsHandler
  imports Manager
begin

text \<open>internal/xtls/handler.go and internal/xray/handler.go: users of the running core, altered
  through its gRPC handler service.  The service belongs to xray-core and is a parameter: a
  function from its state and a request to an optional error and the next state.\<close>

datatype account =
    Vless string string
  | Trojan string
  | Shadowsocks string int bool
  | Shadowsocks2022 string
  | Hysteria string

record core_user =
  cu_email :: string
  cu_level :: nat
  cu_account :: account

datatype alter_request =
    Add_User_Operation string core_user
  | Remove_User_Operation string string

text \<open>An error of a gRPC call: a status with its code and message, or another error.\<close>

datatype grpc_error = Grpc_Status nat string | Plain_Error string

type_synonym 'k alter = "'k \<Rightarrow> alter_request \<Rightarrow> grpc_error option \<times> 'k"

record handler_result =
  hres_ok :: bool
  hres_message :: string

definition ok_result :: handler_result where
  "ok_result = \<lparr>hres_ok = True, hres_message = []\<rparr>"

definition fail_result :: "string \<Rightarrow> handler_result" where
  "fail_result message = \<lparr>hres_ok = False, hres_message = message\<rparr>"

definition code_not_found :: nat where "code_not_found = 5"

fun is_user_not_found :: "grpc_error \<Rightarrow> bool" where
  "is_user_not_found (Grpc_Status code message) =
     (if code = code_not_found then True
      else (let msg = to_lower message in
        contains_text msg ''not found'' \<or> contains_text msg ''not exist'' \<or> contains_text msg ''no such user''))"
| "is_user_not_found (Plain_Error _) = False"

fun is_user_exists :: "grpc_error \<Rightarrow> bool" where
  "is_user_exists (Grpc_Status code message) =
     (let msg = to_lower message in
        contains_text msg ''already exists'' \<or> contains_text msg ''already exist'' \<or> contains_text msg ''duplicate'')"
| "is_user_exists (Plain_Error _) = False"

fun grpc_error_message :: "grpc_error \<Rightarrow> string" where
  "grpc_error_message (Grpc_Status _ message) = message"
| "grpc_error_message (Plain_Error message) = message"

section \<open>The operations of the handler API\<close>

definition add_user :: "'k alter \<Rightarrow> string \<Rightarrow> core_user \<Rightarrow> 'k \<Rightarrow> handler_result \<times> 'k" where
  "add_user alter tag user k =
     (let (err, k') = alter k (Add_User_Operation tag user) in
      ((case err of
          None \<Rightarrow> ok_result
        | Some e \<Rightarrow> if is_user_exists e then fail_result (grpc_error_message e)
            else fail_result (grpc_error_message e)), k'))"

definition api_remove_user :: "'k alter \<Rightarrow> string \<Rightarrow> string \<Rightarrow> 'k \<Rightarrow> handler_result \<times> 'k" where
  "api_remove_user alter tag username k =
     (let (err, k') = alter k (Remove_User_Operation tag username) in
      ((case err of
          None \<Rightarrow> ok_result
        | Some e \<Rightarrow> if is_user_not_found e then ok_result else fail_result (grpc_error_message e)), k'))"

definition core_user_of :: "string \<Rightarrow> nat \<Rightarrow> account \<Rightarrow> core_user" where
  "core_user_of username level acct = \<lparr>cu_email = username, cu_level = level, cu_account = acct\<rparr>"

definition add_vless_user ::
  "'k alter \<Rightarrow> string \<Rightarrow> string \<Rightarrow> string \<Rightarrow> string \<Rightarrow> nat \<Rightarrow> 'k \<Rightarrow> handler_result \<times> 'k" where
  "add_vless_user alter tag username uuid flow level =
     add_user alter tag (core_user_of username level (Vless uuid flow))"

definition add_trojan_user ::
  "'k alter \<Rightarrow> string \<Rightarrow> string \<Rightarrow> string \<Rightarrow> nat \<Rightarrow> 'k \<Rightarrow> handler_result \<times> 'k" where
  "add_trojan_user alter tag username password level =
     add_user alter tag (core_user_of username level (Trojan password))"

text \<open>The cipher type of the core is a 32 bit enumeration; the conversion of an int keeps the low 32 bits.\<close>

definition wrap32 :: "int \<Rightarrow> int" where
  "wrap32 z = (z + 2 ^ 31) mod 2 ^ 32 - 2 ^ 31"

definition add_shadowsocks_user ::
  "'k alter \<Rightarrow> string \<Rightarrow> string \<Rightarrow> string \<Rightarrow> int \<Rightarrow> bool \<Rightarrow> nat \<Rightarrow> 'k \<Rightarrow> handler_result \<times> 'k" where
  "add_shadowsocks_user alter tag username password cipher_type iv_check level =
     add_user alter tag (core_user_of username level (Shadowsocks password (wrap32 cipher_type) iv_check))"

definition add_shadowsocks2022_user ::
  "'k alter \<Rightarrow> string \<Rightarrow> string \<Rightarrow> string \<Rightarrow> nat \<Rightarrow> 'k \<Rightarrow> handler_result \<times> 'k" where
  "add_shadowsocks2022_user alter tag username key level =
     add_user alter tag (core_user_of username level (Shadowsocks2022 key))"

definition add_hysteria_user ::
  "'k alter \<Rightarrow> string \<Rightarrow> string \<Rightarrow> string \<Rightarrow> nat \<Rightarrow> 'k \<Rightarrow> handler_result \<times> 'k" where
  "add_hysteria_user alter tag username auth level =
     add_user alter tag (core_user_of username level (Hysteria auth))"

text \<open>GetInboundUsers: the users of the reply, nil entries skipped.\<close>

definition get_inbound_users ::
  "(grpc_error + (string \<times> nat) option list) \<Rightarrow> (string \<times> nat) list \<times> handler_result" where
  "get_inbound_users reply = (case reply of
     Inl e \<Rightarrow> ([], fail_result (grpc_error_message e))
   | Inr users \<Rightarrow> (map the (filter (\<lambda>u. u \<noteq> None) users), ok_result))"

definition get_inbound_users_count :: "(grpc_error + int) \<Rightarrow> int \<times> handler_result" where
  "get_inbound_users_count reply = (case reply of
     Inl e \<Rightarrow> (0, fail_result (grpc_error_message e))
   | Inr count \<Rightarrow> (count, ok_result))"

section \<open>The manager's gate\<close>

text \<open>handlerAPI of internal/xray/handler.go: without an online core, or when the socket cannot be
  dialled, no call reaches the core.\<close>

definition handler_api :: "string option \<Rightarrow> manager \<Rightarrow> string option" where
  "handler_api dial_error m = (if \<not> xray_online m then Some ''xray is not online'' else dial_error)"

definition gated ::
  "string option \<Rightarrow> manager \<Rightarrow> ('k \<Rightarrow> handler_result \<times> 'k) \<Rightarrow> 'k \<Rightarrow> handler_result \<times> 'k" where
  "gated dial_error m call k = (case handler_api dial_error m of
     Some e \<Rightarrow> (fail_result e, k)
   | None \<Rightarrow> call k)"

text \<open>The removal of an outbound (HandlerRemoveOutbound, RemoveOutbound), and of the one of the torrent blocker: the
  error of the gate, or that of the call.\<close>

definition api_remove_outbound :: "('k \<Rightarrow> string \<Rightarrow> grpc_error option \<times> 'k) \<Rightarrow> string \<Rightarrow> 'k \<Rightarrow> string option \<times> 'k" where
  "api_remove_outbound call tag k = (let (err, k') = call k tag in (map_option grpc_error_message err, k'))"

definition handler_remove_outbound ::
  "string option \<Rightarrow> manager \<Rightarrow> ('k \<Rightarrow> string \<Rightarrow> grpc_error option \<times> 'k) \<Rightarrow> string \<Rightarrow> 'k \<Rightarrow> string option \<times> 'k" where
  "handler_remove_outbound dial_error m call tag k = (case handler_api dial_error m of
     Some e \<Rightarrow> (Some e, k)
   | None \<Rightarrow> api_remove_outbound call tag k)"

definition remove_torrent_blocker_outbound ::
  "string option \<Rightarrow> manager \<Rightarrow> ('k \<Rightarrow> string \<Rightarrow> grpc_error option \<times> 'k) \<Rightarrow> 'k \<Rightarrow> string option \<times> 'k" where
  "remove_torrent_blocker_outbound dial_error m call = handler_remove_outbound dial_error m call torrent_tag"

lemma add_user_result [simp]:
  "hres_ok (fst (add_user alter tag user k)) \<longleftrightarrow> fst (alter k (Add_User_Operation tag user)) = None"
  "snd (add_user alter tag user k) = snd (alter k (Add_User_Operation tag user))"
  by (auto simp: add_user_def ok_result_def fail_result_def split: prod.splits option.splits)

lemmas add_user_kinds = add_vless_user_def add_trojan_user_def add_shadowsocks_user_def
  add_shadowsocks2022_user_def add_hysteria_user_def

end
