(* ===== verification/NodeHandler.thy ===== *)
theory NodeHandler
  imports XtlsHandler ManagerLifecycle
begin

text \<open>internal/nodehandler/handler.go with errors.go and internal/connections/dropper.go: the HTTP
  handlers that add users to the running core, remove them, and drop their connections.

  A handler runs on the manager (whose hashes and tags it updates through the provider
  interface), on the core's own state, and on the list of the addresses whose sockets were
  killed.  The request body is None when it cannot be decoded.\<close>

section \<open>The dropper\<close>

record dropper =
  dr_available :: bool
  dr_whitelisted :: "string \<Rightarrow> bool"
  dr_kill_ok :: "string \<Rightarrow> bool"

definition drop_target :: "dropper \<Rightarrow> string \<Rightarrow> bool" where
  "drop_target d ip \<longleftrightarrow> \<not> (ip = [] \<or> dr_whitelisted d ip)"

text \<open>DropIPs: the addresses whose sockets it asks to kill, and whether all of them were.\<close>

definition drop_ips :: "dropper \<Rightarrow> string list \<Rightarrow> string list \<times> bool" where
  "drop_ips d ips =
     (if \<not> dr_available d \<or> length ips = 0 then ([], True)
      else (let targets = filter (drop_target d) ips in (targets, list_all (dr_kill_ok d) targets)))"

definition nonempty_ips :: "string list \<Rightarrow> string list" where
  "nonempty_ips ips = filter (\<lambda>ip. ip \<noteq> []) ips"

fun drop_users_loop ::
  "dropper \<Rightarrow> (string \<Rightarrow> string list option) \<Rightarrow> string list \<Rightarrow> string list \<times> bool" where
  "drop_users_loop d ip_list [] = ([], True)"
| "drop_users_loop d ip_list (u # us) =
     (let (killed', ok') = drop_users_loop d ip_list us in
      case ip_list u of
        None \<Rightarrow> (killed', ok')
      | Some entries \<Rightarrow>
          if entries = [] then (killed', ok')
          else (let (killed, ok) = drop_ips d (nonempty_ips entries) in (killed @ killed', ok \<and> ok')))"

definition drop_users :: "dropper \<Rightarrow> (string \<Rightarrow> string list option) \<Rightarrow> string list \<Rightarrow> string list \<times> bool" where
  "drop_users d ip_list user_ids = (if \<not> dr_available d then ([], True) else drop_users_loop d ip_list user_ids)"

section \<open>Requests and replies\<close>

record hash_data =
  hd_vless_uuid :: string
  hd_prev_vless_uuid :: "string option"

record add_user_item =
  ai_type :: string
  ai_tag :: string
  ai_username :: string
  ai_password :: string
  ai_uuid :: string
  ai_flow :: string
  ai_cipher_type :: int
  ai_iv_check :: bool

record batch_inbound_item =
  bi_type :: string
  bi_tag :: string
  bi_flow :: string

record batch_user_data =
  bu_user_id :: string
  bu_hash_uuid :: string
  bu_vless_uuid :: string
  bu_trojan_password :: string
  bu_ss_password :: string

type_synonym add_user_request = "add_user_item list \<times> hash_data"
type_synonym remove_user_request = "string \<times> hash_data"
type_synonym batch_user = "batch_inbound_item list \<times> batch_user_data"
type_synonym add_users_request = "string list \<times> batch_user list"

datatype node_reply =
    Generic bool "string option"
  | Bad_Request string
  | Api_Error string nat string
  | Count_Reply int
  | Users_Reply "(string \<times> nat) list"
  | Success_Reply bool

definition internal_server_error :: node_reply where
  "internal_server_error = Api_Error ''A001'' 500 ''Server error''"

definition failed_inbound_users :: "string \<Rightarrow> node_reply" where
  "failed_inbound_users message =
     Api_Error ''A014'' 500 (if message = [] then ''Failed to get inbound users'' else message)"

definition aggregate_results :: "handler_result list \<Rightarrow> node_reply" where
  "aggregate_results results = (case filter (\<lambda>r. \<not> hres_ok r) results of
     [] \<Rightarrow> Generic True None
   | r # _ \<Rightarrow> Generic False (Some (if hres_message r = [] then ''handler operation failed'' else hres_message r)))"

section \<open>The world of a handler\<close>

record 'k node_world =
  nw_manager :: manager
  nw_core :: 'k
  nw_killed :: "string list"

record 'k node_env =
  ne_alter :: "'k alter"
  ne_dial :: "string option"
  ne_ip_list :: "'k \<Rightarrow> string \<Rightarrow> string list option"
  ne_dropper :: "dropper option"

abbreviation nw_hash :: "'k node_world \<Rightarrow> hash_state" where
  "nw_hash w \<equiv> m_hash (nw_manager w)"

definition set_hash :: "hash_state \<Rightarrow> 'k node_world \<Rightarrow> 'k node_world" where
  "set_hash h w = w\<lparr>nw_manager := (nw_manager w)\<lparr>m_hash := h\<rparr>\<rparr>"

definition provider_tags :: "'k node_world \<Rightarrow> string list" where
  "provider_tags w = inbound_tags_list (nw_hash w)"

definition provider_add_tag :: "string \<Rightarrow> 'k node_world \<Rightarrow> 'k node_world" where
  "provider_add_tag tag w = set_hash (add_inbound_tag tag (nw_hash w)) w"

definition provider_call ::
  "'k node_env \<Rightarrow> ('k \<Rightarrow> handler_result \<times> 'k) \<Rightarrow> 'k node_world \<Rightarrow> handler_result \<times> 'k node_world" where
  "provider_call env call w =
     (let (res, k) = gated (ne_dial env) (nw_manager w) call (nw_core w) in (res, w\<lparr>nw_core := k\<rparr>))"

definition provider_ip_list :: "'k node_env \<Rightarrow> 'k node_world \<Rightarrow> string \<Rightarrow> string list option" where
  "provider_ip_list env w user =
     (if stats_api (ne_dial env) True (nw_manager w) \<noteq> None then None else ne_ip_list env (nw_core w) user)"

text \<open>The removal of one user from the given tags, and the results of the calls.\<close>

fun remove_from_tags ::
  "'k node_env \<Rightarrow> string \<Rightarrow> string \<Rightarrow> string list \<Rightarrow> 'k node_world \<Rightarrow> handler_result list \<times> 'k node_world" where
  "remove_from_tags env username hash_uuid [] w = ([], w)"
| "remove_from_tags env username hash_uuid (tag # tags) w =
     (let (res, w1) = provider_call env (api_remove_user (ne_alter env) tag username) w;
          w2 = (if hres_ok res then set_hash (remove_user_from_inbound_hash tag hash_uuid (nw_hash w1)) w1 else w1);
          (results, w3) = remove_from_tags env username hash_uuid tags w2
      in (res # results, w3))"

definition unsupported :: "string \<Rightarrow> handler_result" where
  "unsupported kind = fail_result (''unsupported user type: '' @ kind)"

definition add_single_user ::
  "'k node_env \<Rightarrow> add_user_item \<Rightarrow> 'k node_world \<Rightarrow> handler_result \<times> 'k node_world" where
  "add_single_user env item w =
     (let a = ne_alter env; tag = ai_tag item; name = ai_username item; pass = ai_password item in
      if ai_type item = ''vless'' then provider_call env (add_vless_user a tag name (ai_uuid item) (ai_flow item) 0) w
      else if ai_type item = ''trojan'' then provider_call env (add_trojan_user a tag name pass 0) w
      else if ai_type item = ''shadowsocks'' then
        provider_call env (add_shadowsocks_user a tag name pass (ai_cipher_type item) (ai_iv_check item) 0) w
      else if ai_type item = ''shadowsocks22'' then provider_call env (add_shadowsocks2022_user a tag name pass 0) w
      else if ai_type item = ''hysteria'' then provider_call env (add_hysteria_user a tag name pass 0) w
      else (unsupported (ai_type item), w))"

definition add_batch_user ::
  "'k node_env \<Rightarrow> batch_user_data \<Rightarrow> batch_inbound_item \<Rightarrow> 'k node_world \<Rightarrow> handler_result \<times> 'k node_world" where
  "add_batch_user env user inbound w =
     (let a = ne_alter env; tag = bi_tag inbound; name = bu_user_id user in
      if bi_type inbound = ''vless'' then
        provider_call env (add_vless_user a tag name (bu_vless_uuid user) (bi_flow inbound) 0) w
      else if bi_type inbound = ''trojan'' then
        provider_call env (add_trojan_user a tag name (bu_trojan_password user) 0) w
      else if bi_type inbound = ''shadowsocks'' then
        provider_call env (add_shadowsocks_user a tag name (bu_ss_password user) 0 False 0) w
      else if bi_type inbound = ''shadowsocks22'' then
        provider_call env (add_shadowsocks2022_user a tag name (base64_encode (bu_ss_password user)) 0) w
      else if bi_type inbound = ''hysteria'' then
        provider_call env (add_hysteria_user a tag name (bu_vless_uuid user) 0) w
      else (unsupported (bi_type inbound), w))"

text \<open>The loop that adds a user to several inbounds: a write to a nil map is a panic, which ends
  the handler in the world reached so far.\<close>

fun add_to_inbounds ::
  "('i \<Rightarrow> 'k node_world \<Rightarrow> handler_result \<times> 'k node_world) \<Rightarrow> ('i \<Rightarrow> string) \<Rightarrow> string \<Rightarrow> 'i list
    \<Rightarrow> 'k node_world \<Rightarrow> 'k node_world + (handler_result list \<times> 'k node_world)" where
  "add_to_inbounds add tag_of_item uuid [] w = Inr ([], w)"
| "add_to_inbounds add tag_of_item uuid (item # items) w =
     (let (res, w1) = add item w in
      case (if hres_ok res then add_user_to_inbound_hash (tag_of_item item) uuid (nw_hash w1)
            else Some (nw_hash w1)) of
        None \<Rightarrow> Inl w1
      | Some h \<Rightarrow> (case add_to_inbounds add tag_of_item uuid items (set_hash h w1) of
            Inl w2 \<Rightarrow> Inl w2
          | Inr (results, w2) \<Rightarrow> Inr (res # results, w2)))"

section \<open>The handlers\<close>

definition any_failed :: "handler_result list \<Rightarrow> bool" where
  "any_failed results \<longleftrightarrow> list_ex (\<lambda>r. \<not> hres_ok r) results"

definition removal_uuid :: "hash_data \<Rightarrow> string" where
  "removal_uuid h = (case hd_prev_vless_uuid h of
     Some prev \<Rightarrow> if prev \<noteq> [] then prev else hd_vless_uuid h
   | None \<Rightarrow> hd_vless_uuid h)"

definition handle_add_user ::
  "'k node_env \<Rightarrow> add_user_request option \<Rightarrow> 'k node_world \<Rightarrow> node_reply \<times> 'k node_world" where
  "handle_add_user env body w = (case body of
     None \<Rightarrow> (Bad_Request ''invalid JSON body'', w)
   | Some (data, hash) \<Rightarrow>
       if length data = 0 then (Bad_Request ''data is required'', w)
       else
        (let w1 = fold (\<lambda>item. provider_add_tag (ai_tag item)) data w;
             username = ai_username (hd data);
             (removals, w2) = (if username \<noteq> []
               then remove_from_tags env username (removal_uuid hash) (provider_tags w1) w1 else ([], w1))
         in if any_failed removals then (aggregate_results removals, w2)
            else (case add_to_inbounds (add_single_user env) ai_tag (hd_vless_uuid hash) data w2 of
                Inl w3 \<Rightarrow> (internal_server_error, w3)
              | Inr (results, w3) \<Rightarrow> (aggregate_results (removals @ results), w3))))"

definition collect_user_ips :: "'k node_env \<Rightarrow> 'k node_world \<Rightarrow> string \<Rightarrow> string list" where
  "collect_user_ips env w username =
     (if username = [] then []
      else (case provider_ip_list env w username of
          None \<Rightarrow> []
        | Some entries \<Rightarrow> nonempty_ips entries))"

definition service_drop_ips :: "'k node_env \<Rightarrow> string list \<Rightarrow> 'k node_world \<Rightarrow> 'k node_world" where
  "service_drop_ips env ips w = (case ne_dropper env of
     None \<Rightarrow> w
   | Some d \<Rightarrow> if length ips = 0 then w else w\<lparr>nw_killed := nw_killed w @ fst (drop_ips d ips)\<rparr>)"

definition handle_remove_user ::
  "'k node_env \<Rightarrow> remove_user_request option \<Rightarrow> 'k node_world \<Rightarrow> node_reply \<times> 'k node_world" where
  "handle_remove_user env body w = (case body of
     None \<Rightarrow> (Bad_Request ''invalid JSON body'', w)
   | Some (username, hash) \<Rightarrow>
       (let tags = provider_tags w in
        if length tags = 0 then (Generic True None, w)
        else
         (let ips = collect_user_ips env w username;
              (results, w1) = remove_from_tags env username (hd_vless_uuid hash) tags w
          in (aggregate_results results, service_drop_ips env ips w1))))"

definition add_batch ::
  "'k node_env \<Rightarrow> batch_user \<Rightarrow> 'k node_world \<Rightarrow> 'k node_world + (handler_result list \<times> 'k node_world)" where
  "add_batch env user w =
     (let (inbounds, data) = user;
          w1 = fold (\<lambda>i. provider_add_tag (bi_tag i)) inbounds w;
          (removals, w2) = remove_from_tags env (bu_user_id data) (bu_hash_uuid data) (provider_tags w1) w1
      in if any_failed removals then Inr (removals, w2)
         else (case add_to_inbounds (add_batch_user env data) bi_tag (bu_vless_uuid data) inbounds w2 of
             Inl w3 \<Rightarrow> Inl w3
           | Inr (results, w3) \<Rightarrow> Inr (removals @ results, w3)))"

fun add_batches ::
  "'k node_env \<Rightarrow> batch_user list \<Rightarrow> 'k node_world \<Rightarrow> 'k node_world + (handler_result list \<times> 'k node_world)" where
  "add_batches env [] w = Inr ([], w)"
| "add_batches env (u # us) w = (case add_batch env u w of
     Inl w1 \<Rightarrow> Inl w1
   | Inr (results, w1) \<Rightarrow> (case add_batches env us w1 of
       Inl w2 \<Rightarrow> Inl w2
     | Inr (results', w2) \<Rightarrow> Inr (results @ results', w2)))"

definition handle_add_users ::
  "'k node_env \<Rightarrow> add_users_request option \<Rightarrow> 'k node_world \<Rightarrow> node_reply \<times> 'k node_world" where
  "handle_add_users env body w = (case body of
     None \<Rightarrow> (Bad_Request ''invalid JSON body'', w)
   | Some (affected_tags, users) \<Rightarrow>
       (case add_batches env users (fold provider_add_tag affected_tags w) of
          Inl w1 \<Rightarrow> (internal_server_error, w1)
        | Inr (results, w1) \<Rightarrow> (aggregate_results results, w1)))"

fun remove_batch ::
  "'k node_env \<Rightarrow> (string \<times> string) list \<Rightarrow> 'k node_world \<Rightarrow> handler_result list \<times> 'k node_world" where
  "remove_batch env [] w = ([], w)"
| "remove_batch env ((user_id, hash_uuid) # us) w =
     (let ips = collect_user_ips env w user_id;
          (results, w1) = remove_from_tags env user_id hash_uuid (provider_tags w) w;
          (results', w2) = remove_batch env us (service_drop_ips env ips w1)
      in (results @ results', w2))"

definition handle_remove_users ::
  "'k node_env \<Rightarrow> (string \<times> string) list option \<Rightarrow> 'k node_world \<Rightarrow> node_reply \<times> 'k node_world" where
  "handle_remove_users env body w = (case body of
     None \<Rightarrow> (Bad_Request ''invalid JSON body'', w)
   | Some users \<Rightarrow>
       if length (provider_tags w) = 0 then (Generic True None, w)
       else (let (results, w1) = remove_batch env users w in (aggregate_results results, w1)))"

text \<open>The read handlers take the reply of the core to the call they make; the provider is always
  set by the callers.\<close>

definition handle_get_inbound_users_count ::
  "'k node_env \<Rightarrow> string option \<Rightarrow> (grpc_error + int) \<Rightarrow> 'k node_world \<Rightarrow> node_reply" where
  "handle_get_inbound_users_count env body reply w = (case body of
     None \<Rightarrow> Bad_Request ''invalid JSON body''
   | Some tag \<Rightarrow>
       if tag = [] then Count_Reply 0
       else (let (count, res) = (case handler_api (ne_dial env) (nw_manager w) of
                 Some e \<Rightarrow> (0, fail_result e) | None \<Rightarrow> get_inbound_users_count reply)
             in if \<not> hres_ok res then failed_inbound_users (hres_message res) else Count_Reply count))"

definition handle_get_inbound_users ::
  "'k node_env \<Rightarrow> string option \<Rightarrow> (grpc_error + (string \<times> nat) option list) \<Rightarrow> 'k node_world \<Rightarrow> node_reply" where
  "handle_get_inbound_users env body reply w = (case body of
     None \<Rightarrow> Bad_Request ''invalid JSON body''
   | Some tag \<Rightarrow>
       if tag = [] then Users_Reply []
       else (let (users, res) = (case handler_api (ne_dial env) (nw_manager w) of
                 Some e \<Rightarrow> ([], fail_result e) | None \<Rightarrow> get_inbound_users reply)
             in if \<not> hres_ok res then failed_inbound_users (hres_message res) else Users_Reply users))"

definition handle_drop_users_connections ::
  "'k node_env \<Rightarrow> string list option \<Rightarrow> 'k node_world \<Rightarrow> node_reply \<times> 'k node_world" where
  "handle_drop_users_connections env body w = (case body of
     None \<Rightarrow> (Bad_Request ''invalid JSON body'', w)
   | Some user_ids \<Rightarrow> (case ne_dropper env of
       None \<Rightarrow> (Success_Reply True, w)
     | Some d \<Rightarrow> (let (killed, ok) = drop_users d (provider_ip_list env w) user_ids
         in (Success_Reply ok, w\<lparr>nw_killed := nw_killed w @ killed\<rparr>))))"

definition handle_drop_ips ::
  "'k node_env \<Rightarrow> string list option \<Rightarrow> 'k node_world \<Rightarrow> node_reply \<times> 'k node_world" where
  "handle_drop_ips env body w = (case body of
     None \<Rightarrow> (Bad_Request ''invalid JSON body'', w)
   | Some ips \<Rightarrow> (case ne_dropper env of
       None \<Rightarrow> (Success_Reply True, w)
     | Some d \<Rightarrow> (let (killed, ok) = drop_ips d ips
         in (Success_Reply ok, w\<lparr>nw_killed := nw_killed w @ killed\<rparr>))))"

section \<open>The registry of inbounds and their users\<close>

text \<open>What the handlers rely on in the provider: tags are never lost by listing them, a user can
  always join an inbound, and leaving an inbound takes exactly this user out of it.\<close>

locale inbound_registry =
  fixes ok :: "'s \<Rightarrow> bool"
    and add_tag :: "string \<Rightarrow> 's \<Rightarrow> 's"
    and tag_list :: "'s \<Rightarrow> string list"
    and join :: "string \<Rightarrow> string \<Rightarrow> 's \<Rightarrow> 's option"
    and leave :: "string \<Rightarrow> string \<Rightarrow> 's \<Rightarrow> 's"
    and users :: "'s \<Rightarrow> user_map"
  assumes join_spec: "ok s \<Longrightarrow> \<exists>s'. join t u s = Some s' \<and> ok s' \<and> users s' = spec_user_op (Add_User t u) (users s)"
    and leave_spec: "ok s \<Longrightarrow> ok (leave t u s) \<and> users (leave t u s) = spec_user_op (Remove_User t u) (users s)"
    and add_tag_spec: "ok s \<Longrightarrow> ok (add_tag t s) \<and> users (add_tag t s) = users s"
    and tag_list_covers: "ok s \<Longrightarrow> users s t \<noteq> None \<Longrightarrow> t \<in> set (tag_list s)"
begin

lemma leave_many:
  "ok s \<Longrightarrow> ok (fold (\<lambda>t. leave t u) ts s)
    \<and> users (fold (\<lambda>t. leave t u) ts s) = fold spec_user_op (map (\<lambda>t. Remove_User t u) ts) (users s)"
  by (induction ts arbitrary: s) (simp_all add: leave_spec)

lemma add_tags:
  "ok s \<Longrightarrow> ok (fold add_tag ts s) \<and> users (fold add_tag ts s) = users s"
  by (induction ts arbitrary: s) (simp_all add: add_tag_spec)

lemma spec_remove_many:
  assumes "u \<noteq> []" "t \<noteq> []"
  shows "(case fold spec_user_op (map (\<lambda>t. Remove_User t u) ts) f t of None \<Rightarrow> {} | Some A \<Rightarrow> A)
    = (case f t of None \<Rightarrow> {} | Some A \<Rightarrow> A) - (if t \<in> set ts then {u} else {})"
  using assms
proof (induction ts arbitrary: f)
  case (Cons a ts)
  then show ?case by (auto split: option.splits if_splits)
qed auto

text \<open>After the user has left every listed inbound no inbound holds the user, and every other
  user is where it was.\<close>

lemma leave_all:
  assumes "ok s" "u \<noteq> []" "t \<noteq> []"
  shows "(case users (fold (\<lambda>t. leave t u) (tag_list s) s) t of None \<Rightarrow> {} | Some A \<Rightarrow> A)
    = (case users s t of None \<Rightarrow> {} | Some A \<Rightarrow> A) - {u}"
  using leave_many [OF assms(1), of u "tag_list s"] spec_remove_many [OF assms(2,3), of "tag_list s" "users s"]
    tag_list_covers [OF assms(1), of t]
  by (auto split: option.splits if_splits)

end

lemma user_map_add_tag [simp]: "user_map (add_inbound_tag t st) = user_map st"
  by (simp add: user_map_def add_inbound_tag_def)

interpretation registry: inbound_registry hash_inv add_inbound_tag inbound_tags_list
    add_user_to_inbound_hash remove_user_from_inbound_hash user_map
proof
  fix s t u
  show "hash_inv s \<Longrightarrow> \<exists>s'. add_user_to_inbound_hash t u s = Some s' \<and> hash_inv s'
      \<and> user_map s' = spec_user_op (Add_User t u) (user_map s)"
    using run_user_op_refines [of s "Add_User t u"] by auto
  show "hash_inv s \<Longrightarrow> hash_inv (remove_user_from_inbound_hash t u s)
      \<and> user_map (remove_user_from_inbound_hash t u s) = spec_user_op (Remove_User t u) (user_map s)"
    using run_user_op_refines [of s "Remove_User t u"] by auto
  show "hash_inv s \<Longrightarrow> hash_inv (add_inbound_tag t s) \<and> user_map (add_inbound_tag t s) = user_map s"
    by (simp add: hash_inv_add_tag)
  show "hash_inv s \<Longrightarrow> user_map s t \<noteq> None \<Longrightarrow> t \<in> set (inbound_tags_list s)"
    using hash_inv_lookup [of s t] by (fastforce simp: user_map_def inbound_tags_list_def)
qed

section \<open>What the loops do\<close>

definition core_after :: "'k alter \<Rightarrow> alter_request list \<Rightarrow> 'k \<Rightarrow> 'k" where
  "core_after alter reqs k = fold (\<lambda>r k. snd (alter k r)) reqs k"

lemma core_after_simps [simp]:
  "core_after alter [] k = k"
  "core_after alter (r # rs) k = core_after alter rs (snd (alter k r))"
  "core_after alter (rs @ ss) k = core_after alter ss (core_after alter rs k)"
  by (simp_all add: core_after_def)

lemma set_hash_frame [simp]:
  "m_hash (nw_manager (set_hash h w)) = h" "nw_core (set_hash h w) = nw_core w"
  "nw_killed (set_hash h w) = nw_killed w"
  "xray_online (nw_manager (set_hash h w)) = xray_online (nw_manager w)"
  "handler_api d (nw_manager (set_hash h w)) = handler_api d (nw_manager w)"
  by (simp_all add: set_hash_def handler_api_def)

lemma provider_call_frame [simp]:
  "nw_manager (snd (provider_call env call w)) = nw_manager w"
  "nw_killed (snd (provider_call env call w)) = nw_killed w"
  by (simp_all add: provider_call_def split_beta)

lemma provider_call_open:
  "handler_api (ne_dial env) (nw_manager w) = None \<Longrightarrow>
    fst (provider_call env call w) = fst (call (nw_core w))
    \<and> nw_core (snd (provider_call env call w)) = snd (call (nw_core w))"
  by (simp add: provider_call_def gated_def split_beta)

lemma api_remove_core [simp]:
  "snd (api_remove_user alter t u k) = snd (alter k (Remove_User_Operation t u))"
  by (simp add: api_remove_user_def split_beta)

text \<open>The hashes follow the calls that succeeded.\<close>

lemma remove_from_tags_hash:
  "remove_from_tags env username uuid tags w = (results, w') \<Longrightarrow> length results = length tags
    \<and> nw_hash w' = fold (\<lambda>t. remove_user_from_inbound_hash t uuid)
        (map fst (filter (\<lambda>p. hres_ok (snd p)) (zip tags results))) (nw_hash w)
    \<and> nw_killed w' = nw_killed w
    \<and> handler_api (ne_dial env) (nw_manager w') = handler_api (ne_dial env) (nw_manager w)"
proof (induction env username uuid tags w arbitrary: results w' rule: remove_from_tags.induct)
  case (2 env username uuid tag tags w)
  let ?c = "provider_call env (api_remove_user (ne_alter env) tag username) w"
  let ?w2 = "if hres_ok (fst ?c) then set_hash (remove_user_from_inbound_hash tag uuid (nw_hash (snd ?c))) (snd ?c)
    else snd ?c"
  obtain rs w3 where r: "remove_from_tags env username uuid tags ?w2 = (rs, w3)" by force
  with "2.prems" have eq: "results = fst ?c # rs" "w' = w3"
    by (auto simp: Let_def split_beta)
  from "2.IH" [OF refl prod.collapse refl r] show ?case
    unfolding eq by auto
qed simp

lemma remove_from_tags_core:
  assumes "handler_api (ne_dial env) (nw_manager w) = None"
  shows "nw_core (snd (remove_from_tags env username uuid tags w))
    = core_after (ne_alter env) (map (\<lambda>t. Remove_User_Operation t username) tags) (nw_core w)"
  using assms
proof (induction env username uuid tags w rule: remove_from_tags.induct)
  case (2 env username uuid tag tags w)
  from "2.IH" [OF refl prod.collapse refl] "2.prems"
    provider_call_open [of env w "api_remove_user (ne_alter env) tag username"]
  show ?case by (simp add: Let_def split_beta)
qed simp

lemma not_any_failed_filter:
  "\<lbrakk>length results = length tags; \<not> any_failed results\<rbrakk>
    \<Longrightarrow> map fst (filter (\<lambda>p. hres_ok (snd p)) (zip tags results)) = tags"
  by (induction results tags rule: list_induct2) (auto simp: any_failed_def)

lemma add_to_inbounds_spec:
  assumes "hash_inv (nw_hash w)"
    and add: "\<And>i w. nw_manager (snd (add i w)) = nw_manager w"
  shows "\<exists>results w'. add_to_inbounds add tg uuid items w = Inr (results, w')
    \<and> length results = length items \<and> hash_inv (nw_hash w')
    \<and> user_map (nw_hash w') = fold spec_user_op
        (map (\<lambda>p. Add_User (tg (fst p)) uuid) (filter (\<lambda>p. hres_ok (snd p)) (zip items results)))
        (user_map (nw_hash w))"
  using assms(1)
proof (induction items arbitrary: w)
  case (Cons i items)
  let ?w1 = "snd (add i w)"
  have h1: "nw_hash ?w1 = nw_hash w" by (simp add: add)
  obtain h where h: "(if hres_ok (fst (add i w)) then add_user_to_inbound_hash (tg i) uuid (nw_hash w)
        else Some (nw_hash w)) = Some h" and inv: "hash_inv h"
    and um: "user_map h = (if hres_ok (fst (add i w)) then spec_user_op (Add_User (tg i) uuid) (user_map (nw_hash w))
        else user_map (nw_hash w))"
    using registry.join_spec [OF Cons.prems, of "tg i" uuid] Cons.prems by (cases "hres_ok (fst (add i w))") auto
  from Cons.IH [of "set_hash h ?w1"] inv obtain rs w' where
    "add_to_inbounds add tg uuid items (set_hash h ?w1) = Inr (rs, w')" "length rs = length items"
    "hash_inv (nw_hash w')" "user_map (nw_hash w') = fold spec_user_op
        (map (\<lambda>p. Add_User (tg (fst p)) uuid) (filter (\<lambda>p. hres_ok (snd p)) (zip items rs))) (user_map h)"
    by auto
  with h h1 um show ?case by (auto simp: Let_def split_beta)
qed simp

lemma add_single_manager [simp]: "nw_manager (snd (add_single_user env i w)) = nw_manager w"
  by (simp add: add_single_user_def Let_def)

lemma add_batch_manager [simp]: "nw_manager (snd (add_batch_user env d i w)) = nw_manager w"
  by (simp add: add_batch_user_def Let_def)

section \<open>Properties of the handlers\<close>

definition account_of :: "add_user_item \<Rightarrow> account option" where
  "account_of item =
     (if ai_type item = ''vless'' then Some (Vless (ai_uuid item) (ai_flow item))
      else if ai_type item = ''trojan'' then Some (Trojan (ai_password item))
      else if ai_type item = ''shadowsocks'' then Some (Shadowsocks (ai_password item) (wrap32 (ai_cipher_type item)) (ai_iv_check item))
      else if ai_type item = ''shadowsocks22'' then Some (Shadowsocks2022 (ai_password item))
      else if ai_type item = ''hysteria'' then Some (Hysteria (ai_password item))
      else None)"

definition add_request :: "add_user_item \<Rightarrow> alter_request" where
  "add_request item = Add_User_Operation (ai_tag item)
     (core_user_of (ai_username item) 0 (the (account_of item)))"

lemma add_single_user_eq:
  "add_single_user env item w = (case account_of item of
     None \<Rightarrow> (unsupported (ai_type item), w)
   | Some acct \<Rightarrow> provider_call env
       (add_user (ne_alter env) (ai_tag item) (core_user_of (ai_username item) 0 acct)) w)"
  by (simp add: add_single_user_def account_of_def add_user_kinds Let_def)

lemma add_single_ok:
  assumes "hres_ok (fst (add_single_user env item w))"
  shows "handler_api (ne_dial env) (nw_manager w) = None
    \<and> nw_core (snd (add_single_user env item w)) = snd (ne_alter env (nw_core w) (add_request item))"
  using assms
  by (auto simp: add_single_user_eq add_request_def unsupported_def fail_result_def provider_call_def
      gated_def split_beta split: option.splits)

lemma add_to_inbounds_core:
  assumes "add_to_inbounds (add_single_user env) ai_tag uuid items w = Inr (results, w')"
    and "\<not> any_failed results"
  shows "nw_core w' = core_after (ne_alter env) (map add_request items) (nw_core w)
    \<and> (items \<noteq> [] \<longrightarrow> handler_api (ne_dial env) (nw_manager w) = None)"
  using assms
proof (induction items arbitrary: w results)
  case (Cons i items)
  obtain h where h: "(if hres_ok (fst (add_single_user env i w))
        then add_user_to_inbound_hash (ai_tag i) uuid (nw_hash (snd (add_single_user env i w)))
        else Some (nw_hash (snd (add_single_user env i w)))) = Some h"
    and rs: "\<exists>rs. results = fst (add_single_user env i w) # rs
      \<and> add_to_inbounds (add_single_user env) ai_tag uuid items (set_hash h (snd (add_single_user env i w))) = Inr (rs, w')"
    using Cons.prems(1) by (auto simp: Let_def split_beta split: option.splits sum.splits)
  then obtain rs where rs: "results = fst (add_single_user env i w) # rs"
      "add_to_inbounds (add_single_user env) ai_tag uuid items (set_hash h (snd (add_single_user env i w))) = Inr (rs, w')"
    by blast
  with Cons.prems(2) have "hres_ok (fst (add_single_user env i w))" "\<not> any_failed rs"
    by (auto simp: any_failed_def)
  with add_single_ok [of env i w] Cons.IH [OF rs(2)] show ?case by simp
qed simp

lemma fold_add_tag_hash:
  "nw_hash (fold (\<lambda>i. provider_add_tag (f i)) items w) = fold (\<lambda>i. add_inbound_tag (f i)) items (nw_hash w)
    \<and> nw_core (fold (\<lambda>i. provider_add_tag (f i)) items w) = nw_core w
    \<and> nw_killed (fold (\<lambda>i. provider_add_tag (f i)) items w) = nw_killed w
    \<and> handler_api d (nw_manager (fold (\<lambda>i. provider_add_tag (f i)) items w)) = handler_api d (nw_manager w)"
  by (induction items arbitrary: w) (simp_all add: provider_add_tag_def)

lemma fold_add_tag_ok:
  "hash_inv (nw_hash w) \<Longrightarrow>
    hash_inv (nw_hash (fold (\<lambda>i. provider_add_tag (f i)) items w))
    \<and> user_map (nw_hash (fold (\<lambda>i. provider_add_tag (f i)) items w)) = user_map (nw_hash w)"
  using registry.add_tags [of "nw_hash w" "map f items"]
  by (simp add: fold_add_tag_hash fold_map comp_def)

lemma remove_from_tags_ok:
  assumes "hash_inv (nw_hash w)" "remove_from_tags env username uuid tags w = (results, w')"
  shows "hash_inv (nw_hash w')"
    and "\<not> any_failed results \<Longrightarrow> user_map (nw_hash w') =
      fold spec_user_op (map (\<lambda>t. Remove_User t uuid) tags) (user_map (nw_hash w))"
proof -
  note h = remove_from_tags_hash [OF assms(2)]
  let ?ts = "map fst (filter (\<lambda>p. hres_ok (snd p)) (zip tags results))"
  note l = registry.leave_many [OF assms(1), of uuid ?ts]
  from h l show "hash_inv (nw_hash w')" by simp
  assume "\<not> any_failed results"
  with h l not_any_failed_filter [of results tags] show "user_map (nw_hash w') =
      fold spec_user_op (map (\<lambda>t. Remove_User t uuid) tags) (user_map (nw_hash w))" by simp
qed

lemma aggregate_ok: "aggregate_results results = Generic True None \<longleftrightarrow> \<not> any_failed results"
proof -
  have "any_failed results \<longleftrightarrow> filter (\<lambda>r. \<not> hres_ok r) results \<noteq> []"
    by (auto simp: any_failed_def list_ex_iff filter_empty_conv)
  then show ?thesis by (auto simp: aggregate_results_def split: list.splits)
qed

lemma aggregate_not_panic [simp]: "aggregate_results results \<noteq> internal_server_error"
  by (simp add: aggregate_results_def internal_server_error_def split: list.splits)

definition tagged :: "add_user_item list \<Rightarrow> 'k node_world \<Rightarrow> 'k node_world" where
  "tagged data w = fold (\<lambda>item. provider_add_tag (ai_tag item)) data w"

text \<open>The tags from which HandleAddUser removes the user first: all known ones, but none when the
  first item has no username.\<close>

definition removal_tags :: "add_user_item list \<Rightarrow> 'k node_world \<Rightarrow> string list" where
  "removal_tags data w = (if ai_username (hd data) = [] then [] else provider_tags (tagged data w))"

text \<open>C5: When HandleAddUser answers success, the core has received exactly one removal of the
  user for every known inbound tag, unless the first item has no username, when there is none, and
  then one addition per item of the request, in this order; and the tracked users are what these
  removals (of the previous id) and additions make of them.\<close>

theorem add_user_success:
  assumes inv: "hash_inv (nw_hash w)"
    and run: "handle_add_user env (Some (data, hash)) w = (Generic True None, w')"
  shows "nw_core w' = core_after (ne_alter env)
      (map (\<lambda>t. Remove_User_Operation t (ai_username (hd data))) (removal_tags data w)
        @ map add_request data) (nw_core w)
    \<and> user_map (nw_hash w') = fold spec_user_op
        (map (\<lambda>t. Remove_User t (removal_uuid hash)) (removal_tags data w)
         @ map (\<lambda>i. Add_User (ai_tag i) (hd_vless_uuid hash)) data) (user_map (nw_hash w))"
proof -
  let ?w1 = "tagged data w" and ?name = "ai_username (hd data)"
  obtain removals w2 where rem: "remove_from_tags env ?name (removal_uuid hash) (removal_tags data w) ?w1 = (removals, w2)"
    by force
  from run have ne: "data \<noteq> []" by (auto simp: handle_add_user_def)
  have w1: "hash_inv (nw_hash ?w1)" "user_map (nw_hash ?w1) = user_map (nw_hash w)" "nw_core ?w1 = nw_core w"
    using fold_add_tag_ok [OF inv, of ai_tag data] fold_add_tag_hash [of ai_tag data w]
    by (simp_all add: tagged_def)
  note inv2 = remove_from_tags_ok [OF w1(1) rem]
  obtain results w3 where add: "add_to_inbounds (add_single_user env) ai_tag (hd_vless_uuid hash) data w2 = Inr (results, w3)"
    and len: "length results = length data"
    and um: "user_map (nw_hash w3) = fold spec_user_op (map (\<lambda>p. Add_User (ai_tag (fst p)) (hd_vless_uuid hash))
        (filter (\<lambda>p. hres_ok (snd p)) (zip data results))) (user_map (nw_hash w2))"
    using add_to_inbounds_spec [OF inv2(1), of "add_single_user env" ai_tag "hd_vless_uuid hash" data]
    by auto
  have "(if ?name \<noteq> [] then remove_from_tags env ?name (removal_uuid hash) (provider_tags ?w1) ?w1 else ([], ?w1))
      = (removals, w2)" using rem by (auto simp: removal_tags_def split: if_splits)
  with run ne add have nf: "\<not> any_failed removals" and w': "w' = w3" and nf3: "\<not> any_failed results"
    by (auto simp: handle_add_user_def tagged_def [symmetric] Let_def aggregate_ok any_failed_def
        split: if_splits)
  have core: "nw_core w3 = core_after (ne_alter env) (map add_request data) (nw_core w2)"
    and open2: "handler_api (ne_dial env) (nw_manager w2) = None"
    using add_to_inbounds_core [OF add nf3] ne by auto
  have "handler_api (ne_dial env) (nw_manager ?w1) = None"
    using remove_from_tags_hash [OF rem] open2 by simp
  from remove_from_tags_core [OF this, of ?name "removal_uuid hash" "removal_tags data w"] rem
  have "nw_core w2 = core_after (ne_alter env)
      (map (\<lambda>t. Remove_User_Operation t ?name) (removal_tags data w)) (nw_core w)"
    by (simp add: w1)
  moreover have "map (\<lambda>p. Add_User (ai_tag (fst p)) (hd_vless_uuid hash))
        (filter (\<lambda>p. hres_ok (snd p)) (zip data results)) = map (\<lambda>i. Add_User (ai_tag i) (hd_vless_uuid hash)) data"
    using arg_cong [OF not_any_failed_filter [OF len nf3], of "map (\<lambda>i. Add_User (ai_tag i) (hd_vless_uuid hash))"]
    by (simp add: comp_def)
  ultimately show ?thesis using core um inv2(2) [OF nf] w1 by (simp add: w')
qed

text \<open>When the core refuses a removal of the user from some inbound, HandleAddUser answers
  with a failure and its error text, and sends no addition: the core has received removals only
  (none when it cannot be reached) and no user is added to the hashes.\<close>

theorem add_user_stops_on_failed_removal:
  assumes "data \<noteq> []" and "ai_username (hd data) \<noteq> []"
    and "remove_from_tags env (ai_username (hd data)) (removal_uuid hash)
      (provider_tags (tagged data w)) (tagged data w) = (removals, w2)" and "any_failed removals"
  shows "handle_add_user env (Some (data, hash)) w = (aggregate_results removals, w2)
    \<and> (\<exists>e. aggregate_results removals = Generic False (Some e))
    \<and> nw_core w2 = (if handler_api (ne_dial env) (nw_manager w) = None
        then core_after (ne_alter env)
          (map (\<lambda>t. Remove_User_Operation t (ai_username (hd data))) (provider_tags (tagged data w))) (nw_core w)
        else nw_core w)"
proof -
  have frame: "nw_core (tagged data w) = nw_core w"
    "handler_api (ne_dial env) (nw_manager (tagged data w)) = handler_api (ne_dial env) (nw_manager w)"
    using fold_add_tag_hash [of ai_tag data w] by (simp_all add: tagged_def)
  have closed: "nw_core (snd (remove_from_tags env u h ts x)) = nw_core x"
    if "handler_api (ne_dial env) (nw_manager x) \<noteq> None" for u h ts x
    using that
  proof (induction ts arbitrary: x)
    case (Cons t ts)
    have "nw_core (snd (provider_call env (api_remove_user (ne_alter env) t u) x)) = nw_core x"
      using Cons.prems by (auto simp: provider_call_def gated_def split_beta)
    with Cons show ?case by (simp add: Let_def split_beta)
  qed simp
  have "nw_core w2 = (if handler_api (ne_dial env) (nw_manager w) = None
        then core_after (ne_alter env)
          (map (\<lambda>t. Remove_User_Operation t (ai_username (hd data))) (provider_tags (tagged data w))) (nw_core w)
        else nw_core w)"
    using remove_from_tags_core [of env "tagged data w" "ai_username (hd data)" "removal_uuid hash" "provider_tags (tagged data w)"]
      closed [of "tagged data w" "ai_username (hd data)" "removal_uuid hash" "provider_tags (tagged data w)"]
      assms(3) frame by auto
  moreover have "\<exists>e. aggregate_results removals = Generic False (Some e)"
    using assms(4) aggregate_ok [of removals]
    by (auto simp: aggregate_results_def split: list.splits)
  ultimately show ?thesis
    using assms by (simp add: handle_add_user_def tagged_def)
qed

lemma add_batch_total:
  assumes "hash_inv (nw_hash w)"
  shows "\<exists>results w'. add_batch env user w = Inr (results, w') \<and> hash_inv (nw_hash w')"
proof -
  obtain inbounds data where user: "user = (inbounds, data)" by force
  let ?w1 = "fold (\<lambda>i. provider_add_tag (bi_tag i)) inbounds w"
  obtain removals w2 where rem: "remove_from_tags env (bu_user_id data) (bu_hash_uuid data)
      (provider_tags ?w1) ?w1 = (removals, w2)" by force
  have "hash_inv (nw_hash ?w1)" using fold_add_tag_ok [OF assms] by blast
  from remove_from_tags_ok(1) [OF this rem] have inv2: "hash_inv (nw_hash w2)" .
  from add_to_inbounds_spec [OF inv2, of "add_batch_user env data" bi_tag "bu_vless_uuid data" inbounds]
  obtain results w3 where "add_to_inbounds (add_batch_user env data) bi_tag (bu_vless_uuid data) inbounds w2
      = Inr (results, w3)" "hash_inv (nw_hash w3)" by auto
  with rem inv2 show ?thesis by (auto simp: add_batch_def user Let_def)
qed

lemma add_batches_total:
  "hash_inv (nw_hash w) \<Longrightarrow> \<exists>results w'. add_batches env users w = Inr (results, w') \<and> hash_inv (nw_hash w')"
proof (induction users arbitrary: w)
  case (Cons u us)
  from add_batch_total [OF Cons.prems, of env u] obtain rs w1 where
    "add_batch env u w = Inr (rs, w1)" "hash_inv (nw_hash w1)" by blast
  with Cons.IH [of w1] show ?case by auto
qed simp

lemma add_user_total_inv:
  assumes "hash_inv (nw_hash w)"
  shows "fst (handle_add_user env body w) \<noteq> internal_server_error
    \<and> hash_inv (nw_hash (snd (handle_add_user env body w)))"
proof (cases body)
  case None
  with assms show ?thesis by (simp add: handle_add_user_def internal_server_error_def)
next
  case (Some req)
  obtain data hash where req: "req = (data, hash)" by force
  have w1: "hash_inv (nw_hash (tagged data w))"
    using fold_add_tag_ok [OF assms, of ai_tag data] by (simp add: tagged_def)
  obtain removals w2 where rem: "(if ai_username (hd data) \<noteq> []
      then remove_from_tags env (ai_username (hd data)) (removal_uuid hash) (provider_tags (tagged data w)) (tagged data w)
      else ([], tagged data w)) = (removals, w2)" by force
  have inv2: "hash_inv (nw_hash w2)"
    using rem w1 remove_from_tags_ok(1) [OF w1] by (auto split: if_splits)
  from add_to_inbounds_spec [OF inv2, of "add_single_user env" ai_tag "hd_vless_uuid hash" data]
  obtain results w3 where "add_to_inbounds (add_single_user env) ai_tag (hd_vless_uuid hash) data w2
      = Inr (results, w3)" "hash_inv (nw_hash w3)" by auto
  with Some req rem inv2 assms show ?thesis
    by (auto simp: handle_add_user_def tagged_def [symmetric] Let_def internal_server_error_def [symmetric]
        simp del: not_None_eq) (simp_all add: internal_server_error_def)
qed

text \<open>On a manager whose hash state satisfies its invariant, which every reachable manager
  does, the handlers that add users never end in the recovered panic of a write to a nil map,
  and they keep the invariant.\<close>

theorem add_handlers_do_not_panic:
  assumes "hash_inv (nw_hash w)"
  shows "fst (handle_add_user env body w) \<noteq> internal_server_error
    \<and> hash_inv (nw_hash (snd (handle_add_user env body w)))
    \<and> fst (handle_add_users env batch w) \<noteq> internal_server_error
    \<and> hash_inv (nw_hash (snd (handle_add_users env batch w)))"
proof (cases batch)
  case None
  with add_user_total_inv [OF assms] assms show ?thesis
    by (simp add: handle_add_users_def) (simp add: internal_server_error_def)
next
  case (Some req)
  obtain tags users where req: "req = (tags, users)" by force
  have "hash_inv (nw_hash (fold provider_add_tag tags w))"
    using fold_add_tag_ok [OF assms, of "\<lambda>t. t" tags] by simp
  from add_batches_total [OF this, of env users] add_user_total_inv [OF assms] Some req
  show ?thesis by (auto simp: handle_add_users_def)
qed

definition holders :: "'k node_world \<Rightarrow> string \<Rightarrow> string set" where
  "holders w t = (case user_map (nw_hash w) t of None \<Rightarrow> {} | Some A \<Rightarrow> A)"

lemma service_drop_frame [simp]:
  "nw_manager (service_drop_ips env ips w) = nw_manager w"
  by (simp add: service_drop_ips_def split: option.splits)

text \<open>When HandleRemoveUser answers success, the removed id is in the hashes of no inbound any
  more, and every other id is exactly where it was.\<close>

theorem remove_user_forgets_exactly_the_user:
  assumes inv: "hash_inv (nw_hash w)" and uuid: "hd_vless_uuid hash \<noteq> []" and t: "t \<noteq> []"
    and run: "handle_remove_user env (Some (username, hash)) w = (Generic True None, w')"
  shows "holders w' t = holders w t - {hd_vless_uuid hash}"
proof (cases "provider_tags w = []")
  case True
  then have "user_map (nw_hash w) t = None"
    using registry.tag_list_covers [OF inv, of t]
    by (cases "user_map (nw_hash w) t") (auto simp: provider_tags_def)
  with True run show ?thesis by (simp add: handle_remove_user_def holders_def)
next
  case False
  obtain results w1 where rem: "remove_from_tags env username (hd_vless_uuid hash) (provider_tags w) w = (results, w1)"
    by force
  from run False rem have ok: "\<not> any_failed results" and w': "nw_hash w' = nw_hash w1"
    by (auto simp: handle_remove_user_def Let_def aggregate_ok)
  from remove_from_tags_hash [OF rem] not_any_failed_filter [OF _ ok, of "provider_tags w"]
  have "nw_hash w1 = fold (\<lambda>t. remove_user_from_inbound_hash t (hd_vless_uuid hash)) (provider_tags w) (nw_hash w)"
    by simp
  with registry.leave_all [OF inv uuid t] show ?thesis
    by (simp add: holders_def w' provider_tags_def)
qed

definition kill_allowed :: "dropper \<Rightarrow> string \<Rightarrow> bool" where
  "kill_allowed d ip \<longleftrightarrow> dr_available d \<and> ip \<noteq> [] \<and> \<not> dr_whitelisted d ip"

lemma drop_ips_allowed: "list_all (kill_allowed d) (fst (drop_ips d ips))"
  by (auto simp: drop_ips_def kill_allowed_def drop_target_def list_all_iff Let_def)

lemma drop_users_allowed: "list_all (kill_allowed d) (fst (drop_users d l us))"
proof -
  have "list_all (kill_allowed d) (fst (drop_users_loop d l us))"
    by (induction us) (auto simp: Let_def split_beta split: option.splits
        intro: drop_ips_allowed simp del: list_all_append, simp_all add: drop_ips_allowed)
  then show ?thesis by (simp add: drop_users_def)
qed

text \<open>The requests that the handlers answer.\<close>

datatype node_request =
    Add_User_Request "add_user_request option"
  | Add_Users_Request "add_users_request option"
  | Remove_User_Request "remove_user_request option"
  | Remove_Users_Request "(string \<times> string) list option"
  | Drop_Users_Request "string list option"
  | Drop_Ips_Request "string list option"

fun node_request_step :: "'k node_env \<Rightarrow> node_request \<Rightarrow> 'k node_world \<Rightarrow> 'k node_world" where
  "node_request_step env (Add_User_Request body) w = snd (handle_add_user env body w)"
| "node_request_step env (Add_Users_Request body) w = snd (handle_add_users env body w)"
| "node_request_step env (Remove_User_Request body) w = snd (handle_remove_user env body w)"
| "node_request_step env (Remove_Users_Request body) w = snd (handle_remove_users env body w)"
| "node_request_step env (Drop_Users_Request body) w = snd (handle_drop_users_connections env body w)"
| "node_request_step env (Drop_Ips_Request body) w = snd (handle_drop_ips env body w)"

definition dropper_allows :: "dropper option \<Rightarrow> string \<Rightarrow> bool" where
  "dropper_allows d ip \<longleftrightarrow> (case d of None \<Rightarrow> False | Some d \<Rightarrow> kill_allowed d ip)"

text \<open>A world that is reached by allowed kills only.\<close>

definition kills_to :: "(string \<Rightarrow> bool) \<Rightarrow> 'k node_world \<Rightarrow> 'k node_world \<Rightarrow> bool" where
  "kills_to P w w' \<longleftrightarrow> (\<exists>ks. nw_killed w' = nw_killed w @ ks \<and> list_all P ks)"

lemma kills_none [simp, intro]: "nw_killed w' = nw_killed w \<Longrightarrow> kills_to P w w'"
  by (simp add: kills_to_def)

lemma kills_trans [trans]: "\<lbrakk>kills_to P a b; kills_to P b c\<rbrakk> \<Longrightarrow> kills_to P a c"
  by (auto simp: kills_to_def)

lemma service_drop_kills: "kills_to (dropper_allows (ne_dropper env)) w (service_drop_ips env ips w)"
proof (cases "ne_dropper env")
  case (Some d)
  then have "kill_allowed d = dropper_allows (ne_dropper env)" by (simp add: dropper_allows_def fun_eq_iff)
  with drop_ips_allowed [of d ips] Some show ?thesis by (auto simp: service_drop_ips_def kills_to_def)
qed (simp add: service_drop_ips_def)

definition end_world :: "'k node_world + (handler_result list \<times> 'k node_world) \<Rightarrow> 'k node_world" where
  "end_world r = (case r of Inl w \<Rightarrow> w | Inr (results, w) \<Rightarrow> w)"

lemma end_world_simps [simp]: "end_world (Inl w) = w" "end_world (Inr (rs, w)) = w"
  by (simp_all add: end_world_def)

lemma end_world_cases:
  "end_world (case r of Inl w \<Rightarrow> Inl w | Inr (rs, w) \<Rightarrow> Inr (f rs, w)) = end_world r"
  by (simp add: end_world_def split: sum.splits prod.splits)

lemma add_to_inbounds_kills:
  assumes "\<And>i w. nw_killed (snd (add i w)) = nw_killed w"
  shows "nw_killed (end_world (add_to_inbounds add tag uuid items w)) = nw_killed w"
proof (induction items arbitrary: w)
  case (Cons i items)
  obtain res w1 where a: "add i w = (res, w1)" by force
  with assms [of i w] have k: "nw_killed w1 = nw_killed w" by simp
  have "nw_killed (set_hash h w1) = nw_killed w" for h by (simp add: k set_hash_def)
  with Cons.IH show ?case
    by (simp only: add_to_inbounds.simps a Let_def prod.case) (simp add: k end_world_cases split: option.splits)
qed simp

lemma add_single_kills:
  "nw_killed (snd (add_single_user env i w)) = nw_killed w" "nw_killed (snd (add_batch_user env u b w)) = nw_killed w"
  by (simp_all add: add_single_user_def add_batch_user_def Let_def provider_call_def split_beta)

lemma add_batch_kills: "nw_killed (end_world (add_batch env u w)) = nw_killed w"
proof -
  obtain inbounds d where u: "u = (inbounds, d)" by force
  let ?w1 = "fold (\<lambda>i. provider_add_tag (bi_tag i)) inbounds w"
  obtain rs w2 where r: "remove_from_tags env (bu_user_id d) (bu_hash_uuid d) (provider_tags ?w1) ?w1 = (rs, w2)" by force
  have k: "nw_killed w2 = nw_killed w"
    using remove_from_tags_hash [OF r] fold_add_tag_hash [of bi_tag inbounds w] by simp
  show ?thesis
    using add_to_inbounds_kills [of "add_batch_user env d" bi_tag "bu_vless_uuid d" inbounds w2]
    by (simp add: add_batch_def u r k add_single_kills Let_def end_world_cases)
qed

lemma add_batches_kills: "nw_killed (end_world (add_batches env us w)) = nw_killed w"
proof (induction us arbitrary: w)
  case (Cons u us)
  show ?case
  proof (cases "add_batch env u w")
    case (Inl w1)
    with add_batch_kills [of env u w] show ?thesis by simp
  next
    case (Inr r)
    then obtain rs w1 where r: "add_batch env u w = Inr (rs, w1)" by (cases r) auto
    with add_batch_kills [of env u w] Cons.IH [of w1] show ?thesis by (simp add: end_world_cases)
  qed
qed simp

lemma remove_batch_kills: "kills_to (dropper_allows (ne_dropper env)) w (snd (remove_batch env us w))"
proof (induction us arbitrary: w)
  case (Cons u us)
  obtain user_id uuid where u: "u = (user_id, uuid)" by force
  obtain rs w1 where r: "remove_from_tags env user_id uuid (provider_tags w) w = (rs, w1)" by force
  let ?w2 = "service_drop_ips env (collect_user_ips env w user_id) w1"
  have "kills_to (dropper_allows (ne_dropper env)) w w1" using remove_from_tags_hash [OF r] by simp
  also note service_drop_kills
  also have "kills_to (dropper_allows (ne_dropper env)) ?w2 (snd (remove_batch env us ?w2))" by (rule Cons.IH)
  finally show ?case by (simp add: u r split_beta Let_def)
qed simp

lemma dropped_kills:
  "list_all (kill_allowed d) ks \<Longrightarrow> kills_to (dropper_allows (Some d)) w (w\<lparr>nw_killed := nw_killed w @ ks\<rparr>)"
  by (auto simp: kills_to_def dropper_allows_def list_all_iff)

lemma node_request_kills: "kills_to (dropper_allows (ne_dropper env)) w (node_request_step env r w)"
proof (cases r)
  case (Add_User_Request body)
  show ?thesis
  proof (cases body)
    case (Some b)
    obtain data hash where b: "b = (data, hash)" by force
    let ?w1 = "fold (\<lambda>item. provider_add_tag (ai_tag item)) data w"
    obtain rs w2 where r: "(if ai_username (hd data) \<noteq> [] then remove_from_tags env (ai_username (hd data))
        (removal_uuid hash) (provider_tags ?w1) ?w1 else ([], ?w1)) = (rs, w2)" by force
    have "nw_killed w2 = nw_killed w"
      using r fold_add_tag_hash [of ai_tag data w] remove_from_tags_hash [of env _ _ "provider_tags ?w1" ?w1 rs w2]
      by (auto split: if_splits)
    with r Some b Add_User_Request show ?thesis
      using add_to_inbounds_kills [of "add_single_user env" ai_tag "hd_vless_uuid hash" data w2]
      by (auto simp: handle_add_user_def add_single_kills end_world_def Let_def split: sum.splits)
  qed (simp add: Add_User_Request handle_add_user_def)
next
  case (Add_Users_Request body)
  show ?thesis
  proof (cases body)
    case (Some b)
    obtain tags us where b: "b = (tags, us)" by force
    have "nw_killed (fold provider_add_tag tags w) = nw_killed w" using fold_add_tag_hash [of "\<lambda>t. t" tags w] by simp
    with Some b Add_Users_Request show ?thesis
      using add_batches_kills [of env us "fold provider_add_tag tags w"]
      by (auto simp: handle_add_users_def end_world_def split: sum.splits)
  qed (simp add: Add_Users_Request handle_add_users_def)
next
  case (Remove_User_Request body)
  show ?thesis
  proof (cases body)
    case (Some b)
    obtain name hash where b: "b = (name, hash)" by force
    obtain rs w1 where r: "remove_from_tags env name (hd_vless_uuid hash) (provider_tags w) w = (rs, w1)" by force
    have "kills_to (dropper_allows (ne_dropper env)) w w1" using remove_from_tags_hash [OF r] by simp
    also note service_drop_kills
    finally show ?thesis using Some b Remove_User_Request r by (simp add: handle_remove_user_def Let_def)
  qed (simp add: Remove_User_Request handle_remove_user_def)
next
  case (Remove_Users_Request body)
  then show ?thesis using remove_batch_kills
    by (auto simp: handle_remove_users_def split_beta Let_def split: option.splits)
next
  case (Drop_Users_Request body)
  then show ?thesis using drop_users_allowed
    by (auto simp: handle_drop_users_connections_def split_beta intro: dropped_kills split: option.splits)
next
  case (Drop_Ips_Request body)
  then show ?thesis using drop_ips_allowed
    by (auto simp: handle_drop_ips_def split_beta intro: dropped_kills split: option.splits)
qed

section \<open>A core that records its requests\<close>

definition record_alter :: "alter_request list alter" where
  "record_alter k r = (None, k @ [r])"

definition sample_node_env :: "alter_request list node_env" where
  "sample_node_env = \<lparr>ne_alter = record_alter, ne_dial = None, ne_ip_list = (\<lambda>_ _. Some [''10.0.0.1'', ''10.0.0.2'']),
     ne_dropper = Some \<lparr>dr_available = True, dr_whitelisted = (\<lambda>ip. ip = ''10.0.0.1''), dr_kill_ok = (\<lambda>_. True)\<rparr>\<rparr>"

definition sample_world :: "alter_request list node_world" where
  "sample_world = \<lparr>nw_manager = example_manager\<lparr>xray_online := True\<rparr>, nw_core = [], nw_killed = []\<rparr>"

definition sample_item :: add_user_item where
  "sample_item = \<lparr>ai_type = ''vless'', ai_tag = ''in'', ai_username = ''7'', ai_password = [], ai_uuid = ''u'',
     ai_flow = [], ai_cipher_type = 0, ai_iv_check = False\<rparr>"

definition sample_hash_data :: hash_data where
  "sample_hash_data = \<lparr>hd_vless_uuid = ''u'', hd_prev_vless_uuid = None\<rparr>"

lemma sample_hash_inv: "hash_inv (nw_hash sample_world)"
  by (simp add: sample_world_def example_manager_def hash_inv_initial)

lemmas sample_defs = sample_world_def sample_node_env_def example_manager_def initial_hash_state_def
  provider_tags_def inbound_tags_list_def add_inbound_tag_def provider_add_tag_def provider_call_def
  gated_def handler_api_def record_alter_def ok_result_def set_hash_def any_failed_def api_remove_user_def

lemma sample_add:
  "\<exists>w'. handle_add_user sample_node_env (Some ([sample_item], sample_hash_data)) sample_world = (Generic True None, w')"
  by (simp add: handle_add_user_def sample_item_def sample_hash_data_def sample_defs removal_uuid_def
      remove_user_from_inbound_hash_def add_single_user_def add_vless_user_def add_user_def
      add_user_to_inbound_hash_def aggregate_results_def Let_def)

theorem add_user_success_witness:
  "\<exists>w'. handle_add_user sample_node_env (Some ([sample_item], sample_hash_data)) sample_world = (Generic True None, w')
     \<and> nw_core w' = [Remove_User_Operation ''in'' ''7'',
          Add_User_Operation ''in'' \<lparr>cu_email = ''7'', cu_level = 0, cu_account = Vless ''u'' []\<rparr>]
     \<and> user_map (nw_hash w') = [''in'' \<mapsto> {''u''}]"
proof -
  from sample_add obtain w' where run:
    "handle_add_user sample_node_env (Some ([sample_item], sample_hash_data)) sample_world = (Generic True None, w')" by blast
  have tags: "provider_tags (tagged [sample_item] sample_world) = [''in'']"
    by (simp add: tagged_def sample_item_def sample_defs)
  then have "removal_tags [sample_item] sample_world = [''in'']" by (simp add: removal_tags_def sample_item_def)
  note res = add_user_success [OF sample_hash_inv run, unfolded this]
  have "nw_core w' = [Remove_User_Operation ''in'' ''7'',
          Add_User_Operation ''in'' \<lparr>cu_email = ''7'', cu_level = 0, cu_account = Vless ''u'' []\<rparr>]"
    using conjunct1 [OF res] by (simp add: sample_item_def sample_node_env_def
        record_alter_def add_request_def account_of_def core_user_of_def sample_world_def)
  moreover have "user_map (nw_hash w') = [''in'' \<mapsto> {''u''}]"
    using conjunct2 [OF res] by (auto simp: sample_item_def sample_hash_data_def removal_uuid_def
        user_map_def sample_world_def example_manager_def initial_hash_state_def fun_eq_iff)
  ultimately show ?thesis using run by blast
qed

theorem add_user_stops_on_failed_removal_witness:
  "fst (handle_add_user (sample_node_env\<lparr>ne_dial := Some ''refused''\<rparr>)
      (Some ([sample_item], sample_hash_data)) sample_world) = Generic False (Some ''refused'')"
proof -
  let ?e = "sample_node_env\<lparr>ne_dial := Some ''refused''\<rparr>"
  have r: "remove_from_tags ?e (ai_username (hd [sample_item])) (removal_uuid sample_hash_data)
      (provider_tags (tagged [sample_item] sample_world)) (tagged [sample_item] sample_world)
      = ([fail_result ''refused''], tagged [sample_item] sample_world)"
    by (simp add: tagged_def sample_item_def sample_defs fail_result_def)
  have "any_failed [fail_result ''refused'']" by (simp add: any_failed_def fail_result_def)
  from add_user_stops_on_failed_removal [OF _ _ r this] show ?thesis
    by (simp add: sample_item_def aggregate_results_def fail_result_def)
qed

theorem add_handlers_do_not_panic_witness:
  "fst (handle_add_users sample_node_env (Some ([''in''], [])) sample_world) \<noteq> internal_server_error"
  using add_handlers_do_not_panic [OF sample_hash_inv] by blast

theorem remove_user_forgets_exactly_the_user_witness:
  "holders (snd (handle_remove_user sample_node_env (Some (''7'', sample_hash_data)) sample_world)) ''in'' = {}"
proof -
  have "handle_remove_user sample_node_env (Some (''7'', sample_hash_data)) sample_world = (Generic True None, sample_world)"
    by (simp add: handle_remove_user_def sample_defs)
  with remove_user_forgets_exactly_the_user [OF sample_hash_inv _ _ this, of "''in''"] show ?thesis
    by (simp add: sample_hash_data_def holders_def user_map_def sample_world_def example_manager_def initial_hash_state_def)
qed

end
