(* ===== verification/Accounting.thy ===== *)
theory Accounting
  imports GoNet
begin

text \<open>internal/stats/accounting_snapshot.go: the journal from which the panel bills traffic.  A
  sample of the core's cumulative counters is kept on disk until the panel acknowledges it; the
  next sample starts where the acknowledged one ended.

  The state is the journal on disk.  A call takes what the reader returned, the fresh id and
  time, and how its writes end: a write can fail before the rename, or after it, when the new
  file is already in place.\<close>

section \<open>Counter names\<close>

type_synonym counter_key = "string \<times> string \<times> string"

definition counter_kinds :: "string list" where
  "counter_kinds = [''user'', ''inbound'', ''outbound'']"

definition parse_accounting_counter_name :: "string \<Rightarrow> counter_key option" where
  "parse_accounting_counter_name raw =
     (let parts = split_gt raw in
      if length parts < 3 then None
      else if hd parts \<notin> set counter_kinds then None
      else if last parts \<noteq> ''downlink'' \<and> last parts \<noteq> ''uplink'' then None
      else (case butlast (tl parts) of
          [name, t] \<Rightarrow> if t = ''traffic'' \<and> name \<noteq> [] then Some (hd parts, name, last parts) else None
        | [name] \<Rightarrow> if name \<noteq> [] then Some (hd parts, name, last parts) else None
        | _ \<Rightarrow> None))"

definition is_accounting_counter_name :: "string \<Rightarrow> bool" where
  "is_accounting_counter_name raw \<longleftrightarrow> hd (split_gt raw) \<in> set counter_kinds"

section \<open>The journal\<close>

type_synonym counters = "string gomap"
type_synonym diagnostic = "string \<times> string"

record checkpoint =
  cp_counters :: counters
  cp_generation :: string
  cp_sample_id :: string

record pending_sample =
  pe_diagnostics :: "diagnostic list"
  pe_from :: counters
  pe_generation :: string
  pe_sample_id :: string
  pe_sampled_at :: string
  pe_to :: counters

record journal =
  jn_acknowledged :: "checkpoint option"
  jn_pending :: "pending_sample option"
  jn_quarantined :: "(string \<times> string \<times> string) option"

definition empty_journal :: journal where
  "empty_journal = \<lparr>jn_acknowledged = None, jn_pending = None, jn_quarantined = None\<rparr>"

record accounting_response =
  ar_diagnostics :: "diagnostic list"
  ar_generation :: string
  ar_inbounds :: "(string \<times> string \<times> string) list"
  ar_outbounds :: "(string \<times> string \<times> string) list"
  ar_sample_id :: string
  ar_sampled_at :: string
  ar_users :: "(string \<times> string \<times> string) list"

datatype write_outcome = Written | Not_Written | Written_With_Error

fun apply_write :: "write_outcome \<Rightarrow> journal \<Rightarrow> journal \<Rightarrow> journal \<times> bool" where
  "apply_write Written old new = (new, True)"
| "apply_write Not_Written old new = (old, False)"
| "apply_write Written_With_Error old new = (new, False)"

record accounting_env =
  ae_read_ok :: bool
  ae_reader :: "string + (string \<times> int) list \<times> string"
  ae_sample_id :: string
  ae_now :: string
  ae_first_write :: write_outcome
  ae_second_write :: write_outcome

definition format_counters :: "(string \<times> int) list \<Rightarrow> counters" where
  "format_counters cs = map (\<lambda>(name, value). (name, format_int 10 value)) cs"

definition counter_value :: "counters \<Rightarrow> string \<Rightarrow> int" where
  "counter_value cs name = parse_int64 (case lookup cs name of Some v \<Rightarrow> v | None \<Rightarrow> [])"

section \<open>The response\<close>

text \<open>The sums per kind, name and direction: two spellings of a counter name add up.\<close>

fun add_counter :: "counter_key \<Rightarrow> int \<Rightarrow> (counter_key \<times> int) list \<Rightarrow> (counter_key \<times> int) list" where
  "add_counter k v [] = [(k, v)]"
| "add_counter k v ((k', v') # m) = (if k' = k then (k, v' + v) # m else (k', v') # add_counter k v m)"

fun sum_counters :: "counters \<Rightarrow> (counter_key \<times> int) list \<Rightarrow> (counter_key \<times> int) list" where
  "sum_counters [] m = m"
| "sum_counters ((name, value) # cs) m =
     sum_counters cs (case (parse_accounting_counter_name name, parse_big value) of
         (Some k, Some v) \<Rightarrow> add_counter k v m
       | _ \<Rightarrow> m)"

definition unsupported_counters :: "counters \<Rightarrow> nat" where
  "unsupported_counters cs = length (filter (\<lambda>(name, _).
     parse_accounting_counter_name name = None \<and> is_accounting_counter_name name) cs)"

definition delta_of :: "(counter_key \<times> int) list \<Rightarrow> (counter_key \<times> int) list \<Rightarrow> counter_key \<Rightarrow> int" where
  "delta_of current previous k = (case map_of current k of
     None \<Rightarrow> 0
   | Some c \<Rightarrow> max 0 (c - (case map_of previous k of Some p \<Rightarrow> p | None \<Rightarrow> 0)))"

text \<open>The rows of one kind, in the order of their keys, without the rows that carry no bytes.\<close>

definition rows_of_kind ::
  "string \<Rightarrow> (counter_key \<times> int) list \<Rightarrow> (counter_key \<times> int) list \<Rightarrow> (string \<times> string \<times> string) list" where
  "rows_of_kind kind current previous =
     (let names = sort (remdups (map (\<lambda>((k, n, d), _). n) (filter (\<lambda>((k, n, d), _). k = kind) current)));
          rows = map (\<lambda>n. (n, delta_of current previous (kind, n, ''downlink''),
                              delta_of current previous (kind, n, ''uplink''))) names
      in map (\<lambda>(n, d, u). (n, format_int 10 d, format_int 10 u)) (filter (\<lambda>(n, d, u). \<not> (d = 0 \<and> u = 0)) rows))"

definition accounting_response_of :: "pending_sample \<Rightarrow> diagnostic list \<Rightarrow> accounting_response" where
  "accounting_response_of p extra =
     (let current = sum_counters (pe_to p) [];
          previous = sum_counters (pe_from p) [];
          n = unsupported_counters (pe_to p)
      in \<lparr>ar_diagnostics = pe_diagnostics p @ extra @
            (if n > 0 then [(''ACCOUNTING_COUNTER_FORMAT_UNSUPPORTED'',
               ''Skipped '' @ base_digits 10 n @ '' Xray accounting counter(s) with unsupported names.'')] else []),
          ar_generation = pe_generation p,
          ar_inbounds = rows_of_kind ''inbound'' current previous,
          ar_outbounds = rows_of_kind ''outbound'' current previous,
          ar_sample_id = pe_sample_id p, ar_sampled_at = pe_sampled_at p,
          ar_users = rows_of_kind ''user'' current previous\<rparr>)"

section \<open>Snapshot\<close>

text \<open>The action of a call: acknowledge, quarantine or none.  The result is the journal on disk
  with the error, or with the extra diagnostics when the call goes on.\<close>

definition acknowledge_sample ::
  "accounting_env \<Rightarrow> string \<Rightarrow> journal \<Rightarrow> journal \<times> (string + diagnostic list)" where
  "acknowledge_sample env ack j = (case jn_pending j of
     Some p \<Rightarrow>
       if ack = pe_sample_id p
       then (let j' = j\<lparr>jn_acknowledged := Some \<lparr>cp_counters = pe_to p,
                       cp_generation = pe_generation p, cp_sample_id = pe_sample_id p\<rparr>, jn_pending := None\<rparr>;
                 (disk, ok) = apply_write (ae_first_write env) j j'
             in (disk, if ok then Inr [] else Inl ''write''))
       else if jn_acknowledged j = None \<or> ack \<noteq> cp_sample_id (the (jn_acknowledged j))
       then (j, Inr [(''ACCOUNTING_ACK_UNKNOWN'', ''Acknowledgement does not match the pending accounting sample.'')])
       else (j, Inr [])
   | None \<Rightarrow>
       if jn_acknowledged j = None \<or> ack \<noteq> cp_sample_id (the (jn_acknowledged j))
       then (j, Inr [(''ACCOUNTING_ACK_UNKNOWN'', ''Acknowledgement does not match the pending accounting sample.'')])
       else (j, Inr []))"

definition quarantine_sample ::
  "accounting_env \<Rightarrow> string \<Rightarrow> journal \<Rightarrow> journal \<times> (string + diagnostic list)" where
  "quarantine_sample env q j =
     (let unknown = (if jn_quarantined j = None \<or> snd (snd (the (jn_quarantined j))) \<noteq> q
            then [(''ACCOUNTING_QUARANTINE_UNKNOWN'', ''Quarantine does not match the pending accounting sample.'')]
            else [])
      in case jn_pending j of
        None \<Rightarrow> (j, Inr unknown)
      | Some old \<Rightarrow>
          if q \<noteq> pe_sample_id old then (j, Inr unknown)
          else (case ae_reader env of
              Inl e \<Rightarrow> (j, Inl e)
            | Inr (cs, generation) \<Rightarrow>
               (let to = format_counters cs;
                    j' = \<lparr>jn_acknowledged = Some \<lparr>cp_counters = pe_to old,
                            cp_generation = pe_generation old, cp_sample_id = pe_sample_id old\<rparr>,
                          jn_pending = Some \<lparr>pe_diagnostics =
                             [(''ACCOUNTING_QUARANTINED'', ''An unattributable accounting sample was quarantined without assigning its bytes to users.''),
                              (''ACCOUNTING_REBASELINE'', ''A fresh cumulative baseline was captured after the quarantined accounting sample.'')],
                             pe_from = to, pe_generation = generation, pe_sample_id = ae_sample_id env,
                             pe_sampled_at = ae_now env, pe_to = to\<rparr>,
                          jn_quarantined = Some (pe_generation old, ae_now env, pe_sample_id old)\<rparr>;
                    (disk, ok) = apply_write (ae_first_write env) j j'
                in (disk, if ok then Inr [] else Inl ''write''))))"

definition snapshot_action ::
  "accounting_env \<Rightarrow> string \<Rightarrow> string \<Rightarrow> journal \<Rightarrow> journal \<times> (string + diagnostic list)" where
  "snapshot_action env ack q j =
     (if ack \<noteq> [] \<and> q \<noteq> []
      then (j, Inr [(''ACCOUNTING_ACTION_INVALID'', ''Accounting acknowledgement and quarantine are mutually exclusive.'')])
      else if ack \<noteq> [] then acknowledge_sample env ack j
      else if q \<noteq> [] then quarantine_sample env q j
      else (j, Inr []))"

definition needs_rebaseline :: "checkpoint \<Rightarrow> string \<Rightarrow> counters \<Rightarrow> bool" where
  "needs_rebaseline a generation to \<longleftrightarrow> cp_generation a \<noteq> generation
     \<or> list_ex (\<lambda>(name, value). parse_int64 value < counter_value (cp_counters a) name) to"

definition new_sample :: "accounting_env \<Rightarrow> (string \<times> int) list \<Rightarrow> string \<Rightarrow> journal \<Rightarrow> pending_sample" where
  "new_sample env cs generation j =
     (let to = format_counters cs;
          (from, diagnostics) = (case jn_acknowledged j of
              None \<Rightarrow> (to, [(''ACCOUNTING_BASELINE'', ''Initial cumulative baseline captured.'')])
            | Some a \<Rightarrow> if needs_rebaseline a generation to
                then (to, [(''ACCOUNTING_REBASELINE'', ''Xray generation or cumulative counters changed; baseline replaced.'')])
                else (cp_counters a, []))
      in \<lparr>pe_diagnostics = diagnostics, pe_from = from, pe_generation = generation,
          pe_sample_id = ae_sample_id env, pe_sampled_at = ae_now env, pe_to = to\<rparr>)"

definition snapshot ::
  "accounting_env \<Rightarrow> string \<Rightarrow> string \<Rightarrow> journal \<Rightarrow> journal \<times> (string + accounting_response)" where
  "snapshot env ack q j =
     (if \<not> ae_read_ok env then (j, Inl ''read'')
      else (case snapshot_action env ack q j of
          (disk, Inl e) \<Rightarrow> (disk, Inl e)
        | (disk, Inr extra) \<Rightarrow> (case jn_pending disk of
            Some p \<Rightarrow> (disk, Inr (accounting_response_of p extra))
          | None \<Rightarrow> (case ae_reader env of
              Inl e \<Rightarrow> (disk, Inl e)
            | Inr (cs, generation) \<Rightarrow>
               (let p = new_sample env cs generation disk;
                    (disk', ok) = apply_write (ae_second_write env) disk (disk\<lparr>jn_pending := Some p\<rparr>)
                in (disk', if ok then Inr (accounting_response_of p extra) else Inl ''write''))))))"

section \<open>Billing\<close>

text \<open>What the panel bills: the bytes of a sample, once, when its acknowledgement has reached the
  journal on disk.  A ledger gives the billed bytes of each raw counter.\<close>

type_synonym acc_call = "accounting_env \<times> string \<times> string"
type_synonym ledger = "string \<Rightarrow> int"

definition commits :: "acc_call \<Rightarrow> journal \<Rightarrow> bool" where
  "commits call j = (case call of (env, ack, q) \<Rightarrow>
     ae_read_ok env \<and> ack \<noteq> [] \<and> q = [] \<and> ae_first_write env \<noteq> Not_Written
     \<and> (case jn_pending j of Some p \<Rightarrow> ack = pe_sample_id p | None \<Rightarrow> False))"

definition sample_bytes :: "pending_sample \<Rightarrow> ledger" where
  "sample_bytes p = (\<lambda>c. counter_value (pe_to p) c - counter_value (pe_from p) c)"

definition acc_step :: "acc_call \<Rightarrow> journal \<times> ledger \<Rightarrow> journal \<times> ledger" where
  "acc_step call = (\<lambda>(j, led). case call of (env, ack, q) \<Rightarrow>
     (fst (snapshot env ack q j),
      if commits call j then (\<lambda>c. led c + sample_bytes (the (jn_pending j)) c) else led))"

definition raw_value :: "(string \<times> int) list \<Rightarrow> string \<Rightarrow> int" where
  "raw_value cs c = (case map_of cs c of Some v \<Rightarrow> v | None \<Rightarrow> 0)"

text \<open>A core that keeps running: every successful read has the same generation and no counter is
  below the one of an earlier read.\<close>

fun steady :: "string \<Rightarrow> ledger \<Rightarrow> acc_call list \<Rightarrow> bool" where
  "steady g prev [] \<longleftrightarrow> True"
| "steady g prev ((env, ack, q) # calls) \<longleftrightarrow> q = [] \<and> (case ae_reader env of
     Inl _ \<Rightarrow> steady g prev calls
   | Inr (cs, gen) \<Rightarrow> gen = g \<and> distinct (map fst cs)
       \<and> list_all (\<lambda>(_, v). - (2 ^ 63) \<le> v \<and> v < 2 ^ 63) cs
       \<and> (\<forall>c. prev c \<le> raw_value cs c) \<and> steady g (raw_value cs) calls)"

lemma counter_value_format:
  assumes "list_all (\<lambda>(_, v). - (2 ^ 63) \<le> v \<and> v < 2 ^ 63) cs"
  shows "counter_value (format_counters cs) c = raw_value cs c"
proof -
  have look: "lookup (format_counters cs) c = map_option (format_int 10) (map_of cs c)"
    by (simp add: format_counters_def map_of_map)
  show ?thesis
  proof (cases "map_of cs c")
    case None
    then show ?thesis
      by (simp add: counter_value_def raw_value_def look parse_int64_def parse_big_def)
  next
    case (Some v)
    then have "- (2 ^ 63) \<le> v \<and> v < 2 ^ 63" using assms by (auto simp: list_all_iff dest!: map_of_SomeD)
    with Some show ?thesis by (simp add: counter_value_def raw_value_def look parse_int64_format)
  qed
qed

lemma no_rebaseline:
  assumes "distinct (map fst cs)" "list_all (\<lambda>(_, v). - (2 ^ 63) \<le> v \<and> v < 2 ^ 63) cs"
    and "\<And>c. counter_value (cp_counters a) c \<le> raw_value cs c"
  shows "\<not> needs_rebaseline a (cp_generation a) (format_counters cs)"
proof -
  have "\<not> parse_int64 (format_int 10 v) < counter_value (cp_counters a) n" if "(n, v) \<in> set cs" for n v
  proof -
    have "raw_value cs n = v" using assms(1) that by (simp add: raw_value_def)
    moreover have "parse_int64 (format_int 10 v) = v"
      using assms(2) that by (intro parse_int64_format) (auto simp: list_all_iff)
    ultimately show ?thesis using assms(3) [of n] by simp
  qed
  then show ?thesis by (auto simp: needs_rebaseline_def format_counters_def list_ex_iff)
qed

text \<open>The invariant of a steady run: what was billed is what the acknowledged counters have grown
  by, and the sample on disk starts where the acknowledged one ended.\<close>

definition billing_inv :: "checkpoint \<Rightarrow> ledger \<Rightarrow> journal \<times> ledger \<Rightarrow> bool" where
  "billing_inv a0 prev = (\<lambda>(j, led). \<exists>a. jn_acknowledged j = Some a
     \<and> cp_generation a = cp_generation a0
     \<and> (\<forall>c. led c = counter_value (cp_counters a) c - counter_value (cp_counters a0) c)
     \<and> (\<forall>c. counter_value (cp_counters a) c \<le> prev c)
     \<and> (case jn_pending j of None \<Rightarrow> True | Some p \<Rightarrow>
          pe_from p = cp_counters a \<and> pe_generation p = cp_generation a0
          \<and> (\<forall>c. counter_value (pe_to p) c \<le> prev c)))"

lemma billing_inv_mono:
  assumes "billing_inv a0 prev s" "\<And>c. prev c \<le> prev' c"
  shows "billing_inv a0 prev' s"
  using assms order_trans unfolding billing_inv_def by (fastforce split: option.splits)

lemma billing_new_sample:
  assumes inv: "billing_inv a0 prev (j, led)" and none: "jn_pending j = None"
    and cs: "distinct (map fst cs)" "list_all (\<lambda>(_, v). - (2 ^ 63) \<le> v \<and> v < 2 ^ 63) cs"
      "\<And>c. prev c \<le> raw_value cs c"
    and w: "apply_write out j (j\<lparr>jn_pending := Some (new_sample env cs (cp_generation a0) j)\<rparr>) = (disk, ok)"
  shows "billing_inv a0 (raw_value cs) (disk, led)"
proof -
  from inv none obtain a where a: "jn_acknowledged j = Some a" "cp_generation a = cp_generation a0"
    "\<And>c. led c = counter_value (cp_counters a) c - counter_value (cp_counters a0) c"
    "\<And>c. counter_value (cp_counters a) c \<le> prev c"
    by (auto simp: billing_inv_def)
  have le: "counter_value (cp_counters a) c \<le> raw_value cs c" for c
    using a(4) cs(3) order_trans by blast
  have "\<not> needs_rebaseline a (cp_generation a0) (format_counters cs)"
    using no_rebaseline [OF cs(1,2) le] a(2) by simp
  then have p: "new_sample env cs (cp_generation a0) j = \<lparr>pe_diagnostics = [], pe_from = cp_counters a,
      pe_generation = cp_generation a0, pe_sample_id = ae_sample_id env, pe_sampled_at = ae_now env,
      pe_to = format_counters cs\<rparr>"
    by (simp add: new_sample_def a(1) Let_def)
  from w have "disk = j \<or> disk = j\<lparr>jn_pending := Some (new_sample env cs (cp_generation a0) j)\<rparr>"
    by (cases out) auto
  then show ?thesis
    using a le none by (auto simp: billing_inv_def p counter_value_format [OF cs(2)])
qed

lemma billing_acknowledge:
  assumes inv: "billing_inv a0 prev (j, led)" and ack: "ack \<noteq> []" and r: "ae_read_ok env"
    and act: "acknowledge_sample env ack j = (disk, res)"
  shows "billing_inv a0 prev (disk, snd (acc_step (env, ack, []) (j, led)))"
proof (cases "jn_pending j")
  case None
  with act have "disk = j" by (auto simp: acknowledge_sample_def split: if_splits)
  with inv None show ?thesis by (simp add: acc_step_def commits_def)
next
  case (Some p)
  show ?thesis
  proof (cases "ack = pe_sample_id p \<and> ae_first_write env \<noteq> Not_Written")
    case False
    with act Some have "disk = j" by (auto simp: acknowledge_sample_def Let_def split: if_splits prod.splits)
    with inv False Some show ?thesis by (auto simp: acc_step_def commits_def)
  next
    case True
    with act Some have disk: "disk = j\<lparr>jn_acknowledged := Some \<lparr>cp_counters = pe_to p,
        cp_generation = pe_generation p, cp_sample_id = pe_sample_id p\<rparr>, jn_pending := None\<rparr>"
      by (cases "ae_first_write env") (auto simp: acknowledge_sample_def Let_def)
    with inv True Some ack r show ?thesis
      by (auto simp: billing_inv_def acc_step_def commits_def sample_bytes_def)
  qed
qed

lemma billing_step:
  assumes inv: "billing_inv a0 prev (j, led)"
    and st: "steady (cp_generation a0) prev ((env, ack, q) # calls)"
  shows "\<exists>prev'. billing_inv a0 prev' (acc_step (env, ack, q) (j, led)) \<and> steady (cp_generation a0) prev' calls"
proof -
  from st have q: "q = []" by simp
  let ?led = "snd (acc_step (env, ack, q) (j, led))"
  define prev' where "prev' = (case ae_reader env of Inl _ \<Rightarrow> prev | Inr (cs, _) \<Rightarrow> raw_value cs)"
  have st': "steady (cp_generation a0) prev' calls" and le: "\<And>c. prev c \<le> prev' c"
    using st by (auto simp: prev'_def split: sum.splits)
  have "billing_inv a0 prev' (fst (snapshot env ack q j), ?led)"
  proof (cases "ae_read_ok env")
    case False
    with inv le show ?thesis
      by (auto simp: snapshot_def acc_step_def commits_def intro: billing_inv_mono)
  next
    case True
    obtain disk res where act: "snapshot_action env ack q j = (disk, res)" by force
    have inv1: "billing_inv a0 prev (disk, ?led)"
    proof (cases "ack = []")
      case True
      with act q inv show ?thesis by (auto simp: snapshot_action_def acc_step_def commits_def)
    next
      case False
      with act q have "acknowledge_sample env ack j = (disk, res)" by (simp add: snapshot_action_def)
      from billing_acknowledge [OF inv False True this] q show ?thesis by simp
    qed
    show ?thesis
    proof (cases "(\<exists>e. res = Inl e) \<or> jn_pending disk \<noteq> None \<or> (\<exists>e. ae_reader env = Inl e)")
      case True
      with act \<open>ae_read_ok env\<close> have "fst (snapshot env ack q j) = disk"
        by (auto simp: snapshot_def split: sum.splits option.splits)
      with inv1 le show ?thesis by (auto intro: billing_inv_mono)
    next
      case False
      then obtain extra cs g where res: "res = Inr extra" and none: "jn_pending disk = None"
        and rd: "ae_reader env = Inr (cs, g)"
        by (cases res; cases "ae_reader env") auto
      obtain disk' ok where w: "apply_write (ae_second_write env) disk
          (disk\<lparr>jn_pending := Some (new_sample env cs (cp_generation a0) disk)\<rparr>) = (disk', ok)" by force
      have g: "g = cp_generation a0" and cs: "distinct (map fst cs)"
        "list_all (\<lambda>(_, v). - (2 ^ 63) \<le> v \<and> v < 2 ^ 63) cs" "\<And>c. prev c \<le> raw_value cs c"
        using st rd by auto
      have "fst (snapshot env ack q j) = disk'"
        using act res none rd w g \<open>ae_read_ok env\<close> by (simp add: snapshot_def Let_def)
      with billing_new_sample [OF inv1 none cs w] rd show ?thesis by (simp add: prev'_def)
    qed
  qed
  with st' show ?thesis by (auto simp: acc_step_def)
qed

lemma billing_run:
  "\<lbrakk>billing_inv a0 prev (j, led); steady (cp_generation a0) prev calls\<rbrakk>
    \<Longrightarrow> \<exists>prev'. billing_inv a0 prev' (fold acc_step calls (j, led))"
proof (induction calls arbitrary: prev j led)
  case (Cons call calls)
  obtain env ack q where call: "call = (env, ack, q)" by (cases call)
  from billing_step [OF Cons.prems(1), of env ack q calls] Cons.prems(2) call obtain prev' where
    "billing_inv a0 prev' (acc_step call (j, led))" "steady (cp_generation a0) prev' calls" by auto
  with Cons.IH [of prev' "fst (acc_step call (j, led))" "snd (acc_step call (j, led))"] show ?case by simp
qed auto

section \<open>Properties\<close>

text \<open>C12: Every byte is billed exactly once while the core keeps running: over any sequence of
  calls, with lost answers, repeated or wrong acknowledgements, reader errors and writes that
  fail before or after the new journal is in place, the billed bytes of each counter are what
  the acknowledged counters have grown by since the start, and the sample on disk continues
  from there.\<close>

theorem steady_run_bills_once:
  assumes "jn_acknowledged j0 = Some a0" and "jn_pending j0 = None"
    and "steady (cp_generation a0) (counter_value (cp_counters a0)) calls"
    and "fold acc_step calls (j0, \<lambda>_. 0) = (j, led)"
  shows "\<exists>a. jn_acknowledged j = Some a
    \<and> (\<forall>c. led c = counter_value (cp_counters a) c - counter_value (cp_counters a0) c)
    \<and> (case jn_pending j of Some p \<Rightarrow> pe_from p = cp_counters a | None \<Rightarrow> True)"
proof -
  have "billing_inv a0 (counter_value (cp_counters a0)) (j0, \<lambda>_. 0)"
    using assms(1,2) by (simp add: billing_inv_def)
  from billing_run [OF this assms(3)] assms(4) show ?thesis
    by (auto simp: billing_inv_def split: option.splits)
qed

definition sample_counter :: string where "sample_counter = ''user>>>7>>>traffic>>>uplink''"

definition sample_checkpoint :: checkpoint where
  "sample_checkpoint = \<lparr>cp_counters = [(sample_counter, ''100'')], cp_generation = ''xray-pid-7'', cp_sample_id = ''s0''\<rparr>"

definition sample_call :: "string \<Rightarrow> int \<Rightarrow> string \<Rightarrow> write_outcome \<Rightarrow> acc_call" where
  "sample_call ack v sid out = (\<lparr>ae_read_ok = True, ae_reader = Inr ([(sample_counter, v)], ''xray-pid-7''),
     ae_sample_id = sid, ae_now = ''t'', ae_first_write = out, ae_second_write = Written\<rparr>, ack, [])"

definition sample_calls :: "acc_call list" where
  "sample_calls = [sample_call [] 130 ''s1'' Written, sample_call ''s1'' 150 ''x'' Not_Written,
     sample_call ''s1'' 150 ''x'' Written_With_Error, sample_call ''s1'' 160 ''s2'' Written]"

lemma counter_value_100 [simp]: "counter_value (cp_counters sample_checkpoint) c = (if c = sample_counter then 100 else 0)"
  by (simp add: counter_value_def sample_checkpoint_def parse_int64_def parse_big_def parse_digits_def
      is_digit_def base_val_def digit_val_def)

theorem steady_run_bills_once_witness:
  "case fold acc_step sample_calls
     (\<lparr>jn_acknowledged = Some sample_checkpoint, jn_pending = None, jn_quarantined = None\<rparr>, \<lambda>_. 0) of
     (j, led) \<Rightarrow> (\<exists>a. jn_acknowledged j = Some a \<and> led sample_counter = counter_value (cp_counters a) sample_counter - 100)"
proof -
  let ?j = "\<lparr>jn_acknowledged = Some sample_checkpoint, jn_pending = None, jn_quarantined = None\<rparr>"
  obtain j led where run: "fold acc_step sample_calls (?j, \<lambda>_. 0) = (j, led)" by force
  have st: "steady (cp_generation sample_checkpoint) (counter_value (cp_counters sample_checkpoint)) sample_calls"
    by (simp add: sample_calls_def sample_call_def raw_value_def) (simp add: sample_checkpoint_def)
  have "\<exists>a. jn_acknowledged j = Some a
      \<and> (\<forall>c. led c = counter_value (cp_counters a) c - counter_value (cp_counters sample_checkpoint) c)
      \<and> (case jn_pending j of Some p \<Rightarrow> pe_from p = cp_counters a | None \<Rightarrow> True)"
    by (rule steady_run_bills_once [OF _ _ st run]) simp_all
  with run show ?thesis by auto
qed

text \<open>C17: A sample that is waiting for its acknowledgement is repeated unchanged: a call that
  names neither its id to acknowledge nor its id to quarantine, or that names both, answers with
  the same sample and leaves the journal as it is.\<close>

theorem pending_sample_is_repeated:
  assumes "ae_read_ok env" and "jn_pending j = Some p"
    and "ack \<noteq> pe_sample_id p \<or> ack = [] \<or> q \<noteq> []" and "q \<noteq> pe_sample_id p \<or> q = [] \<or> ack \<noteq> []"
  shows "\<exists>extra. snapshot env ack q j = (j, Inr (accounting_response_of p extra))"
proof -
  have "\<exists>extra. acknowledge_sample env ack j = (j, Inr extra)" if "ack \<noteq> pe_sample_id p"
    using that assms(2) by (simp add: acknowledge_sample_def)
  moreover have "\<exists>extra. quarantine_sample env q j = (j, Inr extra)" if "q \<noteq> pe_sample_id p"
    using that assms(2) by (simp add: quarantine_sample_def)
  ultimately have "\<exists>extra. snapshot_action env ack q j = (j, Inr extra)"
    using assms(3,4) by (auto simp: snapshot_action_def)
  then show ?thesis using assms(1,2) by (auto simp: snapshot_def)
qed

theorem pending_sample_is_repeated_witness:
  "\<exists>extra. snapshot (fst (sample_call [] 0 ''x'' Written)) ''other'' []
       (empty_journal\<lparr>jn_pending := Some (new_sample (fst (sample_call [] 0 ''s1'' Written)) [(sample_counter, 5)] ''g'' empty_journal)\<rparr>)
     = (empty_journal\<lparr>jn_pending := Some (new_sample (fst (sample_call [] 0 ''s1'' Written)) [(sample_counter, 5)] ''g'' empty_journal)\<rparr>,
        Inr (accounting_response_of (new_sample (fst (sample_call [] 0 ''s1'' Written)) [(sample_counter, 5)] ''g'' empty_journal) extra))"
  by (rule pending_sample_is_repeated)
    (simp_all add: sample_call_def empty_journal_def new_sample_def Let_def)

section \<open>Rows\<close>

lemma map_of_add_counter:
  "map_of (add_counter k v m) k' =
    (if k' = k then Some (v + (case map_of m k of Some x \<Rightarrow> x | None \<Rightarrow> 0)) else map_of m k')"
  by (induction m) auto

definition attributed :: "counter_key \<Rightarrow> string \<times> string \<Rightarrow> int" where
  "attributed k = (\<lambda>(name, value).
     if parse_accounting_counter_name name = Some k then (case parse_big value of Some v \<Rightarrow> v | None \<Rightarrow> 0) else 0)"

definition sum_of :: "(counter_key \<times> int) list \<Rightarrow> counter_key \<Rightarrow> int" where
  "sum_of m k = (case map_of m k of Some v \<Rightarrow> v | None \<Rightarrow> 0)"

lemma sum_of_sum_counters:
  "sum_of (sum_counters cs m) k = sum_of m k + sum_list (map (attributed k) cs)"
proof (induction cs m rule: sum_counters.induct)
  case (2 name val cs m)
  then show ?case
    by (auto simp: attributed_def sum_of_def map_of_add_counter split: option.splits)
qed simp

lemma sum_of_absent:
  "map_of (sum_counters cs []) k = None \<Longrightarrow> sum_list (map (attributed k) cs) = 0"
  using sum_of_sum_counters [of cs "[]" k] by (simp add: sum_of_def)

text \<open>The bytes of a row are those of its raw counters: for each kind, name and direction the
  reported difference is the sum of the sample's counters with that meaning, in either spelling,
  less the sum of the starting ones, and never below zero.\<close>

theorem row_bytes_are_counter_bytes:
  assumes "\<exists>name value. (name, value) \<in> set (pe_to p) \<and> parse_accounting_counter_name name = Some k
      \<and> parse_big value \<noteq> None"
  shows "delta_of (sum_counters (pe_to p) []) (sum_counters (pe_from p) []) k
    = max 0 (sum_list (map (attributed k) (pe_to p)) - sum_list (map (attributed k) (pe_from p)))"
proof -
  have keep: "map_of (sum_counters cs m) k \<noteq> None" if "map_of m k \<noteq> None" for cs m
    using that
  proof (induction cs m rule: sum_counters.induct)
    case (2 name val cs m)
    then show ?case by (auto simp: map_of_add_counter split: option.splits if_splits)
  qed simp
  have present: "map_of (sum_counters cs m) k \<noteq> None"
    if "(name, val) \<in> set cs" "parse_accounting_counter_name name = Some k" "parse_big val \<noteq> None" for name val cs m
    using that
  proof (induction cs m rule: sum_counters.induct)
    case (2 name' val' cs m)
    show ?case
    proof (cases "(name', val') = (name, val)")
      case True
      with 2 keep show ?thesis by (auto simp: map_of_add_counter split: option.splits)
    next
      case False
      with 2 show ?thesis by auto
    qed
  qed simp
  from assms present obtain c where c: "map_of (sum_counters (pe_to p) []) k = Some c" by blast
  with sum_of_sum_counters [of "pe_to p" "[]" k] sum_of_sum_counters [of "pe_from p" "[]" k]
  show ?thesis by (simp add: delta_of_def sum_of_def)
qed

theorem row_bytes_are_counter_bytes_witness:
  "delta_of (sum_counters [(sample_counter, ''130''), (''user>>>7>>>uplink'', ''5'')] [])
     (sum_counters [(sample_counter, ''100'')] []) (''user'', ''7'', ''uplink'') = 35"
proof -
  let ?p = "\<lparr>pe_diagnostics = [], pe_from = [(sample_counter, ''100'')], pe_generation = [], pe_sample_id = [],
    pe_sampled_at = [], pe_to = [(sample_counter, ''130''), (''user>>>7>>>uplink'', ''5'')]\<rparr>"
  have name: "parse_accounting_counter_name sample_counter = Some (''user'', ''7'', ''uplink'')"
    "parse_accounting_counter_name ''user>>>7>>>uplink'' = Some (''user'', ''7'', ''uplink'')"
    by (simp_all add: sample_counter_def parse_accounting_counter_name_def has_prefix_def counter_kinds_def)
  have vals: "parse_big ''130'' = Some 130" "parse_big ''100'' = Some 100" "parse_big ''5'' = Some 5"
    by (simp_all add: parse_big_def parse_digits_def is_digit_def base_val_def digit_val_def)
  have "\<exists>name value. (name, value) \<in> set (pe_to ?p) \<and> parse_accounting_counter_name name = Some (''user'', ''7'', ''uplink'')
      \<and> parse_big value \<noteq> None"
    using name vals by auto
  from row_bytes_are_counter_bytes [OF this] show ?thesis by (simp add: attributed_def name vals)
qed

end
