(* ===== verification/Stats.thy ===== *)
theory Stats
  imports ManagerLifecycle Accounting XtlsHandler
begin

text \<open>internal/xtls/stats.go and internal/stats/handler.go: traffic counters and online users read
  from the core's statistics service, and the HTTP handlers that report them.  A reply of the
  service is a parameter: the counters (name and int64 value) or a gRPC error.  Results that
  come from ranging over a Go map are in the order of first appearance.\<close>

section \<open>Counters\<close>

type_synonym stat = "string \<times> int"

record user_traffic =
  ut_username :: string
  ut_downlink :: int
  ut_uplink :: int

record tag_traffic =
  tt_tag :: string
  tt_downlink :: int
  tt_uplink :: int

definition user_stat_name :: "string \<Rightarrow> (string \<times> string) option" where
  "user_stat_name name =
     (let parts = split_gt name in
      if length parts < 3 \<or> hd parts \<noteq> ''user'' then None
      else if parts ! 1 = [] \<or> last parts \<noteq> ''uplink'' \<and> last parts \<noteq> ''downlink'' then None
      else (let middle = butlast (tl parts) in
        if length middle \<noteq> 1 \<and> \<not> (length middle = 2 \<and> middle ! 1 = ''traffic'') then None
        else Some (parts ! 1, last parts)))"

definition bump_user :: "string \<Rightarrow> int \<Rightarrow> user_traffic \<Rightarrow> user_traffic" where
  "bump_user direction v entry =
     (if direction = ''downlink'' then entry\<lparr>ut_downlink := wrap64 (ut_downlink entry + v)\<rparr>
      else entry\<lparr>ut_uplink := wrap64 (ut_uplink entry + v)\<rparr>)"

fun count_user :: "string \<Rightarrow> string \<Rightarrow> int \<Rightarrow> user_traffic list \<Rightarrow> user_traffic list" where
  "count_user name direction v [] =
     [bump_user direction v \<lparr>ut_username = name, ut_downlink = 0, ut_uplink = 0\<rparr>]"
| "count_user name direction v (e # es) =
     (if ut_username e = name then bump_user direction v e # es else e # count_user name direction v es)"

definition parse_user_traffic_stats :: "stat list \<Rightarrow> user_traffic list" where
  "parse_user_traffic_stats stats = fold (\<lambda>(name, v) users. case user_stat_name name of
     None \<Rightarrow> users
   | Some (username, direction) \<Rightarrow> count_user username direction v users) stats []"

definition set_direction :: "string \<Rightarrow> int \<Rightarrow> tag_traffic \<Rightarrow> tag_traffic" where
  "set_direction direction v t =
     (if direction = ''downlink'' then t\<lparr>tt_downlink := v\<rparr>
      else if direction = ''uplink'' then t\<lparr>tt_uplink := v\<rparr> else t)"

definition tag_stat :: "string \<Rightarrow> string \<Rightarrow> (string \<times> string) option" where
  "tag_stat kind name =
     (let parts = split_gt name in
      if length parts < 4 \<or> hd parts \<noteq> kind then None else Some (parts ! 1, parts ! 3))"

definition parse_tag_traffic :: "string \<Rightarrow> stat list \<Rightarrow> tag_traffic" where
  "parse_tag_traffic kind stats = fold (\<lambda>(name, v) t. case tag_stat kind name of
     None \<Rightarrow> t
   | Some (tag, direction) \<Rightarrow>
       set_direction direction v (if tt_tag t = [] then t\<lparr>tt_tag := tag\<rparr> else t))
   stats \<lparr>tt_tag = [], tt_downlink = 0, tt_uplink = 0\<rparr>"

fun count_tag :: "string \<Rightarrow> string \<Rightarrow> int \<Rightarrow> tag_traffic list \<Rightarrow> tag_traffic list" where
  "count_tag tag direction v [] = [set_direction direction v \<lparr>tt_tag = tag, tt_downlink = 0, tt_uplink = 0\<rparr>]"
| "count_tag tag direction v (e # es) =
     (if tt_tag e = tag then set_direction direction v e # es else e # count_tag tag direction v es)"

definition parse_all_tag_traffic :: "string \<Rightarrow> stat list \<Rightarrow> tag_traffic list" where
  "parse_all_tag_traffic kind stats = fold (\<lambda>(name, v) tags. case tag_stat kind name of
     None \<Rightarrow> tags
   | Some (tag, direction) \<Rightarrow> count_tag tag direction v tags) stats []"

section \<open>The statistics API\<close>

type_synonym 'a grpc_reply = "grpc_error + 'a"

definition get_all_users_stats :: "stat list grpc_reply \<Rightarrow> user_traffic list grpc_reply" where
  "get_all_users_stats reply = map_sum id parse_user_traffic_stats reply"

definition get_accounting_counters :: "stat list grpc_reply \<Rightarrow> stat list grpc_reply" where
  "get_accounting_counters reply =
     map_sum id (\<lambda>stats. fold (\<lambda>(name, v). AList.update name v) stats []) reply"

definition inbound_pattern :: "string \<Rightarrow> string" where
  "inbound_pattern tag = ''inbound>>>'' @ tag @ ''>>>''"

definition outbound_pattern :: "string \<Rightarrow> string" where
  "outbound_pattern tag = ''outbound>>>'' @ tag @ ''>>>''"

text \<open>The query takes the pattern and gives the counters that match it.\<close>

definition get_inbound_stats :: "(string \<Rightarrow> stat list grpc_reply) \<Rightarrow> string \<Rightarrow> tag_traffic grpc_reply" where
  "get_inbound_stats query tag =
     map_sum id (\<lambda>stats. (parse_tag_traffic ''inbound'' stats)\<lparr>tt_tag := tag\<rparr>) (query (inbound_pattern tag))"

definition get_outbound_stats :: "(string \<Rightarrow> stat list grpc_reply) \<Rightarrow> string \<Rightarrow> tag_traffic grpc_reply" where
  "get_outbound_stats query tag =
     map_sum id (\<lambda>stats. (parse_tag_traffic ''outbound'' stats)\<lparr>tt_tag := tag\<rparr>) (query (outbound_pattern tag))"

definition get_all_inbounds_stats :: "(string \<Rightarrow> stat list grpc_reply) \<Rightarrow> tag_traffic list grpc_reply" where
  "get_all_inbounds_stats query = map_sum id (parse_all_tag_traffic ''inbound'') (query ''inbound>>>'')"

definition get_all_outbounds_stats :: "(string \<Rightarrow> stat list grpc_reply) \<Rightarrow> tag_traffic list grpc_reply" where
  "get_all_outbounds_stats query = map_sum id (parse_all_tag_traffic ''outbound'') (query ''outbound>>>'')"

fun is_not_found :: "grpc_error \<Rightarrow> bool" where
  "is_not_found (Grpc_Status code _) = (code = code_not_found)"
| "is_not_found (Plain_Error _) = False"

definition get_user_online_status :: "unit grpc_reply \<Rightarrow> bool grpc_reply" where
  "get_user_online_status reply = (case reply of
     Inr _ \<Rightarrow> Inr True
   | Inl e \<Rightarrow>
       if is_not_found e then Inr False
       else if contains_text (to_lower (grpc_error_message e)) ''not found'' then Inr False
       else Inl e)"

text \<open>An entry of an address list: the address and the time it was last seen.\<close>

type_synonym ip_entry = "string \<times> int"

definition get_user_ip_list :: "ip_entry list grpc_reply \<Rightarrow> ip_entry list grpc_reply" where
  "get_user_ip_list reply = (case reply of
     Inl e \<Rightarrow> if is_not_found e then Inr [] else Inl e
   | Inr ips \<Rightarrow> Inr ips)"

definition extract_online_user_id :: "string \<Rightarrow> string" where
  "extract_online_user_id raw =
     (let parts = split_gt raw in if length parts < 3 \<or> hd parts \<noteq> ''user'' then [] else parts ! 1)"

fun unique_ids :: "string list \<Rightarrow> string list \<Rightarrow> string list" where
  "unique_ids [] seen = []"
| "unique_ids (metric # metrics) seen =
     (let user = extract_online_user_id metric in
      if user = [] \<or> user \<in> set seen then unique_ids metrics seen
      else user # unique_ids metrics (user # seen))"

definition unique_online_user_ids :: "string list \<Rightarrow> string list" where
  "unique_online_user_ids metrics = unique_ids metrics []"

text \<open>Each user is asked by a goroutine of its own that stores its result at the user's index, so
  the results are in the order of the users.\<close>

definition get_users_ip_list ::
  "string list grpc_reply \<Rightarrow> (string \<Rightarrow> ip_entry list grpc_reply) \<Rightarrow> (string \<times> ip_entry list) list grpc_reply" where
  "get_users_ip_list online ask = (case online of
     Inl e \<Rightarrow> if is_not_found e then Inr [] else Inl e
   | Inr metrics \<Rightarrow> Inr (filter (\<lambda>(_, ips). length ips > 0)
       (map (\<lambda>u. (u, case get_user_ip_list (ask u) of Inr ips \<Rightarrow> ips | Inl _ \<Rightarrow> [])) (unique_online_user_ids metrics))))"

section \<open>The handlers\<close>

datatype stats_reply =
    Stats_Error string nat string
  | Stats_Bad_Request
  | Accounting_Reply accounting_response
  | Online_Reply bool
  | Users_Traffic "(string \<times> string \<times> string) list"
  | Tag_Reply tag_traffic
  | Tags_Reply "tag_traffic list"
  | Combined_Reply "tag_traffic list" "tag_traffic list"
  | Ips_Reply "ip_entry list"
  | Users_Ips_Reply "(string \<times> ip_entry list) list"

definition err_users_stats :: stats_reply where
  "err_users_stats = Stats_Error ''A011'' 500 ''Failed to get users stats''"
definition err_inbound_stats :: stats_reply where
  "err_inbound_stats = Stats_Error ''A012'' 500 ''Failed to get inbound stats''"
definition err_outbound_stats :: stats_reply where
  "err_outbound_stats = Stats_Error ''A013'' 500 ''Failed to get outbound stats''"
definition err_inbounds_stats :: stats_reply where
  "err_inbounds_stats = Stats_Error ''A015'' 500 ''Failed to get inbounds stats''"
definition err_outbounds_stats :: stats_reply where
  "err_outbounds_stats = Stats_Error ''A016'' 500 ''Failed to get outbounds stats''"
definition err_combined_stats :: stats_reply where
  "err_combined_stats = Stats_Error ''A017'' 500 ''Failed to get combined stats''"

text \<open>A method of the manager (internal/xray/grpc.go): its gate, then the call of the API.\<close>

definition provider_stats :: "string option \<Rightarrow> manager \<Rightarrow> 'a grpc_reply \<Rightarrow> string + 'a" where
  "provider_stats dial_error m reply = (case stats_api dial_error True m of
     Some e \<Rightarrow> Inl e
   | None \<Rightarrow> map_sum grpc_error_message id reply)"

text \<open>The body is None when it cannot be decoded; an empty body decodes to empty ids.\<close>

definition handle_get_accounting_snapshot ::
  "bool \<Rightarrow> accounting_env \<Rightarrow> (string \<times> string) option \<Rightarrow> journal \<Rightarrow> journal \<times> stats_reply" where
  "handle_get_accounting_snapshot configured env body j =
     (if \<not> configured then (j, err_combined_stats)
      else (case body of
          None \<Rightarrow> (j, Stats_Bad_Request)
        | Some (ack, q) \<Rightarrow> (case snapshot env ack q j of
            (j', Inl e) \<Rightarrow> (j', err_combined_stats)
          | (j', Inr response) \<Rightarrow> (j', Accounting_Reply response))))"

definition handle_get_user_online_status :: "(string + bool) \<Rightarrow> string \<Rightarrow> stats_reply" where
  "handle_get_user_online_status result username =
     (if username = [] then Online_Reply False
      else Online_Reply (case result of Inl _ \<Rightarrow> False | Inr online \<Rightarrow> online))"

definition handle_get_users_stats :: "(string + user_traffic list) \<Rightarrow> stats_reply" where
  "handle_get_users_stats result = (case result of
     Inl _ \<Rightarrow> err_users_stats
   | Inr stats \<Rightarrow> Users_Traffic (map (\<lambda>t. (ut_username t, format_int 10 (ut_downlink t), format_int 10 (ut_uplink t)))
       (filter (\<lambda>t. \<not> (ut_uplink t = 0 \<and> ut_downlink t = 0)) stats)))"

definition handle_get_inbound_stats :: "(string + tag_traffic) \<Rightarrow> string \<Rightarrow> stats_reply" where
  "handle_get_inbound_stats result tag =
     (if tag = [] then err_inbound_stats
      else (case result of
          Inl _ \<Rightarrow> err_inbound_stats
        | Inr stats \<Rightarrow> if tt_tag stats = [] then err_inbound_stats else Tag_Reply stats))"

definition handle_get_outbound_stats :: "(string + tag_traffic) \<Rightarrow> string \<Rightarrow> stats_reply" where
  "handle_get_outbound_stats result tag =
     (if tag = [] then err_outbound_stats
      else (case result of
          Inl _ \<Rightarrow> err_outbound_stats
        | Inr stats \<Rightarrow> if tt_tag stats = [] then err_outbound_stats else Tag_Reply stats))"

definition handle_get_all_inbounds_stats :: "(string + tag_traffic list) \<Rightarrow> stats_reply" where
  "handle_get_all_inbounds_stats result = (case result of Inl _ \<Rightarrow> err_inbounds_stats | Inr stats \<Rightarrow> Tags_Reply stats)"

definition handle_get_all_outbounds_stats :: "(string + tag_traffic list) \<Rightarrow> stats_reply" where
  "handle_get_all_outbounds_stats result = (case result of Inl _ \<Rightarrow> err_outbounds_stats | Inr stats \<Rightarrow> Tags_Reply stats)"

definition handle_get_combined_stats ::
  "(string + tag_traffic list) \<Rightarrow> (string + tag_traffic list) \<Rightarrow> stats_reply" where
  "handle_get_combined_stats inbound_result outbound_result = (case inbound_result of
     Inl _ \<Rightarrow> err_combined_stats
   | Inr inbounds \<Rightarrow> (case outbound_result of
       Inl _ \<Rightarrow> err_combined_stats
     | Inr outbounds \<Rightarrow> Combined_Reply inbounds outbounds))"

definition handle_get_user_ip_list :: "(string + ip_entry list) \<Rightarrow> string \<Rightarrow> stats_reply" where
  "handle_get_user_ip_list result user_id =
     (if user_id = [] then Ips_Reply [] else (case result of Inl _ \<Rightarrow> Ips_Reply [] | Inr items \<Rightarrow> Ips_Reply items))"

definition handle_get_users_ip_list :: "(string + (string \<times> ip_entry list) list) \<Rightarrow> stats_reply" where
  "handle_get_users_ip_list result = (case result of
     Inl _ \<Rightarrow> Users_Ips_Reply []
   | Inr items \<Rightarrow> Users_Ips_Reply (filter (\<lambda>(_, ips). length ips \<noteq> 0) items))"

section \<open>Traffic of the users\<close>

definition user_total :: "string \<Rightarrow> string \<Rightarrow> stat list \<Rightarrow> int" where
  "user_total username direction stats =
     sum_list (map snd (filter (\<lambda>(name, _). user_stat_name name = Some (username, direction)) stats))"

definition downlink_of :: "user_traffic list \<Rightarrow> string \<Rightarrow> int" where
  "downlink_of users username = (case find (\<lambda>e. ut_username e = username) users of Some e \<Rightarrow> ut_downlink e | None \<Rightarrow> 0)"

definition uplink_of :: "user_traffic list \<Rightarrow> string \<Rightarrow> int" where
  "uplink_of users username = (case find (\<lambda>e. ut_username e = username) users of Some e \<Rightarrow> ut_uplink e | None \<Rightarrow> 0)"

lemma bump_name [simp]: "ut_username (bump_user d v e) = ut_username e"
  by (simp add: bump_user_def)

lemma count_user_dir:
  assumes "d = ''downlink'' \<or> d = ''uplink''"
  shows "downlink_of (count_user n d v es) u =
      (if u = n \<and> d = ''downlink'' then wrap64 (downlink_of es u + v) else downlink_of es u)"
    and "uplink_of (count_user n d v es) u =
      (if u = n \<and> d = ''uplink'' then wrap64 (uplink_of es u + v) else uplink_of es u)"
  using assms by (induction es) (auto simp: downlink_of_def uplink_of_def bump_user_def)

lemma count_user_names:
  "map ut_username (count_user n d v es) =
    (if n \<in> set (map ut_username es) then map ut_username es else map ut_username es @ [n])"
  by (induction es) auto

lemma user_stat_direction: "user_stat_name name = Some (u, d) \<Longrightarrow> d = ''downlink'' \<or> d = ''uplink''"
  by (auto simp: user_stat_name_def Let_def split: if_splits)

lemma parse_users_acc:
  fixes stats :: "stat list"
  defines "tally \<equiv> \<lambda>(name, v) users. case user_stat_name name of
     None \<Rightarrow> users | Some (username, direction) \<Rightarrow> count_user username direction v users"
  assumes "distinct (map ut_username users)"
    and "\<And>u. downlink_of users u = wrap64 (D u)" "\<And>u. uplink_of users u = wrap64 (U u)"
  shows "distinct (map ut_username (fold tally stats users))
    \<and> downlink_of (fold tally stats users) u = wrap64 (D u + user_total u ''downlink'' stats)
    \<and> uplink_of (fold tally stats users) u = wrap64 (U u + user_total u ''uplink'' stats)"
  using assms(2-)
proof (induction stats arbitrary: users D U)
  case Nil
  then show ?case by (simp add: user_total_def)
next
  case (Cons s stats)
  obtain name v where s: "s = (name, v)" by force
  show ?case
  proof (cases "user_stat_name name")
    case None
    with Cons show ?thesis by (simp add: s tally_def user_total_def)
  next
    case (Some x)
    obtain n d where x: "x = (n, d)" by force
    note dir = user_stat_direction [OF Some [unfolded x]]
    let ?users = "count_user n d v users"
    let ?D = "\<lambda>u. D u + (if u = n \<and> d = ''downlink'' then v else 0)"
    let ?U = "\<lambda>u. U u + (if u = n \<and> d = ''uplink'' then v else 0)"
    have "distinct (map ut_username ?users)" using Cons.prems(1) by (simp add: count_user_names)
    moreover have "downlink_of ?users u = wrap64 (?D u)" "uplink_of ?users u = wrap64 (?U u)" for u
      using Cons.prems(2,3) by (simp_all add: count_user_dir [OF dir] wrap64_add)
    ultimately show ?thesis
      using Cons.IH [of ?users ?D ?U] Some x s dir
      by (auto simp: tally_def user_total_def algebra_simps)
  qed
qed

text \<open>C18: GetAllUsersStats lists each user once, and the traffic it gives for a user and a
  direction is the sum of all counters of this user and direction, in either spelling of the
  counter name, modulo the wrap-around of an int64.\<close>

theorem user_traffic_totals:
  "distinct (map ut_username (parse_user_traffic_stats stats))
    \<and> downlink_of (parse_user_traffic_stats stats) u = wrap64 (user_total u ''downlink'' stats)
    \<and> uplink_of (parse_user_traffic_stats stats) u = wrap64 (user_total u ''uplink'' stats)"
  using parse_users_acc [of "[]" "\<lambda>_. 0" "\<lambda>_. 0" stats u]
  by (simp add: parse_user_traffic_stats_def downlink_of_def uplink_of_def wrap64_def)

text \<open>The inbound statistics of a tag that the core does not know are reported as a success
  with zero traffic: with the core online and the query answered, HandleGetInboundStats never
  takes its error branch for a missing tag, since GetInboundStats always fills in the tag it was
  asked for.\<close>

theorem unknown_inbound_is_zero_traffic:
  assumes "tag \<noteq> []" and "xray_online m" and "query (inbound_pattern tag) = Inr []"
  shows "handle_get_inbound_stats (provider_stats None m (get_inbound_stats query tag)) tag
    = Tag_Reply \<lparr>tt_tag = tag, tt_downlink = 0, tt_uplink = 0\<rparr>"
  using assms
  by (simp add: handle_get_inbound_stats_def provider_stats_def stats_api_def get_inbound_stats_def
      parse_tag_traffic_def)

theorem unknown_inbound_is_zero_traffic_witness:
  "handle_get_inbound_stats (provider_stats None (example_manager\<lparr>xray_online := True\<rparr>)
      (get_inbound_stats (\<lambda>_. Inr []) ''nope'')) ''nope''
    = Tag_Reply \<lparr>tt_tag = ''nope'', tt_downlink = 0, tt_uplink = 0\<rparr>"
  by (rule unknown_inbound_is_zero_traffic) simp_all

end
