(* ===== verification/NetPrefix.thy ===== *)
theory NetPrefix
  imports GoNet
begin

text \<open>CIDR prefixes: netip.Prefix with its Masked and String methods, netip.ParsePrefix and
  net.ParseCIDR, netip.Addr.String, and the byte orders of encoding/binary.\<close>

section \<open>Bytes\<close>

type_synonym bytes = "nat list"

definition le_bytes :: "nat \<Rightarrow> nat \<Rightarrow> bytes" where
  "le_bytes k n = map (\<lambda>i. n div 256 ^ i mod 256) [0..<k]"

fun le_value :: "bytes \<Rightarrow> nat" where
  "le_value [] = 0"
| "le_value (b # bs) = b + 256 * le_value bs"

definition be_bytes :: "nat \<Rightarrow> nat \<Rightarrow> bytes" where
  "be_bytes k n = rev (le_bytes k n)"

definition be_value :: "bytes \<Rightarrow> nat" where
  "be_value bs = le_value (rev bs)"

lemma length_le_bytes [simp]: "length (le_bytes k n) = k"
  by (simp add: le_bytes_def)

lemma length_be_bytes [simp]: "length (be_bytes k n) = k"
  by (simp add: be_bytes_def)

lemma le_bytes_Suc: "le_bytes (Suc k) n = n mod 256 # le_bytes k (n div 256)"
proof -
  have "[0..<Suc k] = 0 # map Suc [0..<k]" by (simp add: map_Suc_upt upt_conv_Cons)
  then show ?thesis by (simp add: le_bytes_def div_mult2_eq)
qed

lemma le_value_bytes: "le_value (le_bytes k n) = n mod 256 ^ k"
proof (induction k arbitrary: n)
  case 0
  then show ?case by (simp add: le_bytes_def)
next
  case (Suc k)
  then show ?case by (simp add: le_bytes_Suc mod_mult2_eq)
qed

lemma be_value_bytes: "be_value (be_bytes k n) = n mod 256 ^ k"
  by (simp add: be_value_def be_bytes_def le_value_bytes)

section \<open>Prefixes\<close>

type_synonym net_prefix = "ip_addr \<times> nat"

fun bit_len :: "ip_addr \<Rightarrow> nat" where
  "bit_len (IP4 _) = 32"
| "bit_len (IP6 _) = 128"

fun is4 :: "ip_addr \<Rightarrow> bool" where
  "is4 (IP4 _) = True"
| "is4 (IP6 _) = False"

fun addr_val :: "ip_addr \<Rightarrow> nat" where
  "addr_val (IP4 n) = n"
| "addr_val (IP6 n) = n"

definition valid_prefix :: "net_prefix \<Rightarrow> bool" where
  "valid_prefix p \<longleftrightarrow> snd p \<le> bit_len (fst p)"

fun masked :: "net_prefix \<Rightarrow> net_prefix" where
  "masked (IP4 n, b) = (IP4 (n div 2 ^ (32 - b) * 2 ^ (32 - b)), b)"
| "masked (IP6 n, b) = (IP6 (n div 2 ^ (128 - b) * 2 ^ (128 - b)), b)"

fun unmap :: "ip_addr \<Rightarrow> ip_addr" where
  "unmap a = (case to4 a of Some n \<Rightarrow> IP4 n | None \<Rightarrow> a)"

lemma masked_family [simp]: "is4 (fst (masked p)) = is4 (fst p)"
  by (cases p rule: masked.cases) auto

lemma masked_bits [simp]: "snd (masked p) = snd p"
  by (cases p rule: masked.cases) auto

lemma masked_bit_len [simp]: "bit_len (fst (masked p)) = bit_len (fst p)"
  by (cases p rule: masked.cases) auto

section \<open>Texts\<close>

definition dotted :: "nat \<Rightarrow> string" where
  "dotted n = join_with ''.'' (map (base_digits 10)
     [n div 2 ^ 24 mod 256, n div 2 ^ 16 mod 256, n div 2 ^ 8 mod 256, n mod 256])"

definition groups_of :: "nat \<Rightarrow> nat list" where
  "groups_of n = map (\<lambda>i. n div 65536 ^ (7 - i) mod 65536) [0..<8]"

definition zero_run :: "nat list \<Rightarrow> nat \<Rightarrow> nat" where
  "zero_run gs i = length (takeWhile (\<lambda>g. g = 0) (drop i gs))"

text \<open>The first of the longest runs of at least two zero groups: its start and its length.\<close>

definition longest_zeros :: "nat list \<Rightarrow> nat \<times> nat" where
  "longest_zeros gs = fold (\<lambda>i (s, l). if 2 \<le> zero_run gs i \<and> l < zero_run gs i
     then (i, zero_run gs i) else (s, l)) [0..<8] (0, 0)"

definition colon_hex :: "nat list \<Rightarrow> string" where
  "colon_hex gs = join_with '':'' (map (base_digits 16) gs)"

definition v6_text :: "nat \<Rightarrow> string" where
  "v6_text n = (let gs = groups_of n; (s, l) = longest_zeros gs in
     if l = 0 then colon_hex gs else colon_hex (take s gs) @ ''::'' @ colon_hex (drop (s + l) gs))"

fun addr_text :: "ip_addr \<Rightarrow> string" where
  "addr_text (IP4 n) = dotted n"
| "addr_text (IP6 n) = (case to4 (IP6 n) of Some m \<Rightarrow> ''::ffff:'' @ dotted m | None \<Rightarrow> v6_text n)"

definition prefix_text :: "net_prefix \<Rightarrow> string" where
  "prefix_text p = (if valid_prefix p then addr_text (fst p) @ ''/'' @ base_digits 10 (snd p)
     else ''invalid Prefix'')"

text \<open>net.ParseCIDR cuts at the first slash and takes the bits with leading zeros;
  netip.ParsePrefix cuts at the last one and takes them without.\<close>

definition parse_cidr :: "string \<Rightarrow> net_prefix option" where
  "parse_cidr s =
     (let a = before (CHR ''/'') s in
      if length a = length s then None
      else (case (parse_ip a, parse_digits (drop (Suc (length a)) s)) of
          (Some ip, Some n) \<Rightarrow> if n \<le> bit_len ip then Some (ip, n) else None
        | _ \<Rightarrow> None))"

definition parse_prefix :: "string \<Rightarrow> net_prefix option" where
  "parse_prefix s = (case last_index (CHR ''/'') s of
     None \<Rightarrow> None
   | Some i \<Rightarrow> (let bits = drop (Suc i) s in
       case parse_ip (take i s) of
         None \<Rightarrow> None
       | Some ip \<Rightarrow>
           if length bits > 1 \<and> \<not> (is_digit (hd bits) \<and> hd bits \<noteq> CHR ''0'') then None
           else (case parse_digits bits of
               Some n \<Rightarrow> if n \<le> bit_len ip then Some (ip, n) else None
             | None \<Rightarrow> None)))"

section \<open>Characters of an address\<close>

definition address_char :: "char \<Rightarrow> bool" where
  "address_char c \<longleftrightarrow> hex_char c \<or> c = CHR ''.'' \<or> c = CHR '':''"

lemma digit_address_char: "is_digit c \<Longrightarrow> address_char c"
  by (simp add: address_char_def hex_char_def)

lemma octet_digits: "octet w = Some n \<Longrightarrow> list_all is_digit w"
  by (auto simp: octet_def parse_digits_def split: if_splits option.splits)

lemma set_split_on: "set s \<subseteq> insert c (\<Union> (set ` set (split_on c s)))"
proof (induction s)
  case (Cons x s)
  then show ?case by (cases "split_on c s") auto
qed simp

lemma parse_ipv4_chars: "parse_ipv4 s = Some n \<Longrightarrow> list_all address_char s"
proof -
  assume "parse_ipv4 s = Some n"
  then obtain a b c d where m: "map octet (split_on (CHR ''.'') s) = [Some a, Some b, Some c, Some d]"
    by (auto simp: parse_ipv4_def split: list.splits option.splits)
  have "list_all is_digit w" if "w \<in> set (split_on (CHR ''.'') s)" for w
  proof -
    have "octet w \<in> set (map octet (split_on (CHR ''.'') s))" using that by simp
    with m octet_digits [of w] show ?thesis by auto
  qed
  then show ?thesis
    using set_split_on [of s "CHR ''.''"] by (auto simp: list_all_iff dest!: subsetD intro: digit_address_char) (auto simp: address_char_def)
qed

lemma colon_char: "address_char (CHR '':'')"
  by (simp add: address_char_def)

text \<open>One turn of the loop that succeeds: the text ends, or the rest is a dotted address, or a colon
  or an ellipsis follows and the loop goes on.\<close>

lemma v6_groups_turn:
  assumes "v6_groups (Suc n) ell acc s = Some (gs, ell', [])" "drop (length (takeWhile hex_char s)) s = rest"
  obtains "rest = []" | v where "parse_ipv4 s = Some v"
  | s' e a where "rest = CHR '':'' # s'" "v6_groups n e a s' = Some (gs, ell', [])"
  | r e a where "rest = CHR '':'' # CHR '':'' # r" "r = [] \<or> v6_groups n e a r = Some (gs, ell', [])"
proof (cases rest)
  case Nil
  then show thesis by (rule that)
next
  case (Cons c s')
  note run = assms(1) [unfolded v6_groups.simps(2) Let_def assms(2) Cons list.case(2)]
  show thesis
  proof (cases "c = CHR ''.''")
    case True
    with run that(2) show thesis by (auto split: if_splits)
  next
    case False
    with run have c: "c = CHR '':''" "s' \<noteq> []" by (simp_all split: if_splits)
    show thesis
    proof (cases "hd s' = CHR '':''")
      case True
      with c obtain r where "s' = CHR '':'' # r" by (cases s') auto
      with run c False Cons that(4) show thesis by (auto split: if_splits)
    next
      case hd: False
      with run c False Cons that(3) show thesis by (auto split: if_splits)
    qed
  qed
qed

lemma v6_groups_chars:
  "v6_groups n ell acc s = Some (gs, ell', []) \<Longrightarrow> list_all address_char s"
proof (induction n arbitrary: ell acc s gs ell')
  case 0
  then show ?case by simp
next
  case (Suc n)
  let ?h = "takeWhile hex_char s"
  obtain rest where rest: "drop (length ?h) s = rest" by blast
  have split: "?h @ rest = s" unfolding rest [symmetric] by (simp flip: takeWhile_eq_take dropWhile_eq_drop)
  have h: "list_all address_char ?h"
    by (auto simp: list_all_iff address_char_def dest: set_takeWhileD)
  have "list_all address_char rest \<or> list_all address_char s"
    using Suc.prems rest
  proof (cases rule: v6_groups_turn)
    case (2 v)
    then show ?thesis using parse_ipv4_chars by blast
  next
    case (3 s' e a)
    with Suc.IH [of e a s'] show ?thesis by (simp add: colon_char)
  next
    case (4 r e a)
    with Suc.IH [of e a r] show ?thesis by (auto simp: colon_char)
  qed simp
  with h show ?case by (metis list_all_append split)
qed

lemma v6_finish_rest: "v6_finish r = Some v \<Longrightarrow> \<exists>gs ell. r = Some (gs, ell, [])"
  by (auto simp: v6_finish_def split: option.splits list.splits)

lemma parse_ipv6_chars: "parse_ipv6 s = Some n \<Longrightarrow> list_all address_char s"
proof -
  assume p: "parse_ipv6 s = Some n"
  show ?thesis
  proof (cases "has_prefix s ''::''")
    case True
    then have s: "s = ''::'' @ drop 2 s" by (metis append_eq_conv_conj has_prefix_iff length_Cons list.size(3) numeral_2_eq_2)
    have "list_all address_char (drop 2 s)"
    proof (cases "length s = 2")
      case False
      with p True obtain gs ell where "v6_groups 8 (Some 0) [] (drop 2 s) = Some (gs, ell, [])"
        by (auto simp: parse_ipv6_def dest!: v6_finish_rest)
      then show ?thesis by (rule v6_groups_chars)
    qed simp
    then have "list_all address_char (''::'' @ drop 2 s)" by (simp add: address_char_def)
    then show ?thesis by (subst s)
  next
    case False
    with p obtain gs ell where "v6_groups 8 None [] s = Some (gs, ell, [])"
      by (auto simp: parse_ipv6_def dest!: v6_finish_rest)
    then show ?thesis by (rule v6_groups_chars)
  qed
qed

lemma before_all: "length s \<le> length (before c s) \<Longrightarrow> before c s = s"
  unfolding before_def by (metis takeWhile_eq_take take_all)

lemma parse_addr_cases:
  assumes "parse_addr s = Some (a, [])"
  shows "(\<exists>n. parse_ipv4 s = Some n) \<or> (\<exists>n. parse_ipv6 s = Some n)"
proof (cases "parse_ipv4 s")
  case None
  define b where "b = before (CHR ''%'') s"
  from assms None have l: "\<not> (length b < length s \<and> drop (Suc (length b)) s = [])" "drop (Suc (length b)) s = []"
    "\<exists>n. parse_ipv6 b = Some n"
    unfolding parse_addr_def b_def [symmetric] Let_def by (simp_all split: list.splits if_splits) blast+
  from l(1,2) have "length s \<le> length b" by linarith
  then have "b = s" unfolding b_def by (rule before_all)
  with l(3) show ?thesis by blast
qed simp

lemma parse_ip_chars:
  assumes "parse_ip s \<noteq> None" shows "list_all address_char s"
proof -
  from assms obtain a where "parse_addr s = Some (a, [])"
    by (auto simp: parse_ip_def split: option.splits prod.splits list.splits)
  from parse_addr_cases [OF this] show ?thesis by (auto dest: parse_ipv4_chars parse_ipv6_chars)
qed

section \<open>Characters of the text of a prefix\<close>

lemma base_digits_hex: "list_all hex_char (base_digits 16 n)"
proof (induction n rule: less_induct)
  case (less n)
  then show ?case by (cases "n < 16") (simp_all add: base_digits.simps [of 16 n] digit_char_hex)
qed

lemma join_with_chars: "\<lbrakk>list_all P sep; \<And>w. w \<in> set ws \<Longrightarrow> list_all P w\<rbrakk> \<Longrightarrow> list_all P (join_with sep ws)"
  by (induction sep ws rule: join_with.induct) simp_all

lemma decimal_chars: "list_all address_char (base_digits 10 n)"
  using base_digits_decimal [of n] by (auto simp: list_all_iff intro: digit_address_char)

lemma hex_chars: "list_all address_char (base_digits 16 n)"
  using base_digits_hex [of n] by (auto simp: list_all_iff address_char_def)

lemma dotted_chars: "list_all address_char (dotted n)"
  unfolding dotted_def by (rule join_with_chars) (auto simp: decimal_chars address_char_def)

lemma colon_hex_chars: "list_all address_char (colon_hex gs)"
  unfolding colon_hex_def by (rule join_with_chars) (auto simp: hex_chars address_char_def)

lemma addr_text_chars: "list_all address_char (addr_text a)"
proof (cases a)
  case (IP6 n)
  have "list_all address_char (v6_text n)"
    by (simp add: v6_text_def colon_hex_chars Let_def split_beta) (simp add: address_char_def)
  moreover have "list_all address_char (''::ffff:'' @ dotted m)" for m
    by (simp add: dotted_chars) (simp add: address_char_def hex_char_def)
  ultimately show ?thesis using IP6 by (auto split: option.splits)
qed (simp add: dotted_chars)

lemma prefix_text_chars:
  "valid_prefix p \<Longrightarrow> list_all (\<lambda>c. address_char c \<or> c = CHR ''/'') (prefix_text p)"
  using addr_text_chars [of "fst p"] decimal_chars [of "snd p"] by (auto simp: prefix_text_def list_all_iff)

end
