(* ===== verification/AsnDb.thy ===== *)
theory AsnDb
  imports NetPrefix
begin

text \<open>internal/asn/db.go and writer.go: the database that maps an AS number to its prefixes, a
  header, an index sorted by AS number that the reader searches with ReadAt, and the records.
  A file is the list of its bytes.  Offsets and counts are cut to their widths where they are
  encoded; sort.Slice is a stable sort here, which is the same for distinct AS numbers.\<close>

section \<open>The writer\<close>

record asn_entry =
  en_asn :: nat
  en_v4 :: "net_prefix list"
  en_v6 :: "net_prefix list"

definition asn_magic :: bytes where
  "asn_magic = map of_char ''RWASNDB'' @ [1]"

definition header_len :: nat where "header_len = 16"
definition entry_len :: nat where "entry_len = 16"
definition v4_record :: nat where "v4_record = 5"
definition v6_record :: nat where "v6_record = 17"

definition normalize_prefixes :: "bool \<Rightarrow> net_prefix list \<Rightarrow> net_prefix list" where
  "normalize_prefixes want_v4 ps =
     filter (\<lambda>p. is4 (fst p) = want_v4) (map masked (filter valid_prefix ps))"

fun record_bytes :: "net_prefix \<Rightarrow> bytes" where
  "record_bytes (IP4 n, b) = be_bytes 4 n @ [b mod 256]"
| "record_bytes (IP6 n, b) = be_bytes 16 n @ [b mod 256]"

definition entry_v4 :: "asn_entry \<Rightarrow> net_prefix list" where
  "entry_v4 e = normalize_prefixes True (en_v4 e)"

definition entry_v6 :: "asn_entry \<Rightarrow> net_prefix list" where
  "entry_v6 e = normalize_prefixes False (en_v6 e)"

definition entry_data :: "asn_entry \<Rightarrow> bytes" where
  "entry_data e = concat (map record_bytes (entry_v4 e)) @ concat (map record_bytes (entry_v6 e))"

definition entry_size :: "asn_entry \<Rightarrow> nat" where
  "entry_size e = length (entry_v4 e) * v4_record + length (entry_v6 e) * v6_record"

definition index_entry :: "nat \<Rightarrow> asn_entry \<Rightarrow> bytes" where
  "index_entry off e = le_bytes 4 (en_asn e) @ le_bytes 8 off
     @ le_bytes 2 (length (entry_v4 e)) @ le_bytes 2 (length (entry_v6 e))"

text \<open>The loop over the sorted entries: the index and the data, with the running offset.\<close>

fun write_entries :: "nat \<Rightarrow> asn_entry list \<Rightarrow> bytes \<times> bytes" where
  "write_entries off [] = ([], [])"
| "write_entries off (e # es) =
     (let (index, data) = write_entries (off + entry_size e) es
      in (index_entry off e @ index, entry_data e @ data))"

definition asn_write :: "asn_entry list \<Rightarrow> bytes" where
  "asn_write entries =
     (let sorted = sort_key en_asn entries;
          count = length sorted mod 2 ^ 32;
          (index, data) = write_entries (header_len + count * entry_len) sorted
      in asn_magic @ le_bytes 4 count @ replicate 4 0 @ index @ data)"

section \<open>The reader\<close>

record asn_db =
  db_file :: bytes
  db_count :: nat

definition asn_open :: "bytes option \<Rightarrow> asn_db option" where
  "asn_open file = (case file of
     None \<Rightarrow> None
   | Some f \<Rightarrow>
       if length f < header_len then None
       else if take 8 f \<noteq> asn_magic then None
       else Some \<lparr>db_file = f, db_count = le_value (take 4 (drop 8 f))\<rparr>)"

definition asn_available :: "asn_db option \<Rightarrow> bool" where
  "asn_available db \<longleftrightarrow> (case db of Some d \<Rightarrow> db_count d > 0 | None \<Rightarrow> False)"

text \<open>os.File.ReadAt of a buffer of length n: an error for a negative offset or when the file
  ends before the buffer is full.\<close>

definition read_at :: "bytes \<Rightarrow> nat \<Rightarrow> int \<Rightarrow> bytes option" where
  "read_at f n off =
     (if off < 0 then None
      else if n = 0 then Some []
      else if length f < nat off + n then None
      else Some (take n (drop (nat off) f)))"

definition int64_of :: "nat \<Rightarrow> int" where
  "int64_of n = (if n < 2 ^ 63 then int n else int n - 2 ^ 64)"

text \<open>The loop of PrefixesByASN: the data offset and the two counts of the entry.\<close>

function asn_search :: "bytes \<Rightarrow> nat \<Rightarrow> nat \<Rightarrow> nat \<Rightarrow> (nat \<times> nat \<times> nat) option" where
  "asn_search f a lo hi =
     (if lo < hi then
        (let mid = lo + (hi - lo) div 2 in
         case read_at f entry_len (int (header_len + mid * entry_len)) of
           None \<Rightarrow> None
         | Some entry \<Rightarrow>
            (let cur = le_value (take 4 entry) in
             if cur < a then asn_search f a (mid + 1) hi
             else if a < cur then asn_search f a lo mid
             else Some (le_value (take 8 (drop 4 entry)), le_value (take 2 (drop 12 entry)),
                        le_value (take 2 (drop 14 entry)))))
      else None)"
  by pat_completeness auto
termination
  by (relation "measure (\<lambda>(f, a, lo, hi). hi - lo)") auto

declare asn_search.simps [simp del]

fun read_v4 :: "nat \<Rightarrow> bytes \<Rightarrow> net_prefix list" where
  "read_v4 0 buf = []"
| "read_v4 (Suc n) buf = (IP4 (be_value (take 4 buf)), buf ! 4) # read_v4 n (drop v4_record buf)"

fun read_v6 :: "nat \<Rightarrow> bytes \<Rightarrow> net_prefix list" where
  "read_v6 0 buf = []"
| "read_v6 (Suc n) buf = (IP6 (be_value (take 16 buf)), buf ! 16) # read_v6 n (drop v6_record buf)"

definition read_blob :: "bytes \<Rightarrow> int \<Rightarrow> nat \<Rightarrow> nat \<Rightarrow> net_prefix list \<times> net_prefix list" where
  "read_blob f off v4n v6n = (case read_at f (v4n * v4_record + v6n * v6_record) off of
     None \<Rightarrow> ([], [])
   | Some buf \<Rightarrow> (read_v4 v4n buf, read_v6 v6n (drop (v4n * v4_record) buf)))"

definition lookup_prefixes :: "asn_db option \<Rightarrow> nat \<Rightarrow> net_prefix list \<times> net_prefix list" where
  "lookup_prefixes db a = (case db of
     None \<Rightarrow> ([], [])
   | Some d \<Rightarrow>
       if \<not> asn_available db then ([], [])
       else (case asn_search (db_file d) a 0 (db_count d) of
           None \<Rightarrow> ([], [])
         | Some (off, v4n, v6n) \<Rightarrow> read_blob (db_file d) (int64_of off) v4n v6n))"

definition prefixes_by_asn :: "asn_db option \<Rightarrow> nat \<Rightarrow> string list \<times> string list" where
  "prefixes_by_asn db a = (let (v4, v6) = lookup_prefixes db a in (map prefix_text v4, map prefix_text v6))"

section \<open>Search in a sorted index\<close>

lemma asn_search_found:
  assumes ent: "\<And>j. j < n \<Longrightarrow> read_at f entry_len (int (header_len + j * entry_len)) = Some (ent j)"
    and key: "\<And>j. j < n \<Longrightarrow> le_value (take 4 (ent j)) = key j"
    and mono: "\<And>j k. j < k \<Longrightarrow> k < n \<Longrightarrow> key j < key k"
  shows "lo \<le> i \<Longrightarrow> i < hi \<Longrightarrow> hi \<le> n \<Longrightarrow> asn_search f (key i) lo hi
    = Some (le_value (take 8 (drop 4 (ent i))), le_value (take 2 (drop 12 (ent i))), le_value (take 2 (drop 14 (ent i))))"
proof (induction "hi - lo" arbitrary: lo hi rule: less_induct)
  case less
  define mid where "mid = lo + (hi - lo) div 2"
  have m: "lo \<le> mid" "mid < hi" using less.prems by (auto simp: mid_def)
  have step: "asn_search f (key i) lo hi =
     (if key mid < key i then asn_search f (key i) (mid + 1) hi
      else if key i < key mid then asn_search f (key i) lo mid
      else Some (le_value (take 8 (drop 4 (ent mid))), le_value (take 2 (drop 12 (ent mid))), le_value (take 2 (drop 14 (ent mid)))))"
    using less.prems m ent [of mid] key [of mid]
    by (subst asn_search.simps) (simp add: mid_def [symmetric] Let_def)
  consider "mid < i" | "i < mid" | "mid = i" by linarith
  then show ?case
  proof cases
    case 1
    with less.prems mono [of mid i] m less.hyps [of hi "mid + 1"] step show ?thesis by simp
  next
    case 2
    with less.prems mono [of i mid] m less.hyps [of mid lo] step show ?thesis by simp
  next
    case 3
    with step show ?thesis by simp
  qed
qed


section \<open>What the writer lays out\<close>

fun addr_ok :: "ip_addr \<Rightarrow> bool" where
  "addr_ok (IP4 n) \<longleftrightarrow> n < 2 ^ 32"
| "addr_ok (IP6 n) \<longleftrightarrow> n < 2 ^ 128"

definition offset_of :: "nat \<Rightarrow> asn_entry list \<Rightarrow> nat \<Rightarrow> nat" where
  "offset_of off es j = off + sum_list (map entry_size (take j es))"

lemma length_index_entry [simp]: "length (index_entry off e) = 16"
  by (simp add: index_entry_def)

lemma length_records_v4: "\<forall>p \<in> set ps. is4 (fst p) \<Longrightarrow> length (concat (map record_bytes ps)) = v4_record * length ps"
proof (induction ps)
  case (Cons p ps)
  then show ?case by (cases p rule: record_bytes.cases) (auto simp: v4_record_def)
qed simp

lemma length_records_v6: "\<forall>p \<in> set ps. \<not> is4 (fst p) \<Longrightarrow> length (concat (map record_bytes ps)) = v6_record * length ps"
proof (induction ps)
  case (Cons p ps)
  then show ?case by (cases p rule: record_bytes.cases) (auto simp: v6_record_def)
qed simp

lemma entry_families:
  "p \<in> set (entry_v4 e) \<Longrightarrow> is4 (fst p)" "p \<in> set (entry_v6 e) \<Longrightarrow> \<not> is4 (fst p)"
  by (auto simp: entry_v4_def entry_v6_def normalize_prefixes_def)

lemma length_entry_data [simp]: "length (entry_data e) = entry_size e"
  using entry_families [of _ e]
  by (simp add: entry_data_def entry_size_def length_records_v4 length_records_v6 mult.commute)

lemma write_entries_index:
  "j < length es \<Longrightarrow> take 16 (drop (16 * j) (fst (write_entries off es)))
    = index_entry (offset_of off es j) (es ! j)"
proof (induction es arbitrary: off j)
  case (Cons e es)
  obtain I D where w: "write_entries (off + entry_size e) es = (I, D)" by force
  show ?case
  proof (cases j)
    case 0
    then show ?thesis by (simp add: w offset_of_def)
  next
    case (Suc i)
    with Cons.prems Cons.IH [of i "off + entry_size e"] show ?thesis
      by (simp add: w offset_of_def add.assoc)
  qed
qed simp

lemma length_write_index: "length (fst (write_entries off es)) = 16 * length es"
  by (induction es arbitrary: off) (auto split: prod.splits simp: prod_eq_iff)

lemma write_entries_data: "snd (write_entries off es) = concat (map entry_data es)"
  by (induction es arbitrary: off) (auto split: prod.splits simp: prod_eq_iff)

lemma take_drop_concat:
  "j < length xs \<Longrightarrow> drop (sum_list (map (length \<circ> f) (take j xs))) (concat (map f xs))
    = f (xs ! j) @ concat (map f (drop (Suc j) xs))"
proof (induction xs arbitrary: j)
  case (Cons x xs)
  then show ?case by (cases j) (auto simp: comp_def)
qed simp

lemma drop_entry_data:
  "j < length es \<Longrightarrow> drop (sum_list (map entry_size (take j es))) (concat (map entry_data es))
    = entry_data (es ! j) @ concat (map entry_data (drop (Suc j) es))"
  using take_drop_concat [of j es entry_data] by (simp add: comp_def)

lemma sum_size_le: "j \<le> length es \<Longrightarrow> sum_list (map entry_size (take j es)) \<le> sum_list (map entry_size es)"
proof -
  have "sum_list (map entry_size es) = sum_list (map entry_size (take j es)) + sum_list (map entry_size (drop j es))"
    by (metis append_take_drop_id map_append sum_list_append)
  then show ?thesis by simp
qed

text \<open>The layout of a written file.\<close>

definition asn_file :: "asn_entry list \<Rightarrow> bytes" where
  "asn_file es = asn_magic @ le_bytes 4 (length es) @ replicate 4 0
     @ fst (write_entries (16 + length es * 16) es) @ concat (map entry_data es)"

lemma asn_write_file:
  "length es < 2 ^ 32 \<Longrightarrow> asn_write es = asn_file (sort_key en_asn es)"
  by (simp add: asn_write_def asn_file_def header_len_def entry_len_def Let_def
      write_entries_data case_prod_beta)

lemma length_magic [simp]: "length asn_magic = 8"
  by (simp add: asn_magic_def)

lemma asn_file_open:
  assumes "length es < 2 ^ 32"
  shows "asn_open (Some (asn_file es)) = Some \<lparr>db_file = asn_file es, db_count = length es\<rparr>"
  using assms by (simp add: asn_open_def asn_file_def header_len_def le_value_bytes)

lemma asn_file_split:
  "asn_file es = (asn_magic @ le_bytes 4 (length es) @ replicate 4 0) @ fst (write_entries (16 + length es * 16) es)
     @ concat (map entry_data es)"
  by (simp add: asn_file_def)

lemma asn_file_index:
  assumes "j < length es"
  shows "read_at (asn_file es) entry_len (int (header_len + j * entry_len))
    = Some (index_entry (offset_of (16 + length es * 16) es j) (es ! j))"
proof -
  let ?I = "fst (write_entries (16 + length es * 16) es)"
  have len: "length ?I = 16 * length es" by (rule length_write_index)
  have "take 16 (drop (16 + 16 * j) (asn_file es)) = take 16 (drop (16 * j) (?I @ concat (map entry_data es)))"
    by (simp add: asn_file_split del: append_assoc)
  also have "\<dots> = take 16 (drop (16 * j) ?I)" using assms len by simp
  also have "\<dots> = index_entry (offset_of (16 + length es * 16) es j) (es ! j)"
    using assms by (rule write_entries_index)
  finally have t: "take 16 (drop (16 + 16 * j) (asn_file es)) = index_entry (offset_of (16 + length es * 16) es j) (es ! j)" .
  have "length (asn_file es) \<ge> 16 + 16 * length es" by (simp add: asn_file_def len)
  with assms t show ?thesis
    by (simp add: read_at_def entry_len_def header_len_def mult.commute nat_add_distrib nat_mult_distrib)
qed

lemma asn_file_data:
  assumes "j < length es"
  shows "drop (offset_of (16 + length es * 16) es j) (asn_file es)
    = entry_data (es ! j) @ concat (map entry_data (drop (Suc j) es))"
proof -
  let ?s = "sum_list (map entry_size (take j es))"
  have "drop (16 + length es * 16 + ?s) (asn_file es) = drop ?s (concat (map entry_data es))"
    by (simp add: asn_file_def length_write_index)
  with drop_entry_data [OF assms] show ?thesis by (simp add: offset_of_def)
qed

section \<open>Round trip\<close>

lemma read_v4_records:
  "\<lbrakk>\<forall>p \<in> set ps. is4 (fst p) \<and> addr_ok (fst p) \<and> valid_prefix p; k \<le> length ps; k * v4_record \<le> m\<rbrakk>
    \<Longrightarrow> read_v4 k (take m (concat (map record_bytes ps) @ rest)) = take k ps"
proof (induction ps arbitrary: k m)
  case (Cons p ps)
  obtain n b where p: "p = (IP4 n, b)" using Cons.prems(1) by (cases p rule: record_bytes.cases) auto
  with Cons.prems have "n < 4294967296" "b \<le> 32" by (auto simp: valid_prefix_def)
  with Cons p show ?case
    by (cases k) (auto simp: be_value_bytes v4_record_def nth_append min_def drop_take
        diff_diff_eq [symmetric] simp del: diff_diff_left)
qed simp

lemma read_v6_records:
  "\<lbrakk>\<forall>p \<in> set ps. \<not> is4 (fst p) \<and> addr_ok (fst p) \<and> valid_prefix p; k \<le> length ps; k * v6_record \<le> m\<rbrakk>
    \<Longrightarrow> read_v6 k (take m (concat (map record_bytes ps) @ rest)) = take k ps"
proof (induction ps arbitrary: k m)
  case (Cons p ps)
  obtain n b where p: "p = (IP6 n, b)" using Cons.prems(1) by (cases p rule: record_bytes.cases) auto
  with Cons.prems have "n < 340282366920938463463374607431768211456" "b \<le> 128" by (auto simp: valid_prefix_def)
  with Cons p show ?case
    by (cases k) (auto simp: be_value_bytes v6_record_def nth_append min_def drop_take
        diff_diff_eq [symmetric] simp del: diff_diff_left)
qed simp

definition writable_entry :: "asn_entry \<Rightarrow> bool" where
  "writable_entry e \<longleftrightarrow> en_asn e < 2 ^ 32 \<and> list_all (\<lambda>p. addr_ok (fst p)) (en_v4 e @ en_v6 e)"

lemma masked_ok: "addr_ok (fst p) \<Longrightarrow> addr_ok (fst (masked p))"
  by (cases p rule: masked.cases) (auto intro: le_less_trans [OF div_times_less_eq_dividend])

lemma normalized_ok:
  assumes "list_all (\<lambda>p. addr_ok (fst p)) ps" "p \<in> set (normalize_prefixes want ps)"
  shows "is4 (fst p) = want \<and> addr_ok (fst p) \<and> valid_prefix p"
  using assms by (auto simp: normalize_prefixes_def valid_prefix_def list_all_iff masked_ok)

lemma asn_file_entry:
  assumes es: "sorted_wrt (\<lambda>a b. en_asn a < en_asn b) es" "length es < 2 ^ 32" "\<forall>e \<in> set es. en_asn e < 2 ^ 32"
    and size: "length (asn_file es) < 2 ^ 63" and j: "j < length es"
  shows "lookup_prefixes (asn_open (Some (asn_file es))) (en_asn (es ! j))
    = read_blob (asn_file es) (int (offset_of (16 + length es * 16) es j))
        (length (entry_v4 (es ! j)) mod 65536) (length (entry_v6 (es ! j)) mod 65536)"
proof -
  let ?off = "offset_of (16 + length es * 16) es"
  let ?ent = "\<lambda>i. index_entry (?off i) (es ! i)"
  have key: "le_value (take 4 (?ent i)) = en_asn (es ! i)" if "i < length es" for i
    using es(3) that by (simp add: index_entry_def le_value_bytes)
  have mono: "i < k \<Longrightarrow> k < length es \<Longrightarrow> en_asn (es ! i) < en_asn (es ! k)" for i k
    using es(1) by (simp add: sorted_wrt_iff_nth_less)
  have "?off j \<le> length (asn_file es)"
    using sum_size_le [of j es] j write_entries_data [of "16 + length es * 16" es]
    by (simp add: offset_of_def asn_file_def length_write_index length_concat comp_def)
  with size have off: "?off j < 2 ^ 63" by simp
  from asn_search_found [OF asn_file_index key mono, of "length es" 0 j "length es"] j
  have "asn_search (asn_file es) (en_asn (es ! j)) 0 (length es)
      = Some (?off j, length (entry_v4 (es ! j)) mod 65536, length (entry_v6 (es ! j)) mod 65536)"
    using off by (simp add: index_entry_def le_value_bytes)
  moreover have "es \<noteq> []" using j by auto
  ultimately show ?thesis using off
    by (simp add: lookup_prefixes_def asn_file_open [OF es(2)] asn_available_def int64_of_def)
qed


lemma read_at_data:
  assumes "j < length es" "n \<le> entry_size (es ! j)"
  shows "read_at (asn_file es) n (int (offset_of (16 + length es * 16) es j)) = Some (take n (entry_data (es ! j)))"
proof -
  note d = asn_file_data [OF assms(1)]
  have "length (asn_file es) - offset_of (16 + length es * 16) es j \<ge> entry_size (es ! j)"
    using arg_cong [OF d, of length] by simp
  with assms d show ?thesis by (cases "n = 0") (auto simp: read_at_def)
qed

lemma read_blob_entry:
  assumes j: "j < length es" and w: "writable_entry (es ! j)"
    and k: "k4 \<le> length (entry_v4 (es ! j))" "k6 \<le> length (entry_v6 (es ! j))"
    and full: "k4 = length (entry_v4 (es ! j)) \<or> k6 = 0"
  shows "read_blob (asn_file es) (int (offset_of (16 + length es * 16) es j)) k4 k6
    = (take k4 (entry_v4 (es ! j)), take k6 (entry_v6 (es ! j)))"
proof -
  let ?e = "es ! j"
  let ?n = "k4 * v4_record + k6 * v6_record"
  have ok4: "\<forall>p \<in> set (entry_v4 ?e). is4 (fst p) \<and> addr_ok (fst p) \<and> valid_prefix p"
    and ok6: "\<forall>p \<in> set (entry_v6 ?e). \<not> is4 (fst p) \<and> addr_ok (fst p) \<and> valid_prefix p"
    using normalized_ok w by (auto simp: entry_v4_def entry_v6_def writable_entry_def)
  have n: "?n \<le> entry_size ?e" using k by (auto simp: entry_size_def intro!: add_mono mult_le_mono1)
  have l4: "length (concat (map record_bytes (entry_v4 ?e))) = v4_record * length (entry_v4 ?e)"
    using ok4 by (intro length_records_v4) auto
  have r4: "read_v4 k4 (take ?n (entry_data ?e)) = take k4 (entry_v4 ?e)"
    unfolding entry_data_def using ok4 k by (intro read_v4_records) auto
  have "drop (k4 * v4_record) (take ?n (entry_data ?e))
      = take (k6 * v6_record) (concat (map record_bytes (entry_v6 ?e)) @ [])" if "k6 \<noteq> 0"
    using l4 full that by (simp add: entry_data_def mult.commute)
  then have r6: "read_v6 k6 (drop (k4 * v4_record) (take ?n (entry_data ?e))) = take k6 (entry_v6 ?e)"
    using read_v6_records [OF ok6, of k6 "k6 * v6_record" "[]"] k by (cases "k6 = 0") auto
  from r4 r6 show ?thesis by (simp add: read_blob_def read_at_data [OF j n])
qed

lemma sort_key_strict:
  "distinct (map en_asn es) \<Longrightarrow> sorted_wrt (\<lambda>a b. en_asn a < en_asn b) (sort_key en_asn es)"
proof -
  assume "distinct (map en_asn es)"
  then have "distinct (map en_asn (sort_key en_asn es))"
    by (metis distinct_map distinct_sort set_sort)
  moreover have "sorted (map en_asn (sort_key en_asn es))" by simp
  ultimately have "sorted_wrt (<) (map en_asn (sort_key en_asn es))"
    using strict_sorted_iff by blast
  then show ?thesis by (simp add: sorted_wrt_map)
qed

lemma sort_key_nth:
  assumes "e \<in> set es"
  obtains j where "j < length (sort_key en_asn es)" "sort_key en_asn es ! j = e"
proof -
  have "e \<in> set (sort_key en_asn es)" using assms by simp
  then show thesis using that by (auto simp: in_set_conv_nth simp del: set_sort length_sort)
qed

text \<open>A written entry, read back with its counts cut to 16 bits.\<close>

lemma written_entry:
  assumes "distinct (map en_asn es)" "length es < 2 ^ 32" "\<forall>e \<in> set es. en_asn e < 2 ^ 32"
    and "length (asn_write es) < 2 ^ 63" and e: "e \<in> set es" "writable_entry e"
    and k: "length (entry_v4 e) < 65536 \<or> length (entry_v6 e) mod 65536 = 0"
  shows "lookup_prefixes (asn_open (Some (asn_write es))) (en_asn e)
    = (take (length (entry_v4 e) mod 65536) (entry_v4 e), take (length (entry_v6 e) mod 65536) (entry_v6 e))"
proof -
  let ?s = "sort_key en_asn es"
  obtain j where j: "j < length ?s" "?s ! j = e" using sort_key_nth [OF e(1)] .
  have f: "asn_write es = asn_file ?s" using assms(2) by (rule asn_write_file)
  have "lookup_prefixes (asn_open (Some (asn_file ?s))) (en_asn (?s ! j))
    = read_blob (asn_file ?s) (int (offset_of (16 + length ?s * 16) ?s j))
        (length (entry_v4 (?s ! j)) mod 65536) (length (entry_v6 (?s ! j)) mod 65536)"
    using assms j f by (intro asn_file_entry sort_key_strict) auto
  also have "\<dots> = (take (length (entry_v4 (?s ! j)) mod 65536) (entry_v4 (?s ! j)),
      take (length (entry_v6 (?s ! j)) mod 65536) (entry_v6 (?s ! j)))"
    using j e k by (intro read_blob_entry) auto
  finally show ?thesis using j f by simp
qed




lemmas asn_eval = entry_v4_def entry_v6_def normalize_prefixes_def valid_prefix_def writable_entry_def

lemma length_asn_write:
  "length es < 2 ^ 32 \<Longrightarrow> length (asn_write es) = 16 + 16 * length es + sum_list (map entry_size es)"
proof -
  have insort: "sum_list (map entry_size (insort_key en_asn e es)) = entry_size e + sum_list (map entry_size es)" for e es
    by (induction es) auto
  have "sum_list (map entry_size (sort_key en_asn es)) = sum_list (map entry_size es)"
    by (induction es) (auto simp: insort)
  then show "length es < 2 ^ 32 \<Longrightarrow> ?thesis"
    by (simp add: asn_write_file asn_file_def length_write_index length_concat comp_def)
qed


text \<open>Write cuts the number of prefixes of a family to 16 bits without an error: an AS with
  IPv4 prefixes only is read back with its first prefixes, as many as the number modulo 65536
  says, so one with 65537 of them keeps a single one.\<close>

theorem asn_prefix_count_wraps:
  assumes "distinct (map en_asn es)" and "length es < 2 ^ 32" and "\<forall>e \<in> set es. en_asn e < 2 ^ 32"
    and "length (asn_write es) < 2 ^ 63" and "e \<in> set es" and "writable_entry e" and "entry_v6 e = []"
  shows "prefixes_by_asn (asn_open (Some (asn_write es))) (en_asn e)
    = (map prefix_text (take (length (entry_v4 e) mod 65536) (entry_v4 e)), [])"
  using written_entry [of es e] assms by (simp add: prefixes_by_asn_def)

definition big_entry :: "nat \<Rightarrow> asn_entry" where
  "big_entry n = \<lparr>en_asn = 64500, en_v4 = replicate n (IP4 0, 32), en_v6 = []\<rparr>"

lemma big_entry_simps:
  "en_asn (big_entry n) = 64500" "entry_v4 (big_entry n) = replicate n (IP4 0, 32)"
  "entry_v6 (big_entry n) = []" "writable_entry (big_entry n)"
  by (simp_all add: big_entry_def asn_eval list_all_iff)

lemma length_big_file: "length (asn_write [big_entry n]) = 32 + n * 5"
  by (simp add: length_asn_write entry_size_def big_entry_simps v4_record_def)

theorem asn_prefix_count_wraps_witness:
  "length (fst (prefixes_by_asn (asn_open (Some (asn_write [big_entry 65537]))) 64500)) = 1"
proof -
  have "length (asn_write [big_entry 65537]) < 2 ^ 63" by (simp only: length_big_file) simp
  then have "prefixes_by_asn (asn_open (Some (asn_write [big_entry 65537]))) (en_asn (big_entry 65537))
    = (map prefix_text (take (length (entry_v4 (big_entry 65537)) mod 65536) (entry_v4 (big_entry 65537))), [])"
    by (intro asn_prefix_count_wraps) (simp_all only: big_entry_simps, simp_all add: big_entry_simps)
  moreover have "length (entry_v4 (big_entry 65537)) = 65537"
    by (simp only: big_entry_simps length_replicate)
  ultimately show ?thesis by (simp only: big_entry_simps fst_conv length_map length_take) simp
qed

end
