(* ===== verification/Sha256.thy ===== *)
theory Sha256
  imports Prelude
begin

text \<open>crypto/sha256 and encoding/hex, with which the plugin service fingerprints configurations
  (internal/plugin/objecthash.go and service.go).  A text is a list of bytes; the digest is
  given as 64 lower-case hexadecimal digits.\<close>

unbundle bit_operations_syntax

type_synonym w32 = "32 word"

text \<open>The constants: the first 32 bits of the fractional parts of the cube and square roots of the
  first primes.  An integer root is found bit by bit.\<close>

definition int_root :: "nat \<Rightarrow> nat \<Rightarrow> nat" where
  "int_root k n = foldr (\<lambda>i r. if (r + 2 ^ i) ^ k \<le> n then r + 2 ^ i else r) [0..<40] 0"

definition root_fraction :: "nat \<Rightarrow> nat \<Rightarrow> w32" where
  "root_fraction k p = word_of_nat (int_root k (p * 2 ^ (32 * k)))"

definition small_primes :: "nat list" where
  "small_primes = filter (\<lambda>p. \<forall>d \<in> set [2..<p]. p mod d \<noteq> 0) [2..<312]"

definition sha_k :: "w32 list" where
  "sha_k = map (root_fraction 3) small_primes"

definition sha_init :: "w32 list" where
  "sha_init = map (root_fraction 2) [2, 3, 5, 7, 11, 13, 17, 19]"

definition sha_pad :: "nat list \<Rightarrow> nat list" where
  "sha_pad bytes =
     (let n = length bytes; zeros = (119 - n mod 64) mod 64
      in bytes @ [0x80] @ replicate zeros 0 @ map (\<lambda>i. (8 * n) div 256 ^ (7 - i) mod 256) [0..<8])"

fun sha_words :: "nat list \<Rightarrow> w32 list" where
  "sha_words (a # b # c # d # bytes) = word_of_nat (((a * 256 + b) * 256 + c) * 256 + d) # sha_words bytes"
| "sha_words _ = []"

definition small_sigma0 :: "w32 \<Rightarrow> w32" where
  "small_sigma0 x = word_rotr 7 x XOR word_rotr 18 x XOR drop_bit 3 x"

definition small_sigma1 :: "w32 \<Rightarrow> w32" where
  "small_sigma1 x = word_rotr 17 x XOR word_rotr 19 x XOR drop_bit 10 x"

fun sha_extend :: "nat \<Rightarrow> w32 list \<Rightarrow> w32 list" where
  "sha_extend 0 ws = ws"
| "sha_extend (Suc n) ws =
     (let k = length ws in
      sha_extend n (ws @ [small_sigma1 (ws ! (k - 2)) + ws ! (k - 7) + small_sigma0 (ws ! (k - 15)) + ws ! (k - 16)]))"

fun sha_round :: "w32 \<times> w32 \<Rightarrow> w32 list \<Rightarrow> w32 list" where
  "sha_round (k, w) [a, b, c, d, e, f, g, h] =
     (let t1 = h + (word_rotr 6 e XOR word_rotr 11 e XOR word_rotr 25 e) + ((e AND f) XOR (NOT e AND g)) + k + w;
          t2 = (word_rotr 2 a XOR word_rotr 13 a XOR word_rotr 22 a) + ((a AND b) XOR (a AND c) XOR (b AND c))
      in [t1 + t2, a, b, c, d + t1, e, f, g])"
| "sha_round _ state = state"

definition sha_block :: "w32 list \<Rightarrow> w32 list \<Rightarrow> w32 list" where
  "sha_block state ws = map2 (+) state (fold sha_round (zip sha_k (sha_extend 48 ws)) state)"

function sha_blocks :: "w32 list \<Rightarrow> w32 list \<Rightarrow> w32 list" where
  "sha_blocks state ws =
     (if ws = [] then state else sha_blocks (sha_block state (take 16 ws)) (drop 16 ws))"
  by pat_completeness auto
termination by (relation "measure (length \<circ> snd)") auto

declare sha_blocks.simps [simp del]

definition word_hex :: "w32 \<Rightarrow> string" where
  "word_hex w = map (\<lambda>i. digit_char (unat w div 16 ^ (7 - i) mod 16)) [0..<8]"

definition sha256_hex :: "string \<Rightarrow> string" where
  "sha256_hex s = concat (map word_hex (sha_blocks sha_init (sha_words (sha_pad (map of_char s)))))"

section \<open>The form of a digest\<close>

lemma length_word_hex [simp]: "length (word_hex w) = 8"
  by (simp add: word_hex_def)

lemma length_sha_round [simp]: "length (sha_round kw state) = length state"
  by (induction kw state rule: sha_round.induct) (auto simp: Let_def)

lemma length_fold_round [simp]: "length (fold sha_round kws state) = length state"
  by (induction kws arbitrary: state) auto

lemma length_sha_block [simp]: "length (sha_block state ws) = length state"
  by (simp add: sha_block_def)

lemma length_sha_blocks [simp]: "length (sha_blocks state ws) = length state"
  by (induction state ws rule: sha_blocks.induct) (simp add: sha_blocks.simps)

lemma length_concat_8: "(\<And>x. length (f x) = 8) \<Longrightarrow> length (concat (map f xs)) = 8 * length xs"
  by (induction xs) auto

lemma length_sha256_hex: "length (sha256_hex s) = 64"
  by (simp add: sha256_hex_def length_concat_8 sha_init_def)

lemma sha256_hex_not_Nil [simp]: "sha256_hex s \<noteq> []"
  using length_sha256_hex [of s] by auto

end
