(* ===== verification/PluginConfig.thy ===== *)
theory PluginConfig
  imports NetPrefix Sha256
begin

text \<open>internal/plugin: the configuration the panel sends (schema_validate.go, validate.go, asn.go,
  objecthash.go and the readers of state.go and torrent.go).  A configuration is the parsed JSON
  text with its key order and number literals, since the fingerprint reads it token by token;
  decoding it to Go values takes strconv.ParseFloat as a parameter.  Conversions of a float64 to
  an integer out of range give the smallest int64, as on amd64.\<close>

section \<open>JSON texts\<close>

datatype raw_json =
    RNull
  | RBool bool
  | RNum string
  | RStr string
  | RArr "raw_json list"
  | RObj "(string \<times> raw_json) list"

fun put_all :: "(string \<times> jval option) list \<Rightarrow> jmap \<Rightarrow> jmap option" where
  "put_all [] m = Some m"
| "put_all ((k, v) # kvs) m = (case v of None \<Rightarrow> None | Some x \<Rightarrow> put_all kvs (put k x m))"

fun all_some :: "'a option list \<Rightarrow> 'a list option" where
  "all_some [] = Some []"
| "all_some (None # _) = None"
| "all_some (Some x # xs) = map_option ((#) x) (all_some xs)"

text \<open>json.Unmarshal into any: the last of repeated keys wins, a number out of the range of
  float64 is an error.\<close>

fun decode_raw_json :: "(string \<Rightarrow> rat option) \<Rightarrow> raw_json \<Rightarrow> jval option" where
  "decode_raw_json number RNull = Some VNull"
| "decode_raw_json number (RBool b) = Some (VBool b)"
| "decode_raw_json number (RNum t) = map_option VFloat (number t)"
| "decode_raw_json number (RStr s) = Some (VStr s)"
| "decode_raw_json number (RArr xs) = map_option VArr (all_some (map (decode_raw_json number) xs))"
| "decode_raw_json number (RObj kvs) = map_option VMap (put_all (map (\<lambda>(k, v). (k, decode_raw_json number v)) kvs) [])"

section \<open>The fingerprint\<close>

text \<open>White space of the pattern of objecthash.go; a run of it becomes one blank.  The flag says that
  the character before was such a space.\<close>

definition regex_space :: "char \<Rightarrow> bool" where
  "regex_space c \<longleftrightarrow> is_space c \<and> c \<noteq> CHR 0x0B"

fun squeeze :: "bool \<Rightarrow> string \<Rightarrow> string" where
  "squeeze after_space [] = []"
| "squeeze after_space (c # s) =
     (if regex_space c then (if after_space then squeeze True s else CHR '' '' # squeeze True s)
      else c # squeeze False s)"

definition trim_string :: "string \<Rightarrow> string" where
  "trim_string s = trim_space (squeeze False s)"

fun stringify :: "raw_json \<Rightarrow> string" where
  "stringify RNull = []"
| "stringify (RBool b) = (if b then ''1'' else ''0'')"
| "stringify (RNum t) = t"
| "stringify (RStr s) = trim_string s"
| "stringify (RArr xs) = ''['' @ join_with '','' (map stringify xs) @ '']''"
| "stringify (RObj kvs) = ''{'' @ join_with '','' (map (\<lambda>(k, v). k @ '':'' @ stringify v) kvs) @ ''}''"

text \<open>An absent configuration and null have no fingerprint.\<close>

definition hash_plugin_config :: "raw_json option \<Rightarrow> string" where
  "hash_plugin_config config = (case config of
     None \<Rightarrow> []
   | Some RNull \<Rightarrow> []
   | Some raw \<Rightarrow> sha256_hex (stringify raw))"

definition extract_plugin_config :: "(string \<Rightarrow> rat option) \<Rightarrow> raw_json option \<Rightarrow> jmap option" where
  "extract_plugin_config number config = (case config of
     None \<Rightarrow> None
   | Some raw \<Rightarrow> (case decode_raw_json number raw of Some (VMap m) \<Rightarrow> Some m | _ \<Rightarrow> None))"

section \<open>Numbers, addresses and AS numbers\<close>

definition trunc_rat :: "rat \<Rightarrow> int" where
  "trunc_rat v = (if v < 0 then - \<lfloor>- v\<rfloor> else \<lfloor>v\<rfloor>)"

definition go_int :: "rat \<Rightarrow> int" where
  "go_int v = (let t = trunc_rat v in if - (2 ^ 63) \<le> t \<and> t < 2 ^ 63 then t else - (2 ^ 63))"

fun as_int :: "jval \<Rightarrow> int option" where
  "as_int (VFloat v) = (if v \<noteq> of_int (go_int v) then None else Some (go_int v))"
| "as_int (VInt n) = Some n"
| "as_int _ = None"

definition is_int_number :: "jval option \<Rightarrow> bool" where
  "is_int_number v \<longleftrightarrow> (case v of Some (VFloat q) \<Rightarrow> q = of_int (go_int q) | Some (VInt _) \<Rightarrow> True | _ \<Rightarrow> False)"

definition trim_prefix :: "string \<Rightarrow> string \<Rightarrow> string" where
  "trim_prefix p s = (if has_prefix s p then drop (length p) s else s)"

fun parse_asn :: "jval \<Rightarrow> nat option" where
  "parse_asn (VFloat v) = (if 0 < v \<and> v \<le> 4294967295 \<and> v = of_int (trunc_rat v) then Some (nat (trunc_rat v)) else None)"
| "parse_asn (VInt n) = (if 0 < n then Some (nat n mod 2 ^ 32) else None)"
| "parse_asn (VStr s) = (case parse_uint 32 (trim_prefix ''as'' (trim_prefix ''AS'' (trim_space s))) of
     Some n \<Rightarrow> if 0 < n then Some n else None
   | None \<Rightarrow> None)"
| "parse_asn _ = None"

definition is_plain_ip :: "string \<Rightarrow> bool" where
  "is_plain_ip s \<longleftrightarrow> parse_ip s \<noteq> None"

definition is_ipv4_cidr :: "string \<Rightarrow> bool" where
  "is_ipv4_cidr s \<longleftrightarrow> (case parse_cidr s of
     None \<Rightarrow> False | Some (a, _) \<Rightarrow> to4 a \<noteq> None \<and> CHR ''.'' \<in> set s)"

definition is_ipv6_cidr :: "string \<Rightarrow> bool" where
  "is_ipv6_cidr s \<longleftrightarrow> (case parse_cidr s of
     None \<Rightarrow> False | Some (a, _) \<Rightarrow> to4 a = None \<and> CHR '':'' \<in> set s)"

definition is_ip_cidr_or_ext :: "string \<Rightarrow> bool" where
  "is_ip_cidr_or_ext s \<longleftrightarrow>
     (if has_prefix s ''ext:'' then length s > 4 else is_plain_ip s \<or> is_ipv4_cidr s \<or> is_ipv6_cidr s)"

definition is_ip_or_ext :: "string \<Rightarrow> bool" where
  "is_ip_or_ext s \<longleftrightarrow> (if has_prefix s ''ext:'' then length s > 4 else is_plain_ip s)"

definition is_shared_list_item :: "string \<Rightarrow> bool" where
  "is_shared_list_item s \<longleftrightarrow> is_plain_ip s \<or> is_ipv4_cidr s \<or> is_ipv6_cidr s"

section \<open>Validation\<close>

text \<open>An error names the field and what is wrong with it; None is nil.\<close>

datatype config_problem = Must string | Invalid_Value string

type_synonym config_error = "(string \<times> config_problem) option"

definition or_else :: "config_error \<Rightarrow> config_error \<Rightarrow> config_error" where
  "or_else e e' = (case e of Some x \<Rightarrow> Some x | None \<Rightarrow> e')"

definition item_path :: "string \<Rightarrow> nat \<Rightarrow> string" where
  "item_path field i = field @ ''['' @ base_digits 10 i @ '']''"

text \<open>The loops over an array give the error of its first bad item.\<close>

fun first_bad :: "(nat \<Rightarrow> 'a \<Rightarrow> config_error) \<Rightarrow> nat \<Rightarrow> 'a list \<Rightarrow> config_error" where
  "first_bad check i [] = None"
| "first_bad check i (x # xs) = or_else (check i x) (first_bad check (Suc i) xs)"

definition validate_array :: "string \<Rightarrow> jval option \<Rightarrow> (nat \<Rightarrow> jval \<Rightarrow> config_error) \<Rightarrow> config_error" where
  "validate_array field raw check = (case as_arr raw of
     None \<Rightarrow> Some (field, Must ''be an array'')
   | Some items \<Rightarrow> first_bad check 0 items)"

definition string_item :: "string \<Rightarrow> (string \<Rightarrow> bool) \<Rightarrow> nat \<Rightarrow> jval \<Rightarrow> config_error" where
  "string_item field item_check i item = (case item of
     VStr s \<Rightarrow> if item_check s then None else Some (item_path field i, Invalid_Value s)
   | _ \<Rightarrow> Some (item_path field i, Must ''be a string''))"

definition validate_string_array :: "string \<Rightarrow> jval option \<Rightarrow> (string \<Rightarrow> bool) \<Rightarrow> config_error" where
  "validate_string_array field raw item_check = validate_array field raw (string_item field item_check)"

definition validate_asn_array :: "string \<Rightarrow> jval option \<Rightarrow> config_error" where
  "validate_asn_array field raw = validate_array field raw (\<lambda>i item.
     if parse_asn item = None then Some (item_path field i, Must ''be a positive AS number'') else None)"

definition validate_int_array :: "string \<Rightarrow> jval option \<Rightarrow> config_error" where
  "validate_int_array field raw = validate_array field raw (\<lambda>i item.
     if is_int_number (Some item) then None else Some (item_path field i, Must ''be an integer''))"

definition validate_port_array :: "string \<Rightarrow> jval option \<Rightarrow> config_error" where
  "validate_port_array field raw = validate_array field raw (\<lambda>i item. case as_int item of
     Some port \<Rightarrow> if port < 1 \<or> port > 65535 then Some (item_path field i, Must ''be an integer between 1 and 65535'') else None
   | None \<Rightarrow> Some (item_path field i, Must ''be an integer between 1 and 65535''))"

definition is_nil :: "jval option \<Rightarrow> bool" where
  "is_nil v \<longleftrightarrow> v = None \<or> v = Some VNull"

definition shared_list_entry :: "nat \<Rightarrow> jval \<Rightarrow> config_error" where
  "shared_list_entry i entry = (let path = item_path ''sharedLists'' i in case entry of
     VMap obj \<Rightarrow>
       if \<not> has_prefix (str_or_empty (lookup obj ''name'')) ''ext:''
       then Some (path @ ''.name'', Must ''start with ext:'')
       else (let list_type = str_or_empty (lookup obj ''type'') in
         if list_type = ''ipList'' then validate_string_array (path @ ''.items'') (lookup obj ''items'') is_shared_list_item
         else if list_type = ''asList'' then validate_asn_array (path @ ''.items'') (lookup obj ''items'')
         else Some (path @ ''.type'', Must ''be ipList or asList''))
   | _ \<Rightarrow> Some (path, Must ''be an object''))"

definition validate_shared_lists :: "jval option \<Rightarrow> config_error" where
  "validate_shared_lists raw =
     (if is_nil raw then None else validate_array ''sharedLists'' raw shared_list_entry)"

text \<open>A section that is null or absent is accepted, one that is not an object is refused.\<close>

definition in_section :: "string \<Rightarrow> jval option \<Rightarrow> (jmap \<Rightarrow> config_error) \<Rightarrow> config_error" where
  "in_section name raw check =
     (if is_nil raw then None
      else (case as_map raw of None \<Rightarrow> Some (name, Must ''be an object'') | Some section \<Rightarrow> check section))"

definition require_bool :: "string \<Rightarrow> jval option \<Rightarrow> config_error" where
  "require_bool field v = (case v of Some (VBool _) \<Rightarrow> None | _ \<Rightarrow> Some (field, Must ''be a boolean''))"

definition optional :: "jval option \<Rightarrow> config_error \<Rightarrow> config_error" where
  "optional v e = (if v = None then None else e)"

definition validate_include_tags :: "jval option \<Rightarrow> config_error" where
  "validate_include_tags tags = (case as_arr tags of
     None \<Rightarrow> Some (''torrentBlocker.includeRuleTags'', Must ''be an array'')
   | Some items \<Rightarrow>
       if length items < 1 then Some (''torrentBlocker.includeRuleTags'', Must ''contain at least one item'')
       else first_bad (\<lambda>i item. if as_str (Some item) = None
         then Some (item_path ''torrentBlocker.includeRuleTags'' i, Must ''be a string'') else None) 0 items)"

definition validate_torrent_blocker :: "jval option \<Rightarrow> config_error" where
  "validate_torrent_blocker raw = in_section ''torrentBlocker'' raw (\<lambda>section.
     or_else (require_bool ''torrentBlocker.enabled'' (lookup section ''enabled''))
       (if \<not> is_int_number (lookup section ''blockDuration'')
        then Some (''torrentBlocker.blockDuration'', Must ''be an integer'')
        else (case lookup section ''ignoreLists'' of
          None \<Rightarrow> Some (''torrentBlocker.ignoreLists'', Must ''be present'')
        | Some ignore_raw \<Rightarrow> (case ignore_raw of
            VMap ignore \<Rightarrow>
              or_else (optional (lookup ignore ''ip'')
                 (validate_string_array ''torrentBlocker.ignoreLists.ip'' (lookup ignore ''ip'') is_ip_or_ext))
              (or_else (optional (lookup ignore ''userId'')
                 (validate_int_array ''torrentBlocker.ignoreLists.userId'' (lookup ignore ''userId'')))
               (optional (lookup section ''includeRuleTags'')
                 (validate_include_tags (lookup section ''includeRuleTags''))))
          | _ \<Rightarrow> Some (''torrentBlocker.ignoreLists'', Must ''be an object'')))))"

definition socket_path_item :: "nat \<Rightarrow> jval \<Rightarrow> config_error" where
  "socket_path_item i item = (case item of
     VStr s \<Rightarrow> (let path = trim_space s in
       if path = [] \<or> \<not> has_prefix path ''/'' \<or> CHR 0x00 \<in> set path
       then Some (item_path ''preStart.cleanupSockets.files'' i, Must ''be a non-empty absolute path without null bytes'')
       else None)
   | _ \<Rightarrow> Some (item_path ''preStart.cleanupSockets.files'' i, Must ''be a string''))"

definition validate_pre_start :: "jval option \<Rightarrow> config_error" where
  "validate_pre_start raw = in_section ''preStart'' raw (\<lambda>section.
     or_else (optional (lookup section ''enabled'') (require_bool ''preStart.enabled'' (lookup section ''enabled'')))
       (in_section ''preStart.cleanupSockets'' (lookup section ''cleanupSockets'') (\<lambda>cleanup.
          or_else (require_bool ''preStart.cleanupSockets.enabled'' (lookup cleanup ''enabled''))
            (case as_arr (lookup cleanup ''files'') of
               None \<Rightarrow> Some (''preStart.cleanupSockets.files'', Must ''be an array'')
             | Some files \<Rightarrow>
                 if length files > 64
                 then Some (''preStart.cleanupSockets.files'', Must ''contain no more than 64 entries'')
                 else first_bad socket_path_item 0 files))))"

definition validate_connection_drop :: "jval option \<Rightarrow> config_error" where
  "validate_connection_drop raw = in_section ''connectionDrop'' raw (\<lambda>section.
     or_else (require_bool ''connectionDrop.enabled'' (lookup section ''enabled''))
       (validate_string_array ''connectionDrop.whitelistIps'' (lookup section ''whitelistIps'') is_ip_or_ext))"

definition validate_ingress_filter :: "jval option \<Rightarrow> config_error" where
  "validate_ingress_filter raw = in_section ''ingressFilter'' raw (\<lambda>section.
     or_else (require_bool ''ingressFilter.enabled'' (lookup section ''enabled''))
       (validate_string_array ''ingressFilter.blockedIps'' (lookup section ''blockedIps'') is_ip_cidr_or_ext))"

definition validate_egress_filter :: "jval option \<Rightarrow> config_error" where
  "validate_egress_filter raw = in_section ''egressFilter'' raw (\<lambda>section.
     or_else (require_bool ''egressFilter.enabled'' (lookup section ''enabled''))
       (or_else (optional (lookup section ''blockedIps'')
           (validate_string_array ''egressFilter.blockedIps'' (lookup section ''blockedIps'') is_ip_cidr_or_ext))
         (optional (lookup section ''blockedPorts'')
           (validate_port_array ''egressFilter.blockedPorts'' (lookup section ''blockedPorts'')))))"

definition validate_plugin_config :: "jmap option \<Rightarrow> config_error" where
  "validate_plugin_config config = (case config of
     None \<Rightarrow> Some (''plugin config'', Must ''be present'')
   | Some c \<Rightarrow>
       or_else (validate_shared_lists (lookup c ''sharedLists''))
       (or_else (validate_ingress_filter (lookup c ''ingressFilter''))
       (or_else (validate_egress_filter (lookup c ''egressFilter''))
       (or_else (validate_connection_drop (lookup c ''connectionDrop''))
       (or_else (validate_torrent_blocker (lookup c ''torrentBlocker''))
         (validate_pre_start (lookup c ''preStart'')))))))"

section \<open>Reading a configuration\<close>

definition to_string_slice :: "jval option \<Rightarrow> string list" where
  "to_string_slice v = concat (map (\<lambda>item. case item of VStr s \<Rightarrow> if s \<noteq> [] then [s] else [] | _ \<Rightarrow> []) (arr_or_nil v))"

definition to_int_string_slice :: "jval option \<Rightarrow> string list" where
  "to_int_string_slice v = map (format_int 10) (List.map_filter as_int (arr_or_nil v))"

fun int_item :: "jval \<Rightarrow> int option" where
  "int_item (VFloat v) = Some (go_int v)"
| "int_item (VInt n) = Some n"
| "int_item _ = None"

definition to_int_slice :: "jval option \<Rightarrow> int list" where
  "to_int_slice v = List.map_filter int_item (arr_or_nil v)"

definition to_asn_slice :: "jval option \<Rightarrow> nat list" where
  "to_asn_slice v = List.map_filter parse_asn (arr_or_nil v)"

type_synonym asn_resolver = "nat \<Rightarrow> string list \<times> string list"

definition resolve_as_list :: "asn_resolver option \<Rightarrow> jval option \<Rightarrow> string list" where
  "resolve_as_list resolver items = (case resolver of
     None \<Rightarrow> []
   | Some r \<Rightarrow> concat (map (\<lambda>a. fst (r a) @ snd (r a)) (to_asn_slice items)))"

definition shared_key :: "string \<Rightarrow> string" where
  "shared_key name = (if has_prefix name ''ext:'' then name else ''ext:'' @ name)"

definition add_shared :: "asn_resolver option \<Rightarrow> jval \<Rightarrow> string list gomap \<Rightarrow> string list gomap" where
  "add_shared resolver item shared = (case item of
     VMap entry \<Rightarrow>
       (let name = str_or_empty (lookup entry ''name''); list_type = str_or_empty (lookup entry ''type'') in
        if name = [] then shared
        else if list_type = ''ipList'' then put (shared_key name) (to_string_slice (lookup entry ''items'')) shared
        else if list_type = ''asList'' then put (shared_key name) (resolve_as_list resolver (lookup entry ''items'')) shared
        else shared)
   | _ \<Rightarrow> shared)"

definition build_shared_ip_map :: "asn_resolver option \<Rightarrow> jmap \<Rightarrow> string list gomap" where
  "build_shared_ip_map resolver config = fold (add_shared resolver) (arr_or_nil (lookup config ''sharedLists'')) []"

definition resolve_ip_list :: "string list gomap \<Rightarrow> string list \<Rightarrow> string list" where
  "resolve_ip_list shared items = concat (map (\<lambda>item.
     if has_prefix item ''ext:'' then (case lookup shared item of Some r \<Rightarrow> r | None \<Rightarrow> []) else [item]) items)"

definition enabled_section :: "jmap \<Rightarrow> string \<Rightarrow> jmap option" where
  "enabled_section config name = (case as_map (lookup config name) of
     None \<Rightarrow> None
   | Some section \<Rightarrow> if lookup section ''enabled'' = Some (VBool True) then Some section else None)"

end
