(* ===== verification/PluginState.thy ===== *)
theory PluginState
  imports PluginConfig
begin

text \<open>internal/plugin/state.go, prestart.go and the settings of torrent.go: what the plugin service
  keeps.  Every method runs under the state's lock, so each is one function here.  A set of
  texts is a list; times are in nanoseconds.\<close>

section \<open>The state\<close>

record torrent_settings =
  ts_enabled :: bool
  ts_duration :: int
  ts_include_tags :: "string list"
  ts_ignored_ips :: "string list"
  ts_ignored_users :: "string list"

definition no_torrent :: torrent_settings where
  "no_torrent = \<lparr>ts_enabled = False, ts_duration = 0, ts_include_tags = [], ts_ignored_ips = [], ts_ignored_users = []\<rparr>"

record pre_start_settings =
  pr_enabled :: bool
  pr_cleanup_enabled :: bool
  pr_files :: "string list"

definition no_pre_start :: pre_start_settings where
  "no_pre_start = \<lparr>pr_enabled = False, pr_cleanup_enabled = False, pr_files = []\<rparr>"

record torrent_report =
  rp_blocked :: bool
  rp_ip :: string
  rp_duration :: int
  rp_will_unblock_at :: int
  rp_user :: string
  rp_processed_at :: int
  rp_xray :: jmap

record plugin_state =
  ps_config_hash :: string
  ps_uuid :: string
  ps_name :: string
  ps_active :: bool
  ps_whitelist :: "string list"
  ps_reports :: "torrent_report list"
  ps_torrent :: torrent_settings
  ps_pre_start :: pre_start_settings
  ps_asn :: "asn_resolver option"

record sync_plugin =
  sp_uuid :: string
  sp_name :: string
  sp_config :: "raw_json option"

definition new_state :: plugin_state where
  "new_state = \<lparr>ps_config_hash = [], ps_uuid = [], ps_name = [], ps_active = False, ps_whitelist = [],
     ps_reports = [], ps_torrent = no_torrent, ps_pre_start = no_pre_start, ps_asn = None\<rparr>"

definition set_asn_resolver :: "asn_resolver option \<Rightarrow> plugin_state \<Rightarrow> plugin_state" where
  "set_asn_resolver r s = s\<lparr>ps_asn := r\<rparr>"

definition is_whitelisted :: "plugin_state \<Rightarrow> string \<Rightarrow> bool" where
  "is_whitelisted s ip \<longleftrightarrow> ip \<in> set (ps_whitelist s)"

definition reports_count :: "plugin_state \<Rightarrow> nat" where
  "reports_count s = length (ps_reports s)"

definition flush_reports :: "plugin_state \<Rightarrow> torrent_report list \<times> plugin_state" where
  "flush_reports s = (ps_reports s, s\<lparr>ps_reports := []\<rparr>)"

definition add_report :: "torrent_report \<Rightarrow> plugin_state \<Rightarrow> plugin_state" where
  "add_report r s = s\<lparr>ps_reports := ps_reports s @ [r]\<rparr>"

definition reset_state :: "plugin_state \<Rightarrow> plugin_state" where
  "reset_state s = s\<lparr>ps_config_hash := [], ps_uuid := [], ps_name := [], ps_active := False,
     ps_whitelist := [], ps_reports := [], ps_torrent := no_torrent, ps_pre_start := no_pre_start\<rparr>"

section \<open>Settings from a configuration\<close>

definition block_duration_of :: "jval option \<Rightarrow> int" where
  "block_duration_of v = (case v of Some (VFloat q) \<Rightarrow> if q > 0 then go_int q else 300 | _ \<Rightarrow> 300)"

definition configure_torrent_blocker :: "jmap \<Rightarrow> string list gomap \<Rightarrow> torrent_settings" where
  "configure_torrent_blocker config shared = (case enabled_section config ''torrentBlocker'' of
     None \<Rightarrow> no_torrent
   | Some blocker \<Rightarrow>
       (let ignore = as_map (lookup blocker ''ignoreLists'') in
        \<lparr>ts_enabled = True,
         ts_duration = block_duration_of (lookup blocker ''blockDuration''),
         ts_include_tags = to_string_slice (lookup blocker ''includeRuleTags''),
         ts_ignored_ips = (case ignore of
            Some m \<Rightarrow> resolve_ip_list shared (to_string_slice (lookup m ''ip'')) | None \<Rightarrow> []),
         ts_ignored_users = (case ignore of
            Some m \<Rightarrow> to_int_string_slice (lookup m ''userId'') | None \<Rightarrow> [])\<rparr>))"

definition bool_or_false :: "jval option \<Rightarrow> bool" where
  "bool_or_false v \<longleftrightarrow> v = Some (VBool True)"

definition configure_pre_start :: "jmap \<Rightarrow> pre_start_settings" where
  "configure_pre_start config = (case as_map (lookup config ''preStart'') of
     None \<Rightarrow> no_pre_start
   | Some section \<Rightarrow> (case as_map (lookup section ''cleanupSockets'') of
       None \<Rightarrow> no_pre_start\<lparr>pr_enabled := bool_or_false (lookup section ''enabled'')\<rparr>
     | Some cleanup \<Rightarrow>
         \<lparr>pr_enabled = bool_or_false (lookup section ''enabled''),
          pr_cleanup_enabled = bool_or_false (lookup cleanup ''enabled''),
          pr_files = filter (\<lambda>f. f \<noteq> []) (map trim_space (to_string_slice (lookup cleanup ''files'')))\<rparr>))"

definition whitelist_of :: "jmap \<Rightarrow> string list gomap \<Rightarrow> string list" where
  "whitelist_of config shared = (case enabled_section config ''connectionDrop'' of
     None \<Rightarrow> []
   | Some section \<Rightarrow> resolve_ip_list shared (to_string_slice (lookup section ''whitelistIps'')))"

text \<open>UpdateFromSync: the new state with the flags changed and accepted.\<close>

definition update_from_sync ::
  "(string \<Rightarrow> rat option) \<Rightarrow> sync_plugin option \<Rightarrow> plugin_state \<Rightarrow> plugin_state \<times> bool \<times> bool" where
  "update_from_sync number plugin s = (case plugin of
     None \<Rightarrow> if \<not> ps_active s then (s, False, False) else (reset_state s, True, True)
   | Some p \<Rightarrow>
       (let hash = hash_plugin_config (sp_config p) in
        if hash = ps_config_hash s \<and> ps_active s then (s, False, True)
        else (let config = (case extract_plugin_config number (sp_config p) of Some m \<Rightarrow> m | None \<Rightarrow> []);
                  shared = build_shared_ip_map (ps_asn s) config
          in (s\<lparr>ps_config_hash := hash, ps_active := True, ps_uuid := sp_uuid p, ps_name := sp_name p,
                ps_whitelist := whitelist_of config shared,
                ps_torrent := configure_torrent_blocker config shared,
                ps_pre_start := configure_pre_start config\<rparr>, True, True))))"

section \<open>Readers\<close>

definition default_ignored_ips :: "string list" where
  "default_ignored_ips = [''::'', ''::1'', ''0.0.0.0'', ''0.0.0.0/0'', ''127.0.0.0/8'', ''127.0.0.1'', ''255.255.255.255'']"

definition torrent_blocker_enabled :: "plugin_state \<Rightarrow> bool" where
  "torrent_blocker_enabled s = ts_enabled (ps_torrent s)"

definition torrent_include_tags :: "plugin_state \<Rightarrow> string list" where
  "torrent_include_tags s = ts_include_tags (ps_torrent s)"

definition is_torrent_ip_ignored :: "plugin_state \<Rightarrow> string \<Rightarrow> bool" where
  "is_torrent_ip_ignored s ip \<longleftrightarrow> ip \<in> set default_ignored_ips \<or> ip \<in> set (ts_ignored_ips (ps_torrent s))"

definition is_torrent_user_ignored :: "plugin_state \<Rightarrow> string \<Rightarrow> bool" where
  "is_torrent_user_ignored s user \<longleftrightarrow> user \<in> set (ts_ignored_users (ps_torrent s))"

definition torrent_block_duration :: "plugin_state \<Rightarrow> int" where
  "torrent_block_duration s = (if ts_duration (ps_torrent s) \<le> 0 then 300 else ts_duration (ps_torrent s))"

definition pre_start_cleanup_sockets :: "plugin_state \<Rightarrow> bool \<times> string list" where
  "pre_start_cleanup_sockets s =
     (if \<not> pr_enabled (ps_pre_start s) \<or> \<not> pr_cleanup_enabled (ps_pre_start s) then (False, [])
      else (True, pr_files (ps_pre_start s)))"

section \<open>What validation gives\<close>

lemma or_else_None [simp]: "or_else a b = None \<longleftrightarrow> a = None \<and> b = None"
  by (auto simp: or_else_def split: option.splits)

lemma first_bad_None: "first_bad check i xs = None \<longleftrightarrow> (\<forall>j < length xs. check (i + j) (xs ! j) = None)"
proof (induction xs arbitrary: i)
  case (Cons x xs)
  show ?case
    by (auto simp: Cons.IH nth_Cons split: nat.splits)
qed simp

lemma first_bad_all: "first_bad check i xs = None \<Longrightarrow> x \<in> set xs \<Longrightarrow> \<exists>j. check j x = None"
  by (auto simp: first_bad_None in_set_conv_nth)

lemma in_section_None:
  "in_section name raw check = None \<longleftrightarrow> (case as_map raw of Some m \<Rightarrow> check m = None | None \<Rightarrow> is_nil raw)"
  by (auto simp: in_section_def is_nil_def split: option.splits)

lemma validate_string_arrayD:
  assumes "validate_string_array field raw check = None" shows "list_all check (to_string_slice raw)"
  using assms
  by (auto simp: validate_string_array_def validate_array_def string_item_def to_string_slice_def
      arr_or_nil_def list_all_iff split: option.splits jval.splits if_splits dest!: first_bad_all)

end
