(* ===== verification/PluginService.thy ===== *)
theory PluginService
  imports PluginState NodeHandler
begin

text \<open>internal/plugin/service.go with torrent.go, cidr.go, ip_helpers.go and nft_linux.go: the
  handlers of the plugin API and the webhook of the torrent rule.

  What a handler does outside its state is a list of calls in their order: nft commands with
  their outcome, addresses whose sockets are killed, and the two requests to the core's
  controller.  Whether nft takes a command may depend on what it has been given before.  The
  merging of prefixes is done by go4.org/netipx, which is a parameter: it maps the added
  prefixes and addresses to a minimal set of prefixes, whose texts go to nft.\<close>

section \<open>Names and scripts of nftables\<close>

definition table_name :: string where "table_name = ''remnanode''"
definition torrent_blocker_set :: string where "torrent_blocker_set = ''torrent-blocker''"
definition ingress_filter_ip_set :: string where "ingress_filter_ip_set = ''ingress-filter-ip''"
definition egress_filter_ip_set :: string where "egress_filter_ip_set = ''egress-filter-ip''"
definition egress_filter_port_set :: string where "egress_filter_port_set = ''egress-filter-port''"
definition table_name_v6 :: string where "table_name_v6 = ''remnanode6''"
definition torrent_blocker_set_v6 :: string where "torrent_blocker_set_v6 = ''torrent-blocker6''"
definition ingress_filter_ip_set_v6 :: string where "ingress_filter_ip_set_v6 = ''ingress-filter-ip6''"
definition egress_filter_ip_set_v6 :: string where "egress_filter_ip_set_v6 = ''egress-filter-ip6''"
definition egress_filter_port_set_v6 :: string where "egress_filter_port_set_v6 = ''egress-filter-port6''"

definition table_family :: "string \<Rightarrow> string" where
  "table_family t = (if t = table_name_v6 then ''ip6'' else ''ip'')"

definition ip_table_and_torrent_set :: "string \<Rightarrow> (string \<times> string) option" where
  "ip_table_and_torrent_set ip = (case parse_ip ip of
     None \<Rightarrow> None
   | Some a \<Rightarrow> if to4 a \<noteq> None then Some (table_name, torrent_blocker_set)
              else Some (table_name_v6, torrent_blocker_set_v6))"

text \<open>A command: the re-creation of both tables, or an addition or deletion of elements with the
  table, the set and the text of each element.\<close>

datatype nft_command =
    Recreate
  | Add_Elements string string "string list"
  | Delete_Element string string string

definition set_line :: "string \<Rightarrow> string \<Rightarrow> string" where
  "set_line name spec = ''set '' @ name @ '' { type '' @ spec @ ''; }''"

definition chain_lines :: "string \<Rightarrow> string list \<Rightarrow> string list" where
  "chain_lines hook rules =
     [''chain '' @ hook @ '' {'', ''type filter hook '' @ hook @ '' priority -10; policy accept;'']
     @ rules @ [''}'']"

definition table_lines :: "string \<Rightarrow> string \<Rightarrow> string \<Rightarrow> string \<Rightarrow> string \<Rightarrow> string \<Rightarrow> string \<Rightarrow> string list" where
  "table_lines family t addr torrent ingress egress ports =
     [''table '' @ family @ '' '' @ t @ '' {'',
      set_line torrent (addr @ ''; flags timeout''), set_line ingress (addr @ ''; flags interval''),
      set_line egress (addr @ ''; flags interval''), set_line ports ''inet_service'']
     @ chain_lines ''input'' [family @ '' saddr @'' @ ingress @ '' drop'', family @ '' saddr @'' @ torrent @ '' drop'']
     @ chain_lines ''forward'' [family @ '' saddr @'' @ ingress @ '' drop'', family @ '' saddr @'' @ torrent @ '' drop'']
     @ chain_lines ''output'' [family @ '' daddr @'' @ egress @ '' drop'', ''tcp dport @'' @ ports @ '' drop'',
         ''udp dport @'' @ ports @ '' drop'']
     @ [''}'']"

definition recreate_lines :: "string list" where
  "recreate_lines =
     [''add table ip '' @ table_name, ''add table ip6 '' @ table_name_v6,
      ''delete table ip '' @ table_name, ''delete table ip6 '' @ table_name_v6]
     @ table_lines ''ip'' table_name ''ipv4_addr'' torrent_blocker_set ingress_filter_ip_set
         egress_filter_ip_set egress_filter_port_set
     @ table_lines ''ip6'' table_name_v6 ''ipv6_addr'' torrent_blocker_set_v6 ingress_filter_ip_set_v6
         egress_filter_ip_set_v6 egress_filter_port_set_v6"

text \<open>The script that is piped to nft, up to blank lines and indentation.\<close>

fun nft_script :: "nft_command \<Rightarrow> string" where
  "nft_script Recreate = join_with [CHR 0x0A] recreate_lines"
| "nft_script (Add_Elements t st elements) =
     ''add element '' @ table_family t @ '' '' @ t @ '' '' @ st @ '' { '' @ join_with '', '' elements @ '' }''"
| "nft_script (Delete_Element t st element) =
     ''delete element '' @ table_family t @ '' '' @ t @ '' '' @ st @ '' { '' @ element @ '' }''"

definition format_nft_element :: "string \<Rightarrow> int \<Rightarrow> string" where
  "format_nft_element ip timeout = (if timeout > 0 then ip @ '' timeout '' @ format_int 10 timeout @ ''s'' else ip)"

definition format_port_elements :: "int list \<Rightarrow> string list" where
  "format_port_elements ports = map (format_int 10) ports"

section \<open>World and environment\<close>

datatype plugin_call =
    Nft nft_command bool
  | Kill string
  | Stop_Core
  | Remove_Torrent_Outbound

record plugin_world =
  pw_state :: plugin_state
  pw_calls :: "plugin_call list"

type_synonym prefix_merger = "net_prefix list \<Rightarrow> net_prefix list"

record plugin_env =
  pv_number :: "string \<Rightarrow> rat option"
  pv_nft_available :: bool
  pv_nft_ok :: "plugin_call list \<Rightarrow> string \<Rightarrow> bool"
  pv_dropper :: "dropper option"
  pv_controller :: bool
  pv_now :: int
  pv_merge4 :: prefix_merger
  pv_merge6 :: prefix_merger

definition emit :: "plugin_call list \<Rightarrow> plugin_world \<Rightarrow> plugin_world" where
  "emit cs w = w\<lparr>pw_calls := pw_calls w @ cs\<rparr>"

definition run_nft :: "plugin_env \<Rightarrow> nft_command \<Rightarrow> plugin_world \<Rightarrow> bool \<times> plugin_world" where
  "run_nft env c w = (let ok = pv_nft_ok env (pw_calls w) (nft_script c) in (ok, emit [Nft c ok] w))"

definition recreate_tables :: "plugin_env \<Rightarrow> plugin_world \<Rightarrow> bool \<times> plugin_world" where
  "recreate_tables env w = (if \<not> pv_nft_available env then (False, w) else run_nft env Recreate w)"

definition block_ip :: "plugin_env \<Rightarrow> string \<Rightarrow> int \<Rightarrow> plugin_world \<Rightarrow> bool \<times> plugin_world" where
  "block_ip env ip timeout w =
     (if \<not> pv_nft_available env then (False, w)
      else (case ip_table_and_torrent_set ip of
          None \<Rightarrow> (False, w)
        | Some (t, st) \<Rightarrow> run_nft env (Add_Elements t st [format_nft_element ip timeout]) w))"

definition unblock_ip :: "plugin_env \<Rightarrow> string \<Rightarrow> plugin_world \<Rightarrow> bool \<times> plugin_world" where
  "unblock_ip env ip w =
     (if \<not> pv_nft_available env then (False, w)
      else (case ip_table_and_torrent_set ip of
          None \<Rightarrow> (False, w)
        | Some (t, st) \<Rightarrow> run_nft env (Delete_Element t st ip) w))"

text \<open>normalizeFilterPrefixes: what is added to the two builders.  An address with a zone, which
  validation refuses, is added without it.\<close>

definition filter_item :: "string \<Rightarrow> net_prefix option" where
  "filter_item item = (let s = trim_space item in
     if s = [] then None
     else (case parse_prefix s of
         Some p \<Rightarrow> Some (masked p)
       | None \<Rightarrow> (case parse_addr s of
           Some (a, _) \<Rightarrow> (let u = unmap a in Some (u, bit_len u))
         | None \<Rightarrow> None)))"

definition prefix_strings :: "prefix_merger \<Rightarrow> net_prefix list \<Rightarrow> string list" where
  "prefix_strings merge ps = map prefix_text (merge ps)"

definition normalize_filter_prefixes :: "plugin_env \<Rightarrow> string list \<Rightarrow> string list \<times> string list" where
  "normalize_filter_prefixes env items =
     (let ps = List.map_filter filter_item items
      in (prefix_strings (pv_merge4 env) (filter (\<lambda>p. is4 (fst p)) ps),
          prefix_strings (pv_merge6 env) (filter (\<lambda>p. \<not> is4 (fst p)) ps)))"

text \<open>Additions in order, up to the first that fails; an addition of no element is skipped.\<close>

fun add_all :: "plugin_env \<Rightarrow> (string \<times> string \<times> string list) list \<Rightarrow> plugin_world \<Rightarrow> bool \<times> plugin_world" where
  "add_all env [] w = (True, w)"
| "add_all env ((t, st, elements) # rest) w =
     (if elements = [] then add_all env rest w
      else (case run_nft env (Add_Elements t st elements) w of
          (False, w') \<Rightarrow> (False, w')
        | (True, w') \<Rightarrow> add_all env rest w'))"

definition sync_ingress_filter :: "plugin_env \<Rightarrow> string list \<Rightarrow> plugin_world \<Rightarrow> bool \<times> plugin_world" where
  "sync_ingress_filter env ips w =
     (if \<not> pv_nft_available env then (True, w)
      else (let (v4, v6) = normalize_filter_prefixes env ips
        in add_all env [(table_name, ingress_filter_ip_set, v4), (table_name_v6, ingress_filter_ip_set_v6, v6)] w))"

definition sync_egress_filter :: "plugin_env \<Rightarrow> string list \<Rightarrow> int list \<Rightarrow> plugin_world \<Rightarrow> bool \<times> plugin_world" where
  "sync_egress_filter env ips ports w =
     (if \<not> pv_nft_available env then (True, w)
      else (let (v4, v6) = normalize_filter_prefixes env ips; ps = format_port_elements ports
        in add_all env [(table_name, egress_filter_ip_set, v4), (table_name_v6, egress_filter_ip_set_v6, v6),
             (table_name, egress_filter_port_set, ps), (table_name_v6, egress_filter_port_set_v6, ps)] w))"

definition ingress_ips :: "asn_resolver option \<Rightarrow> jmap \<Rightarrow> string list option" where
  "ingress_ips resolver config = map_option (\<lambda>section.
     resolve_ip_list (build_shared_ip_map resolver config) (to_string_slice (lookup section ''blockedIps'')))
     (enabled_section config ''ingressFilter'')"

definition egress_ips :: "asn_resolver option \<Rightarrow> jmap \<Rightarrow> string list option" where
  "egress_ips resolver config = map_option (\<lambda>section.
     resolve_ip_list (build_shared_ip_map resolver config) (to_string_slice (lookup section ''blockedIps'')))
     (enabled_section config ''egressFilter'')"

definition egress_ports :: "jmap \<Rightarrow> int list" where
  "egress_ports config = (case enabled_section config ''egressFilter'' of
     None \<Rightarrow> [] | Some section \<Rightarrow> to_int_slice (lookup section ''blockedPorts''))"

definition sync_filters :: "plugin_env \<Rightarrow> jmap \<Rightarrow> plugin_world \<Rightarrow> plugin_world" where
  "sync_filters env config w =
     (let resolver = ps_asn (pw_state w);
          w1 = (case ingress_ips resolver config of None \<Rightarrow> w | Some ips \<Rightarrow> snd (sync_ingress_filter env ips w))
      in case egress_ips resolver config of
           None \<Rightarrow> w1 | Some ips \<Rightarrow> snd (sync_egress_filter env ips (egress_ports config) w1))"

text \<open>The dropper of the program asks this state for the whitelist.\<close>

definition service_drop :: "plugin_env \<Rightarrow> string \<Rightarrow> plugin_world \<Rightarrow> plugin_world" where
  "service_drop env ip w = (case pv_dropper env of
     None \<Rightarrow> w
   | Some d \<Rightarrow> emit (map Kill (fst (drop_ips (d\<lparr>dr_whitelisted := is_whitelisted (pw_state w)\<rparr>) [ip]))) w)"

section \<open>Handlers\<close>

datatype plugin_reply = Bad_Json | Accepted bool | Reports "torrent_report list"

definition reset_plugins :: "plugin_env \<Rightarrow> plugin_world \<Rightarrow> plugin_world" where
  "reset_plugins env w =
     (let w1 = w\<lparr>pw_state := reset_state (pw_state w)\<rparr>
      in if pv_nft_available env then snd (recreate_tables env w1) else w1)"

definition controller_call :: "plugin_env \<Rightarrow> plugin_call \<Rightarrow> plugin_world \<Rightarrow> plugin_world" where
  "controller_call env c w = (if pv_controller env then emit [c] w else w)"

definition handle_plugin_clear :: "plugin_env \<Rightarrow> plugin_world \<Rightarrow> plugin_reply \<times> plugin_world" where
  "handle_plugin_clear env w =
     (if \<not> ps_active (pw_state w) then (Accepted False, w)
      else (Accepted True, controller_call env Stop_Core (reset_plugins env w)))"

definition is_unchanged_plugin_config :: "sync_plugin \<Rightarrow> plugin_state \<Rightarrow> bool" where
  "is_unchanged_plugin_config p s \<longleftrightarrow>
     (let hash = hash_plugin_config (sp_config p) in hash \<noteq> [] \<and> hash = ps_config_hash s \<and> ps_active s)"

definition hash_include_rule_tags :: "string list \<Rightarrow> string" where
  "hash_include_rule_tags tags = (if sort tags = [] then [] else sha256_hex (join_with '','' (sort tags)))"

definition apply_torrent_restart ::
  "plugin_env \<Rightarrow> bool \<Rightarrow> bool \<Rightarrow> string list \<Rightarrow> string list \<Rightarrow> plugin_world \<Rightarrow> plugin_world" where
  "apply_torrent_restart env was_enabled now_enabled prev_tags now_tags w =
     (if was_enabled \<and> \<not> now_enabled \<and> length now_tags = 0 then controller_call env Remove_Torrent_Outbound w
      else if (was_enabled \<and> \<not> now_enabled) \<or> (\<not> was_enabled \<and> now_enabled)
        \<or> (was_enabled \<and> now_enabled \<and> hash_include_rule_tags prev_tags \<noteq> hash_include_rule_tags now_tags)
      then controller_call env Stop_Core w else w)"

text \<open>The body is None when it is not JSON; a null plugin clears.\<close>

definition handle_sync ::
  "plugin_env \<Rightarrow> sync_plugin option option \<Rightarrow> plugin_world \<Rightarrow> plugin_reply \<times> plugin_world" where
  "handle_sync env body w = (case body of
     None \<Rightarrow> (Bad_Json, w)
   | Some None \<Rightarrow> handle_plugin_clear env w
   | Some (Some p) \<Rightarrow>
       if is_unchanged_plugin_config p (pw_state w) then (Accepted True, w)
       else (let config = extract_plugin_config (pv_number env) (sp_config p) in
         if validate_plugin_config config \<noteq> None
         then (Accepted False, controller_call env Stop_Core (reset_plugins env w))
         else (let s = pw_state w;
                   (s', changed, accepted) = update_from_sync (pv_number env) (Some p) s;
                   w1 = w\<lparr>pw_state := s'\<rparr>
           in if \<not> accepted then (Accepted False, w1)
              else (let w2 = (if changed \<and> pv_nft_available env
                          then (let w' = snd (recreate_tables env w1) in
                            case config of None \<Rightarrow> w' | Some c \<Rightarrow> sync_filters env c w')
                          else w1)
                in (Accepted True, apply_torrent_restart env (torrent_blocker_enabled s)
                     (torrent_blocker_enabled s') (torrent_include_tags s) (torrent_include_tags s') w2)))))"

definition handle_collect_reports :: "plugin_world \<Rightarrow> plugin_reply \<times> plugin_world" where
  "handle_collect_reports w =
     (let (reports, s) = flush_reports (pw_state w) in (Reports reports, w\<lparr>pw_state := s\<rparr>))"

fun block_loop :: "plugin_env \<Rightarrow> (string \<times> int) list \<Rightarrow> plugin_world \<Rightarrow> plugin_reply \<times> plugin_world" where
  "block_loop env [] w = (Accepted True, w)"
| "block_loop env ((ip, timeout) # items) w = (case block_ip env ip timeout w of
     (False, w') \<Rightarrow> (Accepted False, w')
   | (True, w') \<Rightarrow> block_loop env items (service_drop env ip w'))"

definition handle_block_ips ::
  "plugin_env \<Rightarrow> (string \<times> int) list option \<Rightarrow> plugin_world \<Rightarrow> plugin_reply \<times> plugin_world" where
  "handle_block_ips env body w = (case body of
     None \<Rightarrow> (Bad_Json, w)
   | Some items \<Rightarrow> if \<not> pv_nft_available env then (Accepted False, w) else block_loop env items w)"

fun unblock_loop :: "plugin_env \<Rightarrow> string list \<Rightarrow> plugin_world \<Rightarrow> plugin_reply \<times> plugin_world" where
  "unblock_loop env [] w = (Accepted True, w)"
| "unblock_loop env (ip # ips) w = (case unblock_ip env ip w of
     (False, w') \<Rightarrow> (Accepted False, w')
   | (True, w') \<Rightarrow> unblock_loop env ips w')"

definition handle_unblock_ips ::
  "plugin_env \<Rightarrow> string list option \<Rightarrow> plugin_world \<Rightarrow> plugin_reply \<times> plugin_world" where
  "handle_unblock_ips env body w = (case body of
     None \<Rightarrow> (Bad_Json, w)
   | Some ips \<Rightarrow> if \<not> pv_nft_available env then (Accepted False, w) else unblock_loop env ips w)"

definition handle_recreate_tables :: "plugin_env \<Rightarrow> plugin_world \<Rightarrow> plugin_reply \<times> plugin_world" where
  "handle_recreate_tables env w =
     (if \<not> pv_nft_available env then (Accepted False, w)
      else (let (ok, w') = recreate_tables env w in (Accepted ok, w')))"

section \<open>The webhook\<close>

text \<open>The pattern of sourceIPPattern: an optional tcp: or udp:, then a bracketed or a bare host,
  each as short as possible and on one line, then an optional port.\<close>

definition port_tail :: "string \<Rightarrow> bool" where
  "port_tail s \<longleftrightarrow> s = [] \<or> (hd s = CHR '':'' \<and> tl s \<noteq> [] \<and> list_all is_digit (tl s))"

definition no_newline :: "string \<Rightarrow> bool" where
  "no_newline s \<longleftrightarrow> CHR 0x0A \<notin> set s"

definition bracket_host :: "string \<Rightarrow> string option" where
  "bracket_host s =
     (if s = [] \<or> hd s \<noteq> CHR ''['' then None
      else map_option (\<lambda>n. take n (tl s)) (find (\<lambda>n. no_newline (take n (tl s))
         \<and> has_prefix (drop n (tl s)) '']'' \<and> port_tail (drop (Suc n) (tl s))) [1..<length s]))"

definition bare_host :: "string \<Rightarrow> string option" where
  "bare_host s = map_option (\<lambda>n. take n s)
     (find (\<lambda>n. no_newline (take n s) \<and> port_tail (drop n s)) [1..<Suc (length s)])"

definition host_match :: "string \<Rightarrow> string option" where
  "host_match s = (case bracket_host s of Some h \<Rightarrow> Some h | None \<Rightarrow> bare_host s)"

definition source_match :: "string \<Rightarrow> string option" where
  "source_match s =
     (if has_prefix s ''tcp:'' \<or> has_prefix s ''udp:'' then
        (case host_match (drop 4 s) of Some h \<Rightarrow> Some h | None \<Rightarrow> host_match s)
      else host_match s)"

definition extract_webhook_ip :: "string \<Rightarrow> string" where
  "extract_webhook_ip source =
     (if source = [] then []
      else (let candidate = (case source_match source of Some h \<Rightarrow> h | None \<Rightarrow> source)
        in if parse_ip candidate = None then [] else candidate))"

definition webhook_report :: "bool \<Rightarrow> string \<Rightarrow> int \<Rightarrow> string \<Rightarrow> int \<Rightarrow> jmap \<Rightarrow> torrent_report" where
  "webhook_report blocked ip duration email now payload =
     \<lparr>rp_blocked = blocked, rp_ip = ip, rp_duration = duration,
      rp_will_unblock_at = now + wrap64 (duration * 10 ^ 9),
      rp_user = email, rp_processed_at = now, rp_xray = payload\<rparr>"

definition handle_xray_webhook :: "plugin_env \<Rightarrow> jmap \<Rightarrow> plugin_world \<Rightarrow> plugin_world" where
  "handle_xray_webhook env payload w =
     (if \<not> torrent_blocker_enabled (pw_state w) then w
      else (let email = str_or_empty (lookup payload ''email'');
                ip = extract_webhook_ip (str_or_empty (lookup payload ''source''))
        in if ip = [] \<or> email = [] then w
           else if is_torrent_ip_ignored (pw_state w) ip \<or> is_torrent_user_ignored (pw_state w) email then w
           else (let duration = torrent_block_duration (pw_state w);
                     (blocked, w1) = (if pv_nft_available env then block_ip env ip duration w else (False, w));
                     w2 = (if blocked then service_drop env ip w1 else w1)
             in w2\<lparr>pw_state := add_report (webhook_report blocked ip duration email (pv_now env) payload) (pw_state w2)\<rparr>)))"

end
