(* ===== verification/PluginSafety.thy ===== *)
theory PluginSafety
  imports PluginService
begin

text \<open>What the plugin service guarantees: an accepted configuration is well formed, a refused one
  leaves nothing behind, an accepted one replaces the nft sets, the texts that reach nft are
  addresses, the webhook blocks what the settings say, and reports are delivered once.\<close>

section \<open>Accepted configurations\<close>

lemma validate_arrayD:
  assumes "validate_array field raw check = None" "x \<in> set (arr_or_nil raw)"
  shows "\<exists>i. check i x = None"
  using assms by (auto simp: validate_array_def arr_or_nil_def split: option.splits dest: first_bad_all)










lemma enabled_section_map: "enabled_section c name = Some m \<Longrightarrow> lookup c name = Some (VMap m)"
  by (auto simp: enabled_section_def split: option.splits if_splits)


lemma optional_None: "optional v e = None \<longleftrightarrow> v = None \<or> e = None"
  by (auto simp: optional_def)

lemma slices_None [simp]: "to_string_slice None = []" "to_int_slice None = []"
  by (simp_all add: to_string_slice_def to_int_slice_def arr_or_nil_def map_filter_simps)

lemma accepted_parts:
  assumes "validate_plugin_config (Some c) = None"
  shows "validate_shared_lists (lookup c ''sharedLists'') = None"
    "validate_ingress_filter (lookup c ''ingressFilter'') = None"
    "validate_egress_filter (lookup c ''egressFilter'') = None"
    "validate_connection_drop (lookup c ''connectionDrop'') = None"
    "validate_torrent_blocker (lookup c ''torrentBlocker'') = None"
    "validate_pre_start (lookup c ''preStart'') = None"
  using assms by (simp_all add: validate_plugin_config_def)



lemma int_item_as_int: "as_int x = Some n \<Longrightarrow> int_item x = Some n"
  by (cases x) (auto split: if_splits)

lemma validate_ports:
  assumes "validate_port_array field raw = None" "p \<in> set (to_int_slice raw)"
  shows "1 \<le> p \<and> p \<le> 65535"
proof -
  from assms(2) obtain x where x: "x \<in> set (arr_or_nil raw)" "int_item x = Some p"
    by (auto simp: to_int_slice_def List.map_filter_def)
  with validate_arrayD [OF assms(1) [unfolded validate_port_array_def] x(1)] show ?thesis
    by (cases "as_int x") (auto dest: int_item_as_int split: if_splits)
qed

lemma accepted_ports:
  assumes "validate_plugin_config (Some c) = None"
  shows "list_all (\<lambda>p. 1 \<le> p \<and> p \<le> 65535) (egress_ports c)"
proof (cases "enabled_section c ''egressFilter''")
  case (Some m)
  from accepted_parts(3) [OF assms] enabled_section_map [OF Some]
  have "lookup m ''blockedPorts'' = None
      \<or> validate_port_array ''egressFilter.blockedPorts'' (lookup m ''blockedPorts'') = None"
    by (simp add: validate_egress_filter_def in_section_None optional_None)
  with Some validate_ports show ?thesis by (auto simp: egress_ports_def list_all_iff)
qed (simp add: egress_ports_def)






lemmas validate_eval = validate_plugin_config_def validate_shared_lists_def validate_array_def shared_list_entry_def
  validate_string_array_def string_item_def validate_asn_array_def validate_port_array_def validate_int_array_def
  validate_egress_filter_def validate_ingress_filter_def validate_connection_drop_def validate_torrent_blocker_def
  validate_pre_start_def in_section_def optional_def require_bool_def is_nil_def or_else_def is_ip_cidr_or_ext_def
  is_ip_or_ext_def is_shared_list_item_def is_plain_ip_def is_ipv4_cidr_def is_ipv6_cidr_def parse_cidr_def
  is_int_number_def go_int_def trunc_rat_def str_or_empty_def validate_include_tags_def socket_path_item_def



section \<open>The effect of a synchronisation\<close>

lemma emit_simps [simp]:
  "pw_state (emit cs w) = pw_state w" "pw_calls (emit cs w) = pw_calls w @ cs"
  by (simp_all add: emit_def)

lemma run_nft_simps [simp]:
  "pw_state (snd (run_nft env c w)) = pw_state w"
  "pw_calls (snd (run_nft env c w)) = pw_calls w @ [Nft c (fst (run_nft env c w))]"
  by (simp_all add: run_nft_def Let_def)

lemma reset_state_fresh: "reset_state s = set_asn_resolver (ps_asn s) new_state"
  by (simp add: reset_state_def set_asn_resolver_def new_state_def)

lemma plugin_world_eqI:
  "pw_state w = pw_state w' \<Longrightarrow> pw_calls w = pw_calls w' \<Longrightarrow> (w :: plugin_world) = w'"
  by (cases w; cases w') simp

definition sample_plugin_env :: plugin_env where
  "sample_plugin_env = \<lparr>pv_number = (\<lambda>t. map_option of_nat (parse_digits t)), pv_nft_available = True, pv_nft_ok = (\<lambda>_ _. True),
     pv_dropper = Some \<lparr>dr_available = True, dr_whitelisted = (\<lambda>_. False), dr_kill_ok = (\<lambda>_. True)\<rparr>, pv_controller = True,
     pv_now = 0, pv_merge4 = (\<lambda>ps. ps), pv_merge6 = (\<lambda>ps. ps)\<rparr>"

definition sample_plugin :: sync_plugin where
  "sample_plugin = \<lparr>sp_uuid = ''u'', sp_name = ''n'', sp_config = Some (RObj
     [(''egressFilter'', RObj [(''enabled'', RBool True), (''blockedPorts'', RArr [RNum ''25''])]),
      (''torrentBlocker'', RObj [(''enabled'', RBool True), (''blockDuration'', RNum ''60''), (''ignoreLists'', RObj [])])])\<rparr>"

definition sample_map :: jmap where
  "sample_map =
     [(''egressFilter'', VMap [(''enabled'', VBool True), (''blockedPorts'', VArr [VFloat 25])]),
      (''torrentBlocker'', VMap [(''enabled'', VBool True), (''blockDuration'', VFloat 60), (''ignoreLists'', VMap [])])]"

definition sample_plugin_world :: plugin_world where
  "sample_plugin_world = \<lparr>pw_state = new_state, pw_calls = []\<rparr>"

lemma sample_extracted:
  "extract_plugin_config (pv_number sample_plugin_env) (sp_config sample_plugin) = Some sample_map"
  by (simp add: extract_plugin_config_def sample_plugin_env_def sample_plugin_def sample_map_def parse_digits_def
      is_digit_def base_val_def digit_val_def)

lemma sample_map_accepted: "validate_plugin_config (Some sample_map) = None"
  by (simp add: sample_map_def validate_eval net_eval Let_def)

lemma sample_changed: "\<not> is_unchanged_plugin_config p (pw_state sample_plugin_world)"
  by (simp add: is_unchanged_plugin_config_def sample_plugin_world_def new_state_def)

text \<open>A configuration that does not pass validation leaves nothing of the previous plugin: the
  answer is accepted: false, the state is that of a new service with the same AS number resolver,
  the nft tables are created anew, and the core is asked to stop.\<close>

theorem refused_config_resets:
  assumes "validate_plugin_config (extract_plugin_config (pv_number env) (sp_config p)) \<noteq> None"
    and "\<not> is_unchanged_plugin_config p (pw_state w)"
  shows "handle_sync env (Some (Some p)) w = (Accepted False,
     \<lparr>pw_state = set_asn_resolver (ps_asn (pw_state w)) new_state,
      pw_calls = pw_calls w
        @ (if pv_nft_available env then [Nft Recreate (pv_nft_ok env (pw_calls w) (nft_script Recreate))] else [])
        @ (if pv_controller env then [Stop_Core] else [])\<rparr>)"
  using assms
  by (auto simp: handle_sync_def reset_plugins_def controller_call_def recreate_tables_def run_nft_def emit_def
      reset_state_fresh Let_def simp del: nft_script.simps intro!: plugin_world_eqI)

theorem refused_config_resets_witness:
  "handle_sync sample_plugin_env (Some (Some (sample_plugin\<lparr>sp_config := Some (RArr [])\<rparr>))) sample_plugin_world
    = (Accepted False, \<lparr>pw_state = new_state, pw_calls = [Nft Recreate True, Stop_Core]\<rparr>)"
proof -
  let ?p = "sample_plugin\<lparr>sp_config := Some (RArr [])\<rparr>"
  have "validate_plugin_config (extract_plugin_config (pv_number sample_plugin_env) (sp_config ?p)) \<noteq> None"
    by (simp add: extract_plugin_config_def validate_plugin_config_def)
  from refused_config_resets [OF this sample_changed [of ?p]] show ?thesis
    by (simp add: sample_plugin_env_def sample_plugin_world_def set_asn_resolver_def new_state_def)
qed

text \<open>What the sets of nftables hold after a list of calls, by the documented effect of the
  commands: re-creation empties them, an addition inserts, a deletion removes the element
  whatever its timeout.\<close>

type_synonym nft_sets = "string \<times> string \<Rightarrow> string set"

fun nft_effect :: "plugin_call \<Rightarrow> nft_sets \<Rightarrow> nft_sets" where
  "nft_effect (Nft Recreate True) S = (\<lambda>_. {})"
| "nft_effect (Nft (Add_Elements t st es) True) S = S((t, st) := S (t, st) \<union> set es)"
| "nft_effect (Nft (Delete_Element t st e) True) S = S((t, st) := {x \<in> S (t, st). before (CHR '' '') x \<noteq> e})"
| "nft_effect _ S = S"

definition nft_contents :: "plugin_call list \<Rightarrow> nft_sets" where
  "nft_contents cs = fold nft_effect cs (\<lambda>_. {})"

lemma nft_contents_simps [simp]:
  "nft_contents (cs @ [c]) = nft_effect c (nft_contents cs)"
  by (simp add: nft_contents_def)






lemma set_names_neq [simp]:
  "table_name \<noteq> table_name_v6" "table_name_v6 \<noteq> table_name"
  "ingress_filter_ip_set \<noteq> egress_filter_ip_set" "egress_filter_ip_set \<noteq> ingress_filter_ip_set"
  "ingress_filter_ip_set \<noteq> egress_filter_port_set" "egress_filter_port_set \<noteq> ingress_filter_ip_set"
  "egress_filter_ip_set \<noteq> egress_filter_port_set" "egress_filter_port_set \<noteq> egress_filter_ip_set"
  "ingress_filter_ip_set_v6 \<noteq> egress_filter_ip_set_v6" "egress_filter_ip_set_v6 \<noteq> ingress_filter_ip_set_v6"
  "ingress_filter_ip_set_v6 \<noteq> egress_filter_port_set_v6" "egress_filter_port_set_v6 \<noteq> ingress_filter_ip_set_v6"
  "egress_filter_ip_set_v6 \<noteq> egress_filter_port_set_v6" "egress_filter_port_set_v6 \<noteq> egress_filter_ip_set_v6"
  by (simp_all add: table_name_def table_name_v6_def ingress_filter_ip_set_def ingress_filter_ip_set_v6_def
      egress_filter_ip_set_def egress_filter_ip_set_v6_def egress_filter_port_set_def egress_filter_port_set_v6_def)






lemma hash_of_map: "extract_plugin_config number config = Some c \<Longrightarrow> hash_plugin_config config \<noteq> []"
  by (auto simp: extract_plugin_config_def hash_plugin_config_def split: option.splits raw_json.splits)

lemma updated_state:
  assumes "extract_plugin_config number (sp_config p) = Some c" "\<not> is_unchanged_plugin_config p s"
  obtains s' where "update_from_sync number (Some p) s = (s', True, True)" "ps_asn s' = ps_asn s"
    "ps_torrent s' = configure_torrent_blocker c (build_shared_ip_map (ps_asn s) c)"
    "ps_reports s' = ps_reports s" "ps_config_hash s' = hash_plugin_config (sp_config p)" "ps_active s'"
  using assms hash_of_map [OF assms(1)]
  by (auto simp: update_from_sync_def is_unchanged_plugin_config_def Let_def)

definition synced :: "plugin_env \<Rightarrow> jmap \<Rightarrow> plugin_state \<Rightarrow> plugin_world \<Rightarrow> plugin_world" where
  "synced env c s' w = (let w1 = w\<lparr>pw_state := s'\<rparr> in
     if pv_nft_available env then sync_filters env c (snd (recreate_tables env w1)) else w1)"

lemma accepted_sync:
  assumes "extract_plugin_config (pv_number env) (sp_config p) = Some c" "validate_plugin_config (Some c) = None"
    and "\<not> is_unchanged_plugin_config p (pw_state w)"
    and "update_from_sync (pv_number env) (Some p) (pw_state w) = (s', True, True)"
  shows "handle_sync env (Some (Some p)) w = (Accepted True,
    apply_torrent_restart env (torrent_blocker_enabled (pw_state w)) (torrent_blocker_enabled s')
      (torrent_include_tags (pw_state w)) (torrent_include_tags s') (synced env c s' w))"
  using assms by (simp add: handle_sync_def synced_def Let_def)

lemma controller_call_simps [simp]:
  "pw_state (controller_call env c w) = pw_state w"
  "pw_calls (controller_call env c w) = pw_calls w @ (if pv_controller env then [c] else [])"
  by (simp_all add: controller_call_def)






fun core_call :: "plugin_call \<Rightarrow> bool" where
  "core_call Stop_Core = True"
| "core_call Remove_Torrent_Outbound = True"
| "core_call _ = False"

text \<open>A world that is reached by calls that all have a property.\<close>

definition emits :: "(plugin_call \<Rightarrow> bool) \<Rightarrow> plugin_world \<Rightarrow> plugin_world \<Rightarrow> bool" where
  "emits P w w' \<longleftrightarrow> (\<exists>cs. pw_calls w' = pw_calls w @ cs \<and> list_all P cs)"

lemma emits_refl [simp, intro]: "pw_calls w' = pw_calls w \<Longrightarrow> emits P w w'"
  by (simp add: emits_def)

lemma emits_trans [trans]: "emits P w1 w2 \<Longrightarrow> emits P w2 w3 \<Longrightarrow> emits P w1 w3"
  by (auto simp: emits_def)

lemma emits_emit: "list_all P cs \<Longrightarrow> emits P w (emit cs w)"
  by (auto simp: emits_def)

lemma emits_cong: "emits P w w' \<Longrightarrow> pw_calls v = pw_calls w \<Longrightarrow> pw_calls v' = pw_calls w' \<Longrightarrow> emits P v v'"
  by (simp add: emits_def)

lemma run_nft_emits: "(\<And>ok. P (Nft c ok)) \<Longrightarrow> emits P w (snd (run_nft env c w))"
  by (simp add: emits_def)

lemma add_all_emits:
  "(\<And>t st es ok. (t, st, es) \<in> set items \<Longrightarrow> P (Nft (Add_Elements t st es) ok))
    \<Longrightarrow> emits P w (snd (add_all env items w))"
proof (induction items arbitrary: w)
  case (Cons i items)
  obtain t st es where i: "i = (t, st, es)" by (cases i)
  obtain ok w' where r: "run_nft env (Add_Elements t st es) w = (ok, w')" by force
  have first: "emits P w w'"
    using run_nft_emits [of P "Add_Elements t st es" w env] Cons.prems [of t st es] r i by simp
  have rest: "emits P v (snd (add_all env items v))" for v using Cons by auto
  show ?case
    using rest [of w] emits_trans [OF first rest] first r
    by (cases "es = []"; cases ok) (simp_all add: i)
qed simp

lemma sync_filters_emits:
  assumes "\<And>ips ok. P (Nft (Add_Elements table_name ingress_filter_ip_set (fst (normalize_filter_prefixes env ips))) ok)"
    "\<And>ips ok. P (Nft (Add_Elements table_name_v6 ingress_filter_ip_set_v6 (snd (normalize_filter_prefixes env ips))) ok)"
    "\<And>ips ok. P (Nft (Add_Elements table_name egress_filter_ip_set (fst (normalize_filter_prefixes env ips))) ok)"
    "\<And>ips ok. P (Nft (Add_Elements table_name_v6 egress_filter_ip_set_v6 (snd (normalize_filter_prefixes env ips))) ok)"
    "\<And>ok. P (Nft (Add_Elements table_name egress_filter_port_set (format_port_elements (egress_ports c))) ok)"
    "\<And>ok. P (Nft (Add_Elements table_name_v6 egress_filter_port_set_v6 (format_port_elements (egress_ports c))) ok)"
  shows "emits P w (sync_filters env c w)"
proof -
  have ingress: "emits P w (snd (sync_ingress_filter env ips w))" for ips w
    using assms(1,2) by (auto simp: sync_ingress_filter_def case_prod_beta simp del: add_all.simps intro!: add_all_emits)
  have egress: "emits P w (snd (sync_egress_filter env ips (egress_ports c) w))" for ips w
    using assms(3-6) by (auto simp: sync_egress_filter_def case_prod_beta Let_def simp del: add_all.simps intro!: add_all_emits)
  define w1 where "w1 = (case ingress_ips (ps_asn (pw_state w)) c of None \<Rightarrow> w | Some ips \<Rightarrow> snd (sync_ingress_filter env ips w))"
  have "emits P w w1" using ingress by (cases "ingress_ips (ps_asn (pw_state w)) c") (auto simp: w1_def)
  moreover have "sync_filters env c w = (case egress_ips (ps_asn (pw_state w)) c of None \<Rightarrow> w1
      | Some ips \<Rightarrow> snd (sync_egress_filter env ips (egress_ports c) w1))"
    unfolding sync_filters_def w1_def Let_def by (rule refl)
  ultimately show ?thesis
    using egress emits_trans by (cases "egress_ips (ps_asn (pw_state w)) c") auto
qed

lemma synced_emits:
  assumes "\<And>w. emits P w (sync_filters env c w)" "\<And>ok. P (Nft Recreate ok)"
  shows "emits P w (synced env c s' w)"
proof -
  have "emits P w (snd (recreate_tables env (w\<lparr>pw_state := s'\<rparr>)))"
    using assms(2) by (auto simp: recreate_tables_def emits_def)
  from emits_trans [OF this assms(1)] show ?thesis by (simp add: synced_def Let_def)
qed

lemma synced_calls:
  "\<exists>cs. pw_calls (synced env c s' w) = pw_calls w @ cs \<and> filter core_call cs = []"
proof -
  have "emits (\<lambda>c. \<not> core_call c) w (synced env c s' w)"
    by (intro synced_emits sync_filters_emits) simp_all
  then show ?thesis by (auto simp: emits_def filter_empty_conv list_all_iff)
qed

lemma disabled_no_tags:
  "\<not> ts_enabled (configure_torrent_blocker c m) \<Longrightarrow> ts_include_tags (configure_torrent_blocker c m) = []"
  by (auto simp: configure_torrent_blocker_def no_torrent_def Let_def split: option.splits)

text \<open>What an accepted synchronisation asks of the core depends only on the torrent blocker
  before and after: switched on, or kept on with another set of rule tags, the core is stopped so
  that the panel starts it with the new rules; switched off, only the blocker's outbound is
  removed; otherwise the core is left alone, whatever else has changed.\<close>

theorem sync_core_calls:
  assumes "extract_plugin_config (pv_number env) (sp_config p) = Some c" and "validate_plugin_config (Some c) = None"
    and "\<not> is_unchanged_plugin_config p (pw_state w)" and "pv_controller env"
    and "now = configure_torrent_blocker c (build_shared_ip_map (ps_asn (pw_state w)) c)"
    and "was = ps_torrent (pw_state w)"
  shows "\<exists>cs. pw_calls (snd (handle_sync env (Some (Some p)) w)) = pw_calls w @ cs
    \<and> filter core_call cs =
       (if ts_enabled was \<and> \<not> ts_enabled now then [Remove_Torrent_Outbound]
        else if \<not> ts_enabled was \<and> ts_enabled now then [Stop_Core]
        else if ts_enabled was \<and> ts_enabled now
          \<and> hash_include_rule_tags (ts_include_tags was) \<noteq> hash_include_rule_tags (ts_include_tags now)
        then [Stop_Core] else [])"
proof -
  obtain s' where s': "update_from_sync (pv_number env) (Some p) (pw_state w) = (s', True, True)" "ps_torrent s' = now"
    using updated_state [OF assms(1,3)] assms(5) by metis
  obtain cs where cs: "pw_calls (synced env c s' w) = pw_calls w @ cs" "filter core_call cs = []"
    using synced_calls by blast
  have tags: "\<not> ts_enabled now \<Longrightarrow> ts_include_tags now = []" by (simp add: assms(5) disabled_no_tags)
  show ?thesis
    using accepted_sync [OF assms(1-3) s'(1)] cs s'(2) assms(4,6) tags
    by (auto simp: apply_torrent_restart_def torrent_blocker_enabled_def torrent_include_tags_def
        intro!: exI [of _ "cs @ _"])
qed

theorem sync_core_calls_witness:
  "\<exists>cs. pw_calls (snd (handle_sync sample_plugin_env (Some (Some sample_plugin)) sample_plugin_world)) = cs
    \<and> filter core_call cs = [Stop_Core]"
proof -
  have tb_on: "ts_enabled (configure_torrent_blocker sample_map m)" for m
    by (simp add: configure_torrent_blocker_def enabled_section_def sample_map_def Let_def)
  have "pv_controller sample_plugin_env" "\<not> ts_enabled (ps_torrent (pw_state sample_plugin_world))" "pw_calls sample_plugin_world = []"
    by (simp_all add: sample_plugin_env_def sample_plugin_world_def new_state_def no_torrent_def)
  with sync_core_calls [OF sample_extracted sample_map_accepted sample_changed _ refl refl] tb_on
  show ?thesis by auto
qed

section \<open>Commands that reach nft\<close>

definition element_char :: "char \<Rightarrow> bool" where
  "element_char c \<longleftrightarrow> address_char c \<or> c \<in> set '' timeouts''"

text \<open>What a command may look like: a torrent set takes one address of its family, perhaps with a
  timeout, a port set port numbers, an address filter texts of prefixes of its family, and an
  address is deleted from the set of its family.\<close>

definition family_prefix :: "bool \<Rightarrow> net_prefix \<Rightarrow> bool" where
  "family_prefix v4 p \<longleftrightarrow> valid_prefix p \<and> (is4 (fst p) \<longleftrightarrow> v4)"

definition prefix_element :: "bool \<Rightarrow> string \<Rightarrow> bool" where
  "prefix_element v4 e \<longleftrightarrow> (\<exists>p. family_prefix v4 p \<and> e = prefix_text p)
     \<and> list_all (\<lambda>c. address_char c \<or> c = CHR ''/'') e"

definition torrent_element :: "string \<Rightarrow> string \<Rightarrow> string list \<Rightarrow> bool" where
  "torrent_element t st es \<longleftrightarrow> length es = 1
     \<and> ip_table_and_torrent_set (before (CHR '' '') (hd es)) = Some (t, st) \<and> list_all element_char (hd es)"

definition port_elements :: "string list \<Rightarrow> bool" where
  "port_elements = list_all (\<lambda>e. case parse_digits e of Some n \<Rightarrow> 1 \<le> n \<and> n \<le> 65535 | None \<Rightarrow> False)"

definition filter_set_family :: "string \<Rightarrow> string \<Rightarrow> bool option" where
  "filter_set_family t st =
     (if (t, st) \<in> {(table_name, ingress_filter_ip_set), (table_name, egress_filter_ip_set)} then Some True
      else if (t, st) \<in> {(table_name_v6, ingress_filter_ip_set_v6), (table_name_v6, egress_filter_ip_set_v6)}
      then Some False else None)"

text \<open>The two kinds of sets apart, the elements of an address filter are the merged prefixes of valid
  ones of the family.\<close>

fun nft_form :: "(bool \<Rightarrow> string list \<Rightarrow> bool) \<Rightarrow> nft_command \<Rightarrow> bool" where
  "nft_form F Recreate = True"
| "nft_form F (Add_Elements t st es) =
     (if st \<in> {torrent_blocker_set, torrent_blocker_set_v6} then torrent_element t st es
      else if st \<in> {egress_filter_port_set, egress_filter_port_set_v6} then port_elements es
      else (case filter_set_family t st of None \<Rightarrow> False | Some v4 \<Rightarrow> F v4 es))"
| "nft_form F (Delete_Element t st e) \<longleftrightarrow>
     ip_table_and_torrent_set e = Some (t, st) \<and> list_all address_char e"

definition merged :: "plugin_env \<Rightarrow> bool \<Rightarrow> string list \<Rightarrow> bool" where
  "merged env v4 es \<longleftrightarrow> (\<exists>ps. list_all (family_prefix v4) ps
     \<and> es = prefix_strings (if v4 then pv_merge4 env else pv_merge6 env) ps)"

definition nft_safe :: "nft_command \<Rightarrow> bool" where
  "nft_safe = nft_form (\<lambda>v4. list_all (prefix_element v4))"

fun safe_call :: "plugin_call \<Rightarrow> bool" where
  "safe_call (Nft c _) = nft_safe c"
| "safe_call _ = True"

text \<open>What the service emits, before anything is known of the merging of prefixes: commands of that
  form, and kills that the given test allows.\<close>

fun formed_call :: "plugin_env \<Rightarrow> (string \<Rightarrow> bool) \<Rightarrow> plugin_call \<Rightarrow> bool" where
  "formed_call env K (Nft c _) = nft_form (merged env) c"
| "formed_call env K (Kill ip) = K ip"
| "formed_call env K _ = True"

lemma torrent_set_neq [simp]:
  "torrent_blocker_set \<noteq> ingress_filter_ip_set" "torrent_blocker_set_v6 \<noteq> ingress_filter_ip_set"
  "torrent_blocker_set \<noteq> ingress_filter_ip_set_v6" "torrent_blocker_set_v6 \<noteq> ingress_filter_ip_set_v6"
  "ingress_filter_ip_set \<noteq> torrent_blocker_set" "ingress_filter_ip_set \<noteq> torrent_blocker_set_v6"
  "ingress_filter_ip_set_v6 \<noteq> torrent_blocker_set" "ingress_filter_ip_set_v6 \<noteq> torrent_blocker_set_v6"
  "egress_filter_ip_set \<noteq> torrent_blocker_set" "egress_filter_ip_set \<noteq> torrent_blocker_set_v6"
  "egress_filter_ip_set_v6 \<noteq> torrent_blocker_set" "egress_filter_ip_set_v6 \<noteq> torrent_blocker_set_v6"
  "egress_filter_port_set \<noteq> torrent_blocker_set" "egress_filter_port_set \<noteq> torrent_blocker_set_v6"
  "egress_filter_port_set_v6 \<noteq> torrent_blocker_set" "egress_filter_port_set_v6 \<noteq> torrent_blocker_set_v6"
  "ingress_filter_ip_set \<noteq> egress_filter_port_set_v6" "ingress_filter_ip_set_v6 \<noteq> egress_filter_port_set"
  "egress_filter_ip_set \<noteq> egress_filter_port_set_v6" "egress_filter_ip_set_v6 \<noteq> egress_filter_port_set"
  by (simp_all add: torrent_blocker_set_def torrent_blocker_set_v6_def ingress_filter_ip_set_def
      ingress_filter_ip_set_v6_def egress_filter_ip_set_def egress_filter_ip_set_v6_def egress_filter_port_set_def
      egress_filter_port_set_v6_def)

lemma not_blank_address: "address_char c \<Longrightarrow> c \<noteq> CHR '' ''"
  by (auto simp: address_char_def hex_char_def is_digit_def)

lemma before_address: "list_all address_char ip \<Longrightarrow> before (CHR '' '') (ip @ CHR '' '' # r) = ip"
  unfolding before_def by (induction ip) (auto simp: not_blank_address)

lemma before_address': "list_all address_char ip \<Longrightarrow> before (CHR '' '') ip = ip"
  unfolding before_def by (induction ip) (auto simp: not_blank_address)

lemma table_of_address: "ip_table_and_torrent_set ip = Some x \<Longrightarrow> list_all address_char ip"
  by (rule parse_ip_chars) (auto simp: ip_table_and_torrent_set_def split: option.splits)

lemma table_is_torrent:
  "ip_table_and_torrent_set ip = Some (t, st) \<Longrightarrow> st = torrent_blocker_set \<or> st = torrent_blocker_set_v6"
  by (auto simp: ip_table_and_torrent_set_def split: option.splits if_splits)

lemma timeout_chars: "t > 0 \<Longrightarrow> list_all element_char ('' timeout '' @ format_int 10 t @ ''s'')"
  using base_digits_decimal [of "nat t"]
  by (auto simp: format_int_def element_char_def list_all_iff intro: digit_address_char)

lemma element_safe:
  assumes "ip_table_and_torrent_set ip = Some (t, st)"
  shows "nft_form F (Add_Elements t st [format_nft_element ip timeout])"
proof -
  note c = table_of_address [OF assms]
  have "list_all element_char (format_nft_element ip timeout)"
    using c timeout_chars [of timeout] by (auto simp: format_nft_element_def element_char_def list_all_iff)
  moreover have "before (CHR '' '') (format_nft_element ip timeout) = ip"
    using before_address [OF c] before_address' [OF c] by (simp add: format_nft_element_def)
  ultimately show ?thesis using assms table_is_torrent [OF assms] by (auto simp: torrent_element_def)
qed

lemma ports_safe:
  assumes "list_all (\<lambda>p. 1 \<le> p \<and> p \<le> 65535) ports"
  shows "port_elements (format_port_elements ports)"
  using assms by (fastforce simp: port_elements_def format_port_elements_def list_all_iff format_int_def nat_le_iff le_nat_iff)

lemma unmapped_valid: "valid_prefix (unmap a, bit_len (unmap a))"
  by (simp add: valid_prefix_def)

lemma filter_item_valid: "filter_item s = Some p \<Longrightarrow> valid_prefix p"
  by (auto simp: filter_item_def parse_prefix_def Let_def valid_prefix_def split: option.splits if_splits)

lemma normalized_merged:
  "merged env True (fst (normalize_filter_prefixes env ips))" "merged env False (snd (normalize_filter_prefixes env ips))"
proof -
  have "valid_prefix p" if "p \<in> set (List.map_filter filter_item ips)" for p
    using that filter_item_valid by (auto simp: List.map_filter_def)
  then show "merged env True (fst (normalize_filter_prefixes env ips))" "merged env False (snd (normalize_filter_prefixes env ips))"
    unfolding merged_def normalize_filter_prefixes_def Let_def
    by - (rule exI [of _ "filter (\<lambda>p. is4 (fst p)) (List.map_filter filter_item ips)"],
        auto simp: list_all_iff family_prefix_def,
      rule exI [of _ "filter (\<lambda>p. \<not> is4 (fst p)) (List.map_filter filter_item ips)"],
        auto simp: list_all_iff family_prefix_def)
qed

lemma filter_families [simp]:
  "filter_set_family table_name ingress_filter_ip_set = Some True"
  "filter_set_family table_name egress_filter_ip_set = Some True"
  "filter_set_family table_name_v6 ingress_filter_ip_set_v6 = Some False"
  "filter_set_family table_name_v6 egress_filter_ip_set_v6 = Some False"
  by (simp_all add: filter_set_family_def)

lemma emits_state_update [simp]: "emits P w (w'\<lparr>pw_state := s\<rparr>) = emits P w w'"
  by (simp add: emits_def)

lemma block_ip_formed: "emits (formed_call env K) w (snd (block_ip env ip timeout w))"
  using element_safe by (auto simp: block_ip_def intro!: run_nft_emits simp del: nft_form.simps split: option.splits)

lemma unblock_ip_formed: "emits (formed_call env K) w (snd (unblock_ip env ip w))"
  using table_of_address by (auto simp: unblock_ip_def intro!: run_nft_emits split: option.splits)

lemma block_ip_state [simp]: "pw_state (snd (block_ip env ip timeout w)) = pw_state w"
  by (simp add: block_ip_def split: option.splits prod.splits)

text \<open>The sockets that the service may kill: the dropper is set and can kill, and the address is
  neither empty nor on the whitelist of the present configuration.\<close>

definition service_may_kill :: "plugin_env \<Rightarrow> plugin_state \<Rightarrow> string \<Rightarrow> bool" where
  "service_may_kill env s =
     dropper_allows (map_option (\<lambda>d. d\<lparr>dr_whitelisted := is_whitelisted s\<rparr>) (pv_dropper env))"

lemma service_drop_formed:
  "emits (formed_call env (service_may_kill env (pw_state w))) w (service_drop env ip w)"
proof (cases "pv_dropper env")
  case (Some d)
  have "list_all (formed_call env (service_may_kill env (pw_state w)))
      (map Kill (fst (drop_ips (d\<lparr>dr_whitelisted := is_whitelisted (pw_state w)\<rparr>) [ip])))"
    using drop_ips_allowed [of "d\<lparr>dr_whitelisted := is_whitelisted (pw_state w)\<rparr>" "[ip]"] Some
    by (auto simp: list_all_iff service_may_kill_def dropper_allows_def)
  with Some show ?thesis by (auto simp: service_drop_def intro: emits_emit)
qed (simp add: service_drop_def)

lemma service_drop_state [simp]: "pw_state (service_drop env ip w) = pw_state w"
  by (simp add: service_drop_def split: option.splits)

lemma controller_call_formed: "formed_call env K c \<Longrightarrow> emits (formed_call env K) w (controller_call env c w)"
  by (auto simp: controller_call_def intro!: emits_emit)

lemma reset_plugins_formed: "emits (formed_call env K) w (reset_plugins env w)"
  by (auto simp: reset_plugins_def recreate_tables_def emits_def Let_def)

lemma restart_formed: "emits (formed_call env K) w (apply_torrent_restart env a b t u w)"
  by (auto simp: apply_torrent_restart_def intro!: controller_call_formed)

lemma block_loop_formed:
  "emits (formed_call env (service_may_kill env (pw_state w))) w (snd (block_loop env items w))"
proof (induction env items w rule: block_loop.induct)
  case (2 env ip timeout items w)
  let ?P = "formed_call env (service_may_kill env (pw_state w))"
  obtain ok w' where b: "block_ip env ip timeout w = (ok, w')" by force
  then have s: "pw_state w' = pw_state w" using block_ip_state [of env ip timeout w] by simp
  have "emits ?P w w'" using block_ip_formed [of env _ w ip timeout] b by simp
  moreover have "emits ?P w' (service_drop env ip w')" using service_drop_formed [of env w' ip] s by simp
  moreover have "ok \<Longrightarrow> emits ?P (service_drop env ip w') (snd (block_loop env items (service_drop env ip w')))"
    using "2.IH" [of ok w'] b s by simp
  ultimately show ?case using b by (cases ok) (auto intro: emits_trans)
qed simp

lemma unblock_loop_formed: "emits (formed_call env K) w (snd (unblock_loop env ips w))"
proof (induction env ips w rule: unblock_loop.induct)
  case (2 env ip ips w)
  obtain ok w' where b: "unblock_ip env ip w = (ok, w')" by force
  then have "emits (formed_call env K) w w'" using unblock_ip_formed [of env K w ip] by simp
  with b "2.IH" [of ok w'] show ?case by (cases ok) (auto intro: emits_trans)
qed simp

lemma validate_none: "validate_plugin_config None \<noteq> None"
  by (simp add: validate_plugin_config_def)

lemma handle_sync_formed: "emits (formed_call env K) w (snd (handle_sync env body w))"
proof -
  have accepted: "emits (formed_call env K) w (snd (handle_sync env (Some (Some p)) w))"
    if v: "validate_plugin_config (Some c) = None" "extract_plugin_config (pv_number env) (sp_config p) = Some c"
      "\<not> is_unchanged_plugin_config p (pw_state w)" for p c
  proof -
    obtain s' where s': "update_from_sync (pv_number env) (Some p) (pw_state w) = (s', True, True)"
      using updated_state [OF v(2,3)] by metis
    have "emits (formed_call env K) w (synced env c s' w)"
      using ports_safe [OF accepted_ports [OF v(1)]] normalized_merged
      by (intro synced_emits sync_filters_emits) simp_all
    then show ?thesis using accepted_sync [OF v(2,1,3) s'] emits_trans [OF _ restart_formed] by auto
  qed
  have refused: "emits (formed_call env K) w (controller_call env Stop_Core (reset_plugins env w))"
    using emits_trans [OF reset_plugins_formed controller_call_formed] by simp
  show ?thesis
  proof (cases body)
    case (Some b)
    show ?thesis
    proof (cases b)
      case None
      with Some refused show ?thesis by (auto simp: handle_sync_def handle_plugin_clear_def)
    next
      case p: (Some p)
      consider "is_unchanged_plugin_config p (pw_state w)"
        | "\<not> is_unchanged_plugin_config p (pw_state w)" "validate_plugin_config (extract_plugin_config (pv_number env) (sp_config p)) \<noteq> None"
        | c where "\<not> is_unchanged_plugin_config p (pw_state w)" "extract_plugin_config (pv_number env) (sp_config p) = Some c"
          "validate_plugin_config (Some c) = None"
        using validate_none by (metis option.exhaust)
      then show ?thesis
        using accepted refused unfolding Some p by cases (auto simp: handle_sync_def)
    qed
  qed (simp add: handle_sync_def)
qed

lemma webhook_formed:
  "emits (formed_call env (service_may_kill env (pw_state w))) w (handle_xray_webhook env payload w)"
proof -
  let ?P = "formed_call env (service_may_kill env (pw_state w))"
  have "emits ?P w (service_drop env ip (snd (block_ip env ip d w)))" for ip d
    using emits_trans [OF block_ip_formed] service_drop_formed [of env "snd (block_ip env ip d w)" ip] by simp
  with block_ip_formed show ?thesis
    by (auto simp: handle_xray_webhook_def Let_def case_prod_beta intro: emits_cong)
qed

text \<open>The requests the service answers.\<close>

datatype plugin_event =
    Sync "sync_plugin option option"
  | Block "(string \<times> int) list option"
  | Unblock "string list option"
  | Recreate_Tables
  | Collect
  | Webhook jmap

fun plugin_step :: "plugin_env \<Rightarrow> plugin_event \<Rightarrow> plugin_world \<Rightarrow> plugin_world" where
  "plugin_step env (Sync body) w = snd (handle_sync env body w)"
| "plugin_step env (Block body) w = snd (handle_block_ips env body w)"
| "plugin_step env (Unblock body) w = snd (handle_unblock_ips env body w)"
| "plugin_step env Recreate_Tables w = snd (handle_recreate_tables env w)"
| "plugin_step env Collect w = snd (handle_collect_reports w)"
| "plugin_step env (Webhook payload) w = handle_xray_webhook env payload w"

definition plugin_run :: "plugin_env \<Rightarrow> plugin_event list \<Rightarrow> plugin_world \<Rightarrow> plugin_world" where
  "plugin_run env = fold (plugin_step env)"

lemma plugin_step_formed: "emits (formed_call env (service_may_kill env (pw_state w))) w (plugin_step env e w)"
proof (cases e)
  case (Sync body)
  then show ?thesis by (simp add: handle_sync_formed)
next
  case (Block body)
  then show ?thesis by (auto simp: handle_block_ips_def block_loop_formed split: option.splits)
next
  case (Unblock body)
  then show ?thesis by (auto simp: handle_unblock_ips_def unblock_loop_formed split: option.splits)
next
  case Recreate_Tables
  then show ?thesis by (auto simp: handle_recreate_tables_def recreate_tables_def case_prod_beta intro: run_nft_emits)
next
  case Collect
  then show ?thesis by (auto simp: handle_collect_reports_def flush_reports_def)
next
  case (Webhook payload)
  then show ?thesis by (simp add: webhook_formed)
qed

lemma emits_mono: "\<lbrakk>emits P w w'; \<And>c. P c \<Longrightarrow> Q c\<rbrakk> \<Longrightarrow> emits Q w w'"
  by (auto simp: emits_def list_all_iff)

text \<open>The documented behaviour of netipx that is relied on: the merged prefixes are valid ones of the
  family of those that were added.\<close>

definition merges_prefixes :: "plugin_env \<Rightarrow> bool" where
  "merges_prefixes env \<longleftrightarrow>
     (\<forall>ps. list_all (family_prefix True) ps \<longrightarrow> list_all (family_prefix True) (pv_merge4 env ps))
     \<and> (\<forall>ps. list_all (family_prefix False) ps \<longrightarrow> list_all (family_prefix False) (pv_merge6 env ps))"

lemma prefix_text_element: "family_prefix v4 p \<Longrightarrow> prefix_element v4 (prefix_text p)"
  unfolding prefix_element_def using prefix_text_chars [of p] by (intro conjI exI [of _ p]) (simp_all add: family_prefix_def)

lemma merged_safe:
  assumes "merges_prefixes env" "merged env v4 es"
  shows "list_all (prefix_element v4) es"
proof -
  from assms(2) obtain ps where ps: "list_all (family_prefix v4) ps"
    "es = map prefix_text ((if v4 then pv_merge4 env else pv_merge6 env) ps)"
    unfolding merged_def prefix_strings_def by blast
  from assms(1) ps(1) have "list_all (family_prefix v4) ((if v4 then pv_merge4 env else pv_merge6 env) ps)"
    by (cases v4) (simp_all add: merges_prefixes_def)
  then show ?thesis unfolding ps(2) by (simp add: list_all_iff prefix_text_element)
qed

lemma formed_safe: "\<lbrakk>merges_prefixes env; formed_call env K c\<rbrakk> \<Longrightarrow> safe_call c"
proof (cases "(env, K, c)" rule: formed_call.cases)
  case (1 env' K' d ok)
  then show "\<lbrakk>merges_prefixes env; formed_call env K c\<rbrakk> \<Longrightarrow> safe_call c"
    by (cases d) (auto simp: nft_safe_def merged_safe split: if_splits option.splits)
qed auto

lemma plugin_run_safe:
  assumes "merges_prefixes env" shows "emits safe_call w (plugin_run env es w)"
  unfolding plugin_run_def
proof (induction es arbitrary: w)
  case (Cons e es)
  have "emits safe_call w (plugin_step env e w)"
    by (rule emits_mono [OF plugin_step_formed formed_safe [OF assms]])
  with Cons.IH show ?case by (auto intro: emits_trans)
qed simp

text \<open>C13: Whatever requests and webhook calls arrive, and whatever nft answers, each command that is
  piped to nft has the intended form: one address of the right family, perhaps with a timeout, for a
  torrent set; port numbers for a port set; texts of valid prefixes of the right family, made of hex
  digits, dots, colons and a slash, for an address filter (when the merging of prefixes gives valid
  prefixes of the family); and deletions of one address.  So no text of a request can add a word, a
  brace or a line to a script.\<close>

theorem nft_commands_are_safe:
  assumes "merges_prefixes env"
  shows "\<exists>cs. pw_calls (plugin_run env es w) = pw_calls w @ cs \<and> list_all safe_call cs"
  using plugin_run_safe [OF assms, of w es] by (simp add: emits_def)

theorem nft_commands_are_safe_witness:
  "\<exists>cs. pw_calls (plugin_run sample_plugin_env [Block (Some [(''10.0.0.1 } ; flush ruleset'', 60)]),
        Sync (Some (Some sample_plugin)), Block (Some [(''10.0.0.1'', 60)])] sample_plugin_world) = cs
    \<and> list_all safe_call cs"
proof -
  have "merges_prefixes sample_plugin_env" by (simp add: merges_prefixes_def sample_plugin_env_def)
  from nft_commands_are_safe [OF this, where w = sample_plugin_world] show ?thesis by (simp add: sample_plugin_world_def)
qed

text \<open>C10: No handler of the node kills the sockets of a whitelisted address, of an empty one, or
  without a dropper that has the capability: not the handlers that add or remove users, one or many,
  or drop connections, and not the plugin handlers and the webhook, for which the whitelist is that
  of the plugin configuration in force.\<close>

theorem handlers_spare_whitelisted:
  "(\<exists>ks. nw_killed (node_request_step nenv r nw) = nw_killed nw @ ks
      \<and> list_all (dropper_allows (ne_dropper nenv)) ks)
   \<and> (\<exists>cs. pw_calls (plugin_step env e w) = pw_calls w @ cs
      \<and> list_all (\<lambda>c. case c of Kill ip \<Rightarrow> service_may_kill env (pw_state w) ip | _ \<Rightarrow> True) cs)"
proof -
  have "emits (\<lambda>c. case c of Kill ip \<Rightarrow> service_may_kill env (pw_state w) ip | _ \<Rightarrow> True) w (plugin_step env e w)"
    by (rule emits_mono [OF plugin_step_formed]) (auto split: plugin_call.splits)
  with node_request_kills [of nenv nw r] show ?thesis by (simp add: emits_def kills_to_def)
qed

section \<open>The webhook\<close>

text \<open>A webhook call for a live torrent connection, with the blocker on, a valid source address,
  and neither the address nor the user ignored, sends exactly one command to nft, which adds the
  address to the torrent set of its family for the configured time (300 seconds when none is set);
  the connections of the address are dropped exactly when that has worked and the address is not
  whitelisted, and one report says whether it was blocked.\<close>

theorem webhook_blocks:
  assumes "ts_enabled (ps_torrent (pw_state w))" and "pv_nft_available env"
    and "pv_dropper env = Some d" and "dr_available d"
    and "ip = extract_webhook_ip (str_or_empty (lookup payload ''source''))" and "ip \<noteq> []"
    and "email = str_or_empty (lookup payload ''email'')" and "email \<noteq> []"
    and "ip \<notin> set default_ignored_ips \<union> set (ts_ignored_ips (ps_torrent (pw_state w)))"
    and "email \<notin> set (ts_ignored_users (ps_torrent (pw_state w)))"
    and "seconds = (if ts_duration (ps_torrent (pw_state w)) \<le> 0 then 300 else ts_duration (ps_torrent (pw_state w)))"
    and "c = (if is_ipv4 ip then Add_Elements table_name torrent_blocker_set [format_nft_element ip seconds]
              else Add_Elements table_name_v6 torrent_blocker_set_v6 [format_nft_element ip seconds])"
    and "ok = pv_nft_ok env (pw_calls w) (nft_script c)"
  shows "pw_calls (handle_xray_webhook env payload w) = pw_calls w @ [Nft c ok]
      @ (if ok \<and> ip \<notin> set (ps_whitelist (pw_state w)) then [Kill ip] else [])
    \<and> pw_state (handle_xray_webhook env payload w) = (pw_state w)\<lparr>ps_reports := ps_reports (pw_state w)
        @ [webhook_report ok ip seconds email (pv_now env) payload]\<rparr>"
proof -
  have "parse_ip ip \<noteq> None" using assms(5,6) by (auto simp: extract_webhook_ip_def Let_def split: if_splits)
  then have b: "block_ip env ip seconds w = (ok, emit [Nft c ok] w)"
    using assms(2,12,13)
    by (auto simp: block_ip_def ip_table_and_torrent_set_def is_ipv4_def run_nft_def simp del: nft_script.simps
        split: option.splits)
  show ?thesis
    using assms(1-4,6,8-10) b
    by (simp add: handle_xray_webhook_def assms(5,7,11) [symmetric] Let_def torrent_blocker_enabled_def
        is_torrent_ip_ignored_def is_torrent_user_ignored_def torrent_block_duration_def service_drop_def drop_ips_def
        drop_target_def is_whitelisted_def add_report_def)
qed

text \<open>An ignore list entry with a slash, from a shared list of prefixes or one of the two default
  ones, never keeps the webhook from blocking: entries are compared as texts with a source that is
  a plain address, so an address inside 127.0.0.0/8 or inside an ignored prefix is blocked.\<close>

theorem ignored_prefixes_never_match:
  assumes "extract_webhook_ip source \<noteq> []"
  shows "is_torrent_ip_ignored s (extract_webhook_ip source)
    \<longleftrightarrow> extract_webhook_ip source \<in> set (filter (\<lambda>e. CHR ''/'' \<notin> set e)
          ([''::'', ''::1'', ''0.0.0.0'', ''127.0.0.1'', ''255.255.255.255''] @ ts_ignored_ips (ps_torrent s)))"
proof -
  have "parse_ip (extract_webhook_ip source) \<noteq> None"
    using assms by (auto simp: extract_webhook_ip_def Let_def split: if_splits)
  then have "list_all address_char (extract_webhook_ip source)" by (rule parse_ip_chars)
  then have "CHR ''/'' \<notin> set (extract_webhook_ip source)"
    by (auto simp: list_all_iff address_char_def hex_char_def is_digit_def)
  then show ?thesis by (auto simp: is_torrent_ip_ignored_def default_ignored_ips_def)
qed

definition live_world :: plugin_world where
  "live_world = \<lparr>pw_state = new_state\<lparr>ps_torrent := no_torrent\<lparr>ts_enabled := True, ts_duration := 60\<rparr>\<rparr>, pw_calls = []\<rparr>"

lemmas source_eval = extract_webhook_ip_def source_match_def host_match_def bracket_host_def bare_host_def port_tail_def
  no_newline_def upt_rec

lemma loopback_source: "extract_webhook_ip ''tcp:127.0.0.2:443'' = ''127.0.0.2''"
  by (simp add: source_eval net_eval Let_def)

theorem webhook_blocks_witness:
  "pw_calls (handle_xray_webhook sample_plugin_env [(''email'', VStr ''7''), (''source'', VStr ''tcp:127.0.0.2:443'')] live_world)
    = [Nft (Add_Elements table_name torrent_blocker_set [''127.0.0.2 timeout 60s'']) True, Kill ''127.0.0.2'']"
proof -
  let ?p = "[(''email'', VStr ''7''), (''source'', VStr ''tcp:127.0.0.2:443'')]"
  have t: "format_nft_element ''127.0.0.2'' 60 = ''127.0.0.2 timeout 60s''"
    by (simp add: format_nft_element_def format_int_def base_digits.simps digit_char_table)
  have i: "is_ipv4 ''127.0.0.2''" by (simp add: net_eval)
  have s: "extract_webhook_ip (str_or_empty (lookup ?p ''source'')) = ''127.0.0.2''" "str_or_empty (lookup ?p ''email'') = ''7''"
    by (simp_all add: loopback_source)
  let ?c = "Add_Elements table_name torrent_blocker_set [''127.0.0.2 timeout 60s'']"
  have "pw_calls (handle_xray_webhook sample_plugin_env ?p live_world) = pw_calls live_world @ [Nft ?c True]
      @ (if True \<and> ''127.0.0.2'' \<notin> set (ps_whitelist (pw_state live_world)) then [Kill ''127.0.0.2''] else [])
    \<and> pw_state (handle_xray_webhook sample_plugin_env ?p live_world) = (pw_state live_world)\<lparr>ps_reports := ps_reports (pw_state live_world)
        @ [webhook_report True ''127.0.0.2'' 60 ''7'' (pv_now sample_plugin_env) ?p]\<rparr>"
    by (rule webhook_blocks [of live_world sample_plugin_env "\<lparr>dr_available = True, dr_whitelisted = (\<lambda>_. False), dr_kill_ok = (\<lambda>_. True)\<rparr>"
          "''127.0.0.2''" ?p "''7''" 60 ?c True])
      (simp_all only: s t i if_True, simp_all add: live_world_def sample_plugin_env_def new_state_def no_torrent_def default_ignored_ips_def
        del: nft_script.simps)
  then show ?thesis by (simp add: live_world_def new_state_def)
qed

theorem ignored_prefixes_never_match_witness:
  "''127.0.0.0/8'' \<in> set default_ignored_ips
    \<and> \<not> is_torrent_ip_ignored new_state (extract_webhook_ip ''tcp:127.0.0.2:443'')"
proof -
  have "extract_webhook_ip ''tcp:127.0.0.2:443'' \<noteq> []" by (simp add: loopback_source)
  from ignored_prefixes_never_match [OF this, of new_state] show ?thesis
    by (simp add: loopback_source new_state_def no_torrent_def default_ignored_ips_def)
qed

section \<open>The source of a connection\<close>

lemma find_upt:
  "a \<le> n \<Longrightarrow> n < b \<Longrightarrow> P n \<Longrightarrow> (\<And>k. a \<le> k \<Longrightarrow> k < n \<Longrightarrow> \<not> P k) \<Longrightarrow> find P [a..<b] = Some n"
  unfolding find_Some_iff by (intro exI [of _ "n - a"]) auto

lemma find_upt_le: "a \<le> n \<Longrightarrow> n < b \<Longrightarrow> P n \<Longrightarrow> \<exists>k. find P [a..<b] = Some k \<and> k \<le> n"
proof (cases "find P [a..<b]")
  case (Some k)
  assume n: "a \<le> n" "n < b" "P n"
  from Some obtain i where i: "i < length [a..<b]" "[a..<b] ! i = k" "\<forall>j < i. \<not> P ([a..<b] ! j)"
    by (auto simp: find_Some_iff)
  have "k \<le> n"
  proof (rule ccontr)
    assume "\<not> k \<le> n"
    with i n have "n - a < i" "[a..<b] ! (n - a) = n" by auto
    with i(3) n show False by metis
  qed
  with Some show ?thesis by blast
qed (auto simp: find_None_iff)

lemma address_not:
  "address_char c \<Longrightarrow> c \<noteq> CHR ''['' \<and> c \<noteq> CHR '']'' \<and> c \<noteq> CHR 0x0A \<and> c \<noteq> CHR ''t'' \<and> c \<noteq> CHR ''u''"
  by (auto simp: address_char_def hex_char_def is_digit_def)

lemma address_no_newline: "list_all address_char h \<Longrightarrow> no_newline (take n h)"
  by (auto simp: no_newline_def list_all_iff dest!: in_set_takeD address_not)

lemma parse_ip_not_Nil: "parse_ip h \<noteq> None \<Longrightarrow> h \<noteq> []"
  by (auto simp: parse_ip_def parse_addr_def)

lemma bare_host_address:
  assumes "list_all address_char h" "h \<noteq> []" "CHR '':'' \<notin> set h" "port_tail t"
  shows "bare_host (h @ t) = Some h"
proof -
  have "find (\<lambda>n. no_newline (take n (h @ t)) \<and> port_tail (drop n (h @ t))) [1..<Suc (length (h @ t))] = Some (length h)"
  proof (rule find_upt)
    fix k assume k: "1 \<le> k" "k < length h"
    then have "drop k (h @ t) \<noteq> []" "hd (drop k (h @ t)) = h ! k" by (auto simp: hd_drop_conv_nth nth_append)
    with k assms(3) show "\<not> (no_newline (take k (h @ t)) \<and> port_tail (drop k (h @ t)))"
      by (metis nth_mem port_tail_def)
  qed (use assms in \<open>auto simp: Suc_le_eq address_no_newline [of h "length h", simplified]\<close>)
  then show ?thesis by (simp add: bare_host_def)
qed

lemma bracket_host_none: "list_all address_char h \<Longrightarrow> h \<noteq> [] \<Longrightarrow> bracket_host (h @ t) = None"
  by (cases h) (auto simp: bracket_host_def dest: address_not)

lemma bracket_host_address:
  assumes "list_all address_char h" "h \<noteq> []" "port_tail t"
  shows "bracket_host (''['' @ h @ '']'' @ t) = Some h"
proof -
  let ?s = "h @ '']'' @ t"
  have "find (\<lambda>n. no_newline (take n ?s) \<and> has_prefix (drop n ?s) '']'' \<and> port_tail (drop (Suc n) ?s))
      [1..<length (''['' @ ?s)] = Some (length h)"
  proof (rule find_upt)
    fix k assume k: "1 \<le> k" "k < length h"
    then have "drop k ?s = h ! k # drop (Suc k) ?s" by (metis Cons_nth_drop_Suc length_append nth_append trans_less_add1)
    moreover have "h ! k \<noteq> CHR '']''" using k assms(1) address_not by (auto simp: list_all_iff)
    ultimately show "\<not> (no_newline (take k ?s) \<and> has_prefix (drop k ?s) '']'' \<and> port_tail (drop (Suc k) ?s))"
      by (simp add: has_prefix_def)
  qed (use assms in \<open>auto simp: Suc_le_eq has_prefix_def address_no_newline [of h "length h", simplified]\<close>)
  then show ?thesis by (simp add: bracket_host_def)
qed

lemma source_with_scheme:
  assumes "scheme \<in> {[], ''tcp:'', ''udp:''}" "host_match s = Some h" "s \<noteq> []" "hd s \<noteq> CHR ''t'' \<and> hd s \<noteq> CHR ''u''"
  shows "source_match (scheme @ s) = Some h"
  using assms by (cases s) (auto simp: source_match_def has_prefix_def)

lemma extract_with_scheme:
  assumes "scheme \<in> {[], ''tcp:'', ''udp:''}" "host_match s = Some h" "s \<noteq> []" "hd s \<noteq> CHR ''t'' \<and> hd s \<noteq> CHR ''u''"
  shows "extract_webhook_ip (scheme @ s) = (if parse_ip h = None then [] else h)"
  using source_with_scheme [OF assms] assms(3) by (simp add: extract_webhook_ip_def)

lemma bare_host_short:
  assumes "s = p @ CHR '':'' # ds" "p \<noteq> []" "ds \<noteq> []" "list_all is_digit ds" "no_newline p"
  obtains k where "bare_host s = Some (take k s)" "k \<le> length p"
proof -
  have "port_tail (drop (length p) s)" "no_newline (take (length p) s)" using assms by (auto simp: port_tail_def)
  then obtain k where "find (\<lambda>n. no_newline (take n s) \<and> port_tail (drop n s)) [1..<Suc (length s)] = Some k" "k \<le> length p"
    using find_upt_le [of 1 "length p" "Suc (length s)" "\<lambda>n. no_newline (take n s) \<and> port_tail (drop n s)"] assms(1,2)
    by (auto simp: Suc_le_eq)
  then show thesis using that by (simp add: bare_host_def)
qed

text \<open>The webhook finds the address of a connection in its source text: an IPv4 address with or
  without a port, and an address in brackets with or without a port, each with or without the tcp:
  or udp: scheme.  An IPv6 address without brackets whose last group is decimal digits is not found,
  since the pattern takes that group for the port.\<close>

theorem source_address_found:
  assumes "parse_ip h \<noteq> None" and "scheme \<in> {[], ''tcp:'', ''udp:''}" and "port_tail t"
  shows "extract_webhook_ip (scheme @ ''['' @ h @ '']'' @ t) = h
    \<and> (CHR '':'' \<notin> set h \<longrightarrow> extract_webhook_ip (scheme @ h @ t) = h)
    \<and> (\<forall>p ds. h = p @ '':'' @ ds \<and> p \<noteq> [] \<and> ds \<noteq> [] \<and> list_all is_digit ds \<longrightarrow> extract_webhook_ip (scheme @ h) \<noteq> h)"
proof (intro conjI allI impI)
  note chars = parse_ip_chars [OF assms(1)] and ne = parse_ip_not_Nil [OF assms(1)]
  have hd: "hd h \<noteq> CHR ''t'' \<and> hd h \<noteq> CHR ''u''" using chars ne by (cases h) (auto dest: address_not)
  have "host_match (''['' @ h @ '']'' @ t) = Some h"
    using bracket_host_address [OF chars ne assms(3)] by (simp add: host_match_def)
  from extract_with_scheme [OF assms(2) this] assms(1)
  show "extract_webhook_ip (scheme @ ''['' @ h @ '']'' @ t) = h" by simp
  {
    assume "CHR '':'' \<notin> set h"
    then have "host_match (h @ t) = Some h"
      using bare_host_address [OF chars ne _ assms(3)] bracket_host_none [OF chars ne] by (simp add: host_match_def)
    from extract_with_scheme [OF assms(2) this] hd ne assms(1)
    show "extract_webhook_ip (scheme @ h @ t) = h" by simp
  }
  fix p ds assume h: "h = p @ '':'' @ ds \<and> p \<noteq> [] \<and> ds \<noteq> [] \<and> list_all is_digit ds"
  have "no_newline p" using address_no_newline [OF chars, of "length p"] h by simp
  with h obtain k where k: "bare_host h = Some (take k h)" "k \<le> length p"
    using bare_host_short [of h p ds] by auto
  then have "host_match h = Some (take k h)"
    using bracket_host_none [OF chars ne, of "[]"] by (simp add: host_match_def)
  from extract_with_scheme [OF assms(2) this ne hd] k(2) h ne
  show "extract_webhook_ip (scheme @ h) \<noteq> h" by (auto dest!: arg_cong [of _ _ length])
qed

lemma sample_v6: "parse_ip ''2001:db8::1'' \<noteq> None"
  by (simp add: net_eval Let_def)

theorem source_address_found_witness:
  "extract_webhook_ip ''udp:[2001:db8::1]:53'' = ''2001:db8::1'' \<and> extract_webhook_ip ''udp:2001:db8::1'' \<noteq> ''2001:db8::1''"
proof -
  have "port_tail '':53''" by (simp add: port_tail_def is_digit_def)
  note f = source_address_found [OF sample_v6 _ this, of "''udp:''"]
  have "''2001:db8::1'' = ''2001:db8:'' @ '':'' @ ''1'' \<and> ''2001:db8:'' \<noteq> [] \<and> ''1'' \<noteq> [] \<and> list_all is_digit ''1''"
    by (simp add: is_digit_def)
  with f have "extract_webhook_ip (''udp:'' @ ''2001:db8::1'') \<noteq> ''2001:db8::1''" by blast
  moreover from f have "extract_webhook_ip (''udp:'' @ ''['' @ ''2001:db8::1'' @ '']'' @ '':53'') = ''2001:db8::1''" by blast
  ultimately show ?thesis by simp
qed

section \<open>Reports\<close>

definition with_reports :: "torrent_report list \<Rightarrow> plugin_world \<Rightarrow> plugin_world" where
  "with_reports rs w = w\<lparr>pw_state := (pw_state w)\<lparr>ps_reports := rs\<rparr>\<rparr>"

lemma with_reports_simps [simp]:
  "pw_calls (with_reports rs w) = pw_calls w" "ps_reports (pw_state (with_reports rs w)) = rs"
  "ps_torrent (pw_state (with_reports rs w)) = ps_torrent (pw_state w)"
  "ps_whitelist (pw_state (with_reports rs w)) = ps_whitelist (pw_state w)"
  "with_reports rs (with_reports qs w) = with_reports rs w"
  "with_reports (ps_reports (pw_state w)) w = w"
  by (simp_all add: with_reports_def)

lemma run_nft_reports: "run_nft env c (with_reports rs w) = map_prod id (with_reports rs) (run_nft env c w)"
  by (simp add: run_nft_def with_reports_def emit_def Let_def)

lemma block_ip_reports: "block_ip env ip t (with_reports rs w) = map_prod id (with_reports rs) (block_ip env ip t w)"
  by (auto simp: block_ip_def run_nft_reports split: option.splits)

lemma unblock_ip_reports: "unblock_ip env ip (with_reports rs w) = map_prod id (with_reports rs) (unblock_ip env ip w)"
  by (auto simp: unblock_ip_def run_nft_reports split: option.splits)

lemma service_drop_reports: "service_drop env ip (with_reports rs w) = with_reports rs (service_drop env ip w)"
  by (auto simp: service_drop_def is_whitelisted_def [abs_def] split: option.splits) (simp add: with_reports_def emit_def)

lemma block_loop_reports: "block_loop env items (with_reports rs w) = map_prod id (with_reports rs) (block_loop env items w)"
proof (induction env items w rule: block_loop.induct)
  case (2 env ip timeout items w)
  obtain ok w' where "block_ip env ip timeout w = (ok, w')" by force
  with "2.IH" [of ok w'] show ?case by (cases ok) (simp_all add: block_ip_reports service_drop_reports)
qed simp

lemma unblock_loop_reports: "unblock_loop env ips (with_reports rs w) = map_prod id (with_reports rs) (unblock_loop env ips w)"
proof (induction env ips w rule: unblock_loop.induct)
  case (2 env ip ips w)
  obtain ok w' where "unblock_ip env ip w = (ok, w')" by force
  with "2.IH" [of ok w'] show ?case by (cases ok) (simp_all add: unblock_ip_reports)
qed simp

text \<open>The reports that one event adds.\<close>

definition webhook_new :: "plugin_env \<Rightarrow> jmap \<Rightarrow> plugin_world \<Rightarrow> torrent_report list" where
  "webhook_new env payload w = drop (length (ps_reports (pw_state w))) (ps_reports (pw_state (handle_xray_webhook env payload w)))"

lemma webhook_reports:
  "handle_xray_webhook env payload (with_reports rs w)
    = with_reports (rs @ webhook_new env payload w) (handle_xray_webhook env payload w)"
proof -
  have eq: "torrent_blocker_enabled (pw_state (with_reports rs w)) = torrent_blocker_enabled (pw_state w)"
    "is_torrent_ip_ignored (pw_state (with_reports rs w)) = is_torrent_ip_ignored (pw_state w)"
    "is_torrent_user_ignored (pw_state (with_reports rs w)) = is_torrent_user_ignored (pw_state w)"
    "torrent_block_duration (pw_state (with_reports rs w)) = torrent_block_duration (pw_state w)"
    by (auto simp: torrent_blocker_enabled_def is_torrent_ip_ignored_def is_torrent_user_ignored_def torrent_block_duration_def)
  show ?thesis
    unfolding handle_xray_webhook_def webhook_new_def eq Let_def
    by (auto simp: block_ip_reports service_drop_reports case_prod_beta add_report_def) (simp_all add: with_reports_def)
qed

fun report_event :: "plugin_event \<Rightarrow> bool" where
  "report_event (Sync _) = False"
| "report_event _ = True"

fun is_collect :: "plugin_event \<Rightarrow> bool" where
  "is_collect Collect = True"
| "is_collect _ = False"

lemma step_reports:
  assumes "report_event e" "\<not> is_collect e"
  obtains new where "\<And>rs. plugin_step env e (with_reports rs w) = with_reports (rs @ new) (plugin_step env e w)"
proof (cases e)
  case (Webhook payload)
  then show thesis using that [of "webhook_new env payload w"] by (simp add: webhook_reports)
next
  case (Block body)
  then show thesis using that [of "[]"] by (simp add: handle_block_ips_def block_loop_reports split: option.splits)
next
  case (Unblock body)
  then show thesis using that [of "[]"] by (simp add: handle_unblock_ips_def unblock_loop_reports split: option.splits)
next
  case Recreate_Tables
  then show thesis using that [of "[]"]
    by (simp add: handle_recreate_tables_def recreate_tables_def run_nft_reports case_prod_beta)
qed (use assms in auto)

text \<open>The reports in the replies to a sequence of requests, in their order.\<close>

fun delivered :: "plugin_env \<Rightarrow> plugin_event list \<Rightarrow> plugin_world \<Rightarrow> torrent_report list" where
  "delivered env [] w = []"
| "delivered env (e # es) w =
     (case e of Collect \<Rightarrow> (case fst (handle_collect_reports w) of Reports rs \<Rightarrow> rs | _ \<Rightarrow> []) | _ \<Rightarrow> [])
     @ delivered env es (plugin_step env e w)"

lemma run_with_reports:
  assumes "list_all report_event es" "list_all (\<lambda>e. \<not> is_collect e) es"
  shows "\<exists>new. \<forall>rs. plugin_run env es (with_reports rs w) = with_reports (rs @ new) (plugin_run env es w)"
  using assms
proof (induction es arbitrary: w)
  case Nil
  show ?case by (intro exI [of _ "[]"]) (simp add: plugin_run_def)
next
  case (Cons e es)
  then obtain new where new: "\<And>rs. plugin_step env e (with_reports rs w) = with_reports (rs @ new) (plugin_step env e w)"
    using step_reports [of e env w] by auto
  from Cons obtain new' where
    "\<forall>rs. plugin_run env es (with_reports rs (plugin_step env e w)) = with_reports (rs @ new') (plugin_run env es (plugin_step env e w))"
    by auto
  with new show ?case by (intro exI [of _ "new @ new'"]) (simp add: plugin_run_def)
qed

lemma collect_step:
  "snd (handle_collect_reports w) = with_reports [] w"
  "(case fst (handle_collect_reports w) of Reports rs \<Rightarrow> rs | _ \<Rightarrow> []) = ps_reports (pw_state w)"
  by (simp_all add: handle_collect_reports_def flush_reports_def with_reports_def)

lemma delivered_run:
  assumes "list_all report_event es"
  shows "delivered env es w @ ps_reports (pw_state (plugin_run env es w))
    = ps_reports (pw_state (plugin_run env (filter (\<lambda>e. \<not> is_collect e) es) w))"
  using assms
proof (induction es arbitrary: w)
  case (Cons e es)
  show ?case
  proof (cases "is_collect e")
    case True
    then have e: "e = Collect" by (cases e) auto
    let ?es = "filter (\<lambda>e. \<not> is_collect e) es"
    obtain new where new: "\<forall>rs. plugin_run env ?es (with_reports rs w) = with_reports (rs @ new) (plugin_run env ?es w)"
      using run_with_reports [of ?es env w] Cons.prems by (auto simp: list_all_iff)
    from new [rule_format, of "ps_reports (pw_state w)"]
    have "plugin_run env ?es w = with_reports (ps_reports (pw_state w) @ new) (plugin_run env ?es w)" by simp
    then have "ps_reports (pw_state (plugin_run env ?es w)) = ps_reports (pw_state w) @ new"
      by (metis with_reports_simps(2))
    with Cons.IH [of "with_reports [] w"] Cons.prems new show ?thesis
      by (simp add: e plugin_run_def collect_step)
  next
    case False
    then have "(case e of Collect \<Rightarrow> (case fst (handle_collect_reports w) of Reports rs \<Rightarrow> rs | _ \<Rightarrow> []) | _ \<Rightarrow> []) = []"
      by (cases e) auto
    with False Cons show ?thesis by (simp add: plugin_run_def)
  qed
qed (simp add: plugin_run_def)

text \<open>Reports are delivered once: between two synchronisations, whatever mixture of webhook calls,
  blocks, unblocks, re-creations of the tables and collections arrives, what the collections have
  returned followed by what is still pending is, in order, what would have piled up without any
  collection.\<close>

theorem reports_delivered_once:
  assumes "list_all report_event es"
  shows "delivered env es w @ ps_reports (pw_state (plugin_run env es w))
    = ps_reports (pw_state (plugin_run env (filter (\<lambda>e. \<not> is_collect e) es) w))"
  using assms by (rule delivered_run)

theorem reports_delivered_once_witness:
  "length (delivered sample_plugin_env [Webhook [(''email'', VStr ''7''), (''source'', VStr ''tcp:127.0.0.2:443'')], Collect] live_world) = 1"
proof -
  let ?p = "[(''email'', VStr ''7''), (''source'', VStr ''tcp:127.0.0.2:443'')]"
  have ok: "list_all report_event [Webhook ?p, Collect]" by simp
  have "torrent_blocker_enabled (pw_state live_world)" "\<not> is_torrent_ip_ignored (pw_state live_world) ''127.0.0.2''"
    "\<not> is_torrent_user_ignored (pw_state live_world) ''7''" "ps_reports (pw_state live_world) = []"
    by (simp_all add: torrent_blocker_enabled_def is_torrent_ip_ignored_def is_torrent_user_ignored_def live_world_def
        new_state_def no_torrent_def default_ignored_ips_def)
  then have "length (ps_reports (pw_state (handle_xray_webhook sample_plugin_env ?p live_world))) = 1"
    by (simp add: handle_xray_webhook_def loopback_source Let_def case_prod_beta add_report_def)
  with reports_delivered_once [OF ok, of sample_plugin_env live_world] show ?thesis
    by (simp add: plugin_run_def collect_step)
qed

end
