(* ===== verification/GoTime.thy ===== *)
theory GoTime
  imports GoNet
begin

text \<open>time.Parse for the layouts the program uses, on the proleptic Gregorian calendar.\<close>

section \<open>The calendar\<close>

definition leap_year :: "nat \<Rightarrow> bool" where
  "leap_year y \<longleftrightarrow> y mod 4 = 0 \<and> (y mod 100 \<noteq> 0 \<or> y mod 400 = 0)"

definition days_in_month :: "nat \<Rightarrow> nat \<Rightarrow> nat" where
  "days_in_month y m =
     (if m = 2 then (if leap_year y then 29 else 28)
      else if m \<in> {4, 6, 9, 11} then 30 else 31)"

text \<open>Days from 1 January 1970 to a day of the proleptic Gregorian calendar.\<close>

definition leap_days :: "int \<Rightarrow> int" where
  "leap_days y = y div 4 - y div 100 + y div 400"

definition epoch_days :: "nat \<Rightarrow> nat \<Rightarrow> nat \<Rightarrow> int" where
  "epoch_days y m d =
     365 * (int y - 1970) + leap_days (int y - 1) - leap_days 1969
     + int (sum_list (map (days_in_month y) [1..<m])) + int d - 1"

section \<open>Layouts\<close>

text \<open>The elements of a time layout that the program uses, with the name each has in package
  time: 2006, 01, 02, 15, 04, 05, .000, Z07:00, and a literal character.\<close>

datatype std = Year | Zero_Month | Zero_Day | Hour | Zero_Minute | Zero_Second
  | Frac_Second nat | Colon_TZ | Literal char

definition log_layout :: "std list" where
  "log_layout = [Year, Literal (CHR ''/''), Zero_Month, Literal (CHR ''/''), Zero_Day,
     Literal (CHR '' ''), Hour, Literal (CHR '':''), Zero_Minute, Literal (CHR '':''), Zero_Second]"

definition rfc3339_seconds :: "std list" where
  "rfc3339_seconds = [Year, Literal (CHR ''-''), Zero_Month, Literal (CHR ''-''), Zero_Day,
     Literal (CHR ''T''), Hour, Literal (CHR '':''), Zero_Minute, Literal (CHR '':''), Zero_Second]"

definition iso_milliseconds_layout :: "std list" where
  "iso_milliseconds_layout = rfc3339_seconds @ [Frac_Second 3, Literal (CHR ''Z'')]"

definition rfc3339_layout :: "std list" where
  "rfc3339_layout = rfc3339_seconds @ [Colon_TZ]"

definition date_layout :: "std list" where
  "date_layout = [Year, Zero_Month, Zero_Day]"

record time_fields =
  tf_year :: nat
  tf_month :: nat
  tf_day :: nat
  tf_hour :: nat
  tf_minute :: nat
  tf_second :: nat
  tf_nanos :: nat
  tf_zone :: int

definition no_fields :: time_fields where
  "no_fields = \<lparr>tf_year = 0, tf_month = 0, tf_day = 0, tf_hour = 0, tf_minute = 0, tf_second = 0,
     tf_nanos = 0, tf_zone = 0\<rparr>"

section \<open>time.Parse\<close>

text \<open>getnum: two digits, or one when the width is not fixed.\<close>

definition getnum :: "bool \<Rightarrow> string \<Rightarrow> (nat \<times> string) option" where
  "getnum fixed v = (case v of
     [] \<Rightarrow> None
   | a # r \<Rightarrow>
       if \<not> is_digit a then None
       else (case r of
           b # r' \<Rightarrow> if is_digit b then Some (10 * digit_val a + digit_val b, r')
             else if fixed then None else Some (digit_val a, r)
         | [] \<Rightarrow> if fixed then None else Some (digit_val a, [])))"

definition comma_or_period :: "char \<Rightarrow> bool" where
  "comma_or_period c \<longleftrightarrow> c = CHR ''.'' \<or> c = CHR '',''"

text \<open>parseNanoseconds on a separator and its digits, at most nine of which count.\<close>

definition parse_nanoseconds :: "string \<Rightarrow> nat option" where
  "parse_nanoseconds t = (case t of
     [] \<Rightarrow> None
   | c # ds \<Rightarrow>
       if \<not> comma_or_period c then None
       else (case atoi (take 9 ds) of
           Some ns \<Rightarrow> if ns < 0 then None else Some (nat ns * 10 ^ (9 - length (take 9 ds)))
         | None \<Rightarrow> None))"

text \<open>A fraction after the seconds is read even when the layout has none.\<close>

definition extra_fraction :: "std list \<Rightarrow> string \<Rightarrow> time_fields \<Rightarrow> (time_fields \<times> string) option" where
  "extra_fraction layout v f = (case (layout, v) of
     (Frac_Second _ # _, _) \<Rightarrow> Some (f, v)
   | (_, c # d # r) \<Rightarrow>
       if comma_or_period c \<and> is_digit d then
         (let digits = takeWhile is_digit (d # r) in
          map_option (\<lambda>ns. (f\<lparr>tf_nanos := ns\<rparr>, drop (Suc (length digits)) v))
            (parse_nanoseconds (c # digits)))
       else Some (f, v)
   | _ \<Rightarrow> Some (f, v))"

definition parse_zone :: "string \<Rightarrow> (int \<times> string) option" where
  "parse_zone v =
     (if has_prefix v ''Z'' then Some (0, drop 1 v)
      else if length v < 6 \<or> v ! 3 \<noteq> CHR '':'' then None
      else (case (getnum True (take 2 (drop 1 v)), getnum True (take 2 (drop 4 v))) of
          (Some (hr, _), Some (mm, _)) \<Rightarrow>
            if hr > 24 \<or> mm > 60 then None
            else if hd v = CHR ''+'' then Some (int (hr * 60 + mm) * 60, drop 6 v)
            else if hd v = CHR ''-'' then Some (- (int (hr * 60 + mm) * 60), drop 6 v)
            else None
        | _ \<Rightarrow> None))"

text \<open>One element of the layout; skip lets a space stand for any number of spaces.\<close>

fun parse_std :: "std list \<Rightarrow> std \<Rightarrow> string \<Rightarrow> time_fields \<Rightarrow> (time_fields \<times> string) option" where
  "parse_std rest (Literal c) v f =
     (if c = CHR '' '' then
        (if v \<noteq> [] \<and> hd v \<noteq> CHR '' '' then None else Some (f, dropWhile (\<lambda>x. x = CHR '' '') v))
      else if has_prefix v [c] then Some (f, drop 1 v) else None)"
| "parse_std rest Year v f =
     (if length v < 4 then None
      else map_option (\<lambda>y. (f\<lparr>tf_year := y\<rparr>, drop 4 v)) (parse_digits (take 4 v)))"
| "parse_std rest Zero_Month v f = (case getnum True v of
     Some (n, v') \<Rightarrow> if n = 0 \<or> 12 < n then None else Some (f\<lparr>tf_month := n\<rparr>, v')
   | None \<Rightarrow> None)"
| "parse_std rest Zero_Day v f =
     map_option (\<lambda>(n, v'). (f\<lparr>tf_day := n\<rparr>, v')) (getnum True v)"
| "parse_std rest Hour v f = (case getnum False v of
     Some (n, v') \<Rightarrow> if 24 \<le> n then None else Some (f\<lparr>tf_hour := n\<rparr>, v')
   | None \<Rightarrow> None)"
| "parse_std rest Zero_Minute v f = (case getnum True v of
     Some (n, v') \<Rightarrow> if 60 \<le> n then None else Some (f\<lparr>tf_minute := n\<rparr>, v')
   | None \<Rightarrow> None)"
| "parse_std rest Zero_Second v f = (case getnum True v of
     Some (n, v') \<Rightarrow> if 60 \<le> n then None else extra_fraction rest v' (f\<lparr>tf_second := n\<rparr>)
   | None \<Rightarrow> None)"
| "parse_std rest (Frac_Second k) v f =
     (if length v < Suc k then None
      else map_option (\<lambda>ns. (f\<lparr>tf_nanos := ns\<rparr>, drop (Suc k) v))
        (parse_nanoseconds (take (Suc k) v)))"
| "parse_std rest Colon_TZ v f =
     map_option (\<lambda>(z, v'). (f\<lparr>tf_zone := z\<rparr>, v')) (parse_zone v)"

fun parse_fields :: "std list \<Rightarrow> string \<Rightarrow> time_fields \<Rightarrow> time_fields option" where
  "parse_fields [] v f = (if v = [] then Some f else None)"
| "parse_fields (s # rest) v f = (case parse_std rest s v f of
     Some (f', v') \<Rightarrow> parse_fields rest v' f'
   | None \<Rightarrow> None)"

text \<open>An instant is the nanoseconds since the Unix epoch.\<close>

definition time_of_fields :: "time_fields \<Rightarrow> int option" where
  "time_of_fields f =
     (if tf_day f < 1 \<or> days_in_month (tf_year f) (tf_month f) < tf_day f then None
      else Some ((epoch_days (tf_year f) (tf_month f) (tf_day f) * 86400
        + int (tf_hour f * 3600 + tf_minute f * 60 + tf_second f) - tf_zone f) * 10 ^ 9
        + int (tf_nanos f)))"

definition time_parse :: "std list \<Rightarrow> string \<Rightarrow> int option" where
  "time_parse layout v = (case parse_fields layout v no_fields of
     Some f \<Rightarrow> time_of_fields f | None \<Rightarrow> None)"

lemmas time_eval = time_parse_def time_of_fields_def parse_zone_def extra_fraction_def
  parse_nanoseconds_def comma_or_period_def getnum_def no_fields_def date_layout_def
  rfc3339_layout_def iso_milliseconds_layout_def rfc3339_seconds_def log_layout_def
  epoch_days_def leap_days_def days_in_month_def leap_year_def

end
