(* ===== verification/AuditLog.thy ===== *)
theory AuditLog
  imports GoPath GoTime
begin

text \<open>internal/auditlog/service.go: reading the access and the error log in chunks, their metadata and
  catalog, and httpserver/audit.go.  What the operating system answers is a parameter; Stat and Open
  are separate answers, as they are separate calls.\<close>

section \<open>What the operating system answers\<close>

text \<open>A call on a path finds something, finds nothing (os.ErrNotExist), or fails otherwise.\<close>

datatype 'a sys = Found 'a | Missing | Failed

record log_file =
  lf_inode :: nat
  lf_data :: string
  lf_unreadable :: bool

text \<open>A view of the file system during one call.  Stat and Open are separate system calls, so what
  they find may differ.\<close>

record os_view =
  ov_stat :: "string \<Rightarrow> log_file sys"
  ov_regular :: "string \<Rightarrow> bool sys"
  ov_open :: "string \<Rightarrow> log_file sys"
  ov_glob :: "string \<Rightarrow> string list option"

definition file_size :: "log_file \<Rightarrow> int" where
  "file_size f = int (length (lf_data f))"

definition inode_string :: "log_file \<Rightarrow> string" where
  "inode_string f = format_int 10 (int (lf_inode f))"

text \<open>File.ReadAt: the bytes from an offset, fewer than asked for at the end of the file.\<close>

definition read_range :: "log_file \<Rightarrow> int \<Rightarrow> int \<Rightarrow> string option" where
  "read_range f off len =
     (if lf_unreadable f then None else Some (take (nat len) (drop (nat off) (lf_data f))))"

section \<open>Requests and results\<close>

type_synonym source = string

abbreviation (input) source_access :: source where "source_access \<equiv> ''access''"
abbreviation (input) source_error :: source where "source_error \<equiv> ''error''"

datatype audit_error = Inode_Changed | Invalid_Source | Invalid_Segment_Id | Not_Regular
  | Os_Error | Bad_Retention

record audit_service =
  access_path :: string
  error_path :: string

record chunk_request =
  cr_end_offset :: "int option"
  cr_expected_inode :: string
  cr_from_timestamp :: "int option"
  cr_initial_tail_bytes :: int
  cr_max_read_bytes :: int
  cr_offset :: "int option"
  cr_source :: source
  cr_segment_id :: string

record chunk =
  ck_file_inode :: "string option"
  ck_lines :: "string list"
  ck_line_offsets :: "int list"
  ck_line_offsets_text :: "string list"
  ck_next_offset :: int
  ck_next_offset_text :: string
  ck_read_start :: int
  ck_read_start_text :: string
  ck_source :: source
  ck_total_size :: int
  ck_total_size_text :: string

definition new_service_for_log_dir :: "string \<Rightarrow> audit_service" where
  "new_service_for_log_dir dir =
     \<lparr>access_path = path_join [dir, ''access.log''], error_path = path_join [dir, ''error.log'']\<rparr>"

section \<open>Lines and offsets\<close>

definition newline :: char where "newline = CHR 0x0A"
definition carriage_return :: char where "carriage_return = CHR 0x0D"

definition drop_partial_first_line :: "string \<Rightarrow> int \<Rightarrow> string \<times> int" where
  "drop_partial_first_line s read_start =
     (if has_prefix s [newline] \<or> has_prefix s [carriage_return, newline] then (s, read_start)
      else if newline \<notin> set s then ([], read_start)
      else (let k = Suc (length (before newline s)) in (drop k s, read_start + int k)))"

definition trim_cr :: "string \<Rightarrow> string" where
  "trim_cr raw = (if has_suffix raw [carriage_return] then butlast raw else raw)"

text \<open>The loop over the parts of the text: the lines with their offsets.\<close>

fun lines_at :: "int \<Rightarrow> string list \<Rightarrow> (string \<times> int) list" where
  "lines_at position [] = []"
| "lines_at position (raw # parts) =
     (let line = trim_cr raw; rest = lines_at (position + int (length raw) + 1) parts in
      if line \<noteq> [] then (line, position) # rest else rest)"

definition split_complete_lines_with_offsets ::
  "string \<Rightarrow> int \<Rightarrow> string list \<times> int list \<times> int"
where
  "split_complete_lines_with_offsets s read_start = (case last_index newline s of
     None \<Rightarrow> ([], [], read_start)
   | Some i \<Rightarrow>
       (let complete = take (Suc i) s; found = lines_at read_start (split_on newline complete) in
        (map fst found, map snd found, read_start + int (length complete))))"

definition split_complete_lines :: "string \<Rightarrow> int \<Rightarrow> string list \<times> int" where
  "split_complete_lines s read_start =
     (let (lines, _, next) = split_complete_lines_with_offsets s read_start in (lines, next))"

definition parse_timestamp :: "string \<Rightarrow> int option" where
  "parse_timestamp line =
     (let attempt = (\<lambda>n layout. if n \<le> length line then time_parse layout (take n line) else None) in
      case attempt 19 log_layout of Some t \<Rightarrow> Some t
      | None \<Rightarrow> (case attempt 24 iso_milliseconds_layout of Some t \<Rightarrow> Some t
                | None \<Rightarrow> attempt 25 rfc3339_layout))"

definition line_timestamps :: "string \<Rightarrow> int list" where
  "line_timestamps s = List.map_filter (\<lambda>line. parse_timestamp (trim_cr line)) (split_on newline s)"

definition first_timestamp :: "string \<Rightarrow> int option" where
  "first_timestamp s = (case line_timestamps s of [] \<Rightarrow> None | t # _ \<Rightarrow> Some t)"

definition last_timestamp :: "string \<Rightarrow> int option" where
  "last_timestamp s = (case line_timestamps s of [] \<Rightarrow> None | ts \<Rightarrow> Some (last ts))"

section \<open>ReadChunk\<close>

definition path_for :: "audit_service \<Rightarrow> source \<Rightarrow> audit_error + string" where
  "path_for s src =
     (if src = source_access then Inr (access_path s)
      else if src = source_error then Inr (error_path s) else Inl Invalid_Source)"

definition path_for_segment :: "os_view \<Rightarrow> audit_service \<Rightarrow> source \<Rightarrow> string \<Rightarrow> audit_error + string" where
  "path_for_segment os s src segment = (case path_for s src of
     Inl e \<Rightarrow> Inl e
   | Inr active \<Rightarrow>
       if segment = path_base active then Inr active
       else if path_base segment \<noteq> segment
           \<or> \<not> has_prefix segment (path_base active @ ''.segment-'') \<or> \<not> has_suffix segment ''.sealed''
         then Inl Invalid_Segment_Id
       else (let path = path_join [path_dir active, segment] in
         case ov_regular os path of
           Found regular \<Rightarrow> if regular then Inr path else Inl Not_Regular
         | _ \<Rightarrow> Inl Os_Error))"

definition default_initial_tail_bytes :: int where "default_initial_tail_bytes = 1000000"
definition default_max_read_bytes :: int where "default_max_read_bytes = 5000000"
definition metadata_window_bytes :: int where "metadata_window_bytes = 1000000"

definition or_default :: "int \<Rightarrow> int \<Rightarrow> int" where
  "or_default v d = (if v \<le> 0 then d else v)"

definition is_initial_tail :: "chunk_request \<Rightarrow> int \<Rightarrow> bool" where
  "is_initial_tail rq extent = (case cr_offset rq of None \<Rightarrow> True | Some off \<Rightarrow> off > extent)"

definition requested_offset :: "chunk_request \<Rightarrow> int \<Rightarrow> int" where
  "requested_offset rq extent = max 0
     (if is_initial_tail rq extent
      then max 0 (extent - or_default (cr_initial_tail_bytes rq) default_initial_tail_bytes)
      else (case cr_offset rq of Some off \<Rightarrow> off | None \<Rightarrow> 0))"

definition snapshot_end :: "chunk_request \<Rightarrow> int \<Rightarrow> int" where
  "snapshot_end rq extent = max 0 (case cr_end_offset rq of
     Some e \<Rightarrow> if e < extent then e else extent | None \<Rightarrow> extent)"

definition read_end :: "chunk_request \<Rightarrow> int \<Rightarrow> int" where
  "read_end rq extent =
     (let candidate = wrap64 (requested_offset rq extent
            + or_default (cr_max_read_bytes rq) default_max_read_bytes) in
      if candidate < snapshot_end rq extent then candidate else snapshot_end rq extent)"

definition missing_chunk :: "source \<Rightarrow> chunk" where
  "missing_chunk src = \<lparr>ck_file_inode = None, ck_lines = [], ck_line_offsets = [],
     ck_line_offsets_text = [], ck_next_offset = 0, ck_next_offset_text = [], ck_read_start = 0,
     ck_read_start_text = [], ck_source = src, ck_total_size = 0, ck_total_size_text = []\<rparr>"

definition chunk_of ::
  "log_file \<Rightarrow> source \<Rightarrow> (string \<times> int) list \<Rightarrow> int \<Rightarrow> int \<Rightarrow> int \<Rightarrow> chunk"
where
  "chunk_of info src found start next extent =
     \<lparr>ck_file_inode = Some (inode_string info), ck_lines = map fst found,
      ck_line_offsets = map snd found, ck_line_offsets_text = map (format_int 10 \<circ> snd) found,
      ck_next_offset = next, ck_next_offset_text = format_int 10 next,
      ck_read_start = start, ck_read_start_text = format_int 10 start,
      ck_source = src, ck_total_size = extent, ck_total_size_text = format_int 10 extent\<rparr>"

definition keeps_line :: "int option \<Rightarrow> string \<Rightarrow> bool" where
  "keeps_line from line = (case from of
     None \<Rightarrow> True
   | Some t \<Rightarrow> (case parse_timestamp line of None \<Rightarrow> True | Some ts \<Rightarrow> \<not> ts < t))"

text \<open>The text between readStart and readEnd, cut to whole lines and filtered.\<close>

definition chunk_of_text :: "log_file \<Rightarrow> chunk_request \<Rightarrow> string \<Rightarrow> chunk" where
  "chunk_of_text info rq s =
     (let extent = file_size info;
          start0 = requested_offset rq extent;
          (s', start) = (if is_initial_tail rq extent \<and> start0 > 0
             then drop_partial_first_line s start0 else (s, start0));
          (lines, offsets, next) = split_complete_lines_with_offsets s' start
      in chunk_of info (cr_source rq)
           (filter (\<lambda>(line, _). keeps_line (cr_from_timestamp rq) line) (zip lines offsets))
           start next (snapshot_end rq extent))"

definition read_chunk_at :: "os_view \<Rightarrow> string \<Rightarrow> chunk_request \<Rightarrow> audit_error + chunk" where
  "read_chunk_at os path rq = (case ov_stat os path of
     Missing \<Rightarrow> Inr (missing_chunk (cr_source rq))
   | Failed \<Rightarrow> Inl Os_Error
   | Found info \<Rightarrow>
       (let extent = file_size info; start = requested_offset rq extent; stop = read_end rq extent in
        if cr_expected_inode rq \<noteq> [] \<and> cr_expected_inode rq \<noteq> inode_string info
          then Inl Inode_Changed
        else if start \<ge> stop
          then Inr (chunk_of info (cr_source rq) [] start (snapshot_end rq extent) (snapshot_end rq extent))
        else (case ov_open os path of
            Found file \<Rightarrow> (case read_range file start (stop - start) of
                Some s \<Rightarrow> Inr (chunk_of_text info rq s)
              | None \<Rightarrow> Inl Os_Error)
          | _ \<Rightarrow> Inl Os_Error)))"

definition read_chunk :: "os_view \<Rightarrow> audit_service \<Rightarrow> chunk_request \<Rightarrow> audit_error + chunk" where
  "read_chunk os s rq = (case path_for s (cr_source rq) of
     Inl e \<Rightarrow> Inl e
   | Inr active \<Rightarrow>
       if cr_segment_id rq = [] then read_chunk_at os active rq
       else (case path_for_segment os s (cr_source rq) (cr_segment_id rq) of
           Inl e \<Rightarrow> Inl e
         | Inr path \<Rightarrow> read_chunk_at os path rq))"

end
