(* ===== verification/AuditReader.thy ===== *)
theory AuditReader
  imports AuditLog
begin

text \<open>What a client gets that follows a log chunk by chunk: every complete line once, the end in a
  bounded number of reads, and nothing any more behind a line that is longer than a read.\<close>

section \<open>The lines of a file\<close>

text \<open>The specification of the splitter: the complete non-empty lines with the position of their
  first byte, read from the left.\<close>

function complete_lines :: "int \<Rightarrow> string \<Rightarrow> (string \<times> int) list" where
  "complete_lines pos s =
     (if newline \<notin> set s then []
      else (let raw = before newline s; rest = drop (Suc (length raw)) s in
        (if trim_cr raw = [] then [] else [(trim_cr raw, pos)])
        @ complete_lines (pos + int (Suc (length raw))) rest))"
  by pat_completeness auto
termination
  by (relation "measure (\<lambda>(_, s). length s)") (auto simp: before_def intro!: diff_less length_pos_if_in_set)

declare complete_lines.simps [simp del]

definition complete_part :: "string \<Rightarrow> string" where
  "complete_part s = rev (dropWhile (\<lambda>c. c \<noteq> newline) (rev s))"

lemma before_append [simp]: "c \<notin> set a \<Longrightarrow> before c (a @ c # s) = a"
  unfolding before_def by (subst takeWhile_append2) auto

lemma split_at_sep: "c \<in> set s \<Longrightarrow> \<exists>a r. s = a @ c # r \<and> c \<notin> set a"
  by (metis split_list_first)

lemma complete_lines_none: "newline \<notin> set s \<Longrightarrow> complete_lines pos s = []"
  by (simp add: complete_lines.simps)

lemma complete_lines_line:
  "newline \<notin> set a \<Longrightarrow> complete_lines pos (a @ newline # s) =
     (if trim_cr a = [] then [] else [(trim_cr a, pos)])
     @ complete_lines (pos + int (Suc (length a))) s"
  by (subst complete_lines.simps) (simp add: Let_def)

lemma complete_lines_append:
  "complete_lines pos (a @ newline # s) =
     complete_lines pos (a @ [newline]) @ complete_lines (pos + int (Suc (length a))) s"
proof (induction a arbitrary: pos rule: length_induct)
  case (1 a)
  show ?case
  proof (cases "newline \<in> set a")
    case True
    then obtain u v where a: "a = u @ newline # v" "newline \<notin> set u" using split_at_sep by metis
    have pos: "complete_lines (pos + int (Suc (length u)) + int (Suc (length v))) s
        = complete_lines (pos + int (Suc (length a))) s"
      by (simp add: a(1) add_ac)
    from a(1) 1 have "complete_lines p (v @ newline # s) =
        complete_lines p (v @ [newline]) @ complete_lines (p + int (Suc (length v))) s" for p
      by simp
    then show ?thesis using pos
      by (simp only: a(1) complete_lines_line [OF a(2)] append_Cons append_assoc)
  next
    case False
    then show ?thesis by (simp add: complete_lines_line complete_lines_none)
  qed
qed

lemma complete_part_none: "newline \<notin> set s \<Longrightarrow> complete_part s = []"
  by (auto simp: complete_part_def)

lemma complete_part_snoc: "newline \<notin> set t \<Longrightarrow> complete_part (a @ newline # t) = a @ [newline]"
  unfolding complete_part_def by (simp, subst dropWhile_append2) auto

lemma complete_part_line: "complete_part (a @ newline # t) = a @ newline # complete_part t"
proof (cases "newline \<in> set t")
  case True
  then show ?thesis
    unfolding complete_part_def rev_append rev.simps append_assoc
    by (subst dropWhile_append1 [of newline]) auto
qed (simp add: complete_part_snoc complete_part_none)

lemma complete_part_cases:
  obtains (none) "newline \<notin> set s" "complete_part s = []"
  | (some) a t where "s = a @ newline # t" "newline \<notin> set t" "complete_part s = a @ [newline]"
  using split_list_last [of newline s] complete_part_none complete_part_snoc by metis

lemma last_index_newline:
  "last_index c s = (if c \<in> set s then Some (length s - Suc (length (takeWhile (\<lambda>x. x \<noteq> c) (rev s)))) else None)"
  by (simp add: last_index_def)

lemma last_index_snoc: "c \<notin> set t \<Longrightarrow> last_index c (a @ c # t) = Some (length a)"
  unfolding last_index_newline by (simp, subst takeWhile_append2) auto

lemma complete_lines_part: "complete_lines pos s = complete_lines pos (complete_part s)"
proof (cases s rule: complete_part_cases)
  case (some a t)
  then show ?thesis
    by (simp add: complete_lines_append [of pos a t] complete_lines_none [of t])
qed (simp add: complete_lines_none)

lemma lines_at_complete: "lines_at pos (split_on newline (a @ [newline])) = complete_lines pos (a @ [newline])"
proof (induction a arbitrary: pos rule: length_induct)
  case (1 a)
  show ?case
  proof (cases "newline \<in> set a")
    case True
    then obtain u v where a: "a = u @ newline # v" "newline \<notin> set u" using split_at_sep by metis
    with 1 show ?thesis
      by (simp add: split_on_append complete_lines_line add_ac)
  next
    case False
    then show ?thesis
      by (simp add: split_on_append complete_lines_line complete_lines_none trim_cr_def)
  qed
qed

lemma split_complete_lines_spec:
  "split_complete_lines_with_offsets s pos =
     (map fst (complete_lines pos s), map snd (complete_lines pos s), pos + int (length (complete_part s)))"
proof (cases s rule: complete_part_cases)
  case none
  then show ?thesis
    by (simp add: split_complete_lines_with_offsets_def last_index_newline complete_lines_none)
next
  case (some a t)
  have "take (Suc (length a)) s = a @ [newline]" by (simp add: some(1))
  then show ?thesis
    using some(3) lines_at_complete [of pos a] complete_lines_part [of pos s]
    by (simp add: split_complete_lines_with_offsets_def some(1) last_index_snoc [OF some(2)] Let_def)
qed

text \<open>What a listed line is: the bytes of the file from its offset up to a line end.\<close>

lemma complete_lines_sound:
  assumes "(line, off) \<in> set (complete_lines pos s)"
  shows "pos \<le> off \<and> off < pos + int (length (complete_part s)) \<and> line \<noteq> [] \<and> newline \<notin> set line
    \<and> (\<exists>rest. drop (nat (off - pos)) s = line @ newline # rest
         \<or> drop (nat (off - pos)) s = line @ carriage_return # newline # rest)"
  using assms
proof (induction s arbitrary: pos rule: length_induct)
  case (1 s)
  show ?case
  proof (cases "newline \<in> set s")
    case True
    then obtain a t where s: "s = a @ newline # t" "newline \<notin> set a" using split_at_sep by metis
    have len: "length (complete_part s) = Suc (length a) + length (complete_part t)"
      by (simp add: s(1) complete_part_line)
    consider (here) "line = trim_cr a" "off = pos" "trim_cr a \<noteq> []"
      | (later) "(line, off) \<in> set (complete_lines (pos + int (Suc (length a))) t)"
      using 1(2) by (auto simp: s(1) complete_lines_line [OF s(2)] split: if_splits)
    then show ?thesis
    proof cases
      case here
      have "a = trim_cr a \<or> a = trim_cr a @ [carriage_return]"
        by (cases a rule: rev_cases) (auto simp: trim_cr_def has_suffix_def)
      moreover from this have "newline \<notin> set (trim_cr a)" using s(2) by (metis Un_iff set_append)
      moreover have "\<exists>rest. s = trim_cr a @ newline # rest \<or> s = trim_cr a @ carriage_return # newline # rest"
        using calculation(1) by (metis s(1) append_Cons append_Nil append_assoc)
      ultimately show ?thesis using here len by simp
    next
      case later
      have "length t < length s" by (simp add: s(1))
      note IH = 1(1) [rule_format, OF this later]
      have "nat (off - pos) = Suc (length a) + nat (off - (pos + int (Suc (length a))))"
        using IH [THEN conjunct1] by linarith
      then have "drop (nat (off - pos)) s = drop (nat (off - (pos + int (Suc (length a))))) t"
        by (simp add: s(1))
      with IH len show ?thesis by simp
    qed
  qed (use 1(2) in \<open>simp add: complete_lines_none\<close>)
qed

lemma complete_lines_sorted: "sorted_wrt (<) (map snd (complete_lines pos s))"
proof (induction s arbitrary: pos rule: length_induct)
  case (1 s)
  show ?case
  proof (cases "newline \<in> set s")
    case True
    then obtain a t where s: "s = a @ newline # t" "newline \<notin> set a" using split_at_sep by metis
    have "pos < off" if "off \<in> snd ` set (complete_lines (pos + int (Suc (length a))) t)" for off
      using that complete_lines_sound [of _ off "pos + int (Suc (length a))" t] by fastforce
    with 1 s(1) show ?thesis by (simp add: complete_lines_line [OF s(2)] del: of_nat_Suc)
  qed (simp add: complete_lines_none)
qed

section \<open>One read\<close>

definition read_limit :: "chunk_request \<Rightarrow> int" where
  "read_limit rq = or_default (cr_max_read_bytes rq) default_max_read_bytes"

definition window :: "chunk_request \<Rightarrow> int \<Rightarrow> string \<Rightarrow> string" where
  "window rq off s = take (nat (read_limit rq)) (drop (nat off) s)"

text \<open>A request for the bytes from an offset on, without a bound or a filter.\<close>

definition plain_request :: "chunk_request \<Rightarrow> bool" where
  "plain_request rq \<longleftrightarrow> cr_end_offset rq = None \<and> cr_from_timestamp rq = None \<and> cr_segment_id rq = []"

lemma read_limit_pos: "0 < read_limit rq"
  by (simp add: read_limit_def or_default_def default_max_read_bytes_def)

lemma offset_request_bounds:
  assumes "plain_request rq" "cr_offset rq = Some off" "0 \<le> off" "off \<le> sz"
    "sz + read_limit rq < 2 ^ 63"
  shows "\<not> is_initial_tail rq sz" "requested_offset rq sz = off" "snapshot_end rq sz = sz"
    "read_end rq sz = min (off + read_limit rq) sz"
proof -
  show tail: "\<not> is_initial_tail rq sz" using assms by (simp add: is_initial_tail_def)
  then show off: "requested_offset rq sz = off" using assms by (simp add: requested_offset_def)
  show end_: "snapshot_end rq sz = sz" using assms by (simp add: snapshot_end_def plain_request_def)
  have "wrap64 (off + read_limit rq) = off + read_limit rq"
    using assms read_limit_pos [of rq] by (intro wrap64_id) auto
  then show "read_end rq sz = min (off + read_limit rq) sz"
    by (simp add: read_end_def off end_ min_def Let_def read_limit_def [symmetric])
qed

lemma zip_fst_snd: "zip (map fst xs) (map snd xs) = xs"
  by (induction xs) auto

lemma keeps_all: "filter (\<lambda>(line, _). keeps_line None line) xs = xs"
  by (simp add: keeps_line_def)

text \<open>What one read answers: the complete lines of the window of the opened file, under the inode
  of the file that Stat found.\<close>

lemma read_chunk_at_window:
  assumes rq: "plain_request rq" "cr_offset rq = Some off" "0 \<le> off"
    and inode: "cr_expected_inode rq \<in> {[], inode_string info}"
    and stat: "ov_stat os path = Found info" "off < file_size info" "file_size info + read_limit rq < 2 ^ 63"
    and opened: "ov_open os path = Found file" "\<not> lf_unreadable file"
    and w: "w = take (nat (min (off + read_limit rq) (file_size info) - off)) (drop (nat off) (lf_data file))"
  shows "read_chunk_at os path rq = Inr (chunk_of info (cr_source rq) (complete_lines off w) off
    (off + int (length (complete_part w))) (file_size info))"
proof -
  note b = offset_request_bounds [OF rq less_imp_le [OF stat(2)] stat(3)]
  have "\<not> off \<ge> min (off + read_limit rq) (file_size info)"
    using stat(2) read_limit_pos [of rq] by auto
  moreover have "cr_expected_inode rq = [] \<or> cr_expected_inode rq = inode_string info"
    using inode by auto
  moreover have "cr_from_timestamp rq = None" using rq(1) by (simp add: plain_request_def)
  ultimately show ?thesis
    using opened b
    by (auto simp: read_chunk_at_def stat(1) Let_def read_range_def chunk_of_text_def
        split_complete_lines_spec zip_fst_snd keeps_all w)
qed

lemma read_chunk_at_end:
  assumes "plain_request rq" "cr_offset rq = Some off" "0 \<le> off"
    "cr_expected_inode rq \<in> {[], inode_string info}"
    "ov_stat os path = Found info" "off = file_size info" "file_size info + read_limit rq < 2 ^ 63"
  shows "read_chunk_at os path rq = Inr (chunk_of info (cr_source rq) [] off off (file_size info))"
proof -
  have "off \<le> file_size info" using assms(6) by simp
  note b = offset_request_bounds [OF assms(1-3) this assms(7)]
  then show ?thesis using assms by (auto simp: read_chunk_at_def Let_def)
qed

lemma read_chunk_at_offset:
  assumes rq: "plain_request rq" "cr_offset rq = Some off" "0 \<le> off"
    and inode: "cr_expected_inode rq \<in> {[], inode_string info}"
    and stat: "ov_stat os path = Found info" "off \<le> file_size info" "file_size info + read_limit rq < 2 ^ 63"
    and opened: "ov_open os path = Found file" "\<not> lf_unreadable file" "prefix (lf_data info) (lf_data file)"
  shows "read_chunk_at os path rq = Inr (chunk_of info (cr_source rq)
    (complete_lines off (window rq off (lf_data info))) off
    (off + int (length (complete_part (window rq off (lf_data info))))) (file_size info))"
proof (cases "off = file_size info")
  case True
  then have "window rq off (lf_data info) = []" by (simp add: window_def file_size_def)
  with read_chunk_at_end [OF rq inode stat(1) True stat(3)] show ?thesis
    by (simp add: complete_lines_none complete_part_none)
next
  case False
  with stat(2) have off: "off < file_size info" by simp
  obtain t where t: "lf_data file = lf_data info @ t" using opened(3) by (auto simp: prefix_def)
  have "nat (min (off + read_limit rq) (file_size info) - off)
      = min (nat (read_limit rq)) (length (lf_data info) - nat off)"
    using off rq(3) read_limit_pos [of rq] by (auto simp: file_size_def min_def nat_diff_distrib)
  then have "window rq off (lf_data info) =
      take (nat (min (off + read_limit rq) (file_size info) - off)) (drop (nat off) (lf_data file))"
    using off rq(3) by (simp add: window_def t file_size_def min_def)
  from read_chunk_at_window [OF rq inode stat(1) off stat(3) opened(1,2) this] show ?thesis .
qed

section \<open>Following a log\<close>

text \<open>A client that asks from the answered offset on, once for each view; an error is asked again.\<close>

fun follow ::
  "os_view list \<Rightarrow> audit_service \<Rightarrow> chunk_request \<Rightarrow> int \<Rightarrow> (string \<times> int) list \<times> int"
where
  "follow [] s rq off = ([], off)"
| "follow (os # oss) s rq off = (case read_chunk os s (rq\<lparr>cr_offset := Some off\<rparr>) of
     Inl _ \<Rightarrow> follow oss s rq off
   | Inr ck \<Rightarrow>
       (let (found, off') = follow oss s rq (ck_next_offset ck)
        in (zip (ck_lines ck) (ck_line_offsets ck) @ found, off')))"

text \<open>The path keeps its inode and only gets longer, between the reads and inside one.\<close>

fun log_grows :: "string \<Rightarrow> nat \<Rightarrow> string \<Rightarrow> os_view list \<Rightarrow> bool" where
  "log_grows path ino prev [] = True"
| "log_grows path ino prev (os # oss) = (case (ov_stat os path, ov_open os path) of
     (Found info, Found file) \<Rightarrow>
       lf_inode info = ino \<and> \<not> lf_unreadable file \<and> prefix prev (lf_data info)
       \<and> prefix (lf_data info) (lf_data file) \<and> log_grows path ino (lf_data info) oss
   | _ \<Rightarrow> False)"

fun last_data :: "string \<Rightarrow> string \<Rightarrow> os_view list \<Rightarrow> string" where
  "last_data path prev [] = prev"
| "last_data path prev (os # oss) = (case ov_stat os path of
     Found info \<Rightarrow> last_data path (lf_data info) oss | _ \<Rightarrow> last_data path prev oss)"

definition line_start :: "string \<Rightarrow> int \<Rightarrow> bool" where
  "line_start s off \<longleftrightarrow> 0 \<le> off \<and> off \<le> int (length s) \<and> complete_part (take (nat off) s) = take (nat off) s"

lemma complete_part_idem [simp]: "complete_part (complete_part s) = complete_part s"
  by (cases s rule: complete_part_cases) (simp_all add: complete_part_none complete_part_snoc)

lemma complete_part_prefix: "prefix (complete_part s) s"
  by (cases s rule: complete_part_cases) (auto simp: prefix_def)

lemma complete_part_append:
  assumes "complete_part p = p"
  shows "complete_part (p @ t) = p @ complete_part t"
    and "complete_lines pos (p @ t) = complete_lines pos p @ complete_lines (pos + int (length p)) t"
proof -
  have "p = [] \<or> (\<exists>a. p = a @ [newline])"
    using assms by (cases p rule: complete_part_cases) auto
  then show "complete_part (p @ t) = p @ complete_part t"
    and "complete_lines pos (p @ t) = complete_lines pos p @ complete_lines (pos + int (length p)) t"
    by (auto simp: complete_part_line complete_lines_none complete_lines_append [of _ _ t])
qed

lemma line_start_prefix: "line_start s off \<Longrightarrow> prefix s s' \<Longrightarrow> line_start s' off \<and> take (nat off) s' = take (nat off) s"
  by (auto simp: line_start_def prefix_def)

text \<open>The step of the induction: a window read at a line start ends at a line start.\<close>

lemma window_step:
  assumes "line_start s off" and w: "w = window rq off s"
  defines "off' \<equiv> off + int (length (complete_part w))"
  shows "line_start s off'" "off \<le> off'"
    "complete_lines 0 (take (nat off') s) = complete_lines 0 (take (nat off) s) @ complete_lines off w"
proof -
  have off: "0 \<le> off" "nat off \<le> length s" "complete_part (take (nat off) s) = take (nat off) s"
    using assms(1) by (auto simp: line_start_def)
  have "prefix (complete_part w) (drop (nat off) s)"
    using complete_part_prefix [of w] take_is_prefix [of _ "drop (nat off) s"] prefix_order.trans
    unfolding w window_def by blast
  then obtain t where t: "drop (nat off) s = complete_part w @ t" by (auto simp: prefix_def)
  have s: "s = take (nat off) s @ complete_part w @ t" using t by (metis append_take_drop_id)
  have nat: "nat off' = nat off + length (complete_part w)" using off(1) by (simp add: off'_def)
  have take: "take (nat off') s = take (nat off) s @ complete_part w"
    by (subst s) (simp add: nat off(2) min_absorb2)
  have len: "length (take (nat off) s) = nat off" using off(2) by simp
  show "complete_lines 0 (take (nat off') s) = complete_lines 0 (take (nat off) s) @ complete_lines off w"
    using off(1,2) by (simp add: take complete_part_append(2) [OF off(3)] complete_lines_part [of _ w, symmetric] min_absorb2)
  have "nat off' \<le> length s" using s len nat
    by (metis length_append le_add1 add.assoc)
  moreover have "complete_part (take (nat off') s) = take (nat off') s"
    by (simp only: take complete_part_append(1) [OF off(3)] complete_part_idem)
  moreover have "0 \<le> off'" using off(1) by (simp add: off'_def)
  ultimately show "line_start s off'" by (simp add: line_start_def)
  show "off \<le> off'" by (simp add: off'_def)
qed

lemma last_data_prefix: "log_grows path ino prev oss \<Longrightarrow> prefix prev (last_data path prev oss)"
proof (induction oss arbitrary: prev)
  case (Cons os oss)
  then show ?case using prefix_order.trans by (fastforce split: sys.splits)
qed simp

lemma inode_string_eq: "inode_string f = format_int 10 (int (lf_inode f))"
  by (simp add: inode_string_def)

lemma plain_request_offset: "plain_request rq \<Longrightarrow> plain_request (rq\<lparr>cr_offset := v\<rparr>)"
  by (simp add: plain_request_def)

lemma read_limit_offset [simp]: "read_limit (rq\<lparr>cr_offset := v\<rparr>) = read_limit rq"
  by (simp add: read_limit_def)

lemma window_offset [simp]: "window (rq\<lparr>cr_offset := v\<rparr>) off s = window rq off s"
  by (simp add: window_def)

text \<open>One step of the client on a growing log.\<close>

lemma follow_step:
  assumes "plain_request rq" "path_for s (cr_source rq) = Inr path"
    and "cr_expected_inode rq \<in> {[], format_int 10 (int ino)}"
    and "log_grows path ino prev (os # oss)" "line_start prev off"
    and "int (length (last_data path prev (os # oss))) + read_limit rq < 2 ^ 63"
  obtains info where "ov_stat os path = Found info" "prefix prev (lf_data info)"
    "log_grows path ino (lf_data info) oss"
    "\<And>w found off'. \<lbrakk>w = window rq off (lf_data info);
       follow oss s rq (off + int (length (complete_part w))) = (found, off')\<rbrakk>
     \<Longrightarrow> follow (os # oss) s rq off = (complete_lines off w @ found, off')"
proof -
  from assms(4) obtain info fl where v:
    "ov_stat os path = Found info" "ov_open os path = Found fl" "lf_inode info = ino"
    "\<not> lf_unreadable fl" "prefix prev (lf_data info)" "prefix (lf_data info) (lf_data fl)"
    "log_grows path ino (lf_data info) oss"
    by (auto split: sys.splits)
  have "prefix (lf_data info) (last_data path prev (os # oss))"
    using last_data_prefix [OF v(7)] by (simp add: v(1))
  then have "int (length (lf_data info)) + read_limit rq < 2 ^ 63"
    using assms(6) prefix_length_le by fastforce
  moreover have "off \<le> file_size info" "0 \<le> off"
    using assms(5) prefix_length_le [OF v(5)] by (auto simp: line_start_def file_size_def)
  moreover have "cr_segment_id rq = []" using assms(1) by (simp add: plain_request_def)
  ultimately have "read_chunk os s (rq\<lparr>cr_offset := Some off\<rparr>) = Inr (chunk_of info (cr_source rq)
      (complete_lines off (window rq off (lf_data info))) off
      (off + int (length (complete_part (window rq off (lf_data info))))) (file_size info))"
    using read_chunk_at_offset [of "rq\<lparr>cr_offset := Some off\<rparr>" off info os path fl] assms(1-3) v
      plain_request_offset
    by (simp add: read_chunk_def inode_string_eq file_size_def)
  then show ?thesis
    using v by (intro that [of info]) (simp_all add: chunk_of_def zip_fst_snd)
qed

lemma follow_collects:
  assumes "plain_request rq" "path_for s (cr_source rq) = Inr path"
    and "cr_expected_inode rq \<in> {[], format_int 10 (int ino)}"
    and "log_grows path ino prev oss" "line_start prev off"
    and "int (length (last_data path prev oss)) + read_limit rq < 2 ^ 63"
    and "follow oss s rq off = (found, off')"
  shows "line_start (last_data path prev oss) off' \<and> off \<le> off' \<and>
    complete_lines 0 (take (nat off') (last_data path prev oss))
      = complete_lines 0 (take (nat off) prev) @ found"
  using assms(4-)
proof (induction oss arbitrary: prev off found)
  case (Cons os oss)
  obtain info where v: "ov_stat os path = Found info" "prefix prev (lf_data info)"
    "log_grows path ino (lf_data info) oss"
    and step: "\<And>w found off'. \<lbrakk>w = window rq off (lf_data info);
       follow oss s rq (off + int (length (complete_part w))) = (found, off')\<rbrakk>
     \<Longrightarrow> follow (os # oss) s rq off = (complete_lines off w @ found, off')"
    using follow_step [OF assms(1-3) Cons.prems(1-3)] by metis
  let ?w = "window rq off (lf_data info)"
  let ?next = "off + int (length (complete_part ?w))"
  obtain rest off2 where rest: "follow oss s rq ?next = (rest, off2)" by force
  from step [OF refl this] Cons.prems(4) have fd: "found = complete_lines off ?w @ rest" "off2 = off'"
    by simp_all
  note ls = line_start_prefix [OF Cons.prems(2) v(2)]
  note ws = window_step [OF conjunct1 [OF ls] refl, of rq]
  have last: "last_data path prev (os # oss) = last_data path (lf_data info) oss" by (simp add: v(1))
  from Cons.IH [OF v(3) ws(1) _ rest [unfolded fd(2)]] Cons.prems(3) ws(2,3) ls
  show ?case by (simp add: v(1) fd)
qed auto

section \<open>Progress\<close>

definition lines_fit :: "chunk_request \<Rightarrow> string \<Rightarrow> bool" where
  "lines_fit rq s \<longleftrightarrow> list_all (\<lambda>raw. int (length raw) < read_limit rq) (split_on newline s)"

lemma raw_line_of_drop:
  assumes "line_start s off" "drop (nat off) s = raw @ newline # t" "newline \<notin> set raw"
  shows "raw \<in> set (split_on newline s)"
proof -
  let ?p = "take (nat off) s"
  have s: "s = ?p @ raw @ newline # t" using assms(2) by (metis append_take_drop_id)
  have "?p = [] \<or> (\<exists>a. ?p = a @ [newline])"
    using assms(1) by (cases "?p" rule: complete_part_cases) (auto simp: line_start_def)
  then show ?thesis
  proof
    assume "?p = []"
    with s have "s = raw @ newline # t" by simp
    then show ?thesis by (simp add: split_on_append assms(3))
  next
    assume "\<exists>a. ?p = a @ [newline]"
    with s obtain a where "s = a @ newline # raw @ newline # t" by (metis append_Cons append_Nil append_assoc)
    then show ?thesis by (simp add: split_on_snoc split_on_id assms(3))
  qed
qed

definition newlines :: "string \<Rightarrow> nat" where
  "newlines s = length (filter (\<lambda>c. c = newline) s)"

lemma newlines_zero: "newlines s = 0 \<longleftrightarrow> newline \<notin> set s"
  by (auto simp: newlines_def filter_empty_conv)

lemma newlines_append: "newlines (a @ s) = newlines a + newlines s"
  by (simp add: newlines_def)

text \<open>A window that starts at a line whose end it reaches makes progress.\<close>

lemma window_progress:
  assumes "line_start s off" "lines_fit rq s" "newline \<in> set (drop (nat off) s)"
    and w: "w = window rq off s"
  shows "newlines (drop (nat (off + int (length (complete_part w)))) s) < newlines (drop (nat off) s)"
proof -
  obtain raw t where raw: "drop (nat off) s = raw @ newline # t" "newline \<notin> set raw"
    using split_at_sep [OF assms(3)] by metis
  have "int (length raw) < read_limit rq"
    using raw_line_of_drop [OF assms(1) raw] assms(2) by (simp add: lines_fit_def list_all_iff)
  then obtain k where k: "nat (read_limit rq) = Suc (length raw) + k"
    by (metis add.commute less_imp_Suc_add nat_int of_nat_less_iff nat_less_iff of_nat_0_le_iff zless_nat_eq_int_zless add_Suc_right)
  then have "w = raw @ newline # take k t" by (simp add: w window_def raw(1))
  then have c: "complete_part w = raw @ newline # complete_part (take k t)" by (simp add: complete_part_line)
  have off: "0 \<le> off" using assms(1) by (simp add: line_start_def)
  have "drop (nat (off + int (length (complete_part w)))) s = drop (length (complete_part w)) (drop (nat off) s)"
    using off by (simp add: nat_add_distrib add.commute)
  also have "\<dots> = drop (length (complete_part (take k t))) t" by (simp add: raw(1) c)
  finally have "newlines (drop (nat (off + int (length (complete_part w)))) s) \<le> newlines t"
    by (metis append_take_drop_id newlines_append le_add2)
  also have "\<dots> < newlines (drop (nat off) s)" by (simp add: raw(1) newlines_append newlines_def)
  finally show ?thesis .
qed

lemma complete_part_at:
  assumes "line_start s off" "newline \<notin> set (drop (nat off) s)"
  shows "off = int (length (complete_part s))"
proof -
  have "complete_part s = take (nat off) s"
    using complete_part_append(1) [of "take (nat off) s" "drop (nat off) s"] assms
    by (simp add: line_start_def complete_part_none)
  then show ?thesis using assms(1) by (auto simp: line_start_def)
qed

definition settled :: "string \<Rightarrow> log_file \<Rightarrow> os_view list \<Rightarrow> bool" where
  "settled path f oss \<longleftrightarrow> \<not> lf_unreadable f
     \<and> list_all (\<lambda>os. ov_stat os path = Found f \<and> ov_open os path = Found f) oss"

lemma settled_grows:
  "settled path f oss \<Longrightarrow> prefix prev (lf_data f) \<Longrightarrow> log_grows path (lf_inode f) prev oss"
  "settled path f oss \<Longrightarrow> last_data path (lf_data f) oss = lf_data f"
  by (induction oss arbitrary: prev) (auto simp: settled_def)

lemma follow_progress:
  assumes "plain_request rq" "path_for s (cr_source rq) = Inr path"
    and "cr_expected_inode rq \<in> {[], inode_string f}" "lines_fit rq (lf_data f)"
    and "int (length (lf_data f)) + read_limit rq < 2 ^ 63"
    and "settled path f oss" "line_start (lf_data f) off"
    and "newlines (drop (nat off) (lf_data f)) \<le> length oss"
  shows "snd (follow oss s rq off) = int (length (complete_part (lf_data f)))"
  using assms(6-)
proof (induction oss arbitrary: off)
  case Nil
  then show ?case by (simp add: newlines_zero complete_part_at)
next
  case (Cons os oss)
  have settled: "settled path f oss" using Cons.prems(1) by (simp add: settled_def)
  have inode: "cr_expected_inode rq \<in> {[], format_int 10 (int (lf_inode f))}"
    using assms(3) by (simp add: inode_string_def)
  have big: "int (length (last_data path (lf_data f) (os # oss))) + read_limit rq < 2 ^ 63"
    by (simp only: settled_grows(2) [OF Cons.prems(1)] assms(5))
  obtain info where "ov_stat os path = Found info"
    and step: "\<And>w found off'. \<lbrakk>w = window rq off (lf_data info);
       follow oss s rq (off + int (length (complete_part w))) = (found, off')\<rbrakk>
     \<Longrightarrow> follow (os # oss) s rq off = (complete_lines off w @ found, off')"
    using follow_step [OF assms(1,2) inode settled_grows(1) [OF Cons.prems(1)] Cons.prems(2) big]
    by (metis prefix_order.order_refl)
  moreover have "ov_stat os path = Found f" using Cons.prems(1) by (simp add: settled_def)
  ultimately have info: "info = f" by simp
  let ?next = "off + int (length (complete_part (window rq off (lf_data f))))"
  obtain rest off2 where rest: "follow oss s rq ?next = (rest, off2)" by force
  note ws = window_step [OF Cons.prems(2) refl, of rq]
  have "newlines (drop (nat ?next) (lf_data f)) \<le> length oss"
  proof (cases "newline \<in> set (drop (nat off) (lf_data f))")
    case True
    from window_progress [OF Cons.prems(2) assms(4) True refl] Cons.prems(3) show ?thesis by simp
  next
    case False
    have "newlines (drop (nat ?next) (lf_data f)) \<le> newlines (drop (nat off) (lf_data f))"
      using False ws(2) by (metis in_set_dropD drop_drop le_add_diff_inverse2 nat_mono newlines_zero le_zero_eq)
    moreover have "newlines (drop (nat off) (lf_data f)) = 0" using False by (simp add: newlines_zero)
    ultimately show ?thesis by simp
  qed
  from Cons.IH [OF settled ws(1) this] step [OF refl, unfolded info, OF rest] rest show ?case by simp
qed

section \<open>Properties\<close>

lemma reader_lines:
  assumes "plain_request rq" "path_for s (cr_source rq) = Inr path"
    and "cr_expected_inode rq \<in> {[], format_int 10 (int ino)}"
    and "log_grows path ino [] oss" "D = last_data path [] oss"
    and "int (length D) + read_limit rq < 2 ^ 63"
    and "follow oss s rq 0 = (found, off)"
  shows "found = complete_lines 0 (take (nat off) D)"
    and "sorted_wrt (<) (map snd found)"
    and "\<forall>(line, pos)\<in>set found. line \<noteq> [] \<and> newline \<notin> set line \<and> (\<exists>rest.
       drop (nat pos) D = line @ newline # rest \<or> drop (nat pos) D = line @ carriage_return # newline # rest)"
    and "line_start D off"
proof -
  have "line_start [] 0" by (simp add: line_start_def complete_part_none)
  from follow_collects [OF assms(1-4) this] assms(5-7)
  have f: "line_start D off" "found = complete_lines 0 (take (nat off) D)"
    by (auto simp: complete_lines_none)
  then show "line_start D off" "found = complete_lines 0 (take (nat off) D)" by blast+
  show "sorted_wrt (<) (map snd found)" unfolding f(2) by (rule complete_lines_sorted)
  show "\<forall>(line, pos)\<in>set found. line \<noteq> [] \<and> newline \<notin> set line \<and> (\<exists>rest.
       drop (nat pos) D = line @ newline # rest \<or> drop (nat pos) D = line @ carriage_return # newline # rest)"
  proof clarify
    fix line pos assume "(line, pos) \<in> set found"
    from complete_lines_sound [OF this [unfolded f(2)]] obtain rest where
      l: "line \<noteq> []" "newline \<notin> set line" "pos < int (length (take (nat off) D))" "0 \<le> pos"
      "drop (nat pos) (take (nat off) D) = line @ newline # rest
       \<or> drop (nat pos) (take (nat off) D) = line @ carriage_return # newline # rest"
      using prefix_length_le [OF complete_part_prefix] by fastforce
    have "drop (nat pos) D = drop (nat pos) (take (nat off) D) @ drop (nat off) D"
      using l(3,4) by (metis append_take_drop_id drop_append diff_is_0_eq drop0 length_take less_imp_le nat_less_iff nat_int of_nat_less_iff le_nat_iff nat_le_iff)
    then show "line \<noteq> [] \<and> newline \<notin> set line \<and> (\<exists>rest.
       drop (nat pos) D = line @ newline # rest \<or> drop (nat pos) D = line @ carriage_return # newline # rest)"
      using l by auto
  qed
qed

text \<open>C19: A client that follows a log from its beginning, asking each time from the offset of the
  last answer, gets every complete non-empty line up to its offset exactly once and in order, while the
  log grows between and during the reads.  The listed lines are texts of the file at their offsets, up
  to a line end, and the offset is always at the start of a line.\<close>
theorem reader_delivers_each_line_once:
  assumes "plain_request rq" "path_for s (cr_source rq) = Inr path"
    and "cr_expected_inode rq \<in> {[], format_int 10 (int ino)}"
    and "log_grows path ino [] oss" "D = last_data path [] oss"
    and "int (length D) + read_limit rq < 2 ^ 63"
    and "follow oss s rq 0 = (found, off)"
  shows "found = complete_lines 0 (take (nat off) D)
    \<and> sorted_wrt (<) (map snd found)
    \<and> (\<forall>(line, pos)\<in>set found. line \<noteq> [] \<and> newline \<notin> set line \<and> (\<exists>rest.
       drop (nat pos) D = line @ newline # rest \<or> drop (nat pos) D = line @ carriage_return # newline # rest))
    \<and> line_start D off"
  using reader_lines [OF assms] by blast

text \<open>C20: When the log has stopped growing and every line with its end fits into one read, as many
  reads as the file has line ends deliver all its complete lines, whatever is in them.\<close>
theorem reader_reaches_the_end:
  assumes "plain_request rq" "path_for s (cr_source rq) = Inr path"
    and "cr_expected_inode rq \<in> {[], inode_string f}" "lines_fit rq (lf_data f)"
    and "int (length (lf_data f)) + read_limit rq < 2 ^ 63"
    and "settled path f oss" "newlines (lf_data f) \<le> length oss"
    and "follow oss s rq 0 = (found, off)"
  shows "found = complete_lines 0 (lf_data f) \<and> off = int (length (complete_part (lf_data f)))"
proof -
  have ls: "line_start (lf_data f) 0" by (simp add: line_start_def complete_part_none)
  have off: "off = int (length (complete_part (lf_data f)))"
    using follow_progress [OF assms(1-6) ls] assms(7,8) by simp
  have inode: "cr_expected_inode rq \<in> {[], format_int 10 (int (lf_inode f))}"
    using assms(3) by (simp add: inode_string_def)
  have "complete_lines 0 (take (nat off) (lf_data f)) = found"
    using follow_collects [OF assms(1,2) inode settled_grows(1) [OF assms(6) prefix_order.order_refl] ls]
      assms(5,8) settled_grows(2) [OF assms(6)] by (simp add: complete_lines_none)
  moreover have "take (nat off) (lf_data f) = complete_part (lf_data f)"
    using complete_part_prefix [of "lf_data f"] by (metis append_eq_conv_conj nat_int off prefix_def)
  ultimately show ?thesis using complete_lines_part [of 0 "lf_data f"] off by simp
qed

text \<open>A line that is longer than one read stops the reader for good: whatever is appended to the
  log, every further answer is empty and gives the same offset.\<close>
theorem oversized_line_blocks_reader:
  assumes "plain_request rq" "path_for s (cr_source rq) = Inr path"
    and "cr_expected_inode rq \<in> {[], format_int 10 (int ino)}"
    and "log_grows path ino prev oss" "line_start prev off"
    and "int (length (last_data path prev oss)) + read_limit rq < 2 ^ 63"
    and "read_limit rq \<le> int (length (drop (nat off) prev))" "newline \<notin> set (window rq off prev)"
  shows "follow oss s rq off = ([], off)"
  using assms(4-)
proof (induction oss arbitrary: prev)
  case (Cons os oss)
  obtain info where v: "ov_stat os path = Found info" "prefix prev (lf_data info)"
    "log_grows path ino (lf_data info) oss"
    and step: "\<And>w found off'. \<lbrakk>w = window rq off (lf_data info);
       follow oss s rq (off + int (length (complete_part w))) = (found, off')\<rbrakk>
     \<Longrightarrow> follow (os # oss) s rq off = (complete_lines off w @ found, off')"
    using follow_step [OF assms(1-3) Cons.prems(1-3)] by metis
  have off: "nat off \<le> length prev" using Cons.prems(2) by (auto simp: line_start_def)
  have longer: "length (drop (nat off) prev) \<le> length (drop (nat off) (lf_data info))"
    using v(2) prefix_length_le by fastforce
  have "nat (read_limit rq) \<le> length (drop (nat off) prev)" using Cons.prems(4) by (simp only: nat_le_iff)
  then have w: "window rq off (lf_data info) = window rq off prev"
    using v(2) off by (auto simp: window_def prefix_def)
  have "line_start (lf_data info) off" using line_start_prefix [OF Cons.prems(2) v(2)] by blast
  moreover have "last_data path prev (os # oss) = last_data path (lf_data info) oss" by (simp add: v(1))
  ultimately have "follow oss s rq off = ([], off)"
    using Cons.IH [OF v(3)] Cons.prems(3-5) longer w by simp
  with step [OF refl] show ?case
    by (simp add: w complete_lines_none complete_part_none Cons.prems(5))
qed simp

text \<open>The path opened for a segment id is the active log or a regular file of the same directory
  with that very name, which has no slash in it.\<close>
theorem segment_stays_in_directory:
  assumes "path_for s src = Inr active" "path_for_segment os s src segment = Inr path"
  shows "path = active \<or>
    path_dir path = path_dir active \<and> path_base path = segment \<and> CHR ''/'' \<notin> set segment
    \<and> has_prefix segment (path_base active @ ''.segment-'') \<and> has_suffix segment ''.sealed''
    \<and> ov_regular os path = Found True"
proof (cases "segment = path_base active")
  case False
  with assms have seg: "path_base segment = segment" "has_prefix segment (path_base active @ ''.segment-'')"
    "has_suffix segment ''.sealed''" "path = path_join [path_dir active, segment]" "ov_regular os path = Found True"
    by (auto simp: path_for_segment_def Let_def split: if_splits sys.splits)
  obtain t where "segment = path_base active @ ''.segment-'' @ t" using seg(2) by (auto simp: has_prefix_iff)
  then have long: "9 \<le> length segment" by simp
  then have ne: "segment \<noteq> []" "segment \<noteq> ''/''" "segment \<noteq> ''.''" "segment \<noteq> ''..''" by auto
  with path_base_no_slash [OF seg(1)] have "plain_component segment" by (simp add: plain_component_def)
  then have "path_dir path = path_clean (path_dir active)" "path_base path = segment"
    using path_join_plain [of "path_dir active" segment] by (simp_all add: seg(4) path_dir_def path_clean_def Let_def)
  then show ?thesis using seg path_base_no_slash [OF seg(1) ne(2)] by simp
qed (use assms in \<open>simp add: path_for_segment_def\<close>)

text \<open>A rotation between Stat and Open: the lines are those of the new file, under the inode and the
  offsets of the old one.\<close>
lemma rotation_mixes_files:
  assumes "plain_request rq" "cr_offset rq = Some off" "0 \<le> off"
    and "cr_expected_inode rq \<in> {[], inode_string info}"
    and "ov_stat os path = Found info" "off < file_size info" "file_size info + read_limit rq < 2 ^ 63"
    and "ov_open os path = Found new" "\<not> lf_unreadable new"
    and w: "w = take (nat (min (off + read_limit rq) (file_size info) - off)) (drop (nat off) (lf_data new))"
  obtains ck where "read_chunk_at os path rq = Inr ck" "ck_file_inode ck = Some (inode_string info)"
    "zip (ck_lines ck) (ck_line_offsets ck) = complete_lines off w"
  by (rule that [OF read_chunk_at_window [OF assms]]) (simp_all add: chunk_of_def zip_fst_snd)

lemma rfc3339_line_not_recognised:
  "parse_timestamp ''2026-07-17T02:00:00Z core started'' = None"
  "parse_timestamp ''2026-07-17T02:00:00+00:00 core started'' = Some (1784253600 * 10 ^ 9)"
  by (simp_all add: parse_timestamp_def time_eval net_eval upt_rec)

section \<open>Witnesses\<close>

lemmas audit_eval = read_chunk_def read_chunk_at_def path_for_def file_size_def inode_string_def
  requested_offset_def is_initial_tail_def snapshot_end_def read_end_def or_default_def wrap64_def
  read_range_def chunk_of_text_def chunk_of_def split_complete_lines_with_offsets_def last_index_def
  trim_cr_def keeps_line_def newline_def carriage_return_def window_def read_limit_def
  plain_request_def has_suffix_def

definition sample_service :: audit_service where
  "sample_service = \<lparr>access_path = ''/l/access.log'', error_path = ''/l/error.log''\<rparr>"

definition sample_request :: chunk_request where
  "sample_request = \<lparr>cr_end_offset = None, cr_expected_inode = [], cr_from_timestamp = None,
     cr_initial_tail_bytes = 0, cr_max_read_bytes = 4, cr_offset = None, cr_source = ''access'',
     cr_segment_id = []\<rparr>"

definition sample_view :: "string \<Rightarrow> string \<Rightarrow> os_view" where
  "sample_view before_data after_data =
     \<lparr>ov_stat = (\<lambda>_. Found \<lparr>lf_inode = 7, lf_data = before_data, lf_unreadable = False\<rparr>),
      ov_regular = (\<lambda>_. Found True),
      ov_open = (\<lambda>_. Found \<lparr>lf_inode = 7, lf_data = after_data, lf_unreadable = False\<rparr>),
      ov_glob = (\<lambda>_. Some [])\<rparr>"

lemmas sample_chunk_defs = sample_service_def sample_request_def sample_view_def

theorem reader_delivers_each_line_once_witness:
  "follow [sample_view (''a'' @ [newline] @ ''b'') (''a'' @ [newline] @ ''bc''),
      sample_view (''a'' @ [newline] @ ''bc'' @ [newline]) (''a'' @ [newline] @ ''bc'' @ [newline])]
     sample_service sample_request 0 = ([(''a'', 0), (''bc'', 2)], 5)
   \<and> [(''a'', 0), (''bc'', 2)] = complete_lines 0 (take (nat 5) (''a'' @ [newline] @ ''bc'' @ [newline]))"
proof -
  let ?os = "[sample_view (''a'' @ [newline] @ ''b'') (''a'' @ [newline] @ ''bc''),
      sample_view (''a'' @ [newline] @ ''bc'' @ [newline]) (''a'' @ [newline] @ ''bc'' @ [newline])]"
  have run: "follow ?os sample_service sample_request 0 = ([(''a'', 0), (''bc'', 2)], 5)"
    by (simp add: sample_chunk_defs audit_eval)
  then show ?thesis
    using reader_delivers_each_line_once [of sample_request sample_service "''/l/access.log''" 7 ?os _ _ 5,
        OF _ _ _ _ _ _ run]
    by (simp add: sample_chunk_defs audit_eval)
qed

theorem reader_reaches_the_end_witness:
  "follow (replicate 2 (sample_view (''a'' @ [newline] @ ''bc'' @ [newline]) (''a'' @ [newline] @ ''bc'' @ [newline])))
     sample_service sample_request 0 = (complete_lines 0 (''a'' @ [newline] @ ''bc'' @ [newline]), 5)"
proof -
  let ?d = "''a'' @ [newline] @ ''bc'' @ [newline]"
  let ?f = "\<lparr>lf_inode = 7, lf_data = ?d, lf_unreadable = False\<rparr>"
  let ?os = "replicate 2 (sample_view ?d ?d)"
  obtain found off where run: "follow ?os sample_service sample_request 0 = (found, off)" by force
  have part: "complete_part ?d = ?d" using complete_part_snoc [of "[]" "''a'' @ [newline] @ ''bc''"] by simp
  have "lines_fit sample_request ?d"
    by (simp add: lines_fit_def read_limit_def or_default_def sample_request_def newline_def)
  moreover have "newlines ?d = 2" by (simp add: newlines_def newline_def)
  ultimately have "found = complete_lines 0 ?d \<and> off = int (length (complete_part ?d))"
    using reader_reaches_the_end [of sample_request sample_service "''/l/access.log''" ?f ?os found off] run
    by (simp add: sample_chunk_defs plain_request_def path_for_def settled_def read_limit_def or_default_def numeral_2_eq_2)
  then show ?thesis using run part by simp
qed

theorem oversized_line_blocks_reader_witness:
  "follow [sample_view ''abcdef'' (''abcdef'' @ [newline])] sample_service sample_request 0 = ([], 0)"
  by (rule oversized_line_blocks_reader [of _ _ "''/l/access.log''" 7 "''abcdef''"])
    (simp_all add: sample_chunk_defs plain_request_def path_for_def line_start_def complete_part_none
      read_limit_def or_default_def window_def newline_def)

theorem segment_stays_in_directory_witness:
  "path_for_segment (sample_view [] []) sample_service ''access'' ''access.log.segment-20260101-000001.sealed''
     = Inr ''/l/access.log.segment-20260101-000001.sealed''
   \<and> path_dir ''/l/access.log.segment-20260101-000001.sealed'' = ''/l''"
proof -
  have run: "path_for_segment (sample_view [] []) sample_service ''access''
     ''access.log.segment-20260101-000001.sealed'' = Inr ''/l/access.log.segment-20260101-000001.sealed''"
    by (simp add: sample_chunk_defs path_for_segment_def path_for_def path_base_def has_prefix_def has_suffix_def
        path_dir_def path_clean_def path_join_def clean_push.simps)
  have "path_dir ''/l/access.log'' = ''/l''"
    by (simp add: path_dir_def path_clean_def has_prefix_def clean_push.simps)
  with segment_stays_in_directory [OF _ run, of "''/l/access.log''"] run show ?thesis
    by (simp add: path_for_def sample_service_def)
qed

end
