(* ===== verification/GoHttp.thy ===== *)
theory GoHttp
  imports Prelude
begin

text \<open>Requests and answers of the handlers: the query of a request and what a handler writes.\<close>

text \<open>The query of a request: url.Values, with Get and Has.\<close>

type_synonym query = "string list gomap"

definition values_get :: "query \<Rightarrow> string \<Rightarrow> string" where
  "values_get q key = (case lookup q key of Some (v # _) \<Rightarrow> v | _ \<Rightarrow> [])"

definition values_has :: "query \<Rightarrow> string \<Rightarrow> bool" where
  "values_has q key \<longleftrightarrow> lookup q key \<noteq> None"

text \<open>A JSON value with status 200, or an error with its status and message.\<close>

datatype 'a reply = Json 'a | Http_Error nat string

end
