(* ===== verification/AuditService.thy ===== *)
theory AuditService
  imports AuditReader GoHttp
begin

text \<open>The rest of internal/auditlog/service.go, and httpserver/audit.go: metadata, catalog, the cleaning of
  sealed segments with its gap journal, and the handlers.\<close>

section \<open>Metadata and catalog\<close>

record source_metadata =
  sm_earliest_timestamp :: "int option"
  sm_inode :: string
  sm_latest_timestamp :: "int option"
  sm_source :: source
  sm_total_size :: int

definition source_metadata_of :: "os_view \<Rightarrow> audit_service \<Rightarrow> source \<Rightarrow> audit_error + source_metadata" where
  "source_metadata_of os s src = (case path_for s src of
     Inl e \<Rightarrow> Inl e
   | Inr path \<Rightarrow> (case ov_stat os path of
       Missing \<Rightarrow> Inr \<lparr>sm_earliest_timestamp = None, sm_inode = [], sm_latest_timestamp = None,
           sm_source = src, sm_total_size = 0\<rparr>
     | Failed \<Rightarrow> Inl Os_Error
     | Found info \<Rightarrow>
         (let extent = file_size info; span = min extent metadata_window_bytes;
              metadata = \<lparr>sm_earliest_timestamp = None, sm_inode = inode_string info,
                sm_latest_timestamp = None, sm_source = src, sm_total_size = extent\<rparr> in
          if span = 0 then Inr metadata
          else (case ov_open os path of
              Found fl \<Rightarrow> (case (read_range fl 0 span, read_range fl (extent - span) span) of
                  (Some head, Some tail) \<Rightarrow> Inr (metadata\<lparr>sm_earliest_timestamp := first_timestamp head,
                      sm_latest_timestamp := last_timestamp tail\<rparr>)
                | _ \<Rightarrow> Inl Os_Error)
            | _ \<Rightarrow> Inl Os_Error))))"

record segment =
  sg_id :: string
  sg_inode :: string
  sg_size :: int
  sg_sealed :: bool
  sg_source :: source

fun catalog_of :: "os_view \<Rightarrow> source \<Rightarrow> string \<Rightarrow> string list \<Rightarrow> segment list option" where
  "catalog_of os src active [] = Some []"
| "catalog_of os src active (candidate # rest) = (case ov_stat os candidate of
     Missing \<Rightarrow> catalog_of os src active rest
   | Failed \<Rightarrow> None
   | Found info \<Rightarrow> map_option
       ((#) \<lparr>sg_id = path_base candidate, sg_inode = inode_string info, sg_size = file_size info,
            sg_sealed = (candidate \<noteq> active), sg_source = src\<rparr>)
       (catalog_of os src active rest))"

definition catalog :: "os_view \<Rightarrow> audit_service \<Rightarrow> source \<Rightarrow> audit_error + segment list" where
  "catalog os s src = (case path_for s src of
     Inl e \<Rightarrow> Inl e
   | Inr path \<Rightarrow> (case ov_glob os (path @ ''.segment-*.sealed'') of
       None \<Rightarrow> Inl Os_Error
     | Some paths \<Rightarrow> (case catalog_of os src path (paths @ [path]) of
           None \<Rightarrow> Inl Os_Error | Some segments \<Rightarrow> Inr segments)))"

section \<open>Cleaning\<close>

record gap =
  gp_source :: source
  gp_segment_id :: string
  gp_start_offset :: int
  gp_end_offset :: int
  gp_occurred_at :: string
  gp_reason :: string

record clean_result =
  cl_files :: nat
  cl_kept_lines :: nat
  cl_removed_lines :: nat
  cl_reclaimed_bytes :: int
  cl_gaps :: "gap list"

definition no_clean :: clean_result where
  "no_clean = \<lparr>cl_files = 0, cl_kept_lines = 0, cl_removed_lines = 0, cl_reclaimed_bytes = 0, cl_gaps = []\<rparr>"

text \<open>The directory of the logs as CleanLogs finds it: the entries of ReadDir with their regularity,
  Stat, the outcomes of the calls that change something, and the gap journal, decoded, or None when it
  cannot be read.  What the cleaner does is a list of effects.\<close>

datatype append_outcome = Appended | Appended_Unsynced | Not_Appended

record clean_env =
  ce_entries :: "string \<Rightarrow> (string \<times> bool) list sys"
  ce_stat :: "string \<Rightarrow> log_file sys"
  ce_append :: "string \<Rightarrow> append_outcome"
  ce_remove_ok :: "string \<Rightarrow> bool"
  ce_sync_ok :: bool
  ce_journal :: "string \<Rightarrow> gap list option"
  ce_clock :: string

datatype effect = Journalled string gap | Removed string | Synced string

definition segment_day :: "string \<Rightarrow> string \<Rightarrow> int option" where
  "segment_day pre name =
     (let s = drop (length pre) (take (length name - length ''.sealed'') name) in
      if length s < 9 \<or> s ! 8 \<noteq> CHR ''-'' then None else time_parse date_layout (take 8 s))"

definition removable :: "string \<Rightarrow> int \<Rightarrow> string set \<Rightarrow> string \<times> bool \<Rightarrow> bool" where
  "removable pre cutoff allowed entry = (case entry of (name, regular) \<Rightarrow>
     regular \<and> has_prefix name pre \<and> has_suffix name ''.sealed'' \<and> name \<in> allowed
     \<and> (case segment_day pre name of Some day \<Rightarrow> day < cutoff | None \<Rightarrow> False))"

definition gap_journal_path :: "string \<Rightarrow> string" where
  "gap_journal_path active = path_join [path_dir active, ''.audit-gaps.jsonl'']"

definition clean_source :: "string \<Rightarrow> source" where
  "clean_source active = (if path_base active = ''access.log'' then source_access else source_error)"

definition append_gap :: "clean_env \<Rightarrow> string \<Rightarrow> gap \<Rightarrow> bool \<times> effect list" where
  "append_gap env active g = (case ce_append env (gp_segment_id g) of
     Appended \<Rightarrow> (True, [Journalled (gap_journal_path active) g])
   | Appended_Unsynced \<Rightarrow> (False, [Journalled (gap_journal_path active) g])
   | Not_Appended \<Rightarrow> (False, []))"

text \<open>The loop over the entries: the files and bytes removed, or None when the call ended with an
  error, and the effects up to there.\<close>

fun clean_loop ::
  "clean_env \<Rightarrow> string \<Rightarrow> int \<Rightarrow> string set \<Rightarrow> (string \<times> bool) list \<Rightarrow> nat \<Rightarrow> int
   \<Rightarrow> (nat \<times> int) option \<times> effect list"
where
  "clean_loop env active cutoff allowed [] files bytes = (Some (files, bytes), [])"
| "clean_loop env active cutoff allowed (entry # rest) files bytes =
     (let path = path_join [path_dir active, fst entry] in
      if \<not> removable (path_base active @ ''.segment-'') cutoff allowed entry
        then clean_loop env active cutoff allowed rest files bytes
      else case ce_stat env path of
        Missing \<Rightarrow> clean_loop env active cutoff allowed rest files bytes
      | Failed \<Rightarrow> (None, [])
      | Found info \<Rightarrow>
          (let g = \<lparr>gp_source = clean_source active, gp_segment_id = fst entry, gp_start_offset = 0,
                 gp_end_offset = file_size info, gp_occurred_at = ce_clock env,
                 gp_reason = ''retention''\<rparr>;
               (ok, effs) = append_gap env active g in
           if \<not> ok then (None, effs)
           else if \<not> ce_remove_ok env path then (None, effs)
           else (let (r, effs') = clean_loop env active cutoff allowed rest (Suc files)
                       (bytes + file_size info)
                 in (r, effs @ Removed path # effs'))))"

definition journal_after :: "clean_env \<Rightarrow> string \<Rightarrow> effect list \<Rightarrow> gap list option" where
  "journal_after env path effs =
     map_option (\<lambda>gs. gs @ List.map_filter (\<lambda>e. case e of
         Journalled p g \<Rightarrow> if p = path then Some g else None | _ \<Rightarrow> None) effs)
       (ce_journal env path)"

definition clean_sealed_segments ::
  "clean_env \<Rightarrow> string \<Rightarrow> int \<Rightarrow> string set \<Rightarrow> effect list \<Rightarrow> clean_result option \<times> effect list"
where
  "clean_sealed_segments env active cutoff allowed before_effs =
     (case ce_entries env (path_dir active) of
        Missing \<Rightarrow> (Some no_clean, [])
      | Failed \<Rightarrow> (None, [])
      | Found entries \<Rightarrow> (case clean_loop env active cutoff allowed entries 0 0 of
            (None, effs) \<Rightarrow> (None, effs)
          | (Some (files, bytes), effs) \<Rightarrow>
              if files > 0 \<and> \<not> ce_sync_ok env then (None, effs)
              else (let effs' = (if files > 0 then effs @ [Synced (path_dir active)] else effs) in
                case journal_after env (gap_journal_path active) (before_effs @ effs') of
                  None \<Rightarrow> (None, effs')
                | Some gs \<Rightarrow>
                    (Some (no_clean\<lparr>cl_files := files, cl_reclaimed_bytes := bytes,
                       cl_gaps := filter (\<lambda>g. gp_source g = clean_source active) gs\<rparr>), effs'))))"

fun clean_all ::
  "clean_env \<Rightarrow> int \<Rightarrow> string set \<Rightarrow> string list \<Rightarrow> clean_result \<Rightarrow> effect list
   \<Rightarrow> clean_result option \<times> effect list"
where
  "clean_all env cutoff allowed [] result effs = (Some result, effs)"
| "clean_all env cutoff allowed (path # rest) result effs =
     (case clean_sealed_segments env path cutoff allowed effs of
        (None, effs') \<Rightarrow> (None, effs @ effs')
      | (Some item, effs') \<Rightarrow> clean_all env cutoff allowed rest
          (result\<lparr>cl_files := cl_files result + cl_files item,
             cl_kept_lines := cl_kept_lines result + cl_kept_lines item,
             cl_removed_lines := cl_removed_lines result + cl_removed_lines item,
             cl_reclaimed_bytes := cl_reclaimed_bytes result + cl_reclaimed_bytes item,
             cl_gaps := cl_gaps result @ cl_gaps item\<rparr>) (effs @ effs'))"

definition clean_logs_at ::
  "clean_env \<Rightarrow> audit_service \<Rightarrow> int \<Rightarrow> string set \<Rightarrow> clean_result option \<times> effect list"
where
  "clean_logs_at env s cutoff allowed =
     clean_all env cutoff allowed [access_path s, error_path s] no_clean []"

text \<open>The cut-off is computed with int64 durations in nanoseconds.\<close>

definition retention_cutoff :: "int \<Rightarrow> int \<Rightarrow> int" where
  "retention_cutoff now days = now + wrap64 (- days * 24 * (3600 * 10 ^ 9))"

definition clean_logs ::
  "clean_env \<Rightarrow> int \<Rightarrow> audit_service \<Rightarrow> int \<Rightarrow> string set
   \<Rightarrow> (audit_error + clean_result) \<times> effect list"
where
  "clean_logs env now s days allowed =
     (if days \<le> 0 then (Inl Bad_Retention, [])
      else (case clean_logs_at env s (retention_cutoff now days) allowed of
          (None, effs) \<Rightarrow> (Inl Os_Error, effs)
        | (Some result, effs) \<Rightarrow> (Inr result, effs)))"

section \<open>What cleaning removes\<close>

text \<open>Every removal comes right after the journal entry of its segment.\<close>

fun journalled_first :: "effect list \<Rightarrow> bool" where
  "journalled_first (Journalled j g # Removed p # effs) =
     (gp_segment_id g = path_base p \<and> journalled_first effs)"
| "journalled_first (Removed p # effs) = False"
| "journalled_first (e # effs) = journalled_first effs"
| "journalled_first [] = True"

definition removal_allowed :: "int \<Rightarrow> string set \<Rightarrow> string list \<Rightarrow> effect \<Rightarrow> bool" where
  "removal_allowed cutoff allowed actives e = (case e of
     Removed p \<Rightarrow> path_base p \<in> allowed \<and> list_ex (\<lambda>active.
         path_dir p = path_dir active \<and> path_base p \<noteq> path_base active
         \<and> has_prefix (path_base p) (path_base active @ ''.segment-'') \<and> has_suffix (path_base p) ''.sealed''
         \<and> (case segment_day (path_base active @ ''.segment-'') (path_base p) of
              Some day \<Rightarrow> day < cutoff | None \<Rightarrow> False)) actives
   | _ \<Rightarrow> True)"

definition removals :: "effect list \<Rightarrow> nat" where
  "removals effs = length (filter (\<lambda>e. case e of Removed _ \<Rightarrow> True | _ \<Rightarrow> False) effs)"

lemma removals_simps [simp]:
  "removals [] = 0" "removals (Removed p # effs) = Suc (removals effs)"
  "removals (Journalled j g # effs) = removals effs" "removals (Synced d # effs) = removals effs"
  "removals (a @ effs) = removals a + removals effs"
  by (simp_all add: removals_def)

lemma journalled_first_Journalled: "journalled_first effs \<Longrightarrow> journalled_first (Journalled j g # effs)"
  by (cases effs rule: journalled_first.cases) auto

lemma journalled_first_append:
  "journalled_first a \<Longrightarrow> journalled_first effs \<Longrightarrow> journalled_first (a @ effs)"
  by (induction a rule: journalled_first.induct) (auto intro: journalled_first_Journalled)

lemma removable_name:
  assumes "removable (path_base active @ ''.segment-'') cutoff allowed entry"
  shows "fst entry \<in> allowed" "fst entry \<noteq> path_base active"
    "removable (path_base active @ ''.segment-'') cutoff allowed (fst entry, True)"
  using assms by (auto simp: removable_def has_prefix_iff split: prod.splits)

lemma path_dir_ne: "path_dir p \<noteq> []"
  by (simp add: path_dir_def path_clean_def Let_def)

text \<open>The effects of one removal, and what the loop does with an entry.\<close>

lemma removal_allowed_entry:
  assumes "removable (path_base active @ ''.segment-'') cutoff allowed entry" "plain_component (fst entry)"
  shows "removal_allowed cutoff allowed [active] (Removed (path_join [path_dir active, fst entry]))"
    and "path_base (path_join [path_dir active, fst entry]) = fst entry"
  using path_join_plain [OF path_dir_ne [of active] assms(2)] removable_name [OF assms(1)]
  by (simp_all add: removal_allowed_def removable_def)

definition safe_effects :: "int \<Rightarrow> string set \<Rightarrow> string list \<Rightarrow> effect list \<Rightarrow> bool" where
  "safe_effects cutoff allowed actives effs \<longleftrightarrow>
     list_all (removal_allowed cutoff allowed actives) effs \<and> journalled_first effs"

lemma safe_effects_append:
  "safe_effects cutoff allowed actives a \<Longrightarrow> safe_effects cutoff allowed actives effs
   \<Longrightarrow> safe_effects cutoff allowed actives (a @ effs)"
  by (simp add: safe_effects_def journalled_first_append)

lemma removal_allowed_mono:
  "removal_allowed cutoff allowed as e \<Longrightarrow> set as \<subseteq> set bs \<Longrightarrow> removal_allowed cutoff allowed bs e"
  by (cases e) (auto simp: removal_allowed_def list_ex_iff)

lemma safe_effects_mono:
  "safe_effects cutoff allowed as effs \<Longrightarrow> set as \<subseteq> set bs \<Longrightarrow> safe_effects cutoff allowed bs effs"
  using removal_allowed_mono by (auto simp: safe_effects_def list_all_iff)

lemma clean_loop_safe:
  "\<lbrakk>list_all (\<lambda>e. plain_component (fst e)) entries;
    clean_loop env active cutoff allowed entries files bytes = (r, effs)\<rbrakk>
   \<Longrightarrow> safe_effects cutoff allowed [active] effs
     \<and> (\<forall>n b. r = Some (n, b) \<longrightarrow> n = files + removals effs)"
proof (induction entries arbitrary: files bytes r effs)
  case (Cons entry rest)
  let ?path = "path_join [path_dir active, fst entry]"
  show ?case
  proof (cases "removable (path_base active @ ''.segment-'') cutoff allowed entry")
    case True
    have ok: "removal_allowed cutoff allowed [active] (Removed ?path)" "path_base ?path = fst entry"
      using removal_allowed_entry [OF True] Cons.prems(1) by simp_all
    show ?thesis
    proof (cases "ce_stat env ?path")
      case (Found info)
      obtain r' effs' where rest: "clean_loop env active cutoff allowed rest (Suc files)
          (bytes + file_size info) = (r', effs')" by force
      with Cons.IH [OF _ rest] Cons.prems(1) have IH: "safe_effects cutoff allowed [active] effs'"
        "\<forall>n b. r' = Some (n, b) \<longrightarrow> n = Suc files + removals effs'" by auto
      show ?thesis
        using Cons.prems(2) True Found rest IH ok
        by (cases "ce_append env (fst entry)"; cases "ce_remove_ok env ?path")
          (auto simp: append_gap_def safe_effects_def removal_allowed_def Let_def)
    qed (use Cons True in \<open>auto simp: safe_effects_def\<close>)
  qed (use Cons in auto)
qed (auto simp: safe_effects_def)

lemma clean_sealed_segments_safe:
  assumes "\<And>d es. ce_entries env d = Found es \<Longrightarrow> list_all (\<lambda>e. plain_component (fst e)) es"
    and "clean_sealed_segments env active cutoff allowed prev = (r, effs)"
  shows "safe_effects cutoff allowed [active] effs \<and> (\<forall>c. r = Some c \<longrightarrow> cl_files c = removals effs)"
proof (cases "ce_entries env (path_dir active)")
  case (Found entries)
  obtain r1 effs1 where loop: "clean_loop env active cutoff allowed entries 0 0 = (r1, effs1)" by force
  from clean_loop_safe [OF assms(1) [OF Found] this]
  have safe: "safe_effects cutoff allowed [active] effs1" "\<forall>n b. r1 = Some (n, b) \<longrightarrow> n = removals effs1"
    by auto
  have "safe_effects cutoff allowed [active] (effs1 @ [Synced (path_dir active)])"
    by (rule safe_effects_append [OF safe(1)]) (simp add: safe_effects_def removal_allowed_def)
  then show ?thesis
    using assms(2) Found loop safe
    by (auto simp: clean_sealed_segments_def Let_def split: option.splits prod.splits if_splits)
qed (use assms(2) in \<open>auto simp: clean_sealed_segments_def safe_effects_def no_clean_def\<close>)

lemma clean_all_safe:
  assumes "\<And>d es. ce_entries env d = Found es \<Longrightarrow> list_all (\<lambda>e. plain_component (fst e)) es"
    and "set paths \<subseteq> set actives"
  shows "\<lbrakk>clean_all env cutoff allowed paths result prev = (r, effs);
     safe_effects cutoff allowed actives prev; cl_files result = removals prev\<rbrakk>
   \<Longrightarrow> safe_effects cutoff allowed actives effs \<and> (\<forall>c. r = Some c \<longrightarrow> cl_files c = removals effs)"
  using assms(2)
proof (induction paths arbitrary: result prev)
  case (Cons path paths)
  obtain r1 effs1 where one: "clean_sealed_segments env path cutoff allowed prev = (r1, effs1)" by force
  from clean_sealed_segments_safe [OF assms(1) this]
  have s: "safe_effects cutoff allowed actives (prev @ effs1)" "\<forall>c. r1 = Some c \<longrightarrow> cl_files c = removals effs1"
    using Cons.prems(2,4) safe_effects_mono [of cutoff allowed "[path]" effs1 actives]
    by (auto intro: safe_effects_append)
  show ?case
  proof (cases r1)
    case None
    with Cons.prems(1) one s show ?thesis by auto
  next
    case (Some c)
    let ?result = "result\<lparr>cl_files := cl_files result + cl_files c,
             cl_kept_lines := cl_kept_lines result + cl_kept_lines c,
             cl_removed_lines := cl_removed_lines result + cl_removed_lines c,
             cl_reclaimed_bytes := cl_reclaimed_bytes result + cl_reclaimed_bytes c,
             cl_gaps := cl_gaps result @ cl_gaps c\<rparr>"
    have run: "clean_all env cutoff allowed paths ?result (prev @ effs1) = (r, effs)"
      using Cons.prems(1) one Some by simp
    have "cl_files ?result = removals (prev @ effs1)" using Cons.prems(3) s(2) Some by simp
    from Cons.IH [OF run s(1) this] Cons.prems(4) show ?thesis by simp
  qed
qed auto

text \<open>C21: Cleaning removes only segments that the request allows, whose name is one of a sealed
  segment of its log, dated before the cut-off, in the directory of that log, and never the active file;
  each removal comes right after the journal entry of its segment, whatever call fails, and a successful
  result counts the removals.\<close>
theorem cleaning_is_safe:
  assumes "\<And>d es. ce_entries env d = Found es \<Longrightarrow> list_all (\<lambda>e. plain_component (fst e)) es"
    and "clean_logs env now s days allowed = (r, effs)"
  shows "list_all (removal_allowed (retention_cutoff now days) allowed [access_path s, error_path s]) effs
    \<and> journalled_first effs \<and> (\<forall>c. r = Inr c \<longrightarrow> cl_files c = removals effs)"
proof -
  obtain r1 effs1 where "clean_logs_at env s (retention_cutoff now days) allowed = (r1, effs1)" by force
  note run = this [unfolded clean_logs_at_def]
  have "safe_effects (retention_cutoff now days) allowed [access_path s, error_path s] effs1
      \<and> (\<forall>c. r1 = Some c \<longrightarrow> cl_files c = removals effs1)"
    by (rule clean_all_safe [OF assms(1) _ run]) (simp_all add: safe_effects_def no_clean_def)
  with assms(2) run show ?thesis
    by (auto simp: clean_logs_def clean_logs_at_def safe_effects_def split: if_splits option.splits)
qed

text \<open>The cut-off is the given number of days ago for up to 106751 days; 106752 days
  overflow to a cut-off in the future, so that every allowed segment of any day up to now is removed.\<close>
theorem retention_overflow:
  assumes "0 < days" "- (2 ^ 63) \<le> days" "days < 2 ^ 63"
  shows "days \<le> 106751 \<longrightarrow> retention_cutoff now days = now - days * (86400 * 10 ^ 9)"
    and "now < retention_cutoff now 106752"
    and "\<lbrakk>has_prefix name pre; has_suffix name ''.sealed''; name \<in> allowed;
      segment_day pre name = Some day; day \<le> now\<rbrakk>
      \<Longrightarrow> removable pre (retention_cutoff now 106752) allowed (name, True)"
proof -
  show "days \<le> 106751 \<longrightarrow> retention_cutoff now days = now - days * (86400 * 10 ^ 9)"
    using assms by (simp add: retention_cutoff_def wrap64_id)
  show "now < retention_cutoff now 106752"
    by (simp add: retention_cutoff_def wrap64_def)
  then show "\<lbrakk>has_prefix name pre; has_suffix name ''.sealed''; name \<in> allowed;
      segment_day pre name = Some day; day \<le> now\<rbrakk>
      \<Longrightarrow> removable pre (retention_cutoff now 106752) allowed (name, True)"
    by (simp add: removable_def)
qed

section \<open>The HTTP handlers\<close>

definition max_audit_read_bytes :: int where "max_audit_read_bytes = 50000000"

definition decode_audit_source :: "string \<Rightarrow> string + source" where
  "decode_audit_source value =
     (if value = source_access then Inr source_access
      else if value = source_error then Inr source_error
      else Inl ''source must be access or error'')"

definition optional_audit_int :: "query \<Rightarrow> string \<Rightarrow> int \<Rightarrow> int \<Rightarrow> string + int option" where
  "optional_audit_int q key minimum maximum =
     (if \<not> values_has q key then Inr None
      else
        let failed = Inl (if maximum > 0
              then key @ '' must be between '' @ format_int 10 minimum @ '' and '' @ format_int 10 maximum
              else key @ '' must be at least '' @ format_int 10 minimum) in
        case atoi (values_get q key) of
          None \<Rightarrow> failed
        | Some v \<Rightarrow> if v < minimum \<or> (maximum > 0 \<and> v > maximum) then failed else Inr (Some v))"

definition optional_audit_int_text ::
  "query \<Rightarrow> string \<Rightarrow> string \<Rightarrow> int \<Rightarrow> int \<Rightarrow> string + int option"
where
  "optional_audit_int_text q preferred fallback minimum maximum =
     optional_audit_int q (if values_has q preferred then preferred else fallback) minimum maximum"

definition or_zero :: "int option \<Rightarrow> int" where
  "or_zero v = (case v of Some n \<Rightarrow> n | None \<Rightarrow> 0)"

definition decode_expected_inode :: "query \<Rightarrow> string + string" where
  "decode_expected_inode q =
     (let inode = trim_space (values_get q ''expectedInode'') in
      if \<not> values_has q ''expectedInode'' then Inr []
      else if inode = [] then Inl ''expectedInode must not be empty'' else Inr inode)"

definition decode_from_timestamp :: "query \<Rightarrow> string + int option" where
  "decode_from_timestamp q =
     (if \<not> values_has q ''fromTimestamp'' then Inr None
      else (case time_parse rfc3339_layout (values_get q ''fromTimestamp'') of
          Some t \<Rightarrow> Inr (Some t)
        | None \<Rightarrow> Inl ''fromTimestamp must be an RFC3339 timestamp''))"

definition bind_result :: "'e + 'a \<Rightarrow> ('a \<Rightarrow> 'e + 'b) \<Rightarrow> 'e + 'b" where
  "bind_result r f = (case r of Inl e \<Rightarrow> Inl e | Inr v \<Rightarrow> f v)"

lemma bind_result_Inr: "bind_result r f = Inr y \<longleftrightarrow> (\<exists>x. r = Inr x \<and> f x = Inr y)"
  by (cases r) (simp_all add: bind_result_def)

definition decode_audit_chunk_request :: "query \<Rightarrow> string + chunk_request" where
  "decode_audit_chunk_request q =
     bind_result (decode_audit_source (values_get q ''source'')) (\<lambda>src.
     bind_result (optional_audit_int_text q ''offsetText'' ''offset'' 0 0) (\<lambda>offset.
     bind_result (optional_audit_int_text q ''endOffsetText'' ''endOffset'' 0 0) (\<lambda>end_offset.
     bind_result (optional_audit_int q ''initialTailBytes'' 1 max_audit_read_bytes) (\<lambda>tail.
     bind_result (optional_audit_int q ''maxReadBytes'' 1 max_audit_read_bytes) (\<lambda>limit.
     bind_result (decode_expected_inode q) (\<lambda>inode.
     bind_result (decode_from_timestamp q) (\<lambda>since.
       Inr \<lparr>cr_end_offset = end_offset, cr_expected_inode = inode, cr_from_timestamp = since,
         cr_initial_tail_bytes = or_zero tail, cr_max_read_bytes = or_zero limit,
         cr_offset = offset, cr_source = src,
         cr_segment_id = trim_space (values_get q ''segmentId'')\<rparr>)))))))"

definition service_unavailable :: "'a reply" where
  "service_unavailable = Http_Error 500 ''audit log service unavailable''"

definition handle_get_audit_log_chunk :: "os_view \<Rightarrow> audit_service option \<Rightarrow> query \<Rightarrow> chunk reply" where
  "handle_get_audit_log_chunk os service q = (case service of
     None \<Rightarrow> service_unavailable
   | Some s \<Rightarrow> (case decode_audit_chunk_request q of
       Inl e \<Rightarrow> Http_Error 400 e
     | Inr rq \<Rightarrow> (case read_chunk os s rq of
         Inr ck \<Rightarrow> Json ck
       | Inl e \<Rightarrow> if e = Inode_Changed then Http_Error 409 ''AUDIT_LOG_INODE_CHANGED''
                  else Http_Error 500 ''failed to read audit log'')))"

definition handle_get_audit_log_source_metadata ::
  "os_view \<Rightarrow> audit_service option \<Rightarrow> query \<Rightarrow> source_metadata reply"
where
  "handle_get_audit_log_source_metadata os service q = (case service of
     None \<Rightarrow> service_unavailable
   | Some s \<Rightarrow> (case decode_audit_source (values_get q ''source'') of
       Inl e \<Rightarrow> Http_Error 400 e
     | Inr src \<Rightarrow> (case source_metadata_of os s src of
         Inr md \<Rightarrow> Json md | Inl _ \<Rightarrow> Http_Error 500 ''failed to read audit log metadata'')))"

definition handle_get_audit_log_catalog ::
  "os_view \<Rightarrow> audit_service option \<Rightarrow> query \<Rightarrow> segment list reply"
where
  "handle_get_audit_log_catalog os service q = (case service of
     None \<Rightarrow> service_unavailable
   | Some s \<Rightarrow> (case decode_audit_source (values_get q ''source'') of
       Inl e \<Rightarrow> Http_Error 400 e
     | Inr src \<Rightarrow> (case catalog os s src of
         Inr segments \<Rightarrow> Json segments | Inl _ \<Rightarrow> Http_Error 500 ''failed to read audit log catalog'')))"

text \<open>The body of a cleaning request: retentionDays and safeSegmentIds, or None when it does not
  decode.\<close>

definition bad_segment_id :: "string \<Rightarrow> bool" where
  "bad_segment_id w \<longleftrightarrow> w = [] \<or> length w > 255 \<or> CHR ''/'' \<in> set w \<or> CHR 0x5C \<in> set w"

definition handle_clean_audit_logs ::
  "clean_env \<Rightarrow> int \<Rightarrow> audit_service option \<Rightarrow> (int \<times> string list) option
   \<Rightarrow> clean_result reply \<times> effect list"
where
  "handle_clean_audit_logs env now service body = (case service of
     None \<Rightarrow> (service_unavailable, [])
   | Some s \<Rightarrow> (case body of
       None \<Rightarrow> (Http_Error 400 ''retentionDays must be a positive integer'', [])
     | Some (days, ids) \<Rightarrow>
         if days \<le> 0 then (Http_Error 400 ''retentionDays must be a positive integer'', [])
         else if length ids > 10000 then (Http_Error 400 ''safeSegmentIds contains too many entries'', [])
         else if list_ex bad_segment_id ids
           then (Http_Error 400 ''safeSegmentIds contains an invalid entry'', [])
         else (case clean_logs env now s days (set ids) of
             (Inl _, effs) \<Rightarrow> (Http_Error 500 ''failed to clean audit logs'', effs)
           | (Inr result, effs) \<Rightarrow> (Json result, effs))))"

section \<open>Decoded requests\<close>

lemma optional_audit_int_bounds:
  "optional_audit_int q key lo hi = Inr v \<Longrightarrow> v = Some n \<Longrightarrow> lo \<le> n \<and> (0 < hi \<longrightarrow> n \<le> hi)"
  by (auto simp: optional_audit_int_def Let_def split: if_splits option.splits)

lemma decoded_request:
  assumes "decode_audit_chunk_request q = Inr rq"
  shows "cr_source rq \<in> {source_access, source_error}"
    and "0 < read_limit rq \<and> read_limit rq \<le> max_audit_read_bytes"
    and "\<forall>off. cr_offset rq = Some off \<longrightarrow> 0 \<le> off"
    and "\<forall>off. cr_end_offset rq = Some off \<longrightarrow> 0 \<le> off"
    and "0 \<le> sz \<and> sz < 2 ^ 62 \<longrightarrow> 0 \<le> requested_offset rq sz \<and> requested_offset rq sz \<le> sz
      \<and> read_end rq sz = min (requested_offset rq sz + read_limit rq) (snapshot_end rq sz)"
proof -
  obtain src offset end_offset tail limit inode since where d:
    "decode_audit_source (values_get q ''source'') = Inr src"
    "optional_audit_int_text q ''offsetText'' ''offset'' 0 0 = Inr offset"
    "optional_audit_int_text q ''endOffsetText'' ''endOffset'' 0 0 = Inr end_offset"
    "optional_audit_int q ''maxReadBytes'' 1 max_audit_read_bytes = Inr limit"
    and rq: "rq = \<lparr>cr_end_offset = end_offset, cr_expected_inode = inode, cr_from_timestamp = since,
         cr_initial_tail_bytes = or_zero tail, cr_max_read_bytes = or_zero limit,
         cr_offset = offset, cr_source = src,
         cr_segment_id = trim_space (values_get q ''segmentId'')\<rparr>"
    using assms by (auto simp: decode_audit_chunk_request_def bind_result_Inr)
  show "cr_source rq \<in> {source_access, source_error}"
    using d(1) by (auto simp: rq decode_audit_source_def split: if_splits)
  have lim: "0 < read_limit rq" "read_limit rq \<le> max_audit_read_bytes"
    using d(4) optional_audit_int_bounds [OF d(4)]
    by (cases limit; simp add: rq read_limit_def or_default_def default_max_read_bytes_def or_zero_def
        max_audit_read_bytes_def)+
  then show "0 < read_limit rq \<and> read_limit rq \<le> max_audit_read_bytes" by simp
  show off: "\<forall>off. cr_offset rq = Some off \<longrightarrow> 0 \<le> off" "\<forall>off. cr_end_offset rq = Some off \<longrightarrow> 0 \<le> off"
    using optional_audit_int_bounds d(2,3) by (auto simp: rq optional_audit_int_text_def)
  show "0 \<le> sz \<and> sz < 2 ^ 62 \<longrightarrow> 0 \<le> requested_offset rq sz \<and> requested_offset rq sz \<le> sz
      \<and> read_end rq sz = min (requested_offset rq sz + read_limit rq) (snapshot_end rq sz)"
  proof (intro impI)
    assume sz: "0 \<le> sz \<and> sz < 2 ^ 62"
    then have req: "0 \<le> requested_offset rq sz" "requested_offset rq sz \<le> sz"
      by (auto simp: requested_offset_def is_initial_tail_def or_default_def default_initial_tail_bytes_def
          split: option.splits)
    then have "wrap64 (requested_offset rq sz + read_limit rq) = requested_offset rq sz + read_limit rq"
      using sz lim by (intro wrap64_id) (auto simp: max_audit_read_bytes_def)
    with req show "0 \<le> requested_offset rq sz \<and> requested_offset rq sz \<le> sz
      \<and> read_end rq sz = min (requested_offset rq sz + read_limit rq) (snapshot_end rq sz)"
      by (auto simp: read_end_def Let_def min_def read_limit_def [symmetric])
  qed
qed

text \<open>A request that the handler accepts has a source, offsets that are not negative and a read of
  at most fifty million bytes, so that no int64 computation of the reader overflows on a file of less
  than 2^62 bytes.\<close>
theorem decoded_request_is_bounded:
  assumes "decode_audit_chunk_request q = Inr rq"
  shows "cr_source rq \<in> {source_access, source_error}
    \<and> 0 < read_limit rq \<and> read_limit rq \<le> max_audit_read_bytes
    \<and> (\<forall>off. cr_offset rq = Some off \<longrightarrow> 0 \<le> off) \<and> (\<forall>off. cr_end_offset rq = Some off \<longrightarrow> 0 \<le> off)
    \<and> (0 \<le> sz \<and> sz < 2 ^ 62 \<longrightarrow> 0 \<le> requested_offset rq sz \<and> requested_offset rq sz \<le> sz
      \<and> read_end rq sz = min (requested_offset rq sz + read_limit rq) (snapshot_end rq sz))"
  using decoded_request [OF assms] by blast

section \<open>Witnesses\<close>

theorem decoded_request_is_bounded_witness:
  "\<exists>rq. decode_audit_chunk_request [(''source'', [''access'']), (''maxReadBytes'', [''10''])] = Inr rq
    \<and> 0 < read_limit rq \<and> read_limit rq \<le> max_audit_read_bytes"
proof -
  obtain rq where rq: "decode_audit_chunk_request [(''source'', [''access'']), (''maxReadBytes'', [''10''])] = Inr rq"
    by (simp add: decode_audit_chunk_request_def bind_result_def decode_audit_source_def values_get_def
        optional_audit_int_text_def optional_audit_int_def values_has_def max_audit_read_bytes_def
        decode_expected_inode_def decode_from_timestamp_def net_eval)
  with decoded_request_is_bounded [OF rq] show ?thesis by blast
qed

definition sample_clean :: clean_env where
  "sample_clean = \<lparr>ce_entries = (\<lambda>_. Found [(''access.log.segment-20260101-000001.sealed'', True)]),
     ce_stat = (\<lambda>_. Found \<lparr>lf_inode = 7, lf_data = ''ab'', lf_unreadable = False\<rparr>),
     ce_append = (\<lambda>_. Appended), ce_remove_ok = (\<lambda>_. True), ce_sync_ok = True,
     ce_journal = (\<lambda>_. Some []), ce_clock = []\<rparr>"

lemma sample_segment_day:
  "segment_day ''access.log.segment-'' ''access.log.segment-20260101-000001.sealed'' = Some (1767225600 * 10 ^ 9)"
  by (simp add: segment_day_def time_eval net_eval upt_rec)

theorem cleaning_is_safe_witness:
  "\<exists>r effs. clean_logs sample_clean (1800000000 * 10 ^ 9) sample_service 1
      {''access.log.segment-20260101-000001.sealed''} = (r, effs)
    \<and> removals effs = 1 \<and> journalled_first effs"
proof -
  let ?name = "''access.log.segment-20260101-000001.sealed''"
  have base: "path_base ''/l/access.log'' = ''access.log''" "path_base ''/l/error.log'' = ''error.log''"
    by (simp_all add: path_base_def)
  have rem: "removable ''access.log.segment-'' c {?name} (?name, True) = (1767225600 * 10 ^ 9 < c)"
    "\<not> removable ''error.log.segment-'' c {?name} (?name, True)" for c
    by (simp_all add: removable_def has_prefix_def has_suffix_def sample_segment_day)
  obtain r effs where run: "clean_logs sample_clean (1800000000 * 10 ^ 9) sample_service 1 {?name} = (r, effs)"
    by force
  have "plain_component ?name" by (simp add: plain_component_def)
  then have ent: "\<And>d es. ce_entries sample_clean d = Found es \<Longrightarrow> list_all (\<lambda>e. plain_component (fst e)) es"
    by (auto simp: sample_clean_def)
  have "list_all (removal_allowed (retention_cutoff (1800000000 * 10 ^ 9) 1) {?name}
      [access_path sample_service, error_path sample_service]) effs
    \<and> journalled_first effs \<and> (\<forall>c. r = Inr c \<longrightarrow> cl_files c = removals effs)"
    by (rule cleaning_is_safe [OF _ run]) (rule ent)
  then have "journalled_first effs" by blast
  moreover have "removals effs = 1"
    using run by (auto simp: clean_logs_def clean_logs_at_def sample_service_def clean_sealed_segments_def
        base rem sample_clean_def retention_cutoff_def wrap64_def append_gap_def journal_after_def Let_def
        no_clean_def)
  ultimately show ?thesis using run by blast
qed

theorem retention_overflow_witness:
  "retention_cutoff 5 (106751::int) = 5 - 106751 * (86400 * 10 ^ 9) \<and> 5 < retention_cutoff 5 106752
   \<and> removable ''access.log.segment-'' (retention_cutoff (1767225600 * 10 ^ 9) 106752)
       {''access.log.segment-20260101-000001.sealed''} (''access.log.segment-20260101-000001.sealed'', True)"
  using retention_overflow(1) [of 106751 5] retention_overflow(2) [of 1 5]
    retention_overflow(3) [of 1 "''access.log.segment-20260101-000001.sealed''" "''access.log.segment-''"
      "{''access.log.segment-20260101-000001.sealed''}" _ "1767225600 * 10 ^ 9", OF _ _ _ _ _ _ sample_segment_day]
  by (simp add: has_prefix_def has_suffix_def)

end
