(* ===== verification/LogSegments.thy ===== *)
theory LogSegments
  imports GoPath
begin

text \<open>internal/xray/logrotate.go: the writer of a log file that seals it into segments, the recovery of an
  interrupted rotation, and the loop of the log pump of managed_log.go around it.  The directory is a
  map from paths to files; each system call takes its outcome from a plan, so that any call can fail, and
  a crash is a stop at any call.\<close>

section \<open>The directory of the logs\<close>

text \<open>A file is a log, a rotation journal (the decoded JSON text of its two paths), or a journal whose
  text is not complete.  System calls take their outcomes from a plan; without one they succeed.  A
  failed write gets some bytes through; other failed calls have no effect.\<close>

datatype log_entry = Log string | Rotation string string | Torn

datatype outcome = Success | Failure nat

record disk =
  dk_files :: "log_entry gomap"
  dk_plan :: "outcome list"
  dk_dates :: "string list"

text \<open>An action gives a result or an error, and the state it leaves.\<close>

definition attempt ::
  "('b disk_scheme \<Rightarrow> 'a option \<times> 'b disk_scheme) \<Rightarrow> (nat \<Rightarrow> 'b disk_scheme \<Rightarrow> 'b disk_scheme)
   \<Rightarrow> 'b disk_scheme \<Rightarrow> 'a option \<times> 'b disk_scheme"
where
  "attempt ok failed d = (case dk_plan d of
     [] \<Rightarrow> ok d
   | Success # plan \<Rightarrow> ok (d\<lparr>dk_plan := plan\<rparr>)
   | Failure k # plan \<Rightarrow> (None, failed k (d\<lparr>dk_plan := plan\<rparr>)))"

definition bind_act ::
  "('s \<Rightarrow> 'a option \<times> 's) \<Rightarrow> ('a \<Rightarrow> 's \<Rightarrow> 'b option \<times> 's) \<Rightarrow> 's \<Rightarrow> 'b option \<times> 's"
where
  "bind_act m f s = (case m s of (None, s') \<Rightarrow> (None, s') | (Some x, s') \<Rightarrow> f x s')"

definition plain_call :: "'b disk_scheme \<Rightarrow> unit option \<times> 'b disk_scheme" where
  "plain_call = attempt (\<lambda>d. (Some (), d)) (\<lambda>_ d. d)"

definition entry_exists :: "string \<Rightarrow> 'b disk_scheme \<Rightarrow> bool" where
  "entry_exists p d \<longleftrightarrow> lookup (dk_files d) p \<noteq> None"

definition stat_exists :: "string \<Rightarrow> 'b disk_scheme \<Rightarrow> bool option \<times> 'b disk_scheme" where
  "stat_exists p = attempt (\<lambda>d. (Some (entry_exists p d), d)) (\<lambda>_ d. d)"

definition create_excl :: "string \<Rightarrow> 'b disk_scheme \<Rightarrow> unit option \<times> 'b disk_scheme" where
  "create_excl p = attempt (\<lambda>d. if entry_exists p d then (None, d)
     else (Some (), d\<lparr>dk_files := put p Torn (dk_files d)\<rparr>)) (\<lambda>_ d. d)"

definition write_rotation ::
  "string \<Rightarrow> string \<Rightarrow> string \<Rightarrow> 'b disk_scheme \<Rightarrow> unit option \<times> 'b disk_scheme"
where
  "write_rotation p active sealed = attempt
     (\<lambda>d. (Some (), d\<lparr>dk_files := put p (Rotation active sealed) (dk_files d)\<rparr>)) (\<lambda>_ d. d)"

definition rename_path :: "string \<Rightarrow> string \<Rightarrow> 'b disk_scheme \<Rightarrow> unit option \<times> 'b disk_scheme" where
  "rename_path p q = attempt (\<lambda>d. case lookup (dk_files d) p of
       None \<Rightarrow> (None, d)
     | Some e \<Rightarrow> (Some (), d\<lparr>dk_files := put q e (remove p (dk_files d))\<rparr>)) (\<lambda>_ d. d)"

definition remove_path :: "string \<Rightarrow> 'b disk_scheme \<Rightarrow> unit option \<times> 'b disk_scheme" where
  "remove_path p = attempt (\<lambda>d. if entry_exists p d
     then (Some (), d\<lparr>dk_files := remove p (dk_files d)\<rparr>) else (None, d)) (\<lambda>_ d. d)"

definition open_append :: "string \<Rightarrow> 'b disk_scheme \<Rightarrow> unit option \<times> 'b disk_scheme" where
  "open_append p = attempt (\<lambda>d. (Some (), if entry_exists p d then d
     else d\<lparr>dk_files := put p (Log []) (dk_files d)\<rparr>)) (\<lambda>_ d. d)"

definition log_text :: "string \<Rightarrow> 'b disk_scheme \<Rightarrow> string" where
  "log_text p d = (case lookup (dk_files d) p of Some (Log c) \<Rightarrow> c | _ \<Rightarrow> [])"

definition append_text :: "string \<Rightarrow> string \<Rightarrow> 'b disk_scheme \<Rightarrow> 'b disk_scheme" where
  "append_text p x d = (case lookup (dk_files d) p of
     Some (Log c) \<Rightarrow> d\<lparr>dk_files := put p (Log (c @ x)) (dk_files d)\<rparr> | _ \<Rightarrow> d)"

section \<open>The writer\<close>

record segmented_log_writer = disk +
  lw_path :: string
  lw_open :: bool
  lw_size :: int
  lw_max_size :: int
  lw_pending :: string
  lw_segment :: nat
  lw_open_date :: string

definition max_log_size :: int where "max_log_size = 10 * 2 ^ 20"
definition max_pending_line_bytes :: nat where "max_pending_line_bytes = 2 ^ 20"

definition rotation_journal :: "string \<Rightarrow> string" where
  "rotation_journal path = path @ ''.rotation.json''"

definition pad6 :: "nat \<Rightarrow> string" where
  "pad6 n = (let ds = base_digits 10 n in replicate (6 - length ds) (CHR ''0'') @ ds)"

definition segment_name :: "string \<Rightarrow> string \<Rightarrow> nat \<Rightarrow> string" where
  "segment_name path date n = path @ ''.segment-'' @ date @ ''-'' @ pad6 n @ ''.sealed''"

text \<open>The search for a free name, with fuel for one try more than there are files.\<close>

fun free_segment ::
  "nat \<Rightarrow> segmented_log_writer \<Rightarrow> string option \<times> segmented_log_writer"
where
  "free_segment 0 w = (None, w)"
| "free_segment (Suc fuel) w =
     (let n = (lw_segment w + 1) mod 2 ^ 64; candidate = segment_name (lw_path w) (lw_open_date w) n in
      bind_act (stat_exists candidate) (\<lambda>found w'.
        if found then free_segment fuel w' else (Some candidate, w')) (w\<lparr>lw_segment := n\<rparr>))"

definition find_free_segment :: "segmented_log_writer \<Rightarrow> string option \<times> segmented_log_writer" where
  "find_free_segment w = free_segment (Suc (length (dk_files w))) w"

definition sync_file :: "segmented_log_writer \<Rightarrow> unit option \<times> segmented_log_writer" where
  "sync_file w = (if lw_open w then plain_call w else (None, w))"

definition close_file :: "segmented_log_writer \<Rightarrow> unit option \<times> segmented_log_writer" where
  "close_file w = (if lw_open w then plain_call (w\<lparr>lw_open := False\<rparr>) else (None, w))"

definition seal :: "string \<Rightarrow> segmented_log_writer \<Rightarrow> unit option \<times> segmented_log_writer" where
  "seal today w =
     (let path = lw_path w; journal = rotation_journal path in
      bind_act sync_file (\<lambda>_.
      bind_act find_free_segment (\<lambda>sealed.
      bind_act (create_excl journal) (\<lambda>_.
      bind_act (write_rotation journal path sealed) (\<lambda>_.
      bind_act plain_call (\<lambda>_.
      bind_act plain_call (\<lambda>_.
      bind_act plain_call (\<lambda>_.
      bind_act close_file (\<lambda>_.
      bind_act (rename_path path sealed) (\<lambda>_.
      bind_act plain_call (\<lambda>_.
      bind_act (remove_path journal) (\<lambda>_.
      bind_act plain_call (\<lambda>_.
      bind_act (open_append path) (\<lambda>_ w'.
        (Some (), w'\<lparr>lw_open := True, lw_size := 0, lw_open_date := today\<rparr>)))))))))))))) w)"

definition file_write :: "string \<Rightarrow> segmented_log_writer \<Rightarrow> unit option \<times> segmented_log_writer" where
  "file_write line w =
     (if \<not> lw_open w then (None, w)
      else attempt (\<lambda>w. (Some (), append_text (lw_path w) line w))
             (\<lambda>k w. append_text (lw_path w) (take k line) w) w)"

definition written :: "string \<Rightarrow> segmented_log_writer \<Rightarrow> nat" where
  "written line w = (if \<not> lw_open w then 0
     else (case dk_plan w of Failure k # _ \<Rightarrow> min k (length line) | _ \<Rightarrow> length line))"

definition next_date :: "segmented_log_writer \<Rightarrow> string \<times> segmented_log_writer" where
  "next_date w = (case dk_dates w of
     [] \<Rightarrow> (lw_open_date w, w) | d # ds \<Rightarrow> (d, w\<lparr>dk_dates := ds\<rparr>))"

definition write_line :: "string \<Rightarrow> segmented_log_writer \<Rightarrow> unit option \<times> segmented_log_writer" where
  "write_line line w0 =
     (let (today, w) = next_date w0 in
      bind_act (if lw_max_size w > 0 \<and> lw_size w > 0 \<and> lw_size w + int (length line) > lw_max_size w
            \<or> today \<noteq> lw_open_date w
          then seal today else (\<lambda>w. (Some (), w)))
        (\<lambda>_ w. case file_write line w of
           (r, w') \<Rightarrow> (r, w'\<lparr>lw_size := lw_size w + int (written line w)\<rparr>)) w)"

definition index_newline :: "string \<Rightarrow> nat option" where
  "index_newline s = (if CHR 0x0A \<in> set s then Some (length (before (CHR 0x0A) s)) else None)"

text \<open>The loop of Write: the bytes that stay pending, with the error.\<close>

function write_loop ::
  "string \<Rightarrow> segmented_log_writer \<Rightarrow> unit option \<times> string \<times> segmented_log_writer"
where
  "write_loop pending w = (case index_newline pending of
     Some i \<Rightarrow>
       (let k = (if i \<ge> max_pending_line_bytes then max_pending_line_bytes else i + 1) in
        case write_line (take k pending) w of
          (None, w') \<Rightarrow> (None, pending, w')
        | (Some _, w') \<Rightarrow> write_loop (drop k pending) w')
   | None \<Rightarrow>
       if length pending \<ge> max_pending_line_bytes then
         (case write_line pending w of
            (None, w') \<Rightarrow> (None, pending, w') | (Some _, w') \<Rightarrow> (Some (), [], w'))
       else (Some (), pending, w))"
  by pat_completeness auto
termination
  by (relation "measure (length \<circ> fst)")
    (auto simp: index_newline_def max_pending_line_bytes_def split: if_splits intro!: diff_less length_pos_if_in_set)

declare write_loop.simps [simp del]

definition log_write :: "string \<Rightarrow> segmented_log_writer \<Rightarrow> nat option \<times> segmented_log_writer" where
  "log_write p w = (case write_loop (lw_pending w @ p) w of
     (r, pending, w') \<Rightarrow> (map_option (\<lambda>_. length p) r, w'\<lparr>lw_pending := pending\<rparr>))"

definition log_close :: "segmented_log_writer \<Rightarrow> unit option \<times> segmented_log_writer" where
  "log_close w =
     bind_act (if lw_pending w = [] then (\<lambda>w. (Some (), w))
         else bind_act (file_write (lw_pending w)) (\<lambda>_ w. (Some (), w\<lparr>lw_pending := []\<rparr>))) (\<lambda>_.
     bind_act sync_file (\<lambda>_. close_file)) w"

section \<open>Opening and recovery\<close>

definition recover_segment_rotation :: "string \<Rightarrow> 'b disk_scheme \<Rightarrow> unit option \<times> 'b disk_scheme" where
  "recover_segment_rotation active =
     bind_act (attempt (\<lambda>d. (Some (lookup (dk_files d) (rotation_journal active)), d)) (\<lambda>_ d. d)) (\<lambda>journal.
     case journal of
       None \<Rightarrow> (\<lambda>d. (Some (), d))
     | Some (Rotation j_active j_sealed) \<Rightarrow>
         if j_active \<noteq> active \<or> path_dir j_sealed \<noteq> path_dir active
           \<or> \<not> has_prefix (path_base j_sealed) (path_base active @ ''.segment-'')
           \<or> \<not> has_suffix j_sealed ''.sealed''
         then (\<lambda>d. (None, d))
         else
           bind_act (stat_exists active) (\<lambda>active_exists.
           bind_act (stat_exists j_sealed) (\<lambda>sealed_exists.
           if active_exists \<and> sealed_exists then (\<lambda>d. (None, d))
           else if \<not> active_exists \<and> \<not> sealed_exists then (\<lambda>d. (None, d))
           else
             bind_act (if active_exists then rename_path active j_sealed else (\<lambda>d. (Some (), d))) (\<lambda>_.
             bind_act plain_call (\<lambda>_.
             bind_act (remove_path (rotation_journal active)) (\<lambda>_. plain_call)))))
     | Some _ \<Rightarrow> (\<lambda>d. (None, d)))"

definition sealed_segments :: "string \<Rightarrow> 'b disk_scheme \<Rightarrow> string list" where
  "sealed_segments path d = filter (\<lambda>p. path_dir p = path_dir path
     \<and> has_prefix (path_base p) (path_base path @ ''.segment-'') \<and> has_suffix (path_base p) ''.sealed'')
     (map fst (dk_files d))"

definition open_segmented_log_writer ::
  "string \<Rightarrow> int \<Rightarrow> string \<Rightarrow> disk \<Rightarrow> segmented_log_writer option \<times> disk"
where
  "open_segmented_log_writer path max_size today =
     bind_act plain_call (\<lambda>_.
     bind_act (recover_segment_rotation path) (\<lambda>_.
     bind_act (open_append path) (\<lambda>_.
     bind_act (attempt (\<lambda>d. (Some (length (sealed_segments path d)), d)) (\<lambda>_ d. d)) (\<lambda>generation.
     bind_act plain_call (\<lambda>_ d.
       (Some (disk.extend d \<lparr>lw_path = path, lw_open = True, lw_size = int (length (log_text path d)),
          lw_max_size = max_size, lw_pending = [], lw_segment = generation mod 2 ^ 64,
          lw_open_date = today\<rparr>), d))))))"

section \<open>The pump\<close>

text \<open>The loop of the goroutine of managedLogPump.start: what each read of the FIFO gave is written; the
  first error ends it.  The writer is closed in any case.\<close>

fun pump_loop :: "string list \<Rightarrow> segmented_log_writer \<Rightarrow> unit option \<times> segmented_log_writer" where
  "pump_loop [] w = (Some (), w)"
| "pump_loop (chunk # chunks) w = (case log_write chunk w of
     (None, w') \<Rightarrow> (None, w') | (Some _, w') \<Rightarrow> pump_loop chunks w')"

definition pump_run :: "string list \<Rightarrow> segmented_log_writer \<Rightarrow> segmented_log_writer" where
  "pump_run chunks w = snd (log_close (snd (pump_loop chunks w)))"

end
