(* ===== verification/LogRotation.thy ===== *)
theory LogRotation
  imports LogSegments
begin

text \<open>What the segmented log writer guarantees, with a small logic of triples for its actions: no byte
  on disk is lost or reordered, files stay small, and an interrupted rotation is recovered.\<close>

section \<open>Triples\<close>

text \<open>From every state with P the action either gives x and a state with Q x, or an error and a state
  with E.\<close>

definition triple ::
  "('s \<Rightarrow> bool) \<Rightarrow> ('s \<Rightarrow> 'a option \<times> 's) \<Rightarrow> ('a \<Rightarrow> 's \<Rightarrow> bool) \<Rightarrow> ('s \<Rightarrow> bool) \<Rightarrow> bool"
where
  "triple P m Q E \<longleftrightarrow> (\<forall>s. P s \<longrightarrow> (case m s of (Some x, s') \<Rightarrow> Q x s' | (None, s') \<Rightarrow> E s'))"

lemma tripleI: "(\<And>s. P s \<Longrightarrow> case m s of (Some x, s') \<Rightarrow> Q x s' | (None, s') \<Rightarrow> E s') \<Longrightarrow> triple P m Q E"
  by (simp add: triple_def)

lemma triple_Some: "triple P m Q E \<Longrightarrow> P s \<Longrightarrow> m s = (Some x, s') \<Longrightarrow> Q x s'"
  by (auto simp: triple_def)

lemma triple_None: "triple P m Q E \<Longrightarrow> P s \<Longrightarrow> m s = (None, s') \<Longrightarrow> E s'"
  by (auto simp: triple_def)

lemma triple_bind:
  assumes "triple P m R E" "\<And>x. triple (R x) (f x) Q E"
  shows "triple P (bind_act m f) Q E"
  using assms by (fastforce simp: triple_def bind_act_def split: prod.splits option.splits)

lemma triple_conseq:
  assumes "triple P' m Q' E'" "\<And>s. P s \<Longrightarrow> P' s" "\<And>x s. Q' x s \<Longrightarrow> Q x s" "\<And>s. E' s \<Longrightarrow> E s"
  shows "triple P m Q E"
  using assms by (fastforce simp: triple_def split: prod.splits option.splits)

lemma triple_attempt:
  assumes "\<And>d p. P d \<Longrightarrow> case ok (d\<lparr>dk_plan := p\<rparr>) of (Some x, d') \<Rightarrow> Q x d' | (None, d') \<Rightarrow> E d'"
    and "\<And>d p k. P d \<Longrightarrow> E (failed k (d\<lparr>dk_plan := p\<rparr>))"
  shows "triple P (attempt ok failed) Q E"
proof (rule tripleI)
  fix d assume P: "P d"
  have d: "d\<lparr>dk_plan := dk_plan d\<rparr> = d" by simp
  show "case attempt ok failed d of (Some x, d') \<Rightarrow> Q x d' | (None, d') \<Rightarrow> E d'"
    using assms(1) [OF P, of "dk_plan d", unfolded d] assms(1) [OF P] assms(2) [OF P]
    by (auto simp: attempt_def split: list.splits outcome.splits)
qed

section \<open>The steps of a rotation\<close>

text \<open>What the directory holds during a rotation: the journal, the active log and the new segment;
  every other path is as in F.  K is about the fields of the writer only.\<close>

definition frame :: "('b disk_scheme \<Rightarrow> bool) \<Rightarrow> bool" where
  "frame K \<longleftrightarrow> (\<forall>w fs p. K (w\<lparr>dk_files := fs\<rparr>) = K w \<and> K (w\<lparr>dk_plan := p\<rparr>) = K w)"

definition rotating ::
  "(string \<Rightarrow> log_entry option) \<Rightarrow> string \<Rightarrow> string \<Rightarrow> ('b disk_scheme \<Rightarrow> bool)
   \<Rightarrow> log_entry option \<Rightarrow> log_entry option \<Rightarrow> log_entry option \<Rightarrow> 'b disk_scheme \<Rightarrow> bool"
where
  "rotating F path sealed K j a s w \<longleftrightarrow> K w \<and> frame K \<and> path \<noteq> sealed \<and> sealed \<noteq> rotation_journal path
     \<and> (\<forall>q. lookup (dk_files w) q =
          (if q = rotation_journal path then j else if q = path then a
           else if q = sealed then s else F q))"

lemma journal_not_path [simp]: "rotation_journal path \<noteq> path" "path \<noteq> rotation_journal path"
  by (simp_all add: rotation_journal_def)

lemma rotating_plan [simp]:
  "rotating F path sealed K j a s (w\<lparr>dk_plan := p\<rparr>) = rotating F path sealed K j a s w"
  by (auto simp: rotating_def frame_def)

lemma triple_plain_call:
  "(\<And>w p. P w \<Longrightarrow> P (w\<lparr>dk_plan := p\<rparr>)) \<Longrightarrow> (\<And>w. P w \<Longrightarrow> E w) \<Longrightarrow> triple P plain_call (\<lambda>_. P) E"
  unfolding plain_call_def by (rule triple_attempt) auto

lemma triple_create_excl:
  "(\<And>w. rotating F path sealed K j a s w \<Longrightarrow> E w) \<Longrightarrow>
   triple (rotating F path sealed K j a s) (create_excl (rotation_journal path))
     (\<lambda>_ w. j = None \<and> rotating F path sealed K (Some Torn) a s w) E"
  unfolding create_excl_def
  by (rule triple_attempt) (auto simp: rotating_def frame_def entry_exists_def go_map)

lemma triple_write_rotation:
  "(\<And>w. rotating F path sealed K j a s w \<Longrightarrow> E w) \<Longrightarrow>
   triple (rotating F path sealed K j a s) (write_rotation (rotation_journal path) x y)
     (\<lambda>_. rotating F path sealed K (Some (Rotation x y)) a s) E"
  unfolding write_rotation_def
  by (rule triple_attempt) (auto simp: rotating_def frame_def go_map)

lemma triple_rename_path:
  "(\<And>w. rotating F path sealed K j a s w \<Longrightarrow> E w) \<Longrightarrow>
   triple (rotating F path sealed K j a s) (rename_path path sealed)
     (\<lambda>_ w. a \<noteq> None \<and> rotating F path sealed K j None a w) E"
  unfolding rename_path_def
  by (rule triple_attempt) (auto simp: rotating_def frame_def go_map split: option.splits)

lemma triple_remove_path:
  "(\<And>w. rotating F path sealed K j a s w \<Longrightarrow> E w) \<Longrightarrow>
   triple (rotating F path sealed K j a s) (remove_path (rotation_journal path))
     (\<lambda>_. rotating F path sealed K None a s) E"
  unfolding remove_path_def
  by (rule triple_attempt) (auto simp: rotating_def frame_def entry_exists_def go_map)

lemma triple_open_append:
  "(\<And>w. rotating F path sealed K j a s w \<Longrightarrow> E w) \<Longrightarrow>
   triple (rotating F path sealed K j a s) (open_append path)
     (\<lambda>_. rotating F path sealed K j (Some (case a of None \<Rightarrow> Log [] | Some e \<Rightarrow> e)) s) E"
  unfolding open_append_def
  by (rule triple_attempt) (auto simp: rotating_def frame_def entry_exists_def go_map split: option.splits)

lemma triple_stat_exists:
  "(\<And>w p. P w \<Longrightarrow> P (w\<lparr>dk_plan := p\<rparr>)) \<Longrightarrow> (\<And>w. P w \<Longrightarrow> E w) \<Longrightarrow>
   triple P (stat_exists q) (\<lambda>b w. P w \<and> b = entry_exists q w) E"
  unfolding stat_exists_def by (rule triple_attempt) (auto simp: entry_exists_def)

definition fields :: "segmented_log_writer \<Rightarrow> string \<times> int \<times> int \<times> string \<times> string \<times> string list" where
  "fields w = (lw_path w, lw_size w, lw_max_size w, lw_pending w, lw_open_date w, dk_dates w)"

lemma fields_frame [simp]:
  "fields (w\<lparr>dk_files := fs\<rparr>) = fields w" "fields (w\<lparr>dk_plan := p\<rparr>) = fields w"
  "fields (w\<lparr>lw_segment := n\<rparr>) = fields w" "fields (w\<lparr>lw_open := b\<rparr>) = fields w"
  by (simp_all add: fields_def)

definition idle :: "(string \<Rightarrow> log_entry option) \<Rightarrow> segmented_log_writer \<Rightarrow> bool \<Rightarrow> segmented_log_writer \<Rightarrow> bool" where
  "idle F v b w \<longleftrightarrow> fields w = fields v \<and> lw_open w = b \<and> lookup (dk_files w) = F"

definition fresh_segment :: "(string \<Rightarrow> log_entry option) \<Rightarrow> segmented_log_writer \<Rightarrow> string \<Rightarrow> bool" where
  "fresh_segment F v sealed \<longleftrightarrow>
     F sealed = None \<and> (\<exists>n. sealed = segment_name (lw_path v) (lw_open_date v) n)"

lemma segment_name_other [simp]:
  "segment_name path date n \<noteq> path" "path \<noteq> segment_name path date n"
  "segment_name path date n \<noteq> rotation_journal path"
  by (simp_all add: segment_name_def rotation_journal_def)

lemma triple_free_segment:
  "triple (idle F v b) (free_segment fuel) (\<lambda>sealed w. fresh_segment F v sealed \<and> idle F v b w) (idle F v b)"
proof (induction fuel)
  case 0
  then show ?case by (simp add: triple_def)
next
  case (Suc fuel)
  show ?case
  proof (rule tripleI)
    fix w assume w: "idle F v b w"
    let ?n = "(lw_segment w + 1) mod 2 ^ 64"
    let ?w = "w\<lparr>lw_segment := ?n\<rparr>" and ?c = "segment_name (lw_path w) (lw_open_date w) ?n"
    have eq: "lw_path w = lw_path v" "lw_open_date w = lw_open_date v" using w by (simp_all add: idle_def fields_def)
    have run: "triple (idle F v b) (bind_act (stat_exists ?c) (\<lambda>found w'.
        if found then free_segment fuel w' else (Some ?c, w')))
      (\<lambda>sealed w. fresh_segment F v sealed \<and> idle F v b w) (idle F v b)"
    proof (rule triple_bind)
      show "triple (idle F v b) (stat_exists ?c) (\<lambda>b' w. idle F v b w \<and> b' = entry_exists ?c w) (idle F v b)"
        by (rule triple_stat_exists) (auto simp: idle_def)
      show "triple (\<lambda>w. idle F v b w \<and> x = entry_exists ?c w) (\<lambda>w'. if x then free_segment fuel w' else (Some ?c, w'))
        (\<lambda>sealed w. fresh_segment F v sealed \<and> idle F v b w) (idle F v b)" for x
      proof (cases x)
        case True
        then show ?thesis by (simp, intro triple_conseq [OF Suc]) auto
      qed (auto simp: triple_def fresh_segment_def idle_def entry_exists_def eq)
    qed
    have "idle F v b ?w" using w by (simp add: idle_def)
    note run [unfolded triple_def, rule_format, OF this]
    then show "case free_segment (Suc fuel) w of
        (Some sealed, w) \<Rightarrow> fresh_segment F v sealed \<and> idle F v b w | (None, w) \<Rightarrow> idle F v b w"
      unfolding free_segment.simps Let_def .
  qed
qed

lemma triple_find_free_segment:
  "triple (idle F v b) find_free_segment (\<lambda>sealed w. fresh_segment F v sealed \<and> idle F v b w) (idle F v b)"
proof (rule tripleI, unfold find_free_segment_def)
  fix w assume "idle F v b w"
  from triple_free_segment [unfolded triple_def, rule_format, OF this]
  show "case free_segment (Suc (length (dk_files w))) w of
    (Some sealed, w) \<Rightarrow> fresh_segment F v sealed \<and> idle F v b w | (None, w) \<Rightarrow> idle F v b w" .
qed

text \<open>Where a rotation can stop: with the journal entry j, the active log a and the new segment s.\<close>

definition stopped :: "(string \<Rightarrow> log_entry option) \<Rightarrow> segmented_log_writer \<Rightarrow> segmented_log_writer \<Rightarrow> bool" where
  "stopped F v w \<longleftrightarrow> fields w = fields v \<and> (
     lookup (dk_files w) = F \<and> (lw_open w \<longrightarrow> lw_open v)
     \<or> F (rotation_journal (lw_path v)) = None \<and> (\<exists>sealed j a s. fresh_segment F v sealed
        \<and> rotating F (lw_path v) sealed (\<lambda>_. True) j a s w
        \<and> (j, a, s) \<in> {(Some Torn, F (lw_path v), None),
             (Some (Rotation (lw_path v) sealed), F (lw_path v), None),
             (Some (Rotation (lw_path v) sealed), None, F (lw_path v)),
             (None, None, F (lw_path v))}
        \<and> F (lw_path v) \<noteq> None
        \<and> (lw_open w \<longrightarrow> lw_open v \<and> a \<noteq> None)))"

definition sealing ::
  "(string \<Rightarrow> log_entry option) \<Rightarrow> segmented_log_writer \<Rightarrow> string \<Rightarrow> bool
   \<Rightarrow> log_entry option \<Rightarrow> log_entry option \<Rightarrow> log_entry option \<Rightarrow> segmented_log_writer \<Rightarrow> bool"
where
  "sealing F v sealed b = rotating F (lw_path v) sealed
     (\<lambda>w. fields w = fields v \<and> lw_open w = b \<and> fresh_segment F v sealed)"

lemma idle_sealing:
  "idle F v b w \<Longrightarrow> fresh_segment F v sealed \<Longrightarrow>
   sealing F v sealed b (F (rotation_journal (lw_path v))) (F (lw_path v)) None w"
  by (auto simp: sealing_def rotating_def frame_def idle_def fresh_segment_def)

lemma sealing_rotating:
  "sealing F v sealed b j a s w \<Longrightarrow> rotating F (lw_path v) sealed (\<lambda>_. True) j a s w"
  by (auto simp: sealing_def rotating_def frame_def)

lemma sealing_stopped:
  assumes "sealing F v sealed b j a s w" "F (rotation_journal (lw_path v)) = None" "F (lw_path v) \<noteq> None"
    "(j, a, s) \<in> {(Some Torn, F (lw_path v), None),
             (Some (Rotation (lw_path v) sealed), F (lw_path v), None),
             (Some (Rotation (lw_path v) sealed), None, F (lw_path v)), (None, None, F (lw_path v))}"
    "b \<longrightarrow> a \<noteq> None" "lw_open v"
  shows "stopped F v w"
proof -
  have "fields w = fields v" "fresh_segment F v sealed" "lw_open w = b"
    using assms(1) by (auto simp: sealing_def rotating_def)
  with assms(2-) sealing_rotating [OF assms(1)] show ?thesis unfolding stopped_def by blast
qed

lemma triple_close_file:
  "(\<And>w b'. sealing F v sealed b' j a s w \<Longrightarrow> b' \<longrightarrow> b \<Longrightarrow> E w) \<Longrightarrow>
   triple (sealing F v sealed b j a s) close_file (\<lambda>_. sealing F v sealed False j a s) E"
  unfolding close_file_def plain_call_def
  by (rule tripleI) (auto simp: attempt_def sealing_def rotating_def frame_def split: list.splits outcome.splits)

lemma sealing_same:
  assumes "sealing F v sealed b (F (rotation_journal (lw_path v))) (F (lw_path v)) None w" "b \<longrightarrow> lw_open v"
  shows "stopped F v w"
proof -
  have "fields w = fields v" "lw_open w = b" "F sealed = None"
    using assms(1) by (auto simp: sealing_def rotating_def fresh_segment_def)
  moreover have "lookup (dk_files w) = F"
    using assms(1) \<open>F sealed = None\<close> by (auto simp: sealing_def rotating_def)
  ultimately show ?thesis using assms(2) by (simp add: stopped_def)
qed

lemma sealing_plan: "sealing F v sealed b j a s w \<Longrightarrow> sealing F v sealed b j a s (w\<lparr>dk_plan := p\<rparr>)"
  by (simp add: sealing_def)

lemma triple_assume: "(C \<Longrightarrow> triple P m Q E) \<Longrightarrow> triple (\<lambda>w. C \<and> P w) m Q E"
  by (auto simp: triple_def)

lemma triple_seal:
  assumes a0: "F (lw_path v) \<noteq> None" and "lw_open v"
  shows "triple (idle F v True) (seal today)
    (\<lambda>_ w. \<exists>sealed. fresh_segment F v sealed \<and> F (rotation_journal (lw_path v)) = None
       \<and> rotating F (lw_path v) sealed (\<lambda>_. True) None (Some (Log [])) (F (lw_path v)) w
       \<and> fields w = fields (v\<lparr>lw_size := 0, lw_open_date := today\<rparr>) \<and> lw_open w)
    (stopped F v)"
    (is "triple _ _ ?Q ?E")
proof -
  let ?p = "lw_path v" let ?j = "rotation_journal ?p"
  let ?S = "\<lambda>sealed. sealing F v sealed"
  let ?rot = "\<lambda>sealed. Some (Rotation ?p sealed)"
  have rest: "triple (?S sealed True (?rot sealed) (F ?p) None)
     (bind_act plain_call (\<lambda>_. bind_act plain_call (\<lambda>_. bind_act plain_call (\<lambda>_.
      bind_act close_file (\<lambda>_. bind_act (rename_path ?p sealed) (\<lambda>_. bind_act plain_call (\<lambda>_.
      bind_act (remove_path ?j) (\<lambda>_. bind_act plain_call (\<lambda>_. bind_act (open_append ?p) (\<lambda>_ w'.
        (Some (), w'\<lparr>lw_open := True, lw_size := 0, lw_open_date := today\<rparr>))))))))))) ?Q ?E"
    if j0: "F ?j = None" for sealed
  proof -
    have err: "?S sealed b j a s w \<Longrightarrow> (j, a, s) \<in> {(Some Torn, F ?p, None), (?rot sealed, F ?p, None),
        (?rot sealed, None, F ?p), (None, None, F ?p)} \<Longrightarrow> (b \<longrightarrow> a \<noteq> None) \<Longrightarrow> ?E w" for b j a s w
      by (rule sealing_stopped [OF _ j0 a0 _ _ assms(2)])
    let ?A = "?S sealed True (?rot sealed) (F ?p) None" and ?A' = "?S sealed False (?rot sealed) (F ?p) None"
      and ?B = "?S sealed False (?rot sealed) None (F ?p)" and ?C = "?S sealed False None None (F ?p)"
      and ?D = "?S sealed False None (Some (Log [])) (F ?p)"
    have plain: "triple X plain_call (\<lambda>_. X) ?E" if "X = ?S sealed b j a s" "(j, a, s) \<in>
        {(?rot sealed, F ?p, None), (?rot sealed, None, F ?p), (None, None, F ?p)}" "b \<longrightarrow> a \<noteq> None" for X b j a s
      using that by (intro triple_plain_call) (auto intro: sealing_plan err)
    have close: "triple ?A close_file (\<lambda>_. ?A') ?E"
      by (rule triple_close_file, erule err) (auto simp: a0)
    have rename: "triple ?A' (rename_path ?p sealed) (\<lambda>_. ?B) ?E"
    proof -
      have "triple ?A' (rename_path ?p sealed) (\<lambda>_ w. F ?p \<noteq> None \<and> ?B w) ?E"
        unfolding sealing_def by (rule triple_rename_path, fold sealing_def, erule err) (simp_all add: a0)
      then show ?thesis by (rule triple_conseq) auto
    qed
    have remove: "triple ?B (remove_path ?j) (\<lambda>_. ?C) ?E"
      unfolding sealing_def by (rule triple_remove_path, fold sealing_def, erule err) simp_all
    have reopen: "triple ?C (open_append ?p) (\<lambda>_. ?D) ?E"
    proof -
      have "triple ?C (open_append ?p) (\<lambda>_. ?S sealed False None
          (Some (case None of None \<Rightarrow> Log [] | Some e \<Rightarrow> e)) (F ?p)) ?E"
        unfolding sealing_def by (rule triple_open_append, fold sealing_def, erule err) simp_all
      then show ?thesis by simp
    qed
    have final: "triple ?D (\<lambda>w'. (Some (), w'\<lparr>lw_open := True, lw_size := 0, lw_open_date := today\<rparr>)) ?Q ?E"
      using j0 by (auto simp: triple_def sealing_def rotating_def frame_def fields_def)
    show ?thesis
      by (rule triple_bind [OF plain [OF refl]] triple_bind [OF close] triple_bind [OF rename]
          triple_bind [OF remove] triple_bind [OF reopen] final | simp add: a0)+
  qed
  have create: "triple (?S sealed True (F ?j) (F ?p) None) (create_excl ?j)
      (\<lambda>_ w. F ?j = None \<and> ?S sealed True (Some Torn) (F ?p) None w) ?E" for sealed
    unfolding sealing_def
    by (rule triple_create_excl, fold sealing_def, erule sealing_same) (simp add: assms(2))
  have journal: "triple (\<lambda>w. F ?j = None \<and> ?S sealed True (Some Torn) (F ?p) None w)
      (write_rotation ?j ?p sealed) (\<lambda>_ w. F ?j = None \<and> ?S sealed True (?rot sealed) (F ?p) None w) ?E" for sealed
  proof (rule triple_assume)
    assume j0: "F ?j = None"
    then show "triple (?S sealed True (Some Torn) (F ?p) None)
      (write_rotation ?j ?p sealed) (\<lambda>_ w. F ?j = None \<and> ?S sealed True (?rot sealed) (F ?p) None w) ?E"
    proof -
      have "triple (?S sealed True (Some Torn) (F ?p) None) (write_rotation ?j ?p sealed)
          (\<lambda>_. ?S sealed True (?rot sealed) (F ?p) None) ?E"
        unfolding sealing_def
        by (rule triple_write_rotation, fold sealing_def, erule sealing_stopped [OF _ j0 a0 _ _ assms(2)]) (simp_all add: a0)
      then show ?thesis by (rule triple_conseq) (auto simp: j0)
    qed
  qed
  have sync: "triple (idle F v True) sync_file (\<lambda>_. idle F v True) ?E"
    by (rule tripleI) (auto simp: sync_file_def plain_call_def attempt_def idle_def stopped_def assms(2)
        split: list.splits outcome.splits)
  have find_seg: "triple (idle F v True) find_free_segment
      (\<lambda>sealed w. ?S sealed True (F ?j) (F ?p) None w) ?E"
    by (rule triple_conseq [OF triple_find_free_segment])
      (auto intro: idle_sealing simp: stopped_def idle_def assms(2))
  show ?thesis
  proof (rule tripleI)
    fix w assume w: "idle F v True w"
    then have path: "lw_path w = ?p" by (simp add: idle_def fields_def)
    have "triple (idle F v True) (bind_act sync_file (\<lambda>_. bind_act find_free_segment (\<lambda>sealed.
      bind_act (create_excl ?j) (\<lambda>_. bind_act (write_rotation ?j ?p sealed) (\<lambda>_.
      bind_act plain_call (\<lambda>_. bind_act plain_call (\<lambda>_. bind_act plain_call (\<lambda>_.
      bind_act close_file (\<lambda>_. bind_act (rename_path ?p sealed) (\<lambda>_. bind_act plain_call (\<lambda>_.
      bind_act (remove_path ?j) (\<lambda>_. bind_act plain_call (\<lambda>_. bind_act (open_append ?p) (\<lambda>_ w'.
        (Some (), w'\<lparr>lw_open := True, lw_size := 0, lw_open_date := today\<rparr>))))))))))))))) ?Q ?E"
      by (rule triple_bind [OF sync], rule triple_bind [OF find_seg], rule triple_bind [OF create],
          rule triple_bind [OF journal], rule triple_assume, erule rest)
    with w show "case seal today w of (Some x, w) \<Rightarrow> ?Q x w | (None, w) \<Rightarrow> ?E w"
      by (simp add: triple_def seal_def Let_def path)
  qed
qed

section \<open>What is on disk\<close>

definition text_of :: "log_entry option \<Rightarrow> string" where
  "text_of e = (case e of Some (Log c) \<Rightarrow> c | _ \<Rightarrow> [])"

definition segment_of :: "string \<Rightarrow> string \<Rightarrow> bool" where
  "segment_of path q \<longleftrightarrow> (\<exists>date n. list_all is_digit date \<and> q = segment_name path date n)"

text \<open>From F to G the log at a path was sealed into new segments, in order, and bytes were appended;
  nothing else changed but the journal.\<close>

definition kept ::
  "string \<Rightarrow> (string \<Rightarrow> log_entry option) \<Rightarrow> (string \<Rightarrow> log_entry option) \<Rightarrow> string list \<Rightarrow> string \<Rightarrow> bool"
where
  "kept path F G names x \<longleftrightarrow>
     distinct names \<and> (\<forall>q\<in>set names. F q = None \<and> G q \<noteq> None \<and> segment_of path q)
     \<and> (\<forall>q. q \<noteq> path \<and> q \<noteq> rotation_journal path \<and> q \<notin> set names \<longrightarrow> G q = F q)
     \<and> concat (map (\<lambda>q. text_of (G q)) names) @ text_of (G path) = text_of (F path) @ x"

lemma text_of_simps [simp]: "text_of None = []" "text_of (Some (Log c)) = c"
  by (simp_all add: text_of_def)

lemma segment_of_other: "segment_of path q \<Longrightarrow> q \<noteq> path \<and> q \<noteq> rotation_journal path"
  by (auto simp: segment_of_def)

lemma kept_refl: "kept path F F [] []"
  by (simp add: kept_def)

lemma kept_trans:
  assumes "kept path F G ns x" "kept path G H ms y"
  shows "kept path F H (ns @ ms) (x @ y)"
proof -
  have ns: "q \<noteq> path \<and> q \<noteq> rotation_journal path \<and> q \<notin> set ms \<and> H q = G q" if "q \<in> set ns" for q
  proof -
    have "G q \<noteq> None" "segment_of path q" using that assms(1) by (auto simp: kept_def)
    then have "q \<noteq> path \<and> q \<noteq> rotation_journal path \<and> q \<notin> set ms"
      using segment_of_other [of path q] assms(2) by (auto simp: kept_def)
    then show ?thesis using assms(2) by (simp add: kept_def)
  qed
  then have "concat (map (\<lambda>q. text_of (H q)) ns) = concat (map (\<lambda>q. text_of (G q)) ns)"
    by (intro arg_cong [where f = concat]) auto
  moreover have "F q = None" if "q \<in> set ms" for q
    using that assms segment_of_other ns by (auto simp: kept_def) metis
  moreover have "\<forall>q\<in>set ns. H q \<noteq> None" using ns assms(1) by (auto simp: kept_def)
  moreover have "H q = F q" if "q \<noteq> path" "q \<noteq> rotation_journal path" "q \<notin> set ns" "q \<notin> set ms" for q
    using that assms by (simp add: kept_def)
  moreover have "concat (map (\<lambda>q. text_of (H q)) ms) @ text_of (H path) = text_of (G path) @ y"
    "concat (map (\<lambda>q. text_of (G q)) ns) @ text_of (G path) = text_of (F path) @ x"
    using assms by (simp_all add: kept_def)
  then have "concat (map (\<lambda>q. text_of (G q)) ns) @ concat (map (\<lambda>q. text_of (H q)) ms) @ text_of (H path)
      = text_of (F path) @ x @ y" by (metis append_assoc)
  moreover have "distinct (ns @ ms)" using assms ns by (auto simp: kept_def)
  moreover have "\<forall>q\<in>set (ns @ ms). segment_of path q" "\<forall>q\<in>set ns. F q = None" "\<forall>q\<in>set ms. H q \<noteq> None"
    using assms by (auto simp: kept_def)
  ultimately show ?thesis unfolding kept_def by (simp add: ball_Un)
qed

lemma kept_stopped:
  assumes "stopped F v w" "list_all is_digit (lw_open_date v)"
  obtains names where "kept (lw_path v) F (lookup (dk_files w)) names []"
proof -
  consider "lookup (dk_files w) = F" | sealed j a s where "fresh_segment F v sealed"
    "rotating F (lw_path v) sealed (\<lambda>_. True) j a s w"
    "a = F (lw_path v) \<and> s = None \<or> a = None \<and> s = F (lw_path v) \<and> s \<noteq> None"
    using assms(1) by (auto simp: stopped_def)
  then show ?thesis
  proof cases
    case 1
    with that kept_refl show ?thesis by metis
  next
    case 2
    then have "kept (lw_path v) F (lookup (dk_files w)) (if s = None then [] else [sealed]) []"
      using assms(2) by (auto simp: kept_def rotating_def fresh_segment_def segment_of_def)
    with that show ?thesis by blast
  qed
qed

section \<open>Writing\<close>

text \<open>A journal on disk is torn, or names the log and a segment of which exactly one exists.\<close>

definition journal_ok :: "string \<Rightarrow> (string \<Rightarrow> log_entry option) \<Rightarrow> bool" where
  "journal_ok path F \<longleftrightarrow> (case F (rotation_journal path) of
     None \<Rightarrow> True
   | Some Torn \<Rightarrow> True
   | Some (Log _) \<Rightarrow> False
   | Some (Rotation p sealed) \<Rightarrow> p = path \<and> segment_of path sealed \<and> (F path = None) \<noteq> (F sealed = None))"

definition writable :: "segmented_log_writer \<Rightarrow> bool" where
  "writable w \<longleftrightarrow> (lw_open w \<longrightarrow> (\<exists>c. lookup (dk_files w) (lw_path w) = Some (Log c)))
     \<and> journal_ok (lw_path w) (lookup (dk_files w))
     \<and> list_all is_digit (lw_open_date w) \<and> list_all (list_all is_digit) (dk_dates w)"

text \<open>The files of a log hold at most M bytes each, and the writer knows the size of the active one.\<close>

definition small :: "int \<Rightarrow> segmented_log_writer \<Rightarrow> bool" where
  "small M w \<longleftrightarrow> lw_max_size w = M \<and> 0 < M
     \<and> (\<forall>q. q = lw_path w \<or> segment_of (lw_path w) q \<longrightarrow> int (length (text_of (lookup (dk_files w) q))) \<le> M)
     \<and> (lw_open w \<longrightarrow> lw_size w = int (length (text_of (lookup (dk_files w) (lw_path w)))))"

definition same_writer :: "segmented_log_writer \<Rightarrow> segmented_log_writer \<Rightarrow> bool" where
  "same_writer w w' \<longleftrightarrow> lw_path w' = lw_path w \<and> lw_pending w' = lw_pending w \<and> lw_max_size w' = lw_max_size w"

lemma seal_stopped:
  assumes "seal today w = (None, w')" "writable w"
  shows "stopped (lookup (dk_files w)) w w'"
proof (cases "lw_open w")
  case True
  with assms(2) have "lookup (dk_files w) (lw_path w) \<noteq> None" by (auto simp: writable_def)
  from triple_None [OF triple_seal [where F = "lookup (dk_files w)" and v = w, OF this True] _ assms(1)]
  show ?thesis by (simp add: idle_def True)
next
  case False
  with assms(1) have "w' = w" by (simp add: seal_def sync_file_def bind_act_def Let_def)
  then show ?thesis by (simp add: stopped_def)
qed

lemma seal_done:
  assumes "seal today w = (Some u, w')" "writable w"
  obtains sealed where "lw_open w" "lw_open w'" "fresh_segment (lookup (dk_files w)) w sealed"
    "rotating (lookup (dk_files w)) (lw_path w) sealed (\<lambda>_. True) None (Some (Log []))
       (lookup (dk_files w) (lw_path w)) w'"
    "fields w' = fields (w\<lparr>lw_size := 0, lw_open_date := today\<rparr>)"
    "lookup (dk_files w) (rotation_journal (lw_path w)) = None"
proof -
  have open_: "lw_open w"
    using assms(1) by (auto simp: seal_def sync_file_def bind_act_def Let_def split: if_splits)
  with assms(2) have "lookup (dk_files w) (lw_path w) \<noteq> None" by (auto simp: writable_def)
  from triple_Some [OF triple_seal [where F = "lookup (dk_files w)" and v = w, OF this open_] _ assms(1)]
    that open_ show ?thesis by (auto simp: idle_def)
qed

lemma rotating_lookup:
  "rotating F path sealed K j a s w \<Longrightarrow> lookup (dk_files w) q =
     (if q = rotation_journal path then j else if q = path then a else if q = sealed then s else F q)"
  by (simp add: rotating_def)

lemma journal_ok_rotating:
  assumes "rotating F path sealed K j a s w"
  shows "journal_ok path (lookup (dk_files w)) \<longleftrightarrow> (case j of
     None \<Rightarrow> True | Some Torn \<Rightarrow> True | Some (Log _) \<Rightarrow> False
   | Some (Rotation p q) \<Rightarrow> p = path \<and> segment_of path q \<and> (a = None) \<noteq> (lookup (dk_files w) q = None))"
  by (simp add: journal_ok_def rotating_lookup [OF assms] split: option.splits log_entry.splits)

lemma stopped_writable:
  assumes "stopped (lookup (dk_files w)) w w'" "writable w" shows "writable w'"
proof -
  have fields: "lw_path w' = lw_path w" "lw_open_date w' = lw_open_date w" "dk_dates w' = dk_dates w"
    using assms(1) by (simp_all add: stopped_def fields_def)
  consider "lookup (dk_files w') = lookup (dk_files w)" "lw_open w' \<longrightarrow> lw_open w"
    | sealed j a s where "fresh_segment (lookup (dk_files w)) w sealed"
    "rotating (lookup (dk_files w)) (lw_path w) sealed (\<lambda>_. True) j a s w'"
    "(j, a, s) \<in> {(Some Torn, lookup (dk_files w) (lw_path w), None),
        (Some (Rotation (lw_path w) sealed), lookup (dk_files w) (lw_path w), None),
        (Some (Rotation (lw_path w) sealed), None, lookup (dk_files w) (lw_path w)),
        (None, None, lookup (dk_files w) (lw_path w))}"
    "lookup (dk_files w) (lw_path w) \<noteq> None" "lw_open w' \<longrightarrow> lw_open w \<and> a \<noteq> None"
    using assms(1) unfolding stopped_def by blast
  then show ?thesis
  proof cases
    case 1
    with assms(2) fields show ?thesis by (simp add: writable_def)
  next
    case 2
    note look = rotating_lookup [OF 2(2)]
    have "sealed \<noteq> rotation_journal (lw_path w)" "sealed \<noteq> lw_path w" using 2(2) by (auto simp: rotating_def)
    then have s: "lookup (dk_files w') sealed = s" by (simp add: look)
    have "segment_of (lw_path w) sealed"
      using 2(1) assms(2) by (auto simp: fresh_segment_def segment_of_def writable_def)
    with 2(3,4) have "journal_ok (lw_path w) (lookup (dk_files w'))"
      unfolding journal_ok_rotating [OF 2(2)] by (auto simp: s)
    moreover have "\<exists>c. lookup (dk_files w') (lw_path w) = Some (Log c)" if "lw_open w'"
      using that 2(3,5) assms(2) by (auto simp: look writable_def)
    ultimately show ?thesis using assms(2) fields by (simp add: writable_def)
  qed
qed

lemma stopped_same: "stopped F w w' \<Longrightarrow> same_writer w w'"
  by (simp add: stopped_def same_writer_def fields_def)

lemma stopped_small:
  assumes "stopped (lookup (dk_files w)) w w'" "small M w" shows "small M w'"
proof -
  have fields: "lw_path w' = lw_path w" "lw_size w' = lw_size w" "lw_max_size w' = lw_max_size w"
    using assms(1) by (simp_all add: stopped_def fields_def)
  consider "lookup (dk_files w') = lookup (dk_files w)" "lw_open w' \<longrightarrow> lw_open w"
    | sealed j a s where "rotating (lookup (dk_files w)) (lw_path w) sealed (\<lambda>_. True) j a s w'"
    "a = lookup (dk_files w) (lw_path w) \<and> s = None \<or> a = None \<and> s = lookup (dk_files w) (lw_path w)"
    "lw_open w' \<longrightarrow> lw_open w \<and> a \<noteq> None"
    using assms(1) by (auto simp: stopped_def)
  then show ?thesis
  proof cases
    case 1
    with assms(2) fields show ?thesis by (simp add: small_def)
  next
    case 2
    note look = rotating_lookup [OF 2(1)]
    have bound: "int (length (text_of (lookup (dk_files w') q))) \<le> M"
      if q: "q = lw_path w \<or> segment_of (lw_path w) q" for q
    proof -
      have "q \<noteq> rotation_journal (lw_path w)" using q segment_of_other by auto
      then have "lookup (dk_files w') q = None \<or> lookup (dk_files w') q = lookup (dk_files w) q
        \<or> lookup (dk_files w') q = lookup (dk_files w) (lw_path w)" using 2(2) by (auto simp: look)
      moreover have "int (length (text_of (lookup (dk_files w) q))) \<le> M" "0 < M"
        "int (length (text_of (lookup (dk_files w) (lw_path w)))) \<le> M" using assms(2) q by (auto simp: small_def)
      ultimately show ?thesis by auto
    qed
    have "text_of (lookup (dk_files w') (lw_path w)) = text_of (lookup (dk_files w) (lw_path w))"
      if "lw_open w'" using that 2(2,3) by (auto simp: look)
    with bound show ?thesis using assms(2) fields 2(3) by (simp add: small_def)
  qed
qed

lemma seal_safe:
  assumes "seal today w = (r, w')" "writable w" and today: "list_all is_digit today"
  shows "writable w'" "same_writer w w'"
    and "\<exists>names. kept (lw_path w) (lookup (dk_files w)) (lookup (dk_files w')) names []"
    and "small M w \<Longrightarrow> small M w'"
    and "r \<noteq> None \<Longrightarrow> lw_open w' \<and> lw_size w' = 0 \<and> text_of (lookup (dk_files w') (lw_path w)) = []"
proof -
  have "writable w' \<and> same_writer w w'
    \<and> (\<exists>names. kept (lw_path w) (lookup (dk_files w)) (lookup (dk_files w')) names [])
    \<and> (small M w \<longrightarrow> small M w')
    \<and> (r \<noteq> None \<longrightarrow> lw_open w' \<and> lw_size w' = 0 \<and> text_of (lookup (dk_files w') (lw_path w)) = [])"
  proof (cases r)
    case None
    with assms have st: "stopped (lookup (dk_files w)) w w'" using seal_stopped by blast
    obtain names where "kept (lw_path w) (lookup (dk_files w)) (lookup (dk_files w')) names []"
      using kept_stopped [OF st] assms(2) by (auto simp: writable_def)
    with stopped_writable [OF st assms(2)] stopped_small [OF st] stopped_same [OF st] None
    show ?thesis by blast
  next
    case (Some u)
    with assms obtain sealed where s: "lw_open w" "lw_open w'" "fresh_segment (lookup (dk_files w)) w sealed"
      "rotating (lookup (dk_files w)) (lw_path w) sealed (\<lambda>_. True) None (Some (Log []))
         (lookup (dk_files w) (lw_path w)) w'"
      "fields w' = fields (w\<lparr>lw_size := 0, lw_open_date := today\<rparr>)" using seal_done by metis
    note look = rotating_lookup [OF s(4)]
    have ne: "lookup (dk_files w) (lw_path w) \<noteq> None" using assms(2) s(1) by (auto simp: writable_def)
    have "kept (lw_path w) (lookup (dk_files w)) (lookup (dk_files w')) [sealed] []"
      using s(3,4) ne assms(2)
      by (auto simp: kept_def look fresh_segment_def segment_of_def rotating_def writable_def)
    moreover have "small M w \<longrightarrow> small M w'"
      using s(5) by (auto simp: small_def fields_def look segment_of_def)
    moreover have "journal_ok (lw_path w) (lookup (dk_files w'))"
      by (simp add: journal_ok_rotating [OF s(4)])
    then have "writable w'"
      using s(5) assms(2) today by (simp add: writable_def fields_def look [of "lw_path w"])
    ultimately show ?thesis using s(2,5) Some by (auto simp: same_writer_def fields_def look)
  qed
  then show "writable w'" "same_writer w w'"
    "\<exists>names. kept (lw_path w) (lookup (dk_files w)) (lookup (dk_files w')) names []"
    "small M w \<Longrightarrow> small M w'"
    "r \<noteq> None \<Longrightarrow> lw_open w' \<and> lw_size w' = 0 \<and> text_of (lookup (dk_files w') (lw_path w)) = []"
    by blast+
qed


section \<open>One line\<close>

lemma file_write_safe:
  assumes "file_write line w = (r, w1)" "writable w" and w': "w' = w1\<lparr>lw_size := lw_size w + int (written line w)\<rparr>"
  obtains x where "kept (lw_path w) (lookup (dk_files w)) (lookup (dk_files w')) [] x" "prefix x line"
    "r \<noteq> None \<longrightarrow> x = line" "writable w'" "same_writer w w'"
    "small M w \<and> lw_size w + int (length line) \<le> M \<longrightarrow> small M w'"
proof (cases "lw_open w")
  case False
  with assms(1) have "w1 = w" "r = None" by (simp_all add: file_write_def)
  with False w' have "w' = w" by (simp add: written_def)
  with \<open>r = None\<close> that [of "[]"] kept_refl assms(2) show ?thesis by (simp add: same_writer_def)
next
  case True
  then obtain c where c: "lookup (dk_files w) (lw_path w) = Some (Log c)"
    using assms(2) by (auto simp: writable_def)
  define x where "x = take (written line w) line"
  obtain p where w1: "w1 = append_text (lw_path w) x (w\<lparr>dk_plan := p\<rparr>)" and r: "r \<noteq> None \<longrightarrow> x = line"
  proof (cases "dk_plan w")
    case Nil
    then have "w\<lparr>dk_plan := []\<rparr> = w" by simp
    with Nil assms(1) True that [of "[]"] show ?thesis
      by (simp add: file_write_def attempt_def x_def written_def)
  next
    case (Cons oc plan)
    show ?thesis
    proof (cases oc)
      case (Failure k)
      have "take (min k (length line)) line = take k line" by (simp add: min_def)
      with Failure Cons assms(1) True that [of plan] show ?thesis
        by (simp add: file_write_def attempt_def x_def written_def)
    qed (use Cons assms(1) True that [of plan] in
        \<open>simp add: file_write_def attempt_def x_def written_def\<close>)
  qed
  have len: "length x = written line w" by (auto simp: x_def written_def split: list.splits outcome.splits)
  have files: "lookup (dk_files w') q = (if q = lw_path w then Some (Log (c @ x)) else lookup (dk_files w) q)" for q
    by (simp add: w' w1 append_text_def c go_map)
  have fields: "lw_path w' = lw_path w" "lw_pending w' = lw_pending w" "lw_max_size w' = lw_max_size w"
    "lw_open w' = lw_open w" "lw_size w' = lw_size w + int (length x)"
    by (simp_all add: w' w1 append_text_def c len)
  have kept: "kept (lw_path w) (lookup (dk_files w)) (lookup (dk_files w')) [] x"
    by (simp add: kept_def files c)
  have pre: "prefix x line" by (simp add: x_def take_is_prefix)
  have small: "small M w \<and> lw_size w + int (length line) \<le> M \<longrightarrow> small M w'"
    using prefix_length_le [OF pre] True c by (auto simp: small_def files fields)
  have "journal_ok (lw_path w) (lookup (dk_files w'))"
    using assms(2) by (auto simp: writable_def journal_ok_def files c split: option.splits log_entry.splits)
  moreover have dates: "lw_open_date w' = lw_open_date w" "dk_dates w' = dk_dates w"
    by (simp_all add: w' w1 append_text_def c)
  ultimately have "writable w'" "same_writer w w'" using assms(2)
    by (simp_all add: writable_def same_writer_def files fields)
  with kept pre small show ?thesis using that r by blast
qed

lemma small_dates: "small M (w\<lparr>dk_dates := ds\<rparr>) = small M w"
  by (simp add: small_def)

lemma next_date_safe:
  assumes "next_date w0 = (today, w)" "writable w0"
  shows "lookup (dk_files w) = lookup (dk_files w0)" "same_writer w0 w" "writable w" "small M w = small M w0"
    "list_all is_digit today"
proof -
  have "w = w0 \<and> today = lw_open_date w0 \<or>
    (\<exists>ds. w = w0\<lparr>dk_dates := ds\<rparr> \<and> dk_dates w0 = today # ds)"
    using assms(1) by (auto simp: next_date_def split: list.splits)
  then show "lookup (dk_files w) = lookup (dk_files w0)" "same_writer w0 w" "writable w" "small M w = small M w0"
    "list_all is_digit today"
    using assms(2) by (auto simp: same_writer_def writable_def small_dates)
qed

lemma write_line_safe:
  assumes "write_line line w0 = (r, w')" "writable w0"
  obtains names x where "kept (lw_path w0) (lookup (dk_files w0)) (lookup (dk_files w')) names x" "prefix x line"
    "r \<noteq> None \<longrightarrow> x = line" "writable w'" "same_writer w0 w'"
    "small M w0 \<and> int (length line) \<le> M \<longrightarrow> small M w'"
proof -
  obtain today w where date: "next_date w0 = (today, w)" by force
  then have w: "lookup (dk_files w) = lookup (dk_files w0)" "same_writer w0 w" "writable w" "small M w = small M w0"
    "list_all is_digit today"
    using assms(2) next_date_safe by blast+
  then have path: "lw_path w = lw_path w0" by (simp add: same_writer_def)
  let ?full = "lw_max_size w > 0 \<and> lw_size w > 0 \<and> lw_size w + int (length line) > lw_max_size w
            \<or> today \<noteq> lw_open_date w"
  obtain s w1 where first: "(if ?full then seal today else (\<lambda>w. (Some (), w))) w = (s, w1)" by force
  have step: "writable w1 \<and> same_writer w w1
    \<and> (\<exists>names. kept (lw_path w) (lookup (dk_files w)) (lookup (dk_files w1)) names [])
    \<and> (small M w \<longrightarrow> small M w1)
    \<and> (s \<noteq> None \<longrightarrow> small M w \<and> int (length line) \<le> M \<longrightarrow> lw_size w1 + int (length line) \<le> M)"
  proof (cases ?full)
    case True
    then have "seal today w = (s, w1)" using first by (simp only: if_True)
    from seal_safe [OF this w(3,5)] show ?thesis by auto
  next
    case False
    then have "s = Some ()" "w1 = w" using first by auto
    with False w(3) kept_refl show ?thesis
      by (auto simp: same_writer_def small_def not_less intro!: exI [of _ "[]"])
  qed
  then obtain names where names: "kept (lw_path w) (lookup (dk_files w)) (lookup (dk_files w1)) names []" by blast
  have same: "same_writer w0 w1" using step w(2) by (simp add: same_writer_def)
  show ?thesis
  proof (cases s)
    case None
    then have "r = None" "w' = w1"
      using assms(1) date first by (auto simp: write_line_def bind_act_def split: prod.splits)
    with that [of names "[]"] names step same w path show ?thesis by auto
  next
    case (Some u)
    obtain r1 w2 where fw: "file_write line w1 = (r1, w2)" by force
    have res: "r = r1" "w' = w2\<lparr>lw_size := lw_size w1 + int (written line w1)\<rparr>"
      using assms(1) date first Some fw by (auto simp: write_line_def bind_act_def split: prod.splits)
    have wr: "writable w1" using step by blast
    obtain x where x: "kept (lw_path w1) (lookup (dk_files w1)) (lookup (dk_files w')) [] x" "prefix x line"
      "r1 \<noteq> None \<longrightarrow> x = line" "writable w'" "same_writer w1 w'"
      "small M w1 \<and> lw_size w1 + int (length line) \<le> M \<longrightarrow> small M w'"
      by (rule file_write_safe [OF fw wr res(2)])
    have "lw_path w1 = lw_path w" using same path by (simp add: same_writer_def)
    then have "kept (lw_path w) (lookup (dk_files w)) (lookup (dk_files w')) names x"
      using kept_trans [OF names, of _ "[]" x] x(1) by simp
    with that [of names x] x step same w path res(1) Some show ?thesis
      by (auto simp: same_writer_def)
  qed
qed

section \<open>A whole write\<close>

lemma index_newline_cases:
  "index_newline s = Some i \<longleftrightarrow> CHR 0x0A \<in> set s \<and> i = length (before (CHR 0x0A) s)"
  "index_newline s = None \<longleftrightarrow> CHR 0x0A \<notin> set s"
  by (auto simp: index_newline_def)

lemma kept_append: "kept path F G names x \<Longrightarrow> kept path G H ms y \<Longrightarrow> x @ y = z \<Longrightarrow> kept path F H (names @ ms) z"
  using kept_trans by blast

lemma same_writer_trans: "same_writer w w1 \<Longrightarrow> same_writer w1 w2 \<Longrightarrow> same_writer w w2"
  by (simp add: same_writer_def)

lemma write_loop_safe:
  "\<lbrakk>write_loop p w = (r, rest, w'); writable w\<rbrakk> \<Longrightarrow>
   \<exists>names j x. kept (lw_path w) (lookup (dk_files w)) (lookup (dk_files w')) names (take j p @ x)
     \<and> rest = drop j p \<and> prefix x rest \<and> (r \<noteq> None \<longrightarrow> x = [])
     \<and> (r \<noteq> None \<longrightarrow> CHR 0x0A \<notin> set rest \<and> length rest < max_pending_line_bytes)
     \<and> writable w' \<and> same_writer w w'
     \<and> (small M w \<and> int (length p) \<le> M \<longrightarrow> small M w')"
proof (induction p w arbitrary: r rest w' rule: write_loop.induct)
  case (1 p w)
  note unfold = 1(2) [unfolded write_loop.simps [of p w]]
  show ?case
  proof (cases "index_newline p")
    case None
    show ?thesis
    proof (cases "length p \<ge> max_pending_line_bytes")
      case True
      obtain s w1 where line: "write_line p w = (s, w1)" by force
      obtain names x where x: "kept (lw_path w) (lookup (dk_files w)) (lookup (dk_files w1)) names x" "prefix x p"
        "s \<noteq> None \<longrightarrow> x = p" "writable w1" "same_writer w w1"
        "small M w \<and> int (length p) \<le> M \<longrightarrow> small M w1" by (rule write_line_safe [OF line 1(3)])
      show ?thesis
      proof (cases s)
        case None
        with unfold \<open>index_newline p = None\<close> True line have "r = None" "rest = p" "w' = w1" by auto
        with x show ?thesis by (intro exI [of _ names] exI [of _ 0] exI [of _ x]) simp
      next
        case (Some u)
        with unfold None True line have "r = Some ()" "rest = []" "w' = w1" by auto
        with x Some show ?thesis
          by (intro exI [of _ names] exI [of _ "length p"] exI [of _ "[]"])
            (simp add: max_pending_line_bytes_def)
      qed
    next
      case False
      with unfold None have "r = Some ()" "rest = p" "w' = w" by auto
      with 1(3) None False kept_refl show ?thesis
        by (intro exI [of _ "[]"] exI [of _ 0] exI [of _ "[]"])
          (auto simp: index_newline_cases same_writer_def)
    qed
  next
    case (Some i)
    let ?k = "if i \<ge> max_pending_line_bytes then max_pending_line_bytes else i + 1"
    obtain s w1 where line: "write_line (take ?k p) w = (s, w1)" by force
    obtain names x where x: "kept (lw_path w) (lookup (dk_files w)) (lookup (dk_files w1)) names x"
      "prefix x (take ?k p)" "s \<noteq> None \<longrightarrow> x = take ?k p" "writable w1" "same_writer w w1"
      "small M w \<and> int (length (take ?k p)) \<le> M \<longrightarrow> small M w1" by (rule write_line_safe [OF line 1(3)])
    show ?thesis
    proof (cases s)
      case None
      with unfold Some line have "r = None" "rest = p" "w' = w1" by (auto simp: Let_def)
      moreover have "prefix x p" using x(2) take_is_prefix prefix_order.trans by blast
      ultimately show ?thesis using x
        by (intro exI [of _ names] exI [of _ 0] exI [of _ x]) auto
    next
      case (Some u)
      with unfold \<open>index_newline p = Some i\<close> line have loop: "write_loop (drop ?k p) w1 = (r, rest, w')"
        by (simp add: Let_def)
      from 1(1) [OF \<open>index_newline p = Some i\<close> refl line [symmetric] Some this x(4)] obtain ms j y where y:
        "kept (lw_path w1) (lookup (dk_files w1)) (lookup (dk_files w')) ms (take j (drop ?k p) @ y)"
        "rest = drop j (drop ?k p)" "prefix y rest" "r \<noteq> None \<longrightarrow> y = []"
        "r \<noteq> None \<longrightarrow> CHR 0x0A \<notin> set rest \<and> length rest < max_pending_line_bytes"
        "writable w'" "same_writer w1 w'" "small M w1 \<and> int (length (drop ?k p)) \<le> M \<longrightarrow> small M w'"
        by blast
      have path: "lw_path w1 = lw_path w" using x(5) by (simp add: same_writer_def)
      have "kept (lw_path w) (lookup (dk_files w)) (lookup (dk_files w')) (names @ ms) (take (?k + j) p @ y)"
        by (rule kept_append [OF x(1) y(1) [unfolded path]]) (use x(3) Some in \<open>simp add: take_add\<close>)
      moreover have "rest = drop (?k + j) p" using y(2) by (simp add: add.commute)
      moreover have "int (length (take ?k p)) \<le> M \<and> int (length (drop ?k p)) \<le> M" if "int (length p) \<le> M"
        using that by auto
      ultimately show ?thesis using y(3-8) x(6) same_writer_trans [OF x(5) y(7)] by blast
    qed
  qed
qed


lemma log_write_safe:
  assumes "log_write p w = (r, w')" "writable w"
  obtains names j x where
    "kept (lw_path w) (lookup (dk_files w)) (lookup (dk_files w')) names (take j (lw_pending w @ p) @ x)"
    "lw_pending w' = drop j (lw_pending w @ p)" "prefix x (lw_pending w')"
    "r \<noteq> None \<longrightarrow> r = Some (length p) \<and> x = [] \<and> CHR 0x0A \<notin> set (lw_pending w')
       \<and> length (lw_pending w') < max_pending_line_bytes"
    "writable w'" "lw_path w' = lw_path w" "lw_max_size w' = lw_max_size w"
    "small M w \<and> int (length (lw_pending w @ p)) \<le> M \<longrightarrow> small M w'"
proof -
  obtain s rest w1 where loop: "write_loop (lw_pending w @ p) w = (s, rest, w1)" by (cases "write_loop (lw_pending w @ p) w") auto
  with assms(1) have res: "r = map_option (\<lambda>_. length p) s" "w' = w1\<lparr>lw_pending := rest\<rparr>"
    by (simp_all add: log_write_def)
  have small: "small M w' = small M w1" by (simp add: res small_def)
  from write_loop_safe [OF loop assms(2)] obtain names j x where
    "kept (lw_path w) (lookup (dk_files w)) (lookup (dk_files w1)) names (take j (lw_pending w @ p) @ x)"
    "rest = drop j (lw_pending w @ p)" "prefix x rest" "s \<noteq> None \<longrightarrow> x = []"
    "s \<noteq> None \<longrightarrow> CHR 0x0A \<notin> set rest \<and> length rest < max_pending_line_bytes"
    "writable w1" "same_writer w w1" "small M w \<and> int (length (lw_pending w @ p)) \<le> M \<longrightarrow> small M w1"
    by blast
  then show ?thesis using small
    by (intro that [of names j x]) (simp_all add: res writable_def same_writer_def)
qed

section \<open>Recovery\<close>

definition log_path :: "string \<Rightarrow> bool" where
  "log_path path \<longleftrightarrow> path \<noteq> [] \<and> last path \<noteq> CHR ''/''"

lemma segment_suffix: "segment_of path q \<Longrightarrow> \<exists>t. q = path @ t @ ''d'' \<and> CHR ''/'' \<notin> set t \<and> has_prefix (t @ ''d'') ''.segment-''
  \<and> has_suffix q ''.sealed''"
proof -
  assume "segment_of path q"
  then obtain date n where q: "q = segment_name path date n" "list_all is_digit date"
    by (auto simp: segment_of_def)
  have "CHR ''/'' \<notin> set ds" if "list_all is_digit ds" for ds
    using that by (induction ds) (auto simp: is_digit_def)
  with q(2) base_digits_decimal [of n] have "CHR ''/'' \<notin> set date" "CHR ''/'' \<notin> set (pad6 n)"
    by (auto simp: pad6_def Let_def)
  moreover have "has_suffix q ''.sealed''"
    using has_suffix_append [of "path @ ''.segment-'' @ date @ ''-'' @ pad6 n" "''.sealed''"]
    by (simp add: q(1) segment_name_def)
  ultimately show ?thesis
    by (intro exI [of _ "''.segment-'' @ date @ ''-'' @ pad6 n @ ''.seale''"])
      (auto simp: q(1) segment_name_def has_prefix_def)
qed

lemma path_base_last:
  assumes "p \<noteq> []" "last p \<noteq> CHR ''/''"
  shows "path_base p = rev (takeWhile (\<lambda>c. c \<noteq> CHR ''/'') (rev p))"
proof -
  have "dropWhile (\<lambda>c. c = CHR ''/'') (rev p) = rev p" using assms by (cases p rule: rev_cases) auto
  then show ?thesis using assms(1) by (simp add: path_base_def)
qed

lemma segment_in_directory:
  assumes "segment_of path q" "log_path path"
  shows "path_dir q = path_dir path" "has_prefix (path_base q) (path_base path @ ''.segment-'')"
    "has_suffix q ''.sealed''"
proof -
  obtain t where q: "q = path @ t @ ''d''" "CHR ''/'' \<notin> set t" "has_prefix (t @ ''d'') ''.segment-''"
    "has_suffix q ''.sealed''" using segment_suffix [OF assms(1)] by blast
  have t: "\<forall>c\<in>set (rev (t @ ''d'')). c \<noteq> CHR ''/''" using q(2) by auto
  show "path_dir q = path_dir path"
  proof -
    have "dropWhile (\<lambda>c. c \<noteq> CHR ''/'') (rev (t @ ''d'') @ rev path) = dropWhile (\<lambda>c. c \<noteq> CHR ''/'') (rev path)"
      using t by (subst dropWhile_append2) auto
    then show ?thesis by (simp add: path_dir_def q(1))
  qed
  have "path_base q = path_base path @ t @ ''d''"
  proof -
    have "takeWhile (\<lambda>c. c \<noteq> CHR ''/'') (rev (t @ ''d'') @ rev path)
        = rev (t @ ''d'') @ takeWhile (\<lambda>c. c \<noteq> CHR ''/'') (rev path)"
      using t by (subst takeWhile_append2) auto
    then show ?thesis using assms(2) by (simp add: path_base_last q(1) log_path_def)
  qed
  then show "has_prefix (path_base q) (path_base path @ ''.segment-'')"
    using q(3) by (auto simp: has_prefix_iff)
qed (use segment_suffix [OF assms(1)] in blast)

text \<open>A recovery without failing calls, on any directory that a writer can leave.\<close>

lemma recover_ok:
  assumes "journal_ok path (lookup (dk_files d))" "lookup (dk_files d) (rotation_journal path) \<noteq> Some Torn"
    and "log_path path" "dk_plan d = []"
  obtains d' names where "recover_segment_rotation path d = (Some (), d')" "dk_plan d' = []"
    "lookup (dk_files d') (rotation_journal path) = None"
    "kept path (lookup (dk_files d)) (lookup (dk_files d')) names []"
proof (cases "lookup (dk_files d) (rotation_journal path)")
  case None
  with assms(4) that [of d "[]"] kept_refl show ?thesis
    by (simp add: recover_segment_rotation_def bind_act_def attempt_def)
next
  case (Some e)
  with assms(1,2) obtain sealed where e: "e = Rotation path sealed" and seg: "segment_of path sealed"
    and one: "(lookup (dk_files d) path = None) \<noteq> (lookup (dk_files d) sealed = None)"
    by (auto simp: journal_ok_def split: log_entry.splits)
  note names = segment_in_directory [OF seg assms(3)] segment_of_other [OF seg]
  note eval = recover_segment_rotation_def bind_act_def attempt_def stat_exists_def entry_exists_def
    plain_call_def remove_path_def rename_path_def
  show ?thesis
  proof (cases "lookup (dk_files d) path")
    case None
    define d' where "d' = d\<lparr>dk_files := remove (rotation_journal path) (dk_files d)\<rparr>"
    have "recover_segment_rotation path d = (Some (), d')"
      using one Some None assms(4) names by (auto simp: eval e d'_def)
    moreover have "kept path (lookup (dk_files d)) (lookup (dk_files d')) [] []"
      by (simp add: kept_def d'_def go_map)
    ultimately show ?thesis using that [of d' "[]"] assms(4) by (simp add: d'_def go_map)
  next
    case (Some a)
    define d' where "d' = d\<lparr>dk_files := remove (rotation_journal path) (put sealed a (remove path (dk_files d)))\<rparr>"
    have "recover_segment_rotation path d = (Some (), d')"
      using one Some \<open>lookup (dk_files d) (rotation_journal path) = Some e\<close> assms(4) names
      by (auto simp: eval e d'_def go_map)
    moreover have "kept path (lookup (dk_files d)) (lookup (dk_files d')) [sealed] []"
      using names one Some seg by (auto simp: kept_def d'_def go_map)
    ultimately show ?thesis using that [of d' "[sealed]"] assms(4) by (simp add: d'_def go_map)
  qed
qed

lemma recover_torn:
  assumes "lookup (dk_files d) (rotation_journal path) = Some Torn"
  shows "fst (recover_segment_rotation path d) = None"
  using assms by (auto simp: recover_segment_rotation_def bind_act_def attempt_def split: list.splits outcome.splits)

section \<open>A writer whose calls succeed\<close>

lemma base_val_pad6: "base_val 10 (pad6 n) = n"
  by (simp add: pad6_def Let_def base_val_zeros base_val_base_digits)

lemma pad6_inject: "pad6 m = pad6 n \<Longrightarrow> m = n"
  using base_val_pad6 by metis

lemma segment_name_inject: "segment_name path date m = segment_name path date n \<Longrightarrow> m = n"
  by (simp add: segment_name_def pad6_inject)

lemma free_segment_quiet:
  "dk_plan w = [] \<Longrightarrow> \<exists>n r. free_segment fuel w = (r, w\<lparr>lw_segment := n\<rparr>)
     \<and> (r = None \<longrightarrow> (\<forall>i<fuel. lookup (dk_files w)
          (segment_name (lw_path w) (lw_open_date w) ((lw_segment w + Suc i) mod 2 ^ 64)) \<noteq> None))
     \<and> (\<forall>q. r = Some q \<longrightarrow> lookup (dk_files w) q = None
          \<and> q = segment_name (lw_path w) (lw_open_date w) n)"
proof (induction fuel arbitrary: w)
  case 0
  have "w = w\<lparr>lw_segment := lw_segment w\<rparr>" by simp
  then show ?case by (auto intro!: exI [of _ "lw_segment w"])
next
  case (Suc fuel)
  let ?n = "(lw_segment w + 1) mod 2 ^ 64" let ?w = "w\<lparr>lw_segment := ?n\<rparr>"
  let ?c = "segment_name (lw_path w) (lw_open_date w) ?n"
  have step: "free_segment (Suc fuel) w = (if entry_exists ?c w then free_segment fuel ?w else (Some ?c, ?w))"
    using Suc.prems unfolding free_segment.simps Let_def
    by (simp add: bind_act_def stat_exists_def attempt_def entry_exists_def del: One_nat_def)
  show ?case
  proof (cases "entry_exists ?c w")
    case True
    have "dk_plan ?w = []" using Suc.prems by simp
    from Suc.IH [OF this] obtain n r where IH: "free_segment fuel ?w = (r, w\<lparr>lw_segment := n\<rparr>)"
      "r = None \<longrightarrow> (\<forall>i<fuel. lookup (dk_files w)
          (segment_name (lw_path w) (lw_open_date w) ((?n + Suc i) mod 2 ^ 64)) \<noteq> None)"
      "\<forall>q. r = Some q \<longrightarrow> lookup (dk_files w) q = None \<and> q = segment_name (lw_path w) (lw_open_date w) n"
      by auto
    have mod: "(?n + Suc i) mod 2 ^ 64 = (lw_segment w + Suc (Suc i)) mod 2 ^ 64" for i
    proof -
      have "(?n + Suc i) mod 2 ^ 64 = (lw_segment w + 1 + Suc i) mod 2 ^ 64" by (rule mod_add_left_eq)
      also have "lw_segment w + 1 + Suc i = lw_segment w + Suc (Suc i)" by simp
      finally show ?thesis .
    qed
    have "lookup (dk_files w) (segment_name (lw_path w) (lw_open_date w) ((lw_segment w + Suc i) mod 2 ^ 64)) \<noteq> None"
      if "r = None" "i < Suc fuel" for i
    proof (cases i)
      case 0
      then show ?thesis using True by (simp add: entry_exists_def)
    next
      case (Suc k)
      then show ?thesis using IH(2) that unfolding Suc mod [symmetric] by simp
    qed
    with IH True step show ?thesis by auto
  next
    case False
    with step show ?thesis by (auto simp: entry_exists_def)
  qed
qed

lemma mod_shift_inject:
  assumes "((s::nat) + Suc i) mod m = (s + Suc j) mod m" "i < m" "j < m" shows "i = j"
proof -
  have le: "i' \<le> j' \<Longrightarrow> (s + Suc i') mod m = (s + Suc j') mod m \<Longrightarrow> j' < m \<Longrightarrow> i' = j'" for i' j'
    using mod_eq_dvd_iff_nat [of "s + Suc i'" "s + Suc j'" m] by (auto dest: dvd_imp_le)
  then show ?thesis using assms by (metis nle_le)
qed

text \<open>Among as many numbers as there are files and one more, one is free.\<close>

lemma find_free_segment_quiet:
  assumes "dk_plan w = []" "length (dk_files w) < 2 ^ 64"
  obtains sealed n where "find_free_segment w = (Some sealed, w\<lparr>lw_segment := n\<rparr>)"
    "lookup (dk_files w) sealed = None" "sealed = segment_name (lw_path w) (lw_open_date w) n"
proof -
  let ?fuel = "Suc (length (dk_files w))"
  let ?name = "\<lambda>i. segment_name (lw_path w) (lw_open_date w) ((lw_segment w + Suc i) mod 2 ^ 64)"
  obtain n r where r: "find_free_segment w = (r, w\<lparr>lw_segment := n\<rparr>)"
    "r = None \<longrightarrow> (\<forall>i<?fuel. lookup (dk_files w) (?name i) \<noteq> None)"
    "\<forall>q. r = Some q \<longrightarrow> lookup (dk_files w) q = None \<and> q = segment_name (lw_path w) (lw_open_date w) n"
    using free_segment_quiet [OF assms(1), of ?fuel] unfolding find_free_segment_def by blast
  have "r \<noteq> None"
  proof
    assume "r = None"
    with r(2) have "?name ` {..<?fuel} \<subseteq> set (map fst (dk_files w))"
      by (auto simp: set_keys_dom simp del: set_map)
    note card_mono [OF finite_set this]
    then have card: "card (?name ` {..<?fuel}) \<le> length (dk_files w)"
      using card_length [of "map fst (dk_files w)"] by (simp del: set_map)
    have "inj_on ?name {..<?fuel}"
    proof (rule inj_onI)
      fix i j assume ij: "i \<in> {..<?fuel}" "j \<in> {..<?fuel}" "?name i = ?name j"
      then have "(lw_segment w + Suc i) mod 2 ^ 64 = (lw_segment w + Suc j) mod 2 ^ 64"
        using segment_name_inject by blast
      moreover have "i < 2 ^ 64" "j < 2 ^ 64" using ij assms(2) by auto
      ultimately show "i = j"
        using mod_shift_inject by blast
    qed
    from card_image [OF this] have "card (?name ` {..<?fuel}) = Suc (length (dk_files w))"
      by (simp only: card_lessThan)
    with card show False by (metis Suc_n_not_le_n)
  qed
  then obtain sealed where sealed: "r = Some sealed" by blast
  show ?thesis by (rule that [OF r(1) [unfolded sealed]]) (use r(3) sealed in blast)+
qed

text \<open>A writer that can only succeed: its calls do, it is open, and no rotation is unfinished.\<close>

definition quiet :: "segmented_log_writer \<Rightarrow> bool" where
  "quiet w \<longleftrightarrow> dk_plan w = [] \<and> lw_open w \<and> writable w
     \<and> lookup (dk_files w) (rotation_journal (lw_path w)) = None"

lemma length_put: "length (put k v m) = (if lookup m k = None then Suc (length m) else length m)"
  by (induction m) auto

lemma length_remove: "length (remove k m) + (if lookup m k = None then 0 else 1) \<le> length m"
  by (induction m) (auto simp: AList.delete_eq split: if_splits)

lemma seal_quiet:
  assumes "quiet w" "length (dk_files w) < 2 ^ 64"
  obtains w' where "seal today w = (Some (), w')" "dk_plan w' = []" "length (dk_files w') \<le> Suc (length (dk_files w))"
proof -
  obtain sealed n where f: "find_free_segment w = (Some sealed, w\<lparr>lw_segment := n\<rparr>)"
    "lookup (dk_files w) sealed = None" "sealed = segment_name (lw_path w) (lw_open_date w) n"
    using find_free_segment_quiet [of w] assms by (auto simp: quiet_def)
  obtain c where c: "lookup (dk_files w) (lw_path w) = Some (Log c)"
    using assms(1) by (auto simp: quiet_def writable_def)
  let ?j = "rotation_journal (lw_path w)"
  have names: "sealed \<noteq> lw_path w" "sealed \<noteq> ?j" by (simp_all add: f(3))
  have j: "lookup (dk_files w) ?j = None" "dk_plan w = []" "lw_open w" using assms(1) by (simp_all add: quiet_def)
  define fs where "fs = put (lw_path w) (Log []) (remove ?j (put sealed (Log c) (remove (lw_path w)
      (put ?j (Rotation (lw_path w) sealed) (put ?j Torn (dk_files w))))))"
  have "seal today w = (Some (), w\<lparr>lw_segment := n, dk_files := fs, lw_open := True, lw_size := 0,
      lw_open_date := today\<rparr>)"
    using j c names
    by (simp add: seal_def sync_file_def bind_act_def plain_call_def attempt_def f(1) create_excl_def
        write_rotation_def close_file_def rename_path_def remove_path_def open_append_def entry_exists_def
        go_map Let_def fs_def)
  moreover have "length fs \<le> Suc (length (dk_files w))"
  proof -
    let ?f2 = "put ?j (Rotation (lw_path w) sealed) (put ?j Torn (dk_files w))"
    let ?f3 = "remove (lw_path w) ?f2" let ?f4 = "put sealed (Log c) ?f3" let ?f5 = "remove ?j ?f4"
    have "length ?f2 = Suc (length (dk_files w))" using j by (simp add: length_put go_map)
    then have "length ?f3 \<le> length (dk_files w)"
      using length_remove [of "lw_path w" ?f2] c by (simp add: go_map)
    then have "length ?f4 \<le> Suc (length (dk_files w))" by (simp add: length_put)
    then have "length ?f5 \<le> length (dk_files w)"
      using length_remove [of ?j ?f4] names by (simp add: go_map)
    then show ?thesis by (simp add: fs_def length_put)
  qed
  ultimately show ?thesis using that j(2) by simp
qed

lemma file_write_quiet:
  assumes "quiet w"
  obtains w1 where "file_write line w = (Some (), w1)" "quiet (w1\<lparr>lw_size := n\<rparr>)"
    "length (dk_files w1) = length (dk_files w)"
proof -
  obtain c where c: "lookup (dk_files w) (lw_path w) = Some (Log c)" "dk_plan w = []" "lw_open w"
    "journal_ok (lw_path w) (lookup (dk_files w))" "lookup (dk_files w) (rotation_journal (lw_path w)) = None"
    "list_all is_digit (lw_open_date w)" "list_all (list_all is_digit) (dk_dates w)"
    using assms by (auto simp: quiet_def writable_def)
  then show ?thesis
    by (intro that [of "w\<lparr>dk_files := put (lw_path w) (Log (c @ line)) (dk_files w)\<rparr>"])
      (simp_all add: file_write_def attempt_def append_text_def quiet_def writable_def go_map length_put
        journal_ok_def)
qed

lemma write_line_quiet:
  assumes "quiet w" "length (dk_files w) < 2 ^ 64"
  obtains w' where "write_line line w = (Some (), w')" "quiet w'" "length (dk_files w') \<le> Suc (length (dk_files w))"
proof -
  obtain today w0 where date: "next_date w = (today, w0)" by force
  have w0: "quiet w0" "dk_files w0 = dk_files w" "list_all is_digit today"
    using assms(1) date by (auto simp: quiet_def writable_def next_date_def split: list.splits)
  let ?full = "lw_max_size w0 > 0 \<and> lw_size w0 > 0 \<and> lw_size w0 + int (length line) > lw_max_size w0
            \<or> today \<noteq> lw_open_date w0"
  obtain w1 where w1: "(if ?full then seal today else (\<lambda>w. (Some (), w))) w0 = (Some (), w1)" "quiet w1"
    "length (dk_files w1) \<le> Suc (length (dk_files w))"
  proof (cases ?full)
    case True
    obtain w1 where s: "seal today w0 = (Some (), w1)" "dk_plan w1 = []"
      "length (dk_files w1) \<le> Suc (length (dk_files w0))"
      using seal_quiet [OF w0(1)] assms(2) w0(2) by metis
    have wr: "writable w0" using w0(1) by (simp add: quiet_def)
    obtain sealed where sealed: "lw_open w1" "rotating (lookup (dk_files w0)) (lw_path w0) sealed (\<lambda>_. True)
        None (Some (Log [])) (lookup (dk_files w0) (lw_path w0)) w1"
      using seal_done [OF s(1) wr] by metis
    have "quiet w1"
      using seal_safe(1,2) [OF s(1) wr w0(3)] s(2) sealed
      by (simp add: quiet_def same_writer_def rotating_lookup [OF sealed(2)])
    with that True s w0(2) show ?thesis by simp
  next
    case False
    then have "(if ?full then seal today else (\<lambda>w. (Some (), w))) w0 = (Some (), w0)" by (simp only: if_False)
    then show ?thesis by (rule that) (simp_all add: w0(1,2))
  qed
  obtain w2 where w2: "file_write line w1 = (Some (), w2)"
    "quiet (w2\<lparr>lw_size := lw_size w1 + int (written line w1)\<rparr>)" "length (dk_files w2) = length (dk_files w1)"
    using file_write_quiet [OF w1(2)] by metis
  have "write_line line w = (Some (), w2\<lparr>lw_size := lw_size w1 + int (written line w1)\<rparr>)"
    using w1(1) w2(1) by (simp add: write_line_def date bind_act_def)
  with that w2 w1(3) show ?thesis by simp
qed

lemma write_loop_quiet:
  "\<lbrakk>quiet w; length (dk_files w) + length p < 2 ^ 64\<rbrakk> \<Longrightarrow>
   \<exists>rest w'. write_loop p w = (Some (), rest, w') \<and> quiet w'
     \<and> length (dk_files w') + length rest \<le> length (dk_files w) + length p"
proof (induction p w rule: write_loop.induct)
  case (1 p w)
  have files: "length (dk_files w) < 2 ^ 64" using 1(3) by simp
  show ?case
  proof (cases "index_newline p")
    case None
    show ?thesis
    proof (cases "length p \<ge> max_pending_line_bytes")
      case True
      then have "0 < length p" by (cases p) (simp_all add: max_pending_line_bytes_def)
      obtain w' where w': "write_line p w = (Some (), w')" "quiet w'"
        "length (dk_files w') \<le> Suc (length (dk_files w))"
        using write_line_quiet [OF 1(2) files] by metis
      have "write_loop p w = (Some (), [], w')" by (subst write_loop.simps) (simp add: None True w'(1))
      moreover have "length (dk_files w') + length ([] :: string) \<le> length (dk_files w) + length p"
        using w'(3) \<open>0 < length p\<close> unfolding list.size by linarith
      ultimately show ?thesis using w'(2) by simp
    next
      case False
      with None 1(2) show ?thesis by (subst write_loop.simps) simp
    qed
  next
    case (Some i)
    let ?k = "if i \<ge> max_pending_line_bytes then max_pending_line_bytes else i + 1"
    obtain w1 where w1: "write_line (take ?k p) w = (Some (), w1)" "quiet w1"
      "length (dk_files w1) \<le> Suc (length (dk_files w))"
      using write_line_quiet [OF 1(2) files] by metis
    have "CHR 0x0A \<in> set p" using Some by (simp add: index_newline_cases)
    then have "0 < length p" by (rule length_pos_if_in_set)
    moreover have "1 \<le> ?k" by (simp add: max_pending_line_bytes_def)
    ultimately have len: "length (dk_files w1) + length (drop ?k p) \<le> length (dk_files w) + length p"
      using w1(3) diff_le_mono2 [of 1 ?k "length p"] unfolding length_drop by linarith
    from 1(1) [OF Some refl w1(1) [symmetric] refl w1(2)] len 1(3)
    obtain rest w' where "write_loop (drop ?k p) w1 = (Some (), rest, w')" "quiet w'"
      "length (dk_files w') + length rest \<le> length (dk_files w1) + length (drop ?k p)" by fastforce
    moreover from this(1) have "write_loop p w = (Some (), rest, w')"
      by (subst write_loop.simps) (simp add: Some w1(1) Let_def del: if_split)
    ultimately show ?thesis using len by simp
  qed
qed

section \<open>Properties\<close>

lemma quiet_pending [simp]: "quiet (w\<lparr>lw_pending := p\<rparr>) = quiet w"
  by (simp add: quiet_def writable_def)

lemma log_write_quiet:
  assumes "quiet w" "length (dk_files w) + length (lw_pending w @ p) < 2 ^ 64"
  obtains w' where "log_write p w = (Some (length p), w')" "quiet w'"
    "length (dk_files w') + length (lw_pending w') \<le> length (dk_files w) + length (lw_pending w @ p)"
proof -
  obtain rest w1 where "write_loop (lw_pending w @ p) w = (Some (), rest, w1)" "quiet w1"
    "length (dk_files w1) + length rest \<le> length (dk_files w) + length (lw_pending w @ p)"
    using write_loop_quiet [OF assms] by blast
  then show ?thesis by (intro that [of "w1\<lparr>lw_pending := rest\<rparr>"]) (simp_all add: log_write_def)
qed

lemma pump_loop_quiet:
  "\<lbrakk>quiet w; length (dk_files w) + length (lw_pending w @ concat chunks) < 2 ^ 64\<rbrakk> \<Longrightarrow>
   \<exists>w' names x. pump_loop chunks w = (Some (), w') \<and> quiet w' \<and> lw_path w' = lw_path w
     \<and> kept (lw_path w) (lookup (dk_files w)) (lookup (dk_files w')) names x
     \<and> x @ lw_pending w' = lw_pending w @ concat chunks"
proof (induction chunks arbitrary: w)
  case Nil
  with kept_refl show ?case by (auto intro!: exI [of _ "[]"])
next
  case (Cons c chunks)
  have "length (dk_files w) + length (lw_pending w @ c) < 2 ^ 64" using Cons.prems(2) by simp
  then obtain w1 where w1: "log_write c w = (Some (length c), w1)" "quiet w1"
    "length (dk_files w1) + length (lw_pending w1) \<le> length (dk_files w) + length (lw_pending w @ c)"
    using log_write_quiet [OF Cons.prems(1)] by metis
  have wr: "writable w" using Cons.prems(1) by (simp add: quiet_def)
  obtain ms i x where x: "kept (lw_path w) (lookup (dk_files w)) (lookup (dk_files w1)) ms (take i (lw_pending w @ c) @ x)"
    "lw_pending w1 = drop i (lw_pending w @ c)" "lw_path w1 = lw_path w" "x = []"
    by (rule log_write_safe [OF w1(1) wr]) auto
  from Cons.IH [OF w1(2)] w1(3) Cons.prems(2) obtain w' names y where IH:
    "pump_loop chunks w1 = (Some (), w')" "quiet w'" "lw_path w' = lw_path w1"
    "kept (lw_path w1) (lookup (dk_files w1)) (lookup (dk_files w')) names y"
    "y @ lw_pending w' = lw_pending w1 @ concat chunks"
    by auto
  have "kept (lw_path w) (lookup (dk_files w)) (lookup (dk_files w')) (ms @ names) (take i (lw_pending w @ c) @ y)"
    using kept_trans [OF x(1) IH(4) [unfolded x(3)]] x(4) by simp
  moreover have "(take i (lw_pending w @ c) @ y) @ lw_pending w' = lw_pending w @ concat (c # chunks)"
    using IH(5) x(2) by (metis append.assoc append_take_drop_id concat.simps(2))
  ultimately show ?case using IH(1-3) x(3) w1(1) by (simp del: concat.simps append_assoc) blast
qed

text \<open>C22: A pump whose system calls succeed, started when no rotation is unfinished, writes every byte
  that was pending or read to the log, in order and once: the new segments and then the active file are
  the active file as it was, followed by those bytes.\<close>
theorem pump_writes_everything:
  assumes "quiet w" "length (dk_files w) + length (lw_pending w @ concat chunks) < 2 ^ 64"
  shows "\<exists>names. kept (lw_path w) (lookup (dk_files w)) (lookup (dk_files (pump_run chunks w))) names
    (lw_pending w @ concat chunks)"
proof -
  obtain w1 names x where w1: "pump_loop chunks w = (Some (), w1)" "quiet w1" "lw_path w1 = lw_path w"
    "kept (lw_path w) (lookup (dk_files w)) (lookup (dk_files w1)) names x"
    "x @ lw_pending w1 = lw_pending w @ concat chunks"
    using pump_loop_quiet [OF assms] by blast
  obtain c where c: "lookup (dk_files w1) (lw_path w1) = Some (Log c)" "dk_plan w1 = []" "lw_open w1"
    using w1(2) by (auto simp: quiet_def writable_def)
  have "kept (lw_path w1) (lookup (dk_files w1)) (lookup (dk_files (snd (log_close w1)))) [] (lw_pending w1)"
    using c by (auto simp: log_close_def bind_act_def sync_file_def close_file_def plain_call_def
        attempt_def file_write_def append_text_def kept_def go_map)
  from kept_append [OF w1(4) this [unfolded w1(3)] w1(5)] show ?thesis
    unfolding pump_run_def w1(1) snd_conv by blast
qed

text \<open>C23: Wherever a Write stops, by an error or a crash, and unless the rotation journal is left torn,
  the recovery of the next start succeeds, leaves no journal, and the log holds its old bytes followed by
  the bytes the writer no longer keeps, and at most the beginning of the first line it still keeps.\<close>
theorem interrupted_write_recovers:
  assumes "log_write p w = (r, w')" "writable w" "log_path (lw_path w)"
    and "lookup (dk_files w') (rotation_journal (lw_path w)) \<noteq> Some Torn"
  shows "\<exists>w'' names j x. recover_segment_rotation (lw_path w) (w'\<lparr>dk_plan := []\<rparr>) = (Some (), w'')
    \<and> lookup (dk_files w'') (rotation_journal (lw_path w)) = None
    \<and> kept (lw_path w) (lookup (dk_files w)) (lookup (dk_files w'')) names (take j (lw_pending w @ p) @ x)
    \<and> lw_pending w' = drop j (lw_pending w @ p) \<and> prefix x (lw_pending w') \<and> (r \<noteq> None \<longrightarrow> x = [])"
proof -
  obtain names j x where x:
    "kept (lw_path w) (lookup (dk_files w)) (lookup (dk_files w')) names (take j (lw_pending w @ p) @ x)"
    "lw_pending w' = drop j (lw_pending w @ p)" "prefix x (lw_pending w')" "r \<noteq> None \<longrightarrow> x = []"
    "writable w'" "lw_path w' = lw_path w"
    by (rule log_write_safe [OF assms(1,2)]) blast
  let ?d = "w'\<lparr>dk_plan := []\<rparr>"
  have ok: "journal_ok (lw_path w) (lookup (dk_files ?d))" using x(5,6) by (simp add: writable_def)
  have torn: "lookup (dk_files ?d) (rotation_journal (lw_path w)) \<noteq> Some Torn" using assms(4) by simp
  obtain w'' ms where rec: "recover_segment_rotation (lw_path w) ?d = (Some (), w'')"
    "lookup (dk_files w'') (rotation_journal (lw_path w)) = None"
    "kept (lw_path w) (lookup (dk_files ?d)) (lookup (dk_files w'')) ms []"
    by (rule recover_ok [OF ok torn assms(3)]) auto
  have "kept (lw_path w) (lookup (dk_files w)) (lookup (dk_files w'')) (names @ ms) (take j (lw_pending w @ p) @ x)"
    by (rule kept_append [OF x(1)], rule rec(3) [unfolded segmented_log_writer.simps disk.simps, simplified]) simp
  with rec x(2-4) show ?thesis by blast
qed

lemma pump_loop_small:
  "\<lbrakk>small M w; writable w; list_all (\<lambda>c. length c \<le> n) chunks; length (lw_pending w) < max_pending_line_bytes;
    int (max_pending_line_bytes + n) \<le> M\<rbrakk> \<Longrightarrow> small M (snd (pump_loop chunks w))"
proof (induction chunks arbitrary: w)
  case (Cons c chunks)
  obtain r w1 where w1: "log_write c w = (r, w1)" by force
  have len: "int (length (lw_pending w @ c)) \<le> M" using Cons.prems(3,4,5) by simp
  obtain names j x where x: "r \<noteq> None \<longrightarrow> r = Some (length c) \<and> x = ([] :: string) \<and> CHR 0x0A \<notin> set (lw_pending w1)
       \<and> length (lw_pending w1) < max_pending_line_bytes" "writable w1"
    "small M w \<and> int (length (lw_pending w @ c)) \<le> M \<longrightarrow> small M w1"
    by (rule log_write_safe [OF w1 Cons.prems(2)]) blast
  show ?case
  proof (cases r)
    case None
    with w1 x Cons.prems(1) len show ?thesis by simp
  next
    case (Some n)
    with Cons.IH [of w1] Cons.prems w1 x len show ?thesis by simp
  qed
qed simp

text \<open>Whatever system calls fail, while the pump writes reads of at most 64 KiB no file of the log
  grows over ten MiB.\<close>
theorem log_files_stay_small:
  assumes "small max_log_size w" "writable w" "length (lw_pending w) < max_pending_line_bytes"
    and "list_all (\<lambda>c. length c \<le> 65536) chunks"
    and "q = lw_path w \<or> segment_of (lw_path w) q"
  shows "int (length (text_of (lookup (dk_files (snd (pump_loop chunks w))) q))) \<le> max_log_size"
proof -
  have path: "lw_path (snd (pump_loop cs v)) = lw_path v" if "writable v" for cs v
    using that
  proof (induction cs arbitrary: v)
    case (Cons c cs)
    obtain r v1 where v1: "log_write c v = (r, v1)" by force
    obtain "writable v1" "lw_path v1 = lw_path v" by (rule log_write_safe [OF v1 Cons.prems])
    with Cons.IH v1 show ?case by (cases r) simp_all
  qed simp
  have "small max_log_size (snd (pump_loop chunks w))"
    by (rule pump_loop_small [OF assms(1,2,4,3)]) (simp add: max_log_size_def max_pending_line_bytes_def)
  with assms(5) path [OF assms(2)] show ?thesis by (auto simp: small_def)
qed

text \<open>Once a rotation journal is torn, as by a crash between its creation and its write, the log
  cannot be opened again: every attempt fails, whatever calls succeed, and changes no file.\<close>
theorem torn_journal_blocks_logging:
  assumes "lookup (dk_files d) (rotation_journal path) = Some Torn"
  shows "\<exists>d'. open_segmented_log_writer path max_size today d = (None, d') \<and> dk_files d' = dk_files d"
  using assms
  by (auto simp: open_segmented_log_writer_def recover_segment_rotation_def bind_act_def plain_call_def
      attempt_def split: list.splits outcome.splits)

text \<open>C24: The search of seal for a free segment name ends with one after at most as many tries as there
  are files and one more.\<close>
theorem find_free_segment_finds:
  assumes "dk_plan w = []" "length (dk_files w) < 2 ^ 64"
  shows "\<exists>sealed w'. find_free_segment w = (Some sealed, w') \<and> \<not> entry_exists sealed w
    \<and> dk_files w' = dk_files w \<and> (\<exists>n. sealed = segment_name (lw_path w) (lw_open_date w) n)"
proof -
  obtain sealed n where "find_free_segment w = (Some sealed, w\<lparr>lw_segment := n\<rparr>)"
    "lookup (dk_files w) sealed = None" "sealed = segment_name (lw_path w) (lw_open_date w) n"
    by (rule find_free_segment_quiet [OF assms])
  then show ?thesis by (intro exI [of _ sealed] exI [of _ "w\<lparr>lw_segment := n\<rparr>"]) (auto simp: entry_exists_def)
qed

section \<open>Witnesses\<close>

definition sample_writer :: "outcome list \<Rightarrow> segmented_log_writer" where
  "sample_writer plan = \<lparr>dk_files = [(''/l/a'', Log ''xy'')], dk_plan = plan, dk_dates = [],
     lw_path = ''/l/a'', lw_open = True, lw_size = 2, lw_max_size = 4, lw_pending = [], lw_segment = 0,
     lw_open_date = ''20260101''\<rparr>"

lemma sample_writable: "writable (sample_writer plan)"
  by (simp add: writable_def sample_writer_def journal_ok_def rotation_journal_def is_digit_def)

lemma sample_quiet: "quiet (sample_writer [])"
  using sample_writable [of "[]"] by (simp add: quiet_def sample_writer_def rotation_journal_def)

theorem pump_writes_everything_witness:
  "\<exists>names. kept ''/l/a'' (lookup [(''/l/a'', Log ''xy'')])
     (lookup (dk_files (pump_run [''b'' @ [CHR 0x0A], ''cd'' @ [CHR 0x0A]] (sample_writer [])))) names
     (''b'' @ [CHR 0x0A] @ ''cd'' @ [CHR 0x0A])"
  using pump_writes_everything [OF sample_quiet, of "[''b'' @ [CHR 0x0A], ''cd'' @ [CHR 0x0A]]"]
  by (simp add: sample_writer_def)

lemmas seal_eval = seal_def sync_file_def bind_act_def plain_call_def attempt_def find_free_segment_def
  stat_exists_def create_excl_def write_rotation_def close_file_def rename_path_def remove_path_def
  open_append_def entry_exists_def rotation_journal_def

lemma pad6_digit: "n < 10 \<Longrightarrow> pad6 n = ''00000'' @ [digit_char n]"
proof -
  assume "n < 10"
  then have "pad6 n = replicate 5 (CHR ''0'') @ [digit_char n]" by (simp add: pad6_def base_digits.simps [of 10 n])
  then show ?thesis by (simp add: numeral_eq_Suc)
qed

text \<open>A write whose rename fails: the journal names the new segment and the log is still in place.\<close>

definition sample_plan :: "outcome list" where
  "sample_plan = [Success, Success, Success, Success, Success, Success, Success, Success, Failure 0]"

lemma sample_interrupted:
  "lookup (dk_files (snd (log_write (''abc'' @ [CHR 0x0A]) (sample_writer sample_plan))))
     (rotation_journal ''/l/a'') = Some (Rotation ''/l/a'' ''/l/a.segment-20260101-000001.sealed'')"
  by (simp add: log_write_def write_loop.simps [of "[CHR ''a'', CHR ''b'', CHR ''c'', CHR 0x0A]"] index_newline_def before_def
      max_pending_line_bytes_def write_line_def next_date_def sample_writer_def seal_eval sample_plan_def
      Let_def go_string segment_name_def pad6_digit)

theorem interrupted_write_recovers_witness:
  "\<exists>w'' names j x. recover_segment_rotation ''/l/a''
       ((snd (log_write (''abc'' @ [CHR 0x0A]) (sample_writer sample_plan)))\<lparr>dk_plan := []\<rparr>) = (Some (), w'')
    \<and> kept ''/l/a'' (lookup [(''/l/a'', Log ''xy'')]) (lookup (dk_files w'')) names (take j (''abc'' @ [CHR 0x0A]) @ x)"
proof -
  obtain r w' where run: "log_write (''abc'' @ [CHR 0x0A]) (sample_writer sample_plan) = (r, w')" by force
  have path: "lw_path (sample_writer sample_plan) = ''/l/a''" "lw_pending (sample_writer sample_plan) = []"
    "dk_files (sample_writer sample_plan) = [(''/l/a'', Log ''xy'')]" by (simp_all add: sample_writer_def)
  show ?thesis
    using interrupted_write_recovers [OF run sample_writable] sample_interrupted
    unfolding path run snd_conv by (simp add: log_path_def) blast
qed

theorem log_files_stay_small_witness:
  "int (length (text_of (lookup (dk_files (snd (pump_loop [''b'' @ [CHR 0x0A]]
     ((sample_writer [Success, Failure 1])\<lparr>lw_max_size := max_log_size\<rparr>)))) ''/l/a''))) \<le> max_log_size"
  by (rule log_files_stay_small)
    (use sample_writable [of "[Success, Failure 1]"] in \<open>auto simp: small_def sample_writer_def max_log_size_def
      segment_of_def segment_name_def writable_def max_pending_line_bytes_def\<close>)

theorem torn_journal_blocks_logging_witness:
  "\<exists>d'. open_segmented_log_writer ''/l/a'' 4 ''20260101''
      \<lparr>dk_files = [(''/l/a'', Log ''xy''), (''/l/a.rotation.json'', Torn)], dk_plan = [Success], dk_dates = []\<rparr>
    = (None, d') \<and> dk_files d' = [(''/l/a'', Log ''xy''), (''/l/a.rotation.json'', Torn)]"
  using torn_journal_blocks_logging [of "\<lparr>dk_files = [(''/l/a'', Log ''xy''), (''/l/a.rotation.json'', Torn)],
      dk_plan = [Success], dk_dates = []\<rparr>" "''/l/a''" 4 "''20260101''"]
  by (simp add: rotation_journal_def)

theorem find_free_segment_finds_witness:
  "\<exists>sealed w'. find_free_segment (sample_writer []) = (Some sealed, w') \<and> \<not> entry_exists sealed (sample_writer [])"
  using find_free_segment_finds [of "sample_writer []"] by (auto simp: sample_writer_def)

text \<open>How a journal is torn: the call after its creation fails.  The disk then blocks every start.\<close>

lemma journal_torn_by_failed_write:
  "lookup (dk_files (snd (log_write (''abc'' @ [CHR 0x0A])
      (sample_writer [Success, Success, Success, Failure 0])))) (rotation_journal ''/l/a'') = Some Torn"
  by (simp add: log_write_def write_loop.simps [of "[CHR ''a'', CHR ''b'', CHR ''c'', CHR 0x0A]"] index_newline_def before_def
      max_pending_line_bytes_def write_line_def next_date_def sample_writer_def seal_eval
      Let_def go_string segment_name_def pad6_digit)

text \<open>Numbers start again at the count of segments, so after older ones were cleaned a later segment gets
  a name that sorts before those of the same day.\<close>

lemma segment_numbers_go_back:
  assumes "d = \<lparr>dk_files = [(''/l/a'', Log ''xy''), (segment_name ''/l/a'' ''20260102'' 4, Log ''u''),
         (segment_name ''/l/a'' ''20260102'' 5, Log ''v'')], dk_plan = [], dk_dates = []\<rparr>"
  shows "\<exists>w d'. open_segmented_log_writer ''/l/a'' 4 ''20260102'' d = (Some w, d')
    \<and> fst (find_free_segment w) = Some (segment_name ''/l/a'' ''20260102'' 3)"
    and "segment_name ''/l/a'' ''20260102'' 3 < segment_name ''/l/a'' ''20260102'' 4"
proof -
  have "length (sealed_segments ''/l/a'' d) = 2"
    by (simp add: sealed_segments_def assms segment_name_def pad6_digit go_string path_dir_def path_base_def
        path_clean_def clean_push.simps has_prefix_def has_suffix_def)
  then show "\<exists>w d'. open_segmented_log_writer ''/l/a'' 4 ''20260102'' d = (Some w, d')
    \<and> fst (find_free_segment w) = Some (segment_name ''/l/a'' ''20260102'' 3)"
    by (simp add: open_segmented_log_writer_def recover_segment_rotation_def seal_eval assms
      segment_name_def pad6_digit go_string disk.defs Let_def)
  show "segment_name ''/l/a'' ''20260102'' 3 < segment_name ''/l/a'' ''20260102'' 4"
    by (simp add: segment_name_def pad6_digit go_string less_char_def)
qed

end
