(* ===== verification/Targets.thy ===== *)
theory Targets
  imports NetPrefix
begin

text \<open>internal/backtrace/hostname.go, internal/snihealth/network_policy.go and hostname.go, and
  resolveCheckpoint of internal/backtrace/service.go: which hosts and addresses the node probes or
  traces for the panel.  The resolver and golang.org/x/net/idna are parameters.\<close>

section \<open>Targets of a backtrace\<close>

definition reserved_ipv4_ranges :: "(nat \<times> nat) list" where
  "reserved_ipv4_ranges =
     [(0x00000000, 0x00ffffff), (0x0a000000, 0x0affffff), (0x64400000, 0x647fffff),
      (0x7f000000, 0x7fffffff), (0xa9fe0000, 0xa9feffff), (0xac100000, 0xac1fffff),
      (0xc0000000, 0xc00000ff), (0xc0000200, 0xc00002ff), (0xc0a80000, 0xc0a8ffff),
      (0xc6120000, 0xc613ffff), (0xc6336400, 0xc63364ff), (0xcb007100, 0xcb0071ff),
      (0xe0000000, 0xefffffff), (0xf0000000, 0xffffffff)]"

definition reserved_ipv4 :: "nat \<Rightarrow> bool" where
  "reserved_ipv4 n \<longleftrightarrow> list_ex (\<lambda>(lo, hi). lo \<le> n \<and> n \<le> hi) reserved_ipv4_ranges"

definition reserved_host_suffixes :: "string list" where
  "reserved_host_suffixes = [''.local'', ''.localhost'', ''.internal'', ''.home.arpa'']"

datatype target_error = Not_Public_Name | Not_Valid_IPv4 | Reserved_IPv4 | Private_Suffix

text \<open>The white space of a regular expression has no vertical tab.\<close>

definition forbidden_host_character :: "char \<Rightarrow> bool" where
  "forbidden_host_character c \<longleftrightarrow> c \<in> {CHR '' '', CHR 0x09, CHR 0x0A, CHR 0x0C, CHR 0x0D,
     CHR ''/'', CHR '':'', CHR ''@'', CHR ''*'', CHR ''?'', CHR ''#''}"

definition lower_alnum :: "char \<Rightarrow> bool" where
  "lower_alnum c \<longleftrightarrow> is_digit c \<or> (97 \<le> (of_char c :: nat) \<and> (of_char c :: nat) \<le> 122)"

definition ipv4_pattern :: "string \<Rightarrow> bool" where
  "ipv4_pattern s \<longleftrightarrow> (let parts = split_on (CHR ''.'') s in
     length parts = 4
     \<and> list_all (\<lambda>p. 1 \<le> length p \<and> length p \<le> 3 \<and> list_all is_digit p) parts)"

definition hostname_label :: "string \<Rightarrow> bool" where
  "hostname_label l \<longleftrightarrow> l \<noteq> [] \<and> length l \<le> 63 \<and> lower_alnum (hd l) \<and> lower_alnum (last l)
     \<and> list_all (\<lambda>c. lower_alnum c \<or> c = CHR ''-'') l"

definition trim_suffix :: "string \<Rightarrow> string \<Rightarrow> string" where
  "trim_suffix p s = (if has_suffix s p then take (length s - length p) s else s)"

definition parse_octet :: "string \<Rightarrow> nat option" where
  "parse_octet s = (if s = [] \<or> length s > 3 then None
     else case parse_digits s of
       Some n \<Rightarrow> if n \<le> 255 then Some n else None | None \<Rightarrow> None)"

definition is_numeric :: "string \<Rightarrow> bool" where
  "is_numeric s \<longleftrightarrow> s \<noteq> [] \<and> list_all is_digit s"

text \<open>The loop over the octets, on 32 bits.\<close>

fun ipv4_number :: "nat \<Rightarrow> string list \<Rightarrow> nat option" where
  "ipv4_number a [] = Some a"
| "ipv4_number a (p # parts) = (case parse_octet p of
     None \<Rightarrow> None | Some b \<Rightarrow> ipv4_number ((a * 256 + b) mod 2 ^ 32) parts)"

definition normalize_ipv4 :: "string \<Rightarrow> target_error + string" where
  "normalize_ipv4 s = (case ipv4_number 0 (split_on (CHR ''.'') s) of
     None \<Rightarrow> Inl Not_Valid_IPv4
   | Some n \<Rightarrow> if reserved_ipv4 n then Inl Reserved_IPv4 else Inr s)"

definition normalize_target :: "string \<Rightarrow> target_error + string" where
  "normalize_target raw =
     (let s = trim_suffix ''.'' (to_lower (trim_space raw)); labels = split_on (CHR ''.'') s in
      if s = [] \<or> length s > 253 \<or> list_ex forbidden_host_character s \<or> has_prefix s ''-''
        then Inl Not_Public_Name
      else if ipv4_pattern s then normalize_ipv4 s
      else if length labels < 2 then Inl Not_Public_Name
      else if \<not> list_all hostname_label labels then Inl Not_Public_Name
      else if is_numeric (last labels) then Inl Not_Valid_IPv4
      else if list_ex (has_suffix s) reserved_host_suffixes then Inl Private_Suffix
      else Inr s)"

section \<open>Public addresses\<close>

text \<open>netip.Prefix.Contains: an address with a zone is in no prefix, and families never mix.\<close>

fun prefix_contains :: "net_prefix \<Rightarrow> ip_addr \<times> string \<Rightarrow> bool" where
  "prefix_contains (IP4 base, bits) (IP4 n, zone) \<longleftrightarrow>
     zone = [] \<and> n div 2 ^ (32 - bits) = base div 2 ^ (32 - bits)"
| "prefix_contains (IP6 base, bits) (IP6 n, zone) \<longleftrightarrow>
     zone = [] \<and> n div 2 ^ (128 - bits) = base div 2 ^ (128 - bits)"
| "prefix_contains _ _ \<longleftrightarrow> False"

definition blocked_prefixes :: "net_prefix list" where
  "blocked_prefixes = List.map_filter parse_prefix
     [''0.0.0.0/8'', ''10.0.0.0/8'', ''100.64.0.0/10'', ''127.0.0.0/8'', ''169.254.0.0/16'',
      ''172.16.0.0/12'', ''192.0.0.0/24'', ''192.0.2.0/24'', ''192.88.99.0/24'', ''192.168.0.0/16'',
      ''198.18.0.0/15'', ''198.51.100.0/24'', ''203.0.113.0/24'', ''224.0.0.0/4'', ''240.0.0.0/4'',
      ''::/128'', ''::1/128'', ''::ffff:0:0/96'', ''64:ff9b::/96'', ''100::/64'', ''2001:2::/48'',
      ''2001:10::/28'', ''2001:db8::/32'', ''fc00::/7'', ''fe80::/10'', ''ff00::/8'']"

definition is_public_address :: "string \<Rightarrow> bool" where
  "is_public_address s = (case parse_addr s of
     None \<Rightarrow> False
   | Some a \<Rightarrow> \<not> list_ex (\<lambda>p. prefix_contains p a) blocked_prefixes)"

text \<open>What the resolver gave, or the text of its error.\<close>

datatype resolve_error = Resolver_Failed string | Not_Resolved | Resolves_To_Private | No_Public_IPv4

definition resolve_checkpoint ::
  "(string \<Rightarrow> string + string list) \<Rightarrow> string \<Rightarrow> resolve_error + string"
where
  "resolve_checkpoint resolve host = (case resolve host of
     Inl message \<Rightarrow> Inl (Resolver_Failed message)
   | Inr addresses \<Rightarrow>
       if addresses = [] then Inl Not_Resolved
       else if \<not> list_all is_public_address addresses then Inl Resolves_To_Private
       else (case List.map_filter (\<lambda>a. Option.bind (parse_ip a) to4) addresses of
           [] \<Rightarrow> Inl No_Public_IPv4
         | n # _ \<Rightarrow> Inr (dotted n)))"

lemma blocked_prefix_texts:
  "parse_prefix ''0.0.0.0/8'' = Some (IP4 0, 8)"
  "parse_prefix ''10.0.0.0/8'' = Some (IP4 0x0a000000, 8)"
  "parse_prefix ''100.64.0.0/10'' = Some (IP4 0x64400000, 10)"
  "parse_prefix ''127.0.0.0/8'' = Some (IP4 0x7f000000, 8)"
  "parse_prefix ''169.254.0.0/16'' = Some (IP4 0xa9fe0000, 16)"
  "parse_prefix ''172.16.0.0/12'' = Some (IP4 0xac100000, 12)"
  "parse_prefix ''192.0.0.0/24'' = Some (IP4 0xc0000000, 24)"
  "parse_prefix ''192.0.2.0/24'' = Some (IP4 0xc0000200, 24)"
  "parse_prefix ''192.88.99.0/24'' = Some (IP4 0xc0586300, 24)"
  "parse_prefix ''192.168.0.0/16'' = Some (IP4 0xc0a80000, 16)"
  "parse_prefix ''198.18.0.0/15'' = Some (IP4 0xc6120000, 15)"
  "parse_prefix ''198.51.100.0/24'' = Some (IP4 0xc6336400, 24)"
  "parse_prefix ''203.0.113.0/24'' = Some (IP4 0xcb007100, 24)"
  "parse_prefix ''224.0.0.0/4'' = Some (IP4 0xe0000000, 4)"
  "parse_prefix ''240.0.0.0/4'' = Some (IP4 0xf0000000, 4)"
  "parse_prefix ''::/128'' = Some (IP6 0, 128)"
  "parse_prefix ''::1/128'' = Some (IP6 1, 128)"
  "parse_prefix ''::ffff:0:0/96'' = Some (IP6 0xffff00000000, 96)"
  "parse_prefix ''64:ff9b::/96'' = Some (IP6 (0x0064ff9b * 2 ^ 96), 96)"
  "parse_prefix ''100::/64'' = Some (IP6 (0x0100 * 2 ^ 112), 64)"
  "parse_prefix ''2001:2::/48'' = Some (IP6 (0x20010002 * 2 ^ 96), 48)"
  "parse_prefix ''2001:10::/28'' = Some (IP6 (0x20010010 * 2 ^ 96), 28)"
  "parse_prefix ''2001:db8::/32'' = Some (IP6 (0x20010db8 * 2 ^ 96), 32)"
  "parse_prefix ''fc00::/7'' = Some (IP6 (0xfc00 * 2 ^ 112), 7)"
  "parse_prefix ''fe80::/10'' = Some (IP6 (0xfe80 * 2 ^ 112), 10)"
  "parse_prefix ''ff00::/8'' = Some (IP6 (0xff00 * 2 ^ 112), 8)"
  by (simp_all add: parse_prefix_def net_eval Let_def)

lemma blocked_prefixes_values: "blocked_prefixes =
   [(IP4 0, 8), (IP4 0x0a000000, 8), (IP4 0x64400000, 10), (IP4 0x7f000000, 8),
    (IP4 0xa9fe0000, 16), (IP4 0xac100000, 12), (IP4 0xc0000000, 24), (IP4 0xc0000200, 24),
    (IP4 0xc0586300, 24), (IP4 0xc0a80000, 16), (IP4 0xc6120000, 15), (IP4 0xc6336400, 24),
    (IP4 0xcb007100, 24), (IP4 0xe0000000, 4), (IP4 0xf0000000, 4), (IP6 0, 128),
    (IP6 1, 128), (IP6 0xffff00000000, 96), (IP6 (0x0064ff9b * 2 ^ 96), 96), (IP6 (0x0100 * 2 ^ 112), 64),
    (IP6 (0x20010002 * 2 ^ 96), 48), (IP6 (0x20010010 * 2 ^ 96), 28), (IP6 (0x20010db8 * 2 ^ 96), 32), (IP6 (0xfc00 * 2 ^ 112), 7),
    (IP6 (0xfe80 * 2 ^ 112), 10), (IP6 (0xff00 * 2 ^ 112), 8)]"
  by (simp add: blocked_prefixes_def List.map_filter_simps blocked_prefix_texts)

text \<open>The IPv4 prefixes are the reserved ranges of the backtrace and 192.88.99.0/24.\<close>

lemma div_eq_range: "0 < c \<Longrightarrow> n div c = (k::nat) \<longleftrightarrow> k * c \<le> n \<and> n < Suc k * c"
  by (metis div_nat_eqI dividend_less_times_div mult.commute mult_Suc times_div_less_eq_dividend)

lemma blocked_ipv4_iff:
  "list_ex (\<lambda>p. prefix_contains p (IP4 n, [])) blocked_prefixes
   \<longleftrightarrow> reserved_ipv4 n \<or> 0xc0586300 \<le> n \<and> n \<le> 0xc05863ff"
proof -
  have ranges:
    "n div 2 ^ 24 = 0 \<longleftrightarrow> 0x00000000 \<le> n \<and> n \<le> 0x00ffffff"
    "n div 2 ^ 24 = 10 \<longleftrightarrow> 0x0a000000 \<le> n \<and> n \<le> 0x0affffff"
    "n div 2 ^ 22 = 401 \<longleftrightarrow> 0x64400000 \<le> n \<and> n \<le> 0x647fffff"
    "n div 2 ^ 24 = 127 \<longleftrightarrow> 0x7f000000 \<le> n \<and> n \<le> 0x7fffffff"
    "n div 2 ^ 16 = 43518 \<longleftrightarrow> 0xa9fe0000 \<le> n \<and> n \<le> 0xa9feffff"
    "n div 2 ^ 20 = 2753 \<longleftrightarrow> 0xac100000 \<le> n \<and> n \<le> 0xac1fffff"
    "n div 2 ^ 8 = 12582912 \<longleftrightarrow> 0xc0000000 \<le> n \<and> n \<le> 0xc00000ff"
    "n div 2 ^ 8 = 12582914 \<longleftrightarrow> 0xc0000200 \<le> n \<and> n \<le> 0xc00002ff"
    "n div 2 ^ 8 = 12605539 \<longleftrightarrow> 0xc0586300 \<le> n \<and> n \<le> 0xc05863ff"
    "n div 2 ^ 16 = 49320 \<longleftrightarrow> 0xc0a80000 \<le> n \<and> n \<le> 0xc0a8ffff"
    "n div 2 ^ 17 = 25353 \<longleftrightarrow> 0xc6120000 \<le> n \<and> n \<le> 0xc613ffff"
    "n div 2 ^ 8 = 12989284 \<longleftrightarrow> 0xc6336400 \<le> n \<and> n \<le> 0xc63364ff"
    "n div 2 ^ 8 = 13303921 \<longleftrightarrow> 0xcb007100 \<le> n \<and> n \<le> 0xcb0071ff"
    "n div 2 ^ 28 = 14 \<longleftrightarrow> 0xe0000000 \<le> n \<and> n \<le> 0xefffffff"
    "n div 2 ^ 28 = 15 \<longleftrightarrow> 0xf0000000 \<le> n \<and> n \<le> 0xffffffff"
    by (simp_all only: div_eq_range [OF zero_less_power [OF zero_less_numeral]]) auto
  have "list_ex (\<lambda>p. prefix_contains p (IP4 n, [])) blocked_prefixes \<longleftrightarrow>
    list_ex (\<lambda>(k, b). n div 2 ^ b = k) [(0, 24), (10, 24), (401, 22), (127, 24), (43518, 16), (2753, 20), (12582912, 8), (12582914, 8), (12605539, 8), (49320, 16), (25353, 17), (12989284, 8), (13303921, 8), (14, 28), (15, 28)]"
    by (simp add: blocked_prefixes_values)
  then show ?thesis
    by (simp only: reserved_ipv4_def reserved_ipv4_ranges_def list_ex_Cons_iff list_ex_Nil_iff prod.case ranges
        disj_ac simp_thms)
qed

section \<open>The traced address\<close>

lemma octet_text: "b < 256 \<Longrightarrow> octet (base_digits 10 b) = Some b"
proof -
  assume b: "b < 256"
  have "hd (base_digits 10 b) \<noteq> CHR ''0''" if "length (base_digits 10 b) > 1"
  proof (cases "b < 10")
    case True
    with that show ?thesis by (simp add: base_digits.simps [of 10 b])
  next
    case False
    show ?thesis
    proof (cases "b < 100")
      case True
      then have d: "base_digits 10 (b div 10) = [digit_char (b div 10)]"
        by (simp add: base_digits.simps [of 10 "b div 10"])
      have "digit_char (b div 10) \<noteq> digit_char 0"
        using True \<open>\<not> b < 10\<close> digit_val_char [of "b div 10"] digit_val_char [of 0] by fastforce
      then show ?thesis using False d by (simp add: base_digits.simps [of 10 b] digit_char_table)
    next
      case big: False
      with b have q: "b div 100 < 10" "\<not> b div 10 < 10"
        by (simp_all add: less_mult_imp_div_less div_less_iff_less_mult)
      then have "base_digits 10 (b div 100) = [digit_char (b div 100)]"
        by (simp add: base_digits.simps [of 10 "b div 100"])
      moreover have "b div 10 div 10 = b div 100" by (simp add: div_mult2_eq [symmetric])
      ultimately have d: "base_digits 10 (b div 10) = [digit_char (b div 100), digit_char (b div 10 mod 10)]"
        using q(2) by (subst base_digits.simps) simp
      have "digit_char (b div 100) \<noteq> digit_char 0"
        using big b digit_val_char [of "b div 100"] digit_val_char [of 0] by fastforce
      then show ?thesis using False d by (simp add: base_digits.simps [of 10 b] digit_char_table)
    qed
  qed
  with b show ?thesis by (simp add: octet_def)
qed

lemma decimal_no_dot: "CHR ''.'' \<notin> set (base_digits 10 n)"
  using base_digits_decimal [of n] by (auto simp: list_all_iff is_digit_def)

lemma parse_ipv4_dotted: "n < 2 ^ 32 \<Longrightarrow> parse_ipv4 (dotted n) = Some n"
proof -
  assume n: "n < 2 ^ 32"
  let ?bs = "[n div 2 ^ 24 mod 256, n div 2 ^ 16 mod 256, n div 2 ^ 8 mod 256, n mod 256]"
  have "split_on (CHR ''.'') (dotted n) = map (base_digits 10) ?bs"
    unfolding dotted_def by (rule split_on_join) (simp_all add: decimal_no_dot)
  then have "parse_ipv4 (dotted n) = Some (((n div 2 ^ 24 mod 256 * 256 + n div 2 ^ 16 mod 256) * 256
      + n div 2 ^ 8 mod 256) * 256 + n mod 256)"
    by (simp add: parse_ipv4_def octet_text)
  also have "((n div 2 ^ 24 mod 256 * 256 + n div 2 ^ 16 mod 256) * 256
      + n div 2 ^ 8 mod 256) * 256 + n mod 256 = n"
  proof -
    have "x div 256 * 256 + x mod 256 = x" for x :: nat by simp
    from this [of n] this [of "n div 2 ^ 8"] this [of "n div 2 ^ 16"]
    have "n div 2 ^ 8 * 256 + n mod 256 = n" "n div 2 ^ 16 * 256 + n div 2 ^ 8 mod 256 = n div 2 ^ 8"
      "n div 2 ^ 24 * 256 + n div 2 ^ 16 mod 256 = n div 2 ^ 16" by (simp_all add: div_mult2_eq [symmetric])
    moreover have "n div 2 ^ 24 mod 256 = n div 2 ^ 24" using n by (simp add: less_mult_imp_div_less)
    ultimately show ?thesis by metis
  qed
  finally show ?thesis .
qed

lemma parse_addr_dotted: "n < 2 ^ 32 \<Longrightarrow> parse_addr (dotted n) = Some (IP4 n, [])"
proof -
  assume n: "n < 2 ^ 32"
  let ?d = "base_digits 10 (n div 2 ^ 24 mod 256)"
  obtain t where t: "dotted n = ?d @ CHR ''.'' # t" by (simp add: dotted_def)
  have "c \<notin> {CHR ''.'', CHR '':'', CHR ''%''}" if "c \<in> set ?d" for c
    using that base_digits_decimal [of "n div 2 ^ 24 mod 256"] by (auto simp: list_all_iff is_digit_def)
  then have "dropWhile (\<lambda>c. c \<notin> {CHR ''.'', CHR '':'', CHR ''%''}) (dotted n) = CHR ''.'' # t"
    unfolding t by (subst dropWhile_append2) auto
  then show ?thesis using parse_ipv4_dotted [OF n] by (simp add: parse_addr_def)
qed

lemma parse_ipv4_bound: "parse_ipv4 s = Some n \<Longrightarrow> n < 2 ^ 32"
proof -
  assume "parse_ipv4 s = Some n"
  then obtain a b c d where m: "map octet (split_on (CHR ''.'') s) = [Some a, Some b, Some c, Some d]"
    and n: "n = ((a * 256 + b) * 256 + c) * 256 + d"
    by (auto simp: parse_ipv4_def split: list.splits option.splits)
  have "x \<le> 255" if "Some x \<in> set (map octet (split_on (CHR ''.'') s))" for x
    using that by (auto simp: octet_def split: if_splits option.splits)
  with m have "a \<le> 255" "b \<le> 255" "c \<le> 255" "d \<le> 255" by auto
  then show ?thesis by (simp add: n)
qed

lemma parse_addr_ip4_bound: "parse_addr s = Some (IP4 n, z) \<Longrightarrow> n < 2 ^ 32"
  by (auto simp: parse_addr_def Let_def split: list.splits if_splits dest: parse_ipv4_bound)

text \<open>An IPv4 address in its IPv6 form is never public, so the first public address with an IPv4 form
  is a plain IPv4 address outside the blocked ranges.\<close>

lemma public_to4:
  assumes "is_public_address a" "parse_ip a = Some ip" "to4 ip = Some n"
  shows "ip = IP4 n \<and> n < 2 ^ 32 \<and> is_public_address (dotted n)"
proof -
  have p: "parse_addr a = Some (ip, [])" using assms(2) by (auto simp: parse_ip_def split: option.splits prod.splits list.splits)
  show ?thesis
  proof (cases ip)
    case (IP4 m)
    with assms(3) p have "parse_addr a = Some (IP4 n, [])" by simp
    with assms(1) parse_addr_ip4_bound [OF this] parse_addr_dotted [of n] IP4 assms(3) show ?thesis
      by (simp add: is_public_address_def)
  next
    case (IP6 m)
    with assms(3) have "m div 2 ^ 32 = 0xFFFF" by (auto split: if_splits)
    moreover have "prefix_contains (IP6 0xffff00000000, 96) (IP6 m, []) \<longleftrightarrow> m div 2 ^ 32 = 0xFFFF" by simp
    ultimately have "list_ex (\<lambda>p. prefix_contains p (ip, [])) blocked_prefixes"
      using IP6 by (simp add: blocked_prefixes_values)
    with assms(1) p show ?thesis by (simp add: is_public_address_def)
  qed
qed

lemma public_ipv4_iff:
  "n < 2 ^ 32 \<Longrightarrow> is_public_address (dotted n) \<longleftrightarrow> \<not> reserved_ipv4 n \<and> \<not> (0xc0586300 \<le> n \<and> n \<le> 0xc05863ff)"
  by (simp add: is_public_address_def parse_addr_dotted blocked_ipv4_iff)

lemma traced_public:
  assumes "resolve_checkpoint resolve host = Inr address"
  shows "\<exists>n addresses. address = dotted n \<and> n < 2 ^ 32 \<and> parse_ip address = Some (IP4 n)
    \<and> \<not> reserved_ipv4 n \<and> \<not> (0xc0586300 \<le> n \<and> n \<le> 0xc05863ff)
    \<and> resolve host = Inr addresses \<and> list_all is_public_address addresses
    \<and> (\<exists>a\<in>set addresses. parse_ip a = Some (IP4 n))"
proof -
  obtain addresses where r: "resolve host = Inr addresses" "list_all is_public_address addresses"
    using assms by (auto simp: resolve_checkpoint_def split: sum.splits if_splits)
  with assms obtain n ns where f: "List.map_filter (\<lambda>a. Option.bind (parse_ip a) to4) addresses = n # ns"
    "address = dotted n"
    by (auto simp: resolve_checkpoint_def split: if_splits list.splits)
  then have "n \<in> set (List.map_filter (\<lambda>a. Option.bind (parse_ip a) to4) addresses)" by simp
  then obtain a ip where a: "a \<in> set addresses" "parse_ip a = Some ip" "to4 ip = Some n"
    by (auto simp: List.map_filter_def bind_eq_Some_conv)
  from public_to4 [OF _ a(2,3)] r(2) a(1) have n: "ip = IP4 n" "n < 2 ^ 32" "is_public_address (dotted n)"
    by (auto simp: list_all_iff)
  then have "parse_ip address = Some (IP4 n)" by (simp add: f(2) parse_ip_def parse_addr_dotted)
  with r f(2) a n public_ipv4_iff [OF n(2)] show ?thesis by auto
qed

text \<open>An address that is traced is the dotted form of an IPv4 address that the resolver gave, outside the
  reserved ranges and 192.88.99.0/24, and every address of the name was public.\<close>
theorem traced_address_is_public:
  assumes "resolve_checkpoint resolve host = Inr address"
  shows "\<exists>n addresses. address = dotted n \<and> n < 2 ^ 32 \<and> parse_ip address = Some (IP4 n)
    \<and> \<not> reserved_ipv4 n \<and> \<not> (0xc0586300 \<le> n \<and> n \<le> 0xc05863ff)
    \<and> resolve host = Inr addresses \<and> list_all is_public_address addresses
    \<and> (\<exists>a\<in>set addresses. parse_ip a = Some (IP4 n))"
  by (rule traced_public [OF assms])

text \<open>Canonical texts are lower case without white space at the ends and without a dot at the end.\<close>

definition host_char :: "char \<Rightarrow> bool" where
  "host_char c \<longleftrightarrow> lower_alnum c \<or> c = CHR ''-'' \<or> c = CHR ''.''"

lemma host_char_plain:
  assumes "host_char c"
  shows "lower_char c = c" "\<not> is_space c" "\<not> forbidden_host_character c"
  using assms by (auto simp: host_char_def lower_alnum_def is_digit_def lower_char_def is_space_def
      forbidden_host_character_def)

lemma to_lower_id: "list_all (\<lambda>c. lower_char c = c) s \<Longrightarrow> to_lower s = s"
  by (simp add: to_lower_def list_all_iff map_idI)

lemma split_on_suffix: "s \<noteq> [] \<Longrightarrow> last s = c \<Longrightarrow> last (split_on c s) = []"
proof (induction s)
  case (Cons x xs)
  show ?case
  proof (cases xs)
    case Nil
    with Cons show ?thesis by simp
  next
    case (Cons y ys)
    with Cons.IH Cons.prems have l: "last (split_on c xs) = []" by simp
    obtain w ws where w: "split_on c xs = w # ws" by (cases "split_on c xs") auto
    have "ws \<noteq> []"
    proof
      assume "ws = []"
      with w l have "split_on c xs = [[]]" by simp
      then show False using join_split_on [of c xs] Cons by simp
    qed
    with l w show ?thesis by simp
  qed
qed simp

lemma trim_suffix_id: "s = [] \<or> last s \<noteq> c \<Longrightarrow> trim_suffix [c] s = s"
  by (cases s rule: rev_cases) (auto simp: trim_suffix_def has_suffix_def)

lemma normal_host:
  assumes "list_all (\<lambda>l. l \<noteq> [] \<and> list_all (\<lambda>c. lower_alnum c \<or> c = CHR ''-'') l) (split_on (CHR ''.'') s)"
  shows "list_all host_char s" "trim_suffix ''.'' (to_lower (trim_space s)) = s"
proof -
  show h: "list_all host_char s"
    using assms set_split_on [of s "CHR ''.''"] by (fastforce simp: list_all_iff host_char_def)
  have "last s \<noteq> CHR ''.''" if "s \<noteq> []"
  proof
    assume "last s = CHR ''.''"
    from split_on_suffix [OF that this] have "[] \<in> set (split_on (CHR ''.'') s)"
      by (metis last_in_set split_on_not_Nil)
    with assms show False by (auto simp: list_all_iff)
  qed
  then have "trim_suffix ''.'' s = s" by (intro trim_suffix_id) auto
  moreover have "to_lower s = s" by (rule to_lower_id) (use h host_char_plain in \<open>auto simp: list_all_iff\<close>)
  moreover have "trim_space s = s" by (rule trim_space_id) (use h host_char_plain in \<open>auto simp: list_all_iff\<close>)
  ultimately show "trim_suffix ''.'' (to_lower (trim_space s)) = s" by simp
qed

lemma accepted_target_canonical:
  assumes "normalize_target raw = Inr t"
  shows "normalize_target t = Inr t \<and> length t \<le> 253 \<and> list_all host_char t \<and> \<not> has_prefix t ''-''
    \<and> (if ipv4_pattern t
       then \<exists>n. ipv4_number 0 (split_on (CHR ''.'') t) = Some n \<and> \<not> reserved_ipv4 n
       else 2 \<le> length (split_on (CHR ''.'') t) \<and> list_all hostname_label (split_on (CHR ''.'') t)
         \<and> \<not> is_numeric (last (split_on (CHR ''.'') t))
         \<and> \<not> list_ex (has_suffix t) reserved_host_suffixes)"
proof -
  let ?s = "trim_suffix ''.'' (to_lower (trim_space raw))"
  have t: "t = ?s" using assms by (auto simp: normalize_target_def normalize_ipv4_def Let_def split: if_splits option.splits)
  have "list_all (\<lambda>l. l \<noteq> [] \<and> list_all (\<lambda>c. lower_alnum c \<or> c = CHR ''-'') l) (split_on (CHR ''.'') t)"
  proof (cases "ipv4_pattern t")
    case True
    then show ?thesis by (auto simp: ipv4_pattern_def Let_def list_all_iff lower_alnum_def)
  next
    case False
    then have "list_all hostname_label (split_on (CHR ''.'') t)"
      using assms t by (auto simp: normalize_target_def Let_def split: if_splits)
    then show ?thesis by (auto simp: list_all_iff hostname_label_def)
  qed
  from normal_host [OF this] have n: "list_all host_char t" "trim_suffix ''.'' (to_lower (trim_space t)) = t" .
  have "normalize_target t = normalize_target raw" unfolding normalize_target_def n(2) t [symmetric] ..
  with assms n t show ?thesis
    by (auto simp: normalize_target_def normalize_ipv4_def Let_def split: if_splits option.splits)
qed

text \<open>An accepted target is canonical: it is accepted again as it is, has at most 253 characters of a host
  name, does not start like an option, and is an IPv4 text outside the reserved ranges or a name of at least
  two labels whose last one is not numeric and that ends in no private suffix.\<close>
theorem accepted_target_is_canonical:
  assumes "normalize_target raw = Inr t"
  shows "normalize_target t = Inr t \<and> length t \<le> 253 \<and> list_all host_char t \<and> \<not> has_prefix t ''-''
    \<and> (if ipv4_pattern t
       then \<exists>n. ipv4_number 0 (split_on (CHR ''.'') t) = Some n \<and> \<not> reserved_ipv4 n
       else 2 \<le> length (split_on (CHR ''.'') t) \<and> list_all hostname_label (split_on (CHR ''.'') t)
         \<and> \<not> is_numeric (last (split_on (CHR ''.'') t))
         \<and> \<not> list_ex (has_suffix t) reserved_host_suffixes)"
  by (rule accepted_target_canonical [OF assms])

section \<open>Reality targets of the configuration\<close>

text \<open>to_ascii is idna.Lookup.ToASCII.\<close>

definition valid_hostname_label :: "string \<Rightarrow> bool" where
  "valid_hostname_label l \<longleftrightarrow> l \<noteq> [] \<and> length l \<le> 63 \<and> hd l \<noteq> CHR ''-'' \<and> last l \<noteq> CHR ''-''
     \<and> list_all (\<lambda>c. lower_alnum c \<or> c = CHR ''-'') l"

definition normalize_hostname :: "(string \<Rightarrow> string option) \<Rightarrow> string \<Rightarrow> string option" where
  "normalize_hostname to_ascii raw =
     (let trimmed = trim_space raw in
      if list_ex (\<lambda>c. is_space c \<or> c \<in> {CHR ''/'', CHR '':'', CHR ''@'', CHR ''*''}) trimmed then None
      else case to_ascii (trim_suffix ''.'' trimmed) of
        None \<Rightarrow> None
      | Some a \<Rightarrow>
          (let s = to_lower a in
           if s = [] \<or> length s > 253 \<or> parse_ip s \<noteq> None then None
           else if list_all valid_hostname_label (split_on (CHR ''.'') s) then Some s else None))"

record destination =
  ds_host :: string
  ds_port :: int
  ds_dest :: string

text \<open>net.JoinHostPort.\<close>

definition join_host_port :: "string \<Rightarrow> string \<Rightarrow> string" where
  "join_host_port host port =
     (if CHR '':'' \<in> set host then ''['' @ host @ '']:'' @ port else host @ '':'' @ port)"

definition host_and_port :: "string \<Rightarrow> (string \<times> int) option" where
  "host_and_port dest =
     (if has_prefix dest ''['' then
        (let closing = length (before (CHR '']'') dest); host = take (closing - 1) (drop 1 dest);
             remainder = drop (Suc closing) dest in
         if CHR '']'' \<notin> set dest \<or> closing < 2 then None
         else if remainder = [] then Some (host, 443)
         else if \<not> has_prefix remainder '':'' \<or> length remainder = 1 then None
         else map_option (\<lambda>p. (host, p)) (atoi (drop 1 remainder)))
      else if count_list dest (CHR '':'') = 1 then
        (let host = before (CHR '':'') dest in
         map_option (\<lambda>p. (host, p)) (atoi (drop (Suc (length host)) dest)))
      else Some (dest, 443))"

definition parse_destination :: "string \<Rightarrow> destination option" where
  "parse_destination raw =
     (let dest = trim_space raw in
      if dest = [] \<or> list_ex (\<lambda>c. c \<in> {CHR '' '', CHR 0x09, CHR 0x0D, CHR 0x0A, CHR ''/''}) dest
        \<or> contains_text dest ''://'' then None
      else case host_and_port dest of
        None \<Rightarrow> None
      | Some (host, port) \<Rightarrow>
          if host = [] \<or> port < 1 \<or> port > 65535 then None
          else Some \<lparr>ds_host = host, ds_port = port, ds_dest = join_host_port host (format_int 10 port)\<rparr>)"

fun names_of :: "(string \<Rightarrow> string option) \<Rightarrow> jval list \<Rightarrow> string list" where
  "names_of to_ascii [] = []"
| "names_of to_ascii (VStr s # vs) =
     List.map_filter (\<lambda>part. let p = trim_space part in
       if p = [] then None
       else Some (case normalize_hostname to_ascii p of Some n \<Rightarrow> n | None \<Rightarrow> p))
       (split_on (CHR '','') s) @ names_of to_ascii vs"
| "names_of to_ascii (_ # vs) = names_of to_ascii vs"

definition split_server_names :: "(string \<Rightarrow> string option) \<Rightarrow> jval option \<Rightarrow> string list" where
  "split_server_names to_ascii v = names_of to_ascii (arr_or_nil v)"

record target =
  tg_identity :: string
  tg_correlation_id :: "string option"
  tg_inbound_tag :: "string option"
  tg_sni :: string
  tg_normalized_sni :: string
  tg_host :: string
  tg_normalized_host :: string
  tg_port :: int
  tg_dest :: string
  tg_matches_sni :: bool

definition first_nonempty :: "string list \<Rightarrow> string" where
  "first_nonempty vs = (case List.filter (\<lambda>v. v \<noteq> []) vs of [] \<Rightarrow> [] | v # _ \<Rightarrow> v)"

text \<open>The text of a normalised name, empty when there is none.\<close>

definition normalized :: "(string \<Rightarrow> string option) \<Rightarrow> string \<Rightarrow> string" where
  "normalized to_ascii s = (case normalize_hostname to_ascii s of Some n \<Rightarrow> n | None \<Rightarrow> [])"

definition target_identity :: "string \<Rightarrow> string \<Rightarrow> string \<Rightarrow> int \<Rightarrow> string" where
  "target_identity tag sni host port =
     tag @ [CHR 0x00] @ sni @ [CHR 0x00] @ host @ [CHR 0x00] @ format_int 10 port"

definition reality_target ::
  "(string \<Rightarrow> string option) \<Rightarrow> string \<Rightarrow> destination \<Rightarrow> string \<Rightarrow> target"
where
  "reality_target to_ascii tag dest raw_sni =
     (let sni = normalized to_ascii raw_sni; host = normalized to_ascii (ds_host dest) in
      \<lparr>tg_identity = target_identity tag (if sni = [] then to_lower raw_sni else sni)
           (if host = [] then to_lower (ds_host dest) else host) (ds_port dest),
       tg_correlation_id = None, tg_inbound_tag = Some tag, tg_sni = first_nonempty [sni, raw_sni],
       tg_normalized_sni = sni, tg_host = ds_host dest, tg_normalized_host = host,
       tg_port = ds_port dest, tg_dest = ds_dest dest,
       tg_matches_sni = (sni \<noteq> [] \<and> host \<noteq> [] \<and> sni = host)\<rparr>)"

text \<open>The targets of one inbound, before the identities that were seen are left out.\<close>

definition inbound_targets ::
  "(string \<Rightarrow> string option) \<Rightarrow> string set \<Rightarrow> jval \<Rightarrow> target list"
where
  "inbound_targets to_ascii active v = (case as_map (Some v) of
     None \<Rightarrow> []
   | Some inbound \<Rightarrow>
       (case as_str (lookup inbound ''tag'') of
          None \<Rightarrow> []
        | Some tag \<Rightarrow>
            if tag \<notin> active then []
            else (case as_map (lookup inbound ''streamSettings'') of
               None \<Rightarrow> []
             | Some stream \<Rightarrow>
                 (case as_map (lookup stream ''realitySettings'') of
                    None \<Rightarrow> []
                  | Some reality \<Rightarrow>
                      (case Option.bind (as_str (lookup reality ''dest'')) parse_destination of
                         None \<Rightarrow> []
                       | Some dest \<Rightarrow>
                           map (reality_target to_ascii tag dest)
                             (split_server_names to_ascii (lookup reality ''serverNames'')))))))"

fun fresh_targets :: "string list \<Rightarrow> target list \<Rightarrow> target list" where
  "fresh_targets seen [] = []"
| "fresh_targets seen (t # ts) =
     (if tg_identity t \<in> set seen then fresh_targets seen ts
      else t # fresh_targets (tg_identity t # seen) ts)"

definition extract_reality_targets ::
  "(string \<Rightarrow> string option) \<Rightarrow> jmap \<Rightarrow> string list \<Rightarrow> target list"
where
  "extract_reality_targets to_ascii config active_tags =
     (case as_arr (lookup config ''inbounds'') of
        None \<Rightarrow> []
      | Some inbounds \<Rightarrow>
          fresh_targets [] (concat (map (inbound_targets to_ascii (set active_tags)) inbounds)))"

lemma before_no_sep: "c \<notin> set p \<Longrightarrow> before c (p @ c # s) = p"
  by (induction p) (auto simp: before_def)

lemma digit_cases:
  assumes "is_digit c"
  obtains d where "d < 10" "c = digit_char d"
proof -
  have "48 \<le> (of_char c :: nat)" "(of_char c :: nat) \<le> 57" using assms by (simp_all add: is_digit_def)
  then have lt: "of_char c - 48 < (10 :: nat)" by linarith
  moreover have "c = digit_char (of_char c - 48)" using lt \<open>48 \<le> (of_char c :: nat)\<close> by (simp add: digit_char_def)
  ultimately show ?thesis by (rule that)
qed

lemma atoi_digits: "is_digit c \<Longrightarrow> atoi (c # ds) = (case parse_digits (c # ds) of
   Some n \<Rightarrow> if n < 2 ^ 63 then Some (int n) else None | None \<Rightarrow> None)"
proof (erule digit_cases)
  fix d :: nat assume "d < 10" and c: "c = digit_char d"
  then have "d \<in> {0, 1, 2, 3, 4, 5, 6, 7, 8, 9}" by auto
  then show ?thesis unfolding c by (elim insertE emptyE; simp only: digit_char_table) (simp_all add: atoi_def)
qed

lemma atoi_format: "0 \<le> p \<Longrightarrow> p < 2 ^ 63 \<Longrightarrow> atoi (format_int 10 p) = Some p"
proof -
  assume p: "0 \<le> p" "p < 2 ^ 63"
  obtain c ds where d: "base_digits 10 (nat p) = c # ds" "is_digit c"
    using base_digits_decimal [of "nat p"] by (cases "base_digits 10 (nat p)") auto
  have "parse_digits (c # ds) = Some (nat p)" using parse_digits_decimal [of "nat p"] d(1) by simp
  then show ?thesis using p d atoi_digits [OF d(2), of ds] by (simp add: format_int_def nat_less_iff)
qed

lemma format_digits: "0 \<le> p \<Longrightarrow> list_all is_digit (format_int 10 p) \<and> format_int 10 p \<noteq> []"
  using base_digits_decimal by (simp add: format_int_def)

text \<open>A host without brackets and white space is found again in the text of its destination.\<close>

definition plain_host :: "string \<Rightarrow> bool" where
  "plain_host h \<longleftrightarrow> h \<noteq> [] \<and> list_all (\<lambda>c. \<not> is_space c \<and> c \<notin> {CHR ''['', CHR '']'', CHR ''/''}) h"

lemma host_and_port_join:
  assumes "plain_host h" "0 \<le> p" "p < 2 ^ 63"
  shows "host_and_port (join_host_port h (format_int 10 p)) = Some (h, p)"
proof -
  let ?p = "format_int 10 p"
  have d: "list_all is_digit ?p" "?p \<noteq> []" using format_digits [OF assms(2)] by simp_all
  then have nc: "c \<notin> set ?p" if "\<not> is_digit c" for c using that by (auto simp: list_all_iff)
  have h: "CHR '']'' \<notin> set h" "CHR ''['' \<notin> set h" "h \<noteq> []" using assms(1) by (auto simp: plain_host_def list_all_iff)
  show ?thesis
  proof (cases "CHR '':'' \<in> set h")
    case True
    let ?dest = "''['' @ h @ '']:'' @ ?p"
    have b: "before (CHR '']'') ?dest = CHR ''['' # h"
      using before_no_sep [of "CHR '']''" "CHR ''['' # h" "CHR '':'' # ?p"] h(1) by simp
    show ?thesis using True d(2) h(3)
      by (simp add: join_host_port_def host_and_port_def has_prefix_def Let_def b [simplified] atoi_format [OF assms(2,3)])
  next
    case False
    have "CHR '':'' \<notin> set ?p" by (rule nc) (simp add: is_digit_def)
    then have "count_list (h @ CHR '':'' # ?p) (CHR '':'') = 1" using False by (simp add: count_notin)
    moreover have "\<not> has_prefix (h @ CHR '':'' # ?p) ''[''" using h(2,3) by (cases h) (auto simp: has_prefix_def)
    ultimately show ?thesis
      using False before_no_sep [OF False, of ?p] by (simp add: join_host_port_def host_and_port_def atoi_format [OF assms(2,3)])
  qed
qed

text \<open>A host without brackets, slashes and white space and a port are found again in the text of their
  destination.\<close>
theorem destination_round_trip:
  assumes "plain_host h" "1 \<le> p" "p \<le> 65535"
  shows "parse_destination (join_host_port h (format_int 10 p))
     = Some \<lparr>ds_host = h, ds_port = p, ds_dest = join_host_port h (format_int 10 p)\<rparr>"
proof -
  let ?dest = "join_host_port h (format_int 10 p)"
  have d: "list_all is_digit (format_int 10 p)" using format_digits [of p] assms(2) by simp
  have dc: "\<not> is_space c \<and> c \<noteq> CHR ''/''" if "is_digit c" for c
    using that by (auto simp: is_digit_def is_space_def)
  have ch: "list_all (\<lambda>c. \<not> is_space c \<and> c \<noteq> CHR ''/'') ?dest"
    using assms(1) d dc by (auto simp: join_host_port_def plain_host_def list_all_iff is_space_def)
  then have "trim_space ?dest = ?dest" by (intro trim_space_id) (auto simp: list_all_iff)
  moreover have "?dest \<noteq> []" by (simp add: join_host_port_def)
  moreover have "\<not> list_ex (\<lambda>c. c \<in> {CHR '' '', CHR 0x09, CHR 0x0D, CHR 0x0A, CHR ''/''}) ?dest"
    using ch by (auto simp: list_all_iff list_ex_iff is_space_def)
  moreover have "\<not> contains_text ?dest ''://''"
  proof
    assume "contains_text ?dest ''://''"
    then obtain t where "suffix t ?dest" "has_prefix t ''://''" by (auto simp: contains_text_def list_ex_iff)
    then have "CHR ''/'' \<in> set ?dest" by (auto simp: has_prefix_iff suffix_def)
    with ch show False by (auto simp: list_all_iff)
  qed
  moreover have "host_and_port ?dest = Some (h, p)" by (rule host_and_port_join) (use assms in auto)
  moreover have "h \<noteq> []" using assms(1) by (simp add: plain_host_def)
  ultimately show ?thesis using assms(2,3) by (simp add: parse_destination_def Let_def)
qed

lemma parse_destination_valid:
  assumes "parse_destination raw = Some d"
  shows "ds_host d \<noteq> [] \<and> 1 \<le> ds_port d \<and> ds_port d \<le> 65535
    \<and> ds_dest d = join_host_port (ds_host d) (format_int 10 (ds_port d))"
  using assms by (auto simp: parse_destination_def Let_def split: if_splits option.splits)

lemma fresh_targets_distinct:
  "distinct (map tg_identity (fresh_targets seen ts))
   \<and> tg_identity ` set (fresh_targets seen ts) \<inter> set seen = {}
   \<and> tg_identity ` set (fresh_targets seen ts) = tg_identity ` set ts - set seen
   \<and> set (fresh_targets seen ts) \<subseteq> set ts"
  by (induction ts arbitrary: seen) (auto simp: image_iff)

lemma inbound_targets_from:
  assumes "t \<in> set (inbound_targets to_ascii active v)"
  obtains inbound tag stream reality d dest raw where "v = VMap inbound"
    "lookup inbound ''tag'' = Some (VStr tag)" "tag \<in> active"
    "lookup inbound ''streamSettings'' = Some (VMap stream)"
    "lookup stream ''realitySettings'' = Some (VMap reality)"
    "lookup reality ''dest'' = Some (VStr d)" "parse_destination d = Some dest"
    "raw \<in> set (split_server_names to_ascii (lookup reality ''serverNames''))"
    "t = reality_target to_ascii tag dest raw"
proof -
  note def = assms [unfolded inbound_targets_def]
  have "as_map (Some v) \<noteq> None" by (rule notI) (use def in \<open>simp only: option.case list.set empty_iff\<close>)
  then obtain ib where ib: "as_map (Some v) = Some ib" by blast
  have "as_str (lookup ib ''tag'') \<noteq> None"
    by (rule notI) (use def ib in \<open>simp only: option.case list.set empty_iff not_True_eq_False if_False\<close>)
  then obtain tag where tag: "as_str (lookup ib ''tag'') = Some tag" by blast
  have act: "tag \<in> active" using def unfolding ib tag option.case by (auto split: if_split_asm)
  have "as_map (lookup ib ''streamSettings'') \<noteq> None"
    by (rule notI) (use def act ib tag in \<open>simp only: option.case list.set empty_iff not_True_eq_False if_False\<close>)
  then obtain st where st: "as_map (lookup ib ''streamSettings'') = Some st" by blast
  have "as_map (lookup st ''realitySettings'') \<noteq> None"
    by (rule notI) (use def act ib tag st in \<open>simp only: option.case list.set empty_iff not_True_eq_False if_False\<close>)
  then obtain rs where rs: "as_map (lookup st ''realitySettings'') = Some rs" by blast
  let ?d = "Option.bind (as_str (lookup rs ''dest'')) parse_destination"
  have "?d \<noteq> None"
    by (rule notI) (use def act ib tag st rs in \<open>simp only: option.case list.set empty_iff not_True_eq_False if_False\<close>)
  then obtain dest where d: "?d = Some dest" by blast
  then obtain e where e: "lookup rs ''dest'' = Some (VStr e)" "parse_destination e = Some dest"
    by (auto simp: bind_eq_Some_conv)
  from def act obtain raw where "raw \<in> set (split_server_names to_ascii (lookup rs ''serverNames''))"
    "t = reality_target to_ascii tag dest raw"
    unfolding ib tag st rs d option.case by auto
  with that [OF _ _ act _ _ e] ib tag st rs show ?thesis by simp
qed

lemma extract_reality_targets_eq: "extract_reality_targets to_ascii config tags =
   fresh_targets [] (concat (map (inbound_targets to_ascii (set tags)) (arr_or_nil (lookup config ''inbounds''))))"
  by (cases "as_arr (lookup config ''inbounds'')") (simp_all add: extract_reality_targets_def arr_or_nil_def del: as_arr_eq_Some)

lemma reality_target_valid:
  assumes "parse_destination d = Some dest" "t = reality_target to_ascii tag dest raw"
  shows "1 \<le> tg_port t \<and> tg_port t \<le> 65535 \<and> tg_host t \<noteq> [] \<and> tg_inbound_tag t = Some tag
    \<and> tg_dest t = join_host_port (tg_host t) (format_int 10 (tg_port t))
    \<and> (tg_matches_sni t \<longrightarrow> normalize_hostname to_ascii (tg_host t) = Some (tg_normalized_sni t))"
  using parse_destination_valid [OF assms(1)]
  by (cases "normalize_hostname to_ascii (ds_host dest)") (auto simp: assms(2) reality_target_def Let_def normalized_def)

text \<open>What the configuration describes: a server name of an inbound whose tag is active, with the destination
  of the inbound.\<close>

definition names_target :: "string list \<Rightarrow> jmap \<Rightarrow> string \<Rightarrow> destination \<Rightarrow> string \<Rightarrow> bool" where
  "names_target tags config tag dest name \<longleftrightarrow> (\<exists>inbounds inbound stream reality d names entry.
     lookup config ''inbounds'' = Some (VArr inbounds) \<and> VMap inbound \<in> set inbounds
     \<and> lookup inbound ''tag'' = Some (VStr tag) \<and> tag \<in> set tags
     \<and> lookup inbound ''streamSettings'' = Some (VMap stream)
     \<and> lookup stream ''realitySettings'' = Some (VMap reality)
     \<and> lookup reality ''dest'' = Some (VStr d) \<and> parse_destination d = Some dest
     \<and> lookup reality ''serverNames'' = Some (VArr names) \<and> VStr entry \<in> set names
     \<and> name \<in> trim_space ` set (split_on (CHR '','') entry) \<and> name \<noteq> [])"

text \<open>A name in the form in which it is compared: normalised, or else as it is.\<close>

definition canonical :: "(string \<Rightarrow> string option) \<Rightarrow> string \<Rightarrow> string" where
  "canonical to_ascii name = (case normalize_hostname to_ascii name of Some n \<Rightarrow> n | None \<Rightarrow> name)"

lemma to_lower_again: "to_lower (to_lower s) = to_lower s"
proof -
  have "lower_char (lower_char c) = lower_char c" for c by (simp add: lower_char_def)
  then show ?thesis by (simp add: to_lower_def)
qed

lemma normalize_hostname_lower: "normalize_hostname to_ascii s = Some n \<Longrightarrow> n \<noteq> [] \<and> to_lower n = n"
  by (auto simp: normalize_hostname_def Let_def to_lower_again split: if_splits option.splits)

lemma reality_target_fields:
  "tg_identity (reality_target to_ascii tag dest raw) = target_identity tag (to_lower (canonical to_ascii raw))
     (to_lower (canonical to_ascii (ds_host dest))) (ds_port dest)"
  "tg_sni (reality_target to_ascii tag dest raw) = canonical to_ascii raw"
  "tg_inbound_tag (reality_target to_ascii tag dest raw) = Some tag"
  "tg_host (reality_target to_ascii tag dest raw) = ds_host dest"
  "tg_port (reality_target to_ascii tag dest raw) = ds_port dest"
  by (cases "normalize_hostname to_ascii raw"; cases "normalize_hostname to_ascii (ds_host dest)";
      simp add: reality_target_def Let_def normalized_def canonical_def first_nonempty_def normalize_hostname_lower)+

lemma names_of_part:
  "VStr entry \<in> set names \<Longrightarrow> p \<in> trim_space ` set (split_on (CHR '','') entry) \<Longrightarrow> p \<noteq> []
   \<Longrightarrow> canonical to_ascii p \<in> set (names_of to_ascii names)"
  by (induction to_ascii names rule: names_of.induct)
     (force simp: List.map_filter_def canonical_def Let_def split: option.splits)+

lemma names_target_found:
  assumes "names_target tags config tag dest name"
  shows "\<exists>inbound\<in>set (arr_or_nil (lookup config ''inbounds'')).
    reality_target to_ascii tag dest (canonical to_ascii name) \<in> set (inbound_targets to_ascii (set tags) inbound)"
proof -
  from assms obtain inbounds inbound stream reality d names entry where
    "lookup config ''inbounds'' = Some (VArr inbounds)" and i: "VMap inbound \<in> set inbounds"
    and d: "lookup inbound ''tag'' = Some (VStr tag)" "tag \<in> set tags"
      "lookup inbound ''streamSettings'' = Some (VMap stream)"
      "lookup stream ''realitySettings'' = Some (VMap reality)"
      "lookup reality ''dest'' = Some (VStr d)" "parse_destination d = Some dest"
      "lookup reality ''serverNames'' = Some (VArr names)"
    and n: "VStr entry \<in> set names" "name \<in> trim_space ` set (split_on (CHR '','') entry)" "name \<noteq> []"
    unfolding names_target_def by blast
  then have "arr_or_nil (lookup config ''inbounds'') = inbounds" by (simp add: arr_or_nil_def)
  moreover have "reality_target to_ascii tag dest (canonical to_ascii name)
      \<in> set (inbound_targets to_ascii (set tags) (VMap inbound))"
    using names_of_part [OF n, of to_ascii] d
    by (simp add: inbound_targets_def split_server_names_def arr_or_nil_def)
  ultimately show ?thesis using i by auto
qed

text \<open>The identity is read back to its parts when none of them holds the separator.\<close>

definition no_separator :: "string \<Rightarrow> bool" where
  "no_separator s \<longleftrightarrow> CHR 0x00 \<notin> set s"

lemma no_separator_lower: "no_separator s \<Longrightarrow> no_separator (to_lower s)"
proof -
  have "lower_char c = CHR 0x00 \<longleftrightarrow> c = CHR 0x00" for c
  proof -
    have "char_of (of_char c + 32 :: nat) \<noteq> CHR 0x00" if "65 \<le> (of_char c :: nat)" "(of_char c :: nat) \<le> 90"
    proof
      assume "char_of (of_char c + 32 :: nat) = CHR 0x00"
      then have "(of_char (char_of (of_char c + 32 :: nat)) :: nat) = of_char (CHR 0x00)" by (rule arg_cong)
      then show False using that by simp
    qed
    then show ?thesis by (auto simp: lower_char_def)
  qed
  then show "no_separator s \<Longrightarrow> no_separator (to_lower s)" by (force simp: no_separator_def to_lower_def)
qed

lemma no_separator_canonical: "no_separator s \<Longrightarrow> no_separator (canonical to_ascii s)"
proof (cases "normalize_hostname to_ascii s")
  case (Some n)
  then have "list_all valid_hostname_label (split_on (CHR ''.'') n)"
    by (auto simp: normalize_hostname_def Let_def split: if_splits option.splits)
  then have "CHR 0x00 \<notin> set n"
    using set_split_on [of n "CHR ''.''"]
    by (fastforce simp: list_all_iff valid_hostname_label_def lower_alnum_def is_digit_def)
  with Some show "no_separator s \<Longrightarrow> no_separator (canonical to_ascii s)" by (simp add: canonical_def no_separator_def)
qed (simp add: canonical_def)

lemma format_port_no_separator: "0 \<le> p \<Longrightarrow> no_separator (format_int 10 p)"
  using format_digits [of p] by (auto simp: no_separator_def list_all_iff is_digit_def)

lemma count_list_app: "count_list (xs @ ys) c = count_list xs c + count_list ys c"
  by (induction xs) auto

lemma target_identity_parts:
  assumes same: "target_identity tag' sni' host' p' = target_identity tag sni host p"
    and plain: "no_separator tag" "no_separator sni" "no_separator host" and p: "0 \<le> p" "0 \<le> p'"
  shows "tag' = tag \<and> sni' = sni \<and> host' = host \<and> format_int 10 p' = format_int 10 p"
proof -
  let ?c = "CHR 0x00"
  have count: "count_list (target_identity t s h q) ?c = count_list t ?c + count_list s ?c + count_list h ?c + 3"
    if "0 \<le> q" for t s h q
    using format_port_no_separator [OF that]
    by (simp add: target_identity_def count_list_app count_notin no_separator_def)
  have "count_list tag' ?c + count_list sni' ?c + count_list host' ?c = 0"
    using count [OF p(2), of tag' sni' host'] count [OF p(1), of tag sni host] plain
    by (simp add: same count_notin no_separator_def)
  then have "no_separator tag'" "no_separator sni'" "no_separator host'"
    by (simp_all add: no_separator_def count_list_0_iff)
  moreover have "split_on ?c (target_identity t s h q) = [t, s, h, format_int 10 q]"
    if "no_separator t" "no_separator s" "no_separator h" "0 \<le> q" for t s h q
    using that format_port_no_separator [of q]
    by (simp add: target_identity_def split_on_append split_on_id no_separator_def)
  ultimately show ?thesis using same plain p by (metis list.inject)
qed

lemma same_identity:
  assumes named: "names_target tags config tag dest name" "names_target tags config tag' dest' name'"
    and plain: "no_separator tag" "no_separator name" "no_separator (ds_host dest)"
    and same: "tg_identity (reality_target to_ascii tag' dest' raw')
      = tg_identity (reality_target to_ascii tag dest (canonical to_ascii name))"
  shows "tag' = tag \<and> ds_port dest' = ds_port dest
    \<and> to_lower (canonical to_ascii raw') = to_lower (canonical to_ascii (canonical to_ascii name))
    \<and> to_lower (canonical to_ascii (ds_host dest')) = to_lower (canonical to_ascii (ds_host dest))"
proof -
  obtain d d' where "parse_destination d = Some dest" "parse_destination d' = Some dest'"
    using named unfolding names_target_def by blast
  note p = parse_destination_valid [OF this(1)] parse_destination_valid [OF this(2)]
  have e: "tag' = tag" "to_lower (canonical to_ascii raw') = to_lower (canonical to_ascii (canonical to_ascii name))"
    "to_lower (canonical to_ascii (ds_host dest')) = to_lower (canonical to_ascii (ds_host dest))"
    "format_int 10 (ds_port dest') = format_int 10 (ds_port dest)"
    using target_identity_parts [OF same [unfolded reality_target_fields(1)] plain(1)]
      plain p by (simp_all add: no_separator_lower no_separator_canonical)
  from arg_cong [OF e(4), of atoi] p have "ds_port dest' = ds_port dest" by (simp add: atoi_format)
  with e show ?thesis by simp
qed

lemma names_ofE:
  assumes "n \<in> set (names_of to_ascii names)"
  obtains entry p where "VStr entry \<in> set names" "p \<in> trim_space ` set (split_on (CHR '','') entry)" "p \<noteq> []"
    "n = canonical to_ascii p"
  using assms
  by (induction to_ascii names rule: names_of.induct)
     (force simp: List.map_filter_def canonical_def Let_def split: option.splits if_splits)+

lemma target_is_named:
  assumes "t \<in> set (extract_reality_targets to_ascii config tags)"
  obtains tag dest name where "names_target tags config tag dest name"
    "t = reality_target to_ascii tag dest (canonical to_ascii name)"
proof -
  have "t \<in> set (concat (map (inbound_targets to_ascii (set tags)) (arr_or_nil (lookup config ''inbounds''))))"
    using assms fresh_targets_distinct [of "[]"] unfolding extract_reality_targets_eq by blast
  then obtain v where v: "v \<in> set (arr_or_nil (lookup config ''inbounds''))"
    "t \<in> set (inbound_targets to_ascii (set tags) v)" by auto
  obtain inbound tag stream reality d dest raw where i: "v = VMap inbound"
    "lookup inbound ''tag'' = Some (VStr tag)" "tag \<in> set tags"
    "lookup inbound ''streamSettings'' = Some (VMap stream)"
    "lookup stream ''realitySettings'' = Some (VMap reality)"
    "lookup reality ''dest'' = Some (VStr d)" "parse_destination d = Some dest"
    and r: "raw \<in> set (split_server_names to_ascii (lookup reality ''serverNames''))"
      "t = reality_target to_ascii tag dest raw"
    by (rule inbound_targets_from [OF v(2)])
  from r(1) obtain names where names: "lookup reality ''serverNames'' = Some (VArr names)"
    "raw \<in> set (names_of to_ascii names)"
    by (cases "as_arr (lookup reality ''serverNames'')") (auto simp: split_server_names_def arr_or_nil_def)
  obtain entry p where p: "VStr entry \<in> set names" "p \<in> trim_space ` set (split_on (CHR '','') entry)" "p \<noteq> []"
    "raw = canonical to_ascii p" by (rule names_ofE [OF names(2)])
  obtain inbounds where "lookup config ''inbounds'' = Some (VArr inbounds)" "VMap inbound \<in> set inbounds"
    using v(1) i(1) by (cases "as_arr (lookup config ''inbounds'')") (auto simp: arr_or_nil_def)
  then have "names_target tags config tag dest p" unfolding names_target_def using i names(1) p(1-3) by blast
  moreover have "t = reality_target to_ascii tag dest (canonical to_ascii p)" using r(2) p(4) by simp
  ultimately show ?thesis by (rule that)
qed

text \<open>C33: The targets taken from a configuration are those it names, each once.  They have identities of their
  own, ports in range, destinations that join host and port, and they match the SNI only when the host normalises
  to it; each is the destination and a server name of an inbound whose tag is active; and each such server name
  has a target with its tag, port, host and SNI, up to normalisation and letter case.  (Texts with a zero byte,
  the separator of the identities, are left out of the last part.)\<close>
theorem extracted_targets_are_valid:
  assumes "targets = extract_reality_targets to_ascii config tags"
  shows "distinct (map tg_identity targets)
    \<and> (\<forall>t\<in>set targets. 1 \<le> tg_port t \<and> tg_port t \<le> 65535 \<and> tg_host t \<noteq> []
        \<and> tg_dest t = join_host_port (tg_host t) (format_int 10 (tg_port t))
        \<and> (tg_matches_sni t \<longrightarrow> normalize_hostname to_ascii (tg_host t) = Some (tg_normalized_sni t))
        \<and> (\<exists>tag dest name. names_target tags config tag dest name \<and> tg_inbound_tag t = Some tag
            \<and> tg_host t = ds_host dest \<and> tg_port t = ds_port dest
            \<and> tg_sni t = canonical to_ascii (canonical to_ascii name)))
    \<and> (\<forall>tag dest name. names_target tags config tag dest name
          \<and> list_all no_separator [tag, name, ds_host dest]
        \<longrightarrow> (\<exists>t\<in>set targets. tg_inbound_tag t = Some tag \<and> tg_port t = ds_port dest
            \<and> to_lower (canonical to_ascii (tg_host t)) = to_lower (canonical to_ascii (ds_host dest))
            \<and> to_lower (tg_sni t) = to_lower (canonical to_ascii (canonical to_ascii name))))"
proof -
  let ?all = "concat (map (inbound_targets to_ascii (set tags)) (arr_or_nil (lookup config ''inbounds'')))"
  have f: "distinct (map tg_identity targets)" "tg_identity ` set targets = tg_identity ` set ?all"
    using fresh_targets_distinct [of "[]" ?all] by (simp_all add: assms extract_reality_targets_eq)
  have "1 \<le> tg_port t \<and> tg_port t \<le> 65535 \<and> tg_host t \<noteq> []
        \<and> tg_dest t = join_host_port (tg_host t) (format_int 10 (tg_port t))
        \<and> (tg_matches_sni t \<longrightarrow> normalize_hostname to_ascii (tg_host t) = Some (tg_normalized_sni t))
        \<and> (\<exists>tag dest name. names_target tags config tag dest name \<and> tg_inbound_tag t = Some tag
            \<and> tg_host t = ds_host dest \<and> tg_port t = ds_port dest
            \<and> tg_sni t = canonical to_ascii (canonical to_ascii name))"
    if t: "t \<in> set targets" for t
  proof -
    obtain tag dest name where n: "names_target tags config tag dest name"
      "t = reality_target to_ascii tag dest (canonical to_ascii name)"
      using t unfolding assms by (rule target_is_named)
    then obtain d where d: "parse_destination d = Some dest" unfolding names_target_def by blast
    show ?thesis using reality_target_valid [OF d n(2)] n by (auto simp: reality_target_fields)
  qed
  moreover have "\<exists>t\<in>set targets. tg_inbound_tag t = Some tag \<and> tg_port t = ds_port dest
      \<and> to_lower (canonical to_ascii (tg_host t)) = to_lower (canonical to_ascii (ds_host dest))
      \<and> to_lower (tg_sni t) = to_lower (canonical to_ascii (canonical to_ascii name))"
    if named: "names_target tags config tag dest name" and plain: "list_all no_separator [tag, name, ds_host dest]"
    for tag dest name
  proof -
    let ?d = "reality_target to_ascii tag dest (canonical to_ascii name)"
    have "?d \<in> set ?all" using names_target_found [OF named, of to_ascii] by auto
    then have "tg_identity ?d \<in> tg_identity ` set targets" unfolding f(2) by (rule imageI)
    then obtain t where t: "t \<in> set targets" "tg_identity t = tg_identity ?d" by auto
    obtain tag' dest' name' where n: "names_target tags config tag' dest' name'"
      "t = reality_target to_ascii tag' dest' (canonical to_ascii name')"
      using t(1) unfolding assms by (rule target_is_named)
    from plain have "no_separator tag" "no_separator name" "no_separator (ds_host dest)" by simp_all
    note same_identity [OF named n(1) this t(2) [unfolded n(2)]]
    then have "tg_inbound_tag t = Some tag \<and> tg_port t = ds_port dest
      \<and> to_lower (canonical to_ascii (tg_host t)) = to_lower (canonical to_ascii (ds_host dest))
      \<and> to_lower (tg_sni t) = to_lower (canonical to_ascii (canonical to_ascii name))"
      by (simp add: n(2) reality_target_fields)
    with t(1) show ?thesis by (rule bexI [rotated])
  qed
  ultimately show ?thesis using f(1) by blast
qed

section \<open>Witnesses\<close>

theorem traced_address_is_public_witness:
  "resolve_checkpoint (\<lambda>_. Inr [''2001:4860::8'', ''8.8.8.8'']) ''dns.example'' = Inr ''8.8.8.8''
   \<and> (\<exists>n. ''8.8.8.8'' = dotted n \<and> \<not> reserved_ipv4 n)"
proof -
  have p: "parse_addr ''8.8.8.8'' = Some (IP4 0x08080808, [])" "parse_addr ''2001:4860::8'' = Some (IP6 (0x20014860 * 2 ^ 96 + 8), [])"
    by (simp_all add: net_eval Let_def)
  have run: "resolve_checkpoint (\<lambda>_. Inr [''2001:4860::8'', ''8.8.8.8'']) ''dns.example'' = Inr ''8.8.8.8''"
    by (simp add: resolve_checkpoint_def is_public_address_def parse_ip_def p blocked_prefixes_values
        List.map_filter_def dotted_def base_digits.simps digit_char_table)
  from traced_address_is_public [OF run] run show ?thesis by blast
qed

theorem accepted_target_is_canonical_witness:
  "normalize_target '' Speed.Example.COM.'' = Inr ''speed.example.com''
   \<and> normalize_target ''speed.example.com'' = Inr ''speed.example.com''"
proof -
  have run: "normalize_target '' Speed.Example.COM.'' = Inr ''speed.example.com''"
    by code_simp
  from accepted_target_is_canonical [OF run] run show ?thesis by blast
qed

theorem destination_round_trip_witness:
  "parse_destination ''[2001:db8::1]:8443'' = Some \<lparr>ds_host = ''2001:db8::1'', ds_port = 8443, ds_dest = ''[2001:db8::1]:8443''\<rparr>"
  using destination_round_trip [of "''2001:db8::1''" 8443]
  by (simp add: plain_host_def is_space_def join_host_port_def format_int_def base_digits.simps digit_char_table)

definition sample_reality :: jmap where
  "sample_reality = [(''inbounds'', VArr [VMap [(''tag'', VStr ''in''),
     (''streamSettings'', VMap [(''realitySettings'', VMap [(''dest'', VStr ''a.io:8443''),
        (''serverNames'', VArr [VStr ''a.io, A.io'', VNull])])])]])]"

theorem extracted_targets_are_valid_witness:
  "\<exists>t. extract_reality_targets Some sample_reality [''in''] = [t] \<and> tg_inbound_tag t = Some ''in''
     \<and> tg_port t = 8443 \<and> tg_matches_sni t \<and> normalize_hostname Some ''a.io'' = Some (tg_normalized_sni t)
     \<and> names_target [''in''] sample_reality ''in'' \<lparr>ds_host = ''a.io'', ds_port = 8443, ds_dest = ''a.io:8443''\<rparr> ''A.io''
     \<and> to_lower (tg_sni t) = ''a.io''"
proof -
  have port: "atoi ''8443'' = Some 8443"
    using atoi_format [of 8443] by (simp add: format_int_def base_digits.simps digit_char_table)
  have norm: "normalize_hostname Some ''a.io'' = Some ''a.io''" "normalize_hostname Some ''A.io'' = Some ''a.io''"
    by code_simp+
  have dest: "parse_destination ''a.io:8443'' = Some \<lparr>ds_host = ''a.io'', ds_port = 8443, ds_dest = ''a.io:8443''\<rparr>"
    by (simp add: parse_destination_def Let_def trim_space_def is_space_def contains_text_def has_prefix_def
        host_and_port_def before_def port join_host_port_def format_int_def base_digits.simps digit_char_table)
  have names: "split_server_names Some (Some (VArr [VStr ''a.io, A.io'', VNull])) = [''a.io'', ''a.io'']"
    by (simp add: split_server_names_def arr_or_nil_def List.map_filter_def Let_def trim_space_def is_space_def norm)
  have run: "extract_reality_targets Some sample_reality [''in'']
      = [reality_target Some ''in'' \<lparr>ds_host = ''a.io'', ds_port = 8443, ds_dest = ''a.io:8443''\<rparr> ''a.io'']"
    by (simp add: extract_reality_targets_eq sample_reality_def inbound_targets_def arr_or_nil_def dest names)
  let ?d = "\<lparr>ds_host = ''a.io'', ds_port = 8443, ds_dest = ''a.io:8443''\<rparr>"
  let ?t = "reality_target Some ''in'' ?d ''a.io''"
  have "''A.io'' \<in> trim_space ` set (split_on (CHR '','') ''a.io, A.io'')"
    by (simp add: trim_space_def is_space_def)
  then have named: "names_target [''in''] sample_reality ''in'' ?d ''A.io''"
    by (simp add: names_target_def sample_reality_def dest)
  have plain: "list_all no_separator [''in'', ''A.io'', ds_host ?d]" by (simp add: no_separator_def)
  have c: "canonical Some ''A.io'' = ''a.io''" "canonical Some ''a.io'' = ''a.io''" by (simp_all add: canonical_def norm)
  have "tg_matches_sni ?t" "tg_host ?t = ''a.io''"
    by (simp_all add: reality_target_def normalized_def norm Let_def)
  note valid = extracted_targets_are_valid [OF run [symmetric]]
  have "normalize_hostname Some (tg_host ?t) = Some (tg_normalized_sni ?t)"
    using valid [THEN conjunct2, THEN conjunct1, THEN bspec, of ?t] \<open>tg_matches_sni ?t\<close> by simp
  moreover have "tg_inbound_tag ?t = Some ''in'' \<and> tg_port ?t = 8443 \<and> to_lower (tg_sni ?t) = ''a.io''"
    using valid [THEN conjunct2, THEN conjunct2, rule_format, OF conjI [OF named plain]]
    by (simp add: c to_lower_def lower_char_def)
  ultimately show ?thesis using run named \<open>tg_matches_sni ?t\<close> \<open>tg_host ?t = ''a.io''\<close> by auto
qed

end
