(* ===== verification/Backtrace.thy ===== *)
theory Backtrace
  imports Targets HashedSet GoHttp "HOL-Library.Multiset"
begin

text \<open>internal/backtrace/model.go and service.go, and httpserver/backtrace.go: reading the answer of
  nexttrace-tiny and judging a trace.  The resolver, the runs of the command, encoding/json and the clock are
  parameters.\<close>

section \<open>Texts\<close>

text \<open>The conversion of runes back to a string.\<close>

definition utf8_bytes :: "nat \<Rightarrow> nat list" where
  "utf8_bytes r =
     (if r < 0x80 then [r]
      else if r < 0x800 then [0xC0 + r div 64, 0x80 + r mod 64]
      else if 0xD800 \<le> r \<and> r < 0xE000 \<or> 0x10FFFF < r then [0xEF, 0xBF, 0xBD]
      else if r < 0x10000 then [0xE0 + r div 4096, 0x80 + r div 64 mod 64, 0x80 + r mod 64]
      else [0xF0 + r div 262144, 0x80 + r div 4096 mod 64, 0x80 + r div 64 mod 64, 0x80 + r mod 64])"

definition truncate_text :: "string \<Rightarrow> nat \<Rightarrow> string" where
  "truncate_text s limit =
     (if length s \<le> limit then s
      else let rs = runes (bytes_of s) in
        if length rs \<le> limit then s
        else map char_of (concat (map utf8_bytes (take limit rs))))"

definition normalize_asn :: "string \<Rightarrow> string option" where
  "normalize_asn raw =
     (let s = trim_space raw; digits = (if to_lower (take 2 s) = ''as'' then drop 2 s else s) in
      if s = [] then None
      else if digits \<noteq> [] \<and> list_all is_digit digits then Some (''AS'' @ digits)
      else Some (truncate_text s 64))"

definition optional_text :: "string \<Rightarrow> nat \<Rightarrow> string option" where
  "optional_text raw limit =
     (let s = trim_space raw in if s = [] then None else Some (truncate_text s limit))"

definition first_text :: "string list \<Rightarrow> string" where
  "first_text vs = (case filter (\<lambda>v. trim_space v \<noteq> []) vs of [] \<Rightarrow> [] | v # _ \<Rightarrow> v)"

text \<open>The escape sequences of a terminal, and runs of white space (of the regular expression, without the
  vertical tab).\<close>

definition ansi_parameter :: "char \<Rightarrow> bool" where
  "ansi_parameter c \<longleftrightarrow> is_digit c \<or> c = CHR '';''"

definition ascii_letter :: "char \<Rightarrow> bool" where
  "ascii_letter c \<longleftrightarrow> (65 \<le> (of_char c :: nat) \<and> (of_char c :: nat) \<le> 90)
     \<or> (97 \<le> (of_char c :: nat) \<and> (of_char c :: nat) \<le> 122)"

definition ansi_rest :: "string \<Rightarrow> string option" where
  "ansi_rest s = (case s of
     e # b # t \<Rightarrow>
       (if e = CHR 0x1B \<and> b = CHR ''['' then
          (case dropWhile ansi_parameter t of
             c # u \<Rightarrow> if ascii_letter c then Some u else None
           | [] \<Rightarrow> None)
        else None)
   | _ \<Rightarrow> None)"

lemma ansi_rest_shorter: "ansi_rest s = Some t \<Longrightarrow> length t < length s"
proof -
  assume a: "ansi_rest s = Some t"
  then obtain e b u c where s: "s = e # b # u" "dropWhile ansi_parameter u = c # t"
    by (auto simp: ansi_rest_def split: list.splits if_splits)
  then show ?thesis using length_dropWhile_le [of ansi_parameter u] by simp
qed

function strip_ansi :: "string \<Rightarrow> string" where
  "strip_ansi s = (case ansi_rest s of
     Some t \<Rightarrow> strip_ansi t
   | None \<Rightarrow> (case s of [] \<Rightarrow> [] | c # t \<Rightarrow> c # strip_ansi t))"
  by auto
termination by (relation "measure length") (auto dest: ansi_rest_shorter)

declare strip_ansi.simps [simp del]

definition re_space :: "char \<Rightarrow> bool" where
  "re_space c \<longleftrightarrow> c \<in> {CHR '' '', CHR 0x09, CHR 0x0A, CHR 0x0C, CHR 0x0D}"

function collapse_space :: "string \<Rightarrow> string" where
  "collapse_space [] = []"
| "collapse_space (c # s) =
     (if re_space c then CHR '' '' # collapse_space (dropWhile re_space s) else c # collapse_space s)"
  by pat_completeness auto
termination by (relation "measure length") (auto simp: le_imp_less_Suc length_dropWhile_le)

definition sanitize_error :: "string \<Rightarrow> string \<Rightarrow> string" where
  "sanitize_error stderr fallback =
     (let cleaned = trim_space (collapse_space (strip_ansi stderr)) in
      truncate_text (if cleaned = [] then fallback else cleaned) 1024)"

section \<open>The answer of nexttrace\<close>

record raw_geo =
  rg_asnumber :: string
  rg_country :: string
  rg_country_en :: string
  rg_owner :: string
  rg_isp :: string
  rg_prov :: string
  rg_prov_en :: string

record raw_hop =
  rh_address :: "string option"
  rh_geo :: "raw_geo option"
  rh_hostname :: string
  rh_rtt :: "rat option"
  rh_success :: bool
  rh_ttl :: "int option"

record raw_result =
  rr_hops :: "raw_hop list list"
  rr_stop_reason :: "string option"

record hop =
  hp_ttl :: int
  hp_ip :: "string option"
  hp_hostname :: "string option"
  hp_asn :: "string option"
  hp_owner :: "string option"
  hp_isp :: "string option"
  hp_province :: "string option"
  hp_country :: "string option"
  hp_rtt_ms :: "rat option"
  hp_success :: bool

definition parse_hop_address :: "string option \<Rightarrow> string option" where
  "parse_hop_address address = Option.bind address (\<lambda>ip. optional_text ip 128)"

text \<open>Tenths of a millisecond, rounded half up; the rounding of the float64 arithmetic is left out.\<close>

definition rtt_milliseconds :: "rat \<Rightarrow> rat" where
  "rtt_milliseconds ns = of_int \<lfloor>ns / 1000000 * 10 + 1 / 2\<rfloor> / 10"

definition parse_attempt :: "raw_hop \<Rightarrow> int \<Rightarrow> hop" where
  "parse_attempt a fallback_ttl =
     \<lparr>hp_ttl = (case rh_ttl a of Some t \<Rightarrow> if t \<ge> 0 then t else fallback_ttl | None \<Rightarrow> fallback_ttl),
      hp_ip = parse_hop_address (rh_address a),
      hp_hostname = optional_text (rh_hostname a) 256,
      hp_asn = Option.bind (rh_geo a) (\<lambda>g. normalize_asn (rg_asnumber g)),
      hp_owner = Option.bind (rh_geo a) (\<lambda>g. optional_text (rg_owner g) 256),
      hp_isp = Option.bind (rh_geo a) (\<lambda>g. optional_text (rg_isp g) 256),
      hp_province = Option.bind (rh_geo a) (\<lambda>g. optional_text (first_text [rg_prov_en g, rg_prov g]) 128),
      hp_country = Option.bind (rh_geo a) (\<lambda>g. optional_text (first_text [rg_country_en g, rg_country g]) 128),
      hp_rtt_ms = (case rh_rtt a of Some r \<Rightarrow> if r \<ge> 0 then Some (rtt_milliseconds r) else None | None \<Rightarrow> None),
      hp_success = rh_success a\<rparr>"

text \<open>One turn of the insertion sort: the loop moves back over the sorted hops, here in reverse.\<close>

fun insert_back :: "hop \<Rightarrow> hop list \<Rightarrow> hop list" where
  "insert_back current [] = [current]"
| "insert_back current (h # hs) =
     (if hp_ttl h > hp_ttl current then h # insert_back current hs else current # h # hs)"

definition sort_hops :: "hop list \<Rightarrow> hop list" where
  "sort_hops hops = rev (fold insert_back hops [])"

definition chosen_attempt :: "raw_hop list \<Rightarrow> raw_hop" where
  "chosen_attempt attempts = (case filter (\<lambda>a. rh_success a \<and> parse_hop_address (rh_address a) \<noteq> None) attempts of
     a # _ \<Rightarrow> a | [] \<Rightarrow> hd attempts)"

definition max_hops :: nat where "max_hops = 64"

definition decode_payload :: "raw_result \<Rightarrow> hop list \<times> string" where
  "decode_payload r =
     (let hops = concat (map (\<lambda>(i, attempts).
            if attempts = [] then [] else [parse_attempt (chosen_attempt attempts) (int i + 1)])
            (zip [0..<length (rr_hops r)] (rr_hops r)))
      in (take max_hops (sort_hops hops),
          case rr_stop_reason r of Some reason \<Rightarrow> trim_space reason | None \<Rightarrow> []))"

datatype parse_error = No_Output | No_Json

definition byte_order_mark :: string where
  "byte_order_mark = [CHR 0xEF, CHR 0xBB, CHR 0xBF]"

text \<open>The text as a whole, or else its last line that is an object.\<close>

definition decode_json :: "(string \<Rightarrow> raw_result option) \<Rightarrow> string \<Rightarrow> parse_error + hop list \<times> string" where
  "decode_json unmarshal raw =
     (let trimmed = trim_space (if has_prefix raw byte_order_mark then drop 3 raw else raw) in
      if trimmed = [] then Inl No_Output
      else case unmarshal trimmed of
        Some r \<Rightarrow> Inr (decode_payload r)
      | None \<Rightarrow>
          (let lines = map (\<lambda>l. trim_space (trim_suffix [CHR 0x0D] l)) (split_on (CHR 0x0A) trimmed);
               found = List.map_filter unmarshal (filter (\<lambda>l. has_prefix l ''{'') (rev lines)) in
           case found of r # _ \<Rightarrow> Inr (decode_payload r) | [] \<Rightarrow> Inl No_Json))"

fun parse_error_text :: "parse_error \<Rightarrow> string" where
  "parse_error_text No_Output = ''nexttrace-tiny returned no output.''"
| "parse_error_text No_Json = ''nexttrace-tiny did not return JSON output.''"

section \<open>A trace\<close>

type_synonym isp = string

definition known_isp :: "isp \<Rightarrow> bool" where
  "known_isp isp \<longleftrightarrow> isp \<in> {''telecom'', ''unicom'', ''mobile''}"

datatype validate_error = Bad_Target_Count | Bad_Isp | Bad_Target target_error

definition max_targets :: nat where "max_targets = 3"

fun validate_each :: "(isp \<times> string) list \<Rightarrow> validate_error + (isp \<times> string) list" where
  "validate_each [] = Inr []"
| "validate_each ((isp, raw) # ts) =
     (if \<not> known_isp isp then Inl Bad_Isp
      else case normalize_target raw of
        Inl e \<Rightarrow> Inl (Bad_Target e)
      | Inr host \<Rightarrow> (case validate_each ts of Inl e \<Rightarrow> Inl e | Inr vs \<Rightarrow> Inr ((isp, host) # vs)))"

definition validate_targets :: "(isp \<times> string) list \<Rightarrow> validate_error + (isp \<times> string) list" where
  "validate_targets ts =
     (if ts = [] \<or> length ts > max_targets then Inl Bad_Target_Count else validate_each ts)"

text \<open>What a run of the command gave; an error has a text and may say that the binary is missing.\<close>

record run_result =
  rn_stdout :: string
  rn_stderr :: string
  rn_error :: "(string \<times> bool) option"
  rn_timed_out :: bool

text \<open>The parts of the outside: the resolver, the two runs for an address and the clock.\<close>

record trace_env =
  te_resolve :: "string \<Rightarrow> string + string list"
  te_run :: "string list \<Rightarrow> run_result"
  te_unmarshal :: "string \<Rightarrow> raw_result option"
  te_elapsed_ms :: "string \<Rightarrow> int"

record probe =
  pb_isp :: isp
  pb_checkpoint :: string
  pb_duration_ms :: int
  pb_success :: bool
  pb_error :: "string option"
  pb_hops :: "hop list"
  pb_raw_output :: string

definition common_args :: "string list" where
  "common_args = [''-4'', ''-k'', ''-n'', ''-q'', ''1'', ''-m'', ''30'', ''-M'', ''--timeout'', ''1000'']"

definition trace_args :: "string \<Rightarrow> string \<Rightarrow> string list" where
  "trace_args mode address = common_args @ [mode, address]"

fun resolve_error_text :: "resolve_error \<Rightarrow> string" where
  "resolve_error_text (Resolver_Failed m) =
     sanitize_error [] (if m = [] then ''Checkpoint could not be resolved.'' else m)"
| "resolve_error_text Not_Resolved = ''Checkpoint could not be resolved.''"
| "resolve_error_text Resolves_To_Private = ''Checkpoint resolves to a private or reserved address.''"
| "resolve_error_text No_Public_IPv4 = ''Checkpoint has no public IPv4 address.''"

definition usable_hop :: "hop \<Rightarrow> bool" where
  "usable_hop h \<longleftrightarrow> hp_success h \<and> hp_ip h \<noteq> None"

definition reached_destination :: "hop list \<Rightarrow> string \<Rightarrow> string \<Rightarrow> bool" where
  "reached_destination hops stop_reason address \<longleftrightarrow>
     contains_text (to_lower stop_reason) ''destination_reached''
     \<or> contains_text (to_lower stop_reason) ''reached destination''
     \<or> (filter usable_hop hops \<noteq> [] \<and> hp_ip (last (filter usable_hop hops)) = Some address)"

definition trace_error ::
  "run_result \<Rightarrow> parse_error + hop list \<times> string \<Rightarrow> hop list \<Rightarrow> string \<Rightarrow> string \<Rightarrow> string option"
where
  "trace_error structured parsed hops stop_reason address =
     (if (case rn_error structured of Some (_, missing) \<Rightarrow> missing | None \<Rightarrow> False)
        then Some ''nexttrace-tiny is not installed on this node.''
      else if rn_timed_out structured then Some ''nexttrace-tiny timed out.''
      else if filter usable_hop hops = [] then
        (case rn_error structured of
           Some (message, _) \<Rightarrow>
             Some (sanitize_error (rn_stderr structured)
               (case parsed of Inl e \<Rightarrow> parse_error_text e
                | Inr _ \<Rightarrow> if message \<noteq> [] then message else ''nexttrace-tiny failed.''))
         | None \<Rightarrow>
             (case parsed of Inl e \<Rightarrow> Some (parse_error_text e)
              | Inr _ \<Rightarrow> Some ''nexttrace-tiny did not receive any route responses.''))
      else if \<not> reached_destination hops stop_reason address then
        Some (''nexttrace-tiny stopped before reaching the destination (''
          @ truncate_text (if stop_reason = [] then ''unknown stop reason'' else stop_reason) 128 @ '').'')
      else None)"

definition raw_output_limit :: nat where "raw_output_limit = 1000000"

text \<open>The probe and the commands that were run for it.\<close>

definition trace :: "trace_env \<Rightarrow> isp \<times> string \<Rightarrow> probe \<times> string list list" where
  "trace env t = (case t of (isp, host) \<Rightarrow>
     let p = \<lparr>pb_isp = isp, pb_checkpoint = host, pb_duration_ms = te_elapsed_ms env host, pb_success = False,
              pb_error = None, pb_hops = [], pb_raw_output = []\<rparr> in
     case resolve_checkpoint (te_resolve env) host of
       Inl e \<Rightarrow> (p\<lparr>pb_error := Some (resolve_error_text e)\<rparr>, [])
     | Inr address \<Rightarrow>
         (let structured = te_run env (trace_args ''-j'' address);
              display = te_run env (trace_args ''-C'' address);
              parsed = decode_json (te_unmarshal env) (rn_stdout structured);
              (hops, reason) = (case parsed of Inr r \<Rightarrow> r | Inl _ \<Rightarrow> ([], []));
              message = trace_error structured parsed hops reason address in
          (p\<lparr>pb_raw_output := truncate_text (trim_space (rn_stdout display)) raw_output_limit, pb_hops := hops,
             pb_success := (filter usable_hop hops \<noteq> [] \<and> message = None), pb_error := message\<rparr>,
           [trace_args ''-j'' address, trace_args ''-C'' address])))"

datatype run_error = Invalid validate_error | Cancelled

text \<open>Run: one batch at a time; a request that is cancelled while it waits has no probes.\<close>

definition run_backtrace ::
  "trace_env \<Rightarrow> bool \<Rightarrow> (isp \<times> string) list \<Rightarrow> (run_error + probe list) \<times> string list list"
where
  "run_backtrace env admitted ts = (case validate_targets ts of
     Inl e \<Rightarrow> (Inl (Invalid e), [])
   | Inr validated \<Rightarrow>
       if \<not> admitted then (Inl Cancelled, [])
       else (Inr (map (\<lambda>t. fst (trace env t)) validated), concat (map (\<lambda>t. snd (trace env t)) validated)))"

section \<open>The output buffer\<close>

record capped_buffer =
  cb_buffer :: string
  cb_limit :: nat
  cb_overflow :: bool

definition capped_write :: "string \<Rightarrow> capped_buffer \<Rightarrow> capped_buffer" where
  "capped_write payload b =
     (if length (cb_buffer b) \<ge> cb_limit b then b\<lparr>cb_overflow := True\<rparr>
      else let remaining = cb_limit b - length (cb_buffer b) in
        if length payload > remaining
        then b\<lparr>cb_buffer := cb_buffer b @ take remaining payload, cb_overflow := True\<rparr>
        else b\<lparr>cb_buffer := cb_buffer b @ payload\<rparr>)"

section \<open>The handler\<close>

definition validate_error_text :: "validate_error \<Rightarrow> string" where
  "validate_error_text e = (case e of
     Bad_Target_Count \<Rightarrow> ''Targets must contain between 1 and 3 checkpoints.''
   | Bad_Isp \<Rightarrow> ''ISP must be telecom, unicom or mobile.''
   | Bad_Target Not_Public_Name \<Rightarrow> ''Target must be a public DNS hostname or IPv4 address.''
   | Bad_Target Not_Valid_IPv4 \<Rightarrow> ''Target must be a valid IPv4 address.''
   | Bad_Target Reserved_IPv4 \<Rightarrow> ''Target must not be a private or reserved IPv4 address.''
   | Bad_Target Private_Suffix \<Rightarrow> ''Target must not use a private-use hostname suffix.'')"

definition run_error_text :: "run_error \<Rightarrow> string" where
  "run_error_text e = (case e of Invalid v \<Rightarrow> validate_error_text v | Cancelled \<Rightarrow> [])"

text \<open>The decoded body and whether the request is admitted before it is cancelled; the service may be
  missing.\<close>

definition handle_backtrace_run ::
  "trace_env option \<Rightarrow> bool \<Rightarrow> (isp \<times> string) list option \<Rightarrow> probe list reply \<times> string list list"
where
  "handle_backtrace_run service admitted body = (case service of
     None \<Rightarrow> (Http_Error 500 ''backtrace service unavailable'', [])
   | Some env \<Rightarrow> (case body of
       None \<Rightarrow> (Http_Error 400 ''invalid backtrace request'', [])
     | Some ts \<Rightarrow> (case run_backtrace env admitted ts of
         (Inl Cancelled, cmds) \<Rightarrow> (Http_Error 408 ''backtrace request cancelled'', cmds)
       | (Inl e, cmds) \<Rightarrow> (Http_Error 400 (trim_suffix ''.'' (run_error_text e)), cmds)
       | (Inr probes, cmds) \<Rightarrow> (Json probes, cmds))))"

section \<open>What a trace guarantees\<close>

lemma set_insert_back: "set (insert_back c hs) = insert c (set hs)"
  by (induction hs) auto

lemma mset_insert_back: "mset (insert_back c hs) = add_mset c (mset hs)"
  by (induction hs) auto

text \<open>Falling in the reverse, and among hops of one TTL the latest first.\<close>

lemma sorted_insert_back:
  "sorted_wrt (\<lambda>a b. hp_ttl a \<ge> hp_ttl b) hs \<Longrightarrow> sorted_wrt (\<lambda>a b. hp_ttl a \<ge> hp_ttl b) (insert_back c hs)"
  by (induction hs) (auto simp: set_insert_back)

lemma filter_insert_back:
  "sorted_wrt (\<lambda>a b. hp_ttl a \<ge> hp_ttl b) hs \<Longrightarrow>
   filter (\<lambda>h. k = hp_ttl h) (insert_back c hs) = (if k = hp_ttl c then [c] else []) @ filter (\<lambda>h. k = hp_ttl h) hs"
  by (induction hs) (auto simp: filter_empty_conv)

lemma fold_insert_back:
  assumes "sorted_wrt (\<lambda>a b. hp_ttl a \<ge> hp_ttl b) acc"
  shows "mset (fold insert_back hops acc) = mset hops + mset acc
    \<and> sorted_wrt (\<lambda>a b. hp_ttl a \<ge> hp_ttl b) (fold insert_back hops acc)
    \<and> filter (\<lambda>h. k = hp_ttl h) (fold insert_back hops acc)
      = rev (filter (\<lambda>h. k = hp_ttl h) hops) @ filter (\<lambda>h. k = hp_ttl h) acc"
  using assms
  by (induction hops arbitrary: acc) (auto simp: sorted_insert_back filter_insert_back mset_insert_back)

lemma sorted_sort_hops: "sorted (map hp_ttl (sort_hops hops))"
  using fold_insert_back [of "[]" hops] by (simp add: sort_hops_def sorted_map sorted_wrt_rev)

text \<open>Sorting the hops is the stable sort by TTL.\<close>
theorem sort_hops_is_stable_sort:
  "sort_hops hops = sort_key hp_ttl hops"
proof (rule properties_for_sort_key [symmetric])
  note f = fold_insert_back [of "[]" hops]
  show "mset (sort_hops hops) = mset hops" using f by (simp add: sort_hops_def)
  show "filter (\<lambda>x. hp_ttl k = hp_ttl x) (sort_hops hops) = filter (\<lambda>x. hp_ttl k = hp_ttl x) hops" for k
    using f [of "hp_ttl k"] by (simp add: sort_hops_def rev_filter [symmetric])
  show "sorted (map hp_ttl (sort_hops hops))"
    by (rule sorted_sort_hops)
qed

lemma decode_payload_sorted:
  "sorted (map hp_ttl (fst (decode_payload r))) \<and> length (fst (decode_payload r)) \<le> max_hops"
  by (simp add: decode_payload_def Let_def sorted_sort_hops take_map [symmetric] sorted_wrt_take)

lemma decode_json_sorted:
  "decode_json unmarshal raw = Inr (hops, reason) \<Longrightarrow> sorted (map hp_ttl hops) \<and> length hops \<le> max_hops"
  using decode_payload_sorted
  by (auto simp: decode_json_def Let_def split: if_splits option.splits list.splits) (metis fst_conv)+

text \<open>A probe succeeds exactly when it has no error; then the traced address was resolved, its run did
  not time out and gave JSON, a hop with an address answered, and the destination was reached.  The hops are
  in the order of their TTL and at most 64.\<close>
theorem successful_trace:
  assumes "trace env (isp, host) = (p, cmds)"
  shows "(pb_success p \<longleftrightarrow> pb_error p = None) \<and> sorted (map hp_ttl (pb_hops p)) \<and> length (pb_hops p) \<le> max_hops
    \<and> (pb_success p \<longrightarrow> (\<exists>address reason n. resolve_checkpoint (te_resolve env) host = Inr address
        \<and> cmds = [trace_args ''-j'' address, trace_args ''-C'' address]
        \<and> decode_json (te_unmarshal env) (rn_stdout (te_run env (trace_args ''-j'' address))) = Inr (pb_hops p, reason)
        \<and> \<not> rn_timed_out (te_run env (trace_args ''-j'' address))
        \<and> reached_destination (pb_hops p) reason address \<and> (\<exists>h\<in>set (pb_hops p). usable_hop h)))"
proof (cases "resolve_checkpoint (te_resolve env) host")
  case (Inl e)
  with assms show ?thesis by (auto simp: trace_def Let_def)
next
  case (Inr address)
  let ?run = "te_run env (trace_args ''-j'' address)"
  let ?parsed = "decode_json (te_unmarshal env) (rn_stdout ?run)"
  show ?thesis
  proof (cases ?parsed)
    case (Inl e)
    with assms Inr show ?thesis by (auto simp: trace_def Let_def trace_error_def split: option.splits if_splits)
  next
    case parsed: (Inr r)
    obtain hops reason where r: "r = (hops, reason)" by force
    have sorted: "sorted (map hp_ttl hops)" "length hops \<le> max_hops"
      using decode_json_sorted parsed r by auto
    have p: "pb_hops p = hops" "pb_error p = trace_error ?run (Inr r) hops reason address"
      "pb_success p \<longleftrightarrow> filter usable_hop hops \<noteq> [] \<and> pb_error p = None"
      "cmds = [trace_args ''-j'' address, trace_args ''-C'' address]"
      using assms Inr parsed r by (auto simp: trace_def Let_def)
    have none: "\<not> rn_timed_out ?run \<and> filter usable_hop hops \<noteq> [] \<and> reached_destination hops reason address"
      if "pb_error p = None"
      using that p(2) by (auto simp: trace_error_def split: if_splits option.splits)
    show ?thesis using none p sorted parsed r Inr by (auto simp: filter_empty_conv)
  qed
qed

lemma validate_each_canonical:
  "validate_each ts = Inr vs \<Longrightarrow> list_all (\<lambda>(isp, host). known_isp isp \<and> normalize_target host = Inr host) vs
     \<and> map fst vs = map fst ts"
proof (induction ts arbitrary: vs rule: validate_each.induct)
  case (2 isp raw ts)
  then show ?case
    using accepted_target_canonical [of raw] by (auto split: if_splits sum.splits)
qed auto

text \<open>C32: Every command that a backtrace runs traces, in one of the two modes, the dotted form of a public
  IPv4 address of a target that passed the checks; there are at most six.\<close>
theorem backtrace_runs_on_public_addresses:
  assumes "run_backtrace env admitted ts = (r, cmds)" "cmd \<in> set cmds"
  shows "\<exists>isp host mode n. (isp, host) \<in> set (case validate_targets ts of Inr vs \<Rightarrow> vs | Inl _ \<Rightarrow> [])
    \<and> known_isp isp \<and> normalize_target host = Inr host \<and> cmd = common_args @ [mode, dotted n]
    \<and> mode \<in> {''-j'', ''-C''} \<and> n < 2 ^ 32 \<and> \<not> reserved_ipv4 n \<and> \<not> (0xc0586300 \<le> n \<and> n \<le> 0xc05863ff)
    \<and> length cmds \<le> 2 * max_targets"
proof -
  obtain vs where vs: "validate_targets ts = Inr vs" "cmds = concat (map (\<lambda>t. snd (trace env t)) vs)"
    using assms by (auto simp: run_backtrace_def split: sum.splits if_splits)
  then have "validate_each ts = Inr vs" "length ts \<le> max_targets"
    by (auto simp: validate_targets_def split: if_splits)
  from validate_each_canonical [OF this(1)] this(2)
  have can: "list_all (\<lambda>(isp, host). known_isp isp \<and> normalize_target host = Inr host) vs" "length vs \<le> max_targets"
    by (auto dest: map_eq_imp_length_eq)
  have two: "length (snd (trace env t)) \<le> 2" for t
    by (cases t) (auto simp: trace_def Let_def split: sum.splits prod.splits)
  have "length cmds \<le> sum_list (map (\<lambda>t. 2) vs)"
    unfolding vs(2) length_concat map_map by (rule sum_list_mono) (simp add: two)
  then have len: "length cmds \<le> 2 * max_targets" using can(2) by (simp add: sum_list_triv)
  obtain isp host where t: "(isp, host) \<in> set vs" "cmd \<in> set (snd (trace env (isp, host)))"
    using assms(2) vs(2) by auto
  then obtain address mode where a: "resolve_checkpoint (te_resolve env) host = Inr address"
    "cmd = trace_args mode address" "mode \<in> {''-j'', ''-C''}"
    by (auto simp: trace_def Let_def split: sum.splits prod.splits)
  from traced_public [OF a(1)] obtain n where n: "address = dotted n" "n < 2 ^ 32" "\<not> reserved_ipv4 n"
    "\<not> (0xc0586300 \<le> n \<and> n \<le> 0xc05863ff)" by blast
  have "known_isp isp \<and> normalize_target host = Inr host" using can(1) t(1) by (auto simp: list_all_iff)
  with t(1) vs(1) a(2,3) n len show ?thesis
    by (intro exI [of _ isp] exI [of _ host] exI [of _ mode] exI [of _ n]) (simp add: trace_args_def)
qed

text \<open>The buffer of a run keeps the beginning of what was written, up to its limit.\<close>

lemma capped_writes:
  "length (cb_buffer b) \<le> cb_limit b \<Longrightarrow>
   cb_buffer (fold capped_write ws b) = take (cb_limit b) (cb_buffer b @ concat ws)
   \<and> cb_limit (fold capped_write ws b) = cb_limit b"
proof (induction ws arbitrary: b)
  case (Cons w ws)
  have s: "length (cb_buffer (capped_write w b)) \<le> cb_limit (capped_write w b)" "cb_limit (capped_write w b) = cb_limit b"
    "cb_buffer (capped_write w b) = take (cb_limit b) (cb_buffer b @ w)"
    using Cons.prems by (auto simp: capped_write_def Let_def)
  have "take (cb_limit b) (take (cb_limit b) (cb_buffer b @ w) @ u) = take (cb_limit b) ((cb_buffer b @ w) @ u)" for u
    by (simp add: min_def)
  with Cons.IH [OF s(1)] s show ?case by simp
qed simp

section \<open>Witnesses\<close>

definition sample_trace_env :: trace_env where
  "sample_trace_env = \<lparr>te_resolve = (\<lambda>_. Inr [''8.8.8.8'']),
     te_run = (\<lambda>_. \<lparr>rn_stdout = ''{}'', rn_stderr = [], rn_error = None, rn_timed_out = False\<rparr>),
     te_unmarshal = (\<lambda>_. Some \<lparr>rr_hops = [[\<lparr>rh_address = Some ''8.8.8.8'', rh_geo = None, rh_hostname = [],
         rh_rtt = None, rh_success = True, rh_ttl = None\<rparr>]], rr_stop_reason = None\<rparr>),
     te_elapsed_ms = (\<lambda>_. 0)\<rparr>"

lemma sample_resolves: "resolve_checkpoint (te_resolve sample_trace_env) host = Inr ''8.8.8.8''"
proof -
  have p: "parse_addr ''8.8.8.8'' = Some (IP4 0x08080808, [])" by (simp add: net_eval Let_def)
  show ?thesis
    by (simp add: sample_trace_env_def resolve_checkpoint_def is_public_address_def parse_ip_def p
        blocked_prefixes_values List.map_filter_def dotted_def base_digits.simps digit_char_table)
qed

theorem successful_trace_witness:
  "pb_success (fst (trace sample_trace_env (''telecom'', ''dns.example'')))
   \<and> pb_error (fst (trace sample_trace_env (''telecom'', ''dns.example''))) = None"
proof -
  obtain p cmds where t: "trace sample_trace_env (''telecom'', ''dns.example'') = (p, cmds)" by force
  have ipt: "optional_text ''8.8.8.8'' 128 = Some ''8.8.8.8''"
    by (simp add: optional_text_def Let_def trim_space_def is_space_def truncate_text_def)
  have dec: "decode_json (te_unmarshal sample_trace_env) ''{}''
      = Inr ([parse_attempt \<lparr>rh_address = Some ''8.8.8.8'', rh_geo = None, rh_hostname = [],
         rh_rtt = None, rh_success = True, rh_ttl = None\<rparr> 1], [])"
    by (simp add: decode_json_def Let_def trim_space_def is_space_def byte_order_mark_def has_prefix_def
        sample_trace_env_def decode_payload_def chosen_attempt_def sort_hops_def max_hops_def parse_hop_address_def ipt)
  have "usable_hop (parse_attempt \<lparr>rh_address = Some ''8.8.8.8'', rh_geo = None, rh_hostname = [],
         rh_rtt = None, rh_success = True, rh_ttl = None\<rparr> 1)"
    "hp_ip (parse_attempt \<lparr>rh_address = Some ''8.8.8.8'', rh_geo = None, rh_hostname = [],
         rh_rtt = None, rh_success = True, rh_ttl = None\<rparr> 1) = Some ''8.8.8.8''"
    by (simp_all add: usable_hop_def parse_attempt_def parse_hop_address_def ipt)
  then have "pb_success p"
    using t dec sample_resolves
    by (auto simp: trace_def Let_def trace_error_def reached_destination_def sample_trace_env_def)
  with successful_trace [OF t] t show ?thesis by simp
qed

theorem backtrace_runs_on_public_addresses_witness:
  "\<exists>host n. normalize_target host = Inr host
     \<and> trace_args ''-j'' ''8.8.8.8'' = common_args @ [''-j'', dotted n] \<and> \<not> reserved_ipv4 n"
proof -
  have n: "normalize_target ''dns.example'' = Inr ''dns.example''" by code_simp
  then have v: "validate_targets [(''telecom'', ''dns.example'')] = Inr [(''telecom'', ''dns.example'')]"
    by (simp add: validate_targets_def max_targets_def known_isp_def)
  obtain r cmds where run: "run_backtrace sample_trace_env True [(''telecom'', ''dns.example'')] = (r, cmds)" by force
  have "trace_args ''-j'' ''8.8.8.8'' \<in> set cmds"
    using run v by (auto simp: run_backtrace_def trace_def sample_resolves Let_def split: prod.splits sum.splits)
  from backtrace_runs_on_public_addresses [OF run this]
  obtain isp host mode n where w: "normalize_target host = Inr host" "trace_args ''-j'' ''8.8.8.8'' = common_args @ [mode, dotted n]"
    "\<not> reserved_ipv4 n" by blast
  then have "mode = ''-j''" by (simp add: trace_args_def)
  with w show ?thesis by blast
qed


end
