(* ===== verification/SniHealth.thy ===== *)
theory SniHealth
  imports Backtrace
begin

text \<open>internal/snihealth/probe.go, service.go and model.go, and httpserver/sni_health.go: the checks of one
  target, its verdict, and the service around it.  Name resolution, connections, the run of xray, the clock
  and the printing of times are parameters.\<close>

section \<open>Checks and results\<close>

datatype verdict = Usable | Warning | Unusable | Unverified

datatype check_status = St_Pass | St_Warning | St_Fail | St_Unavailable

record check =
  chk_id :: string
  chk_status :: check_status
  chk_observed :: jval
  chk_reason :: string
  chk_hint :: "string option"

record probed_address =
  ad_address :: string
  ad_family :: nat
  ad_is_public :: bool
  ad_status :: "check_status option"
  ad_error :: "string option"

record sni_result =
  sr_correlation_id :: "string option"
  sr_inbound_tag :: "string option"
  sr_sni :: string
  sr_dest :: string
  sr_hostname :: string
  sr_port :: int
  sr_verdict :: verdict
  sr_healthy :: bool
  sr_latency_ms :: "int option"
  sr_error :: "string option"
  sr_checks :: "check list"
  sr_addresses :: "probed_address list"
  sr_latency_samples :: "int list"
  sr_jitter_ms :: "int option"
  sr_checked_at :: int

record resolved_address =
  rs_address :: string
  rs_family :: nat

record tls_observation =
  tls_handshake :: bool
  tls_authorized :: bool
  tls_authorization_error :: string
  tls_protocol :: string
  tls_alpn :: string
  tls_valid_from :: "int option"
  tls_valid_to :: "int option"
  tls_names :: "string list"
  tls_latency :: "int option"
  tls_error :: string

record xray_result =
  xr_handshake :: bool
  xr_key_exchange :: string
  xr_command_error :: string

text \<open>The adapters; the TLS one also takes the number of the attempt on its address.\<close>

record probe_engine =
  pe_resolve :: "string \<Rightarrow> string + resolved_address list"
  pe_tcp :: "string \<Rightarrow> int \<Rightarrow> string option"
  pe_tls :: "nat \<Rightarrow> string \<Rightarrow> string \<Rightarrow> int \<Rightarrow> tls_observation"
  pe_xray :: "string \<Rightarrow> string \<Rightarrow> int \<Rightarrow> xray_result"
  pe_address_limit :: nat
  pe_latency_warning :: int
  pe_jitter_warning :: int
  pe_now :: int
  pe_format_time :: "int \<Rightarrow> string"

section \<open>Helpers\<close>

definition new_check :: "string \<Rightarrow> check_status \<Rightarrow> jval \<Rightarrow> string \<Rightarrow> check" where
  "new_check i status value reason = \<lparr>chk_id = i, chk_status = status, chk_observed = value,
     chk_reason = reason, chk_hint = Some ''Review the target configuration and retry this check.''\<rparr>"

definition pass_when :: "bool \<Rightarrow> check_status" where
  "pass_when b = (if b then St_Pass else St_Fail)"

definition strings_value :: "string list \<Rightarrow> jval" where
  "strings_value vs = VArr (map VStr vs)"

definition nullable_string :: "string \<Rightarrow> jval" where
  "nullable_string s = (if s = [] then VNull else VStr s)"

definition nullable_int :: "int option \<Rightarrow> jval" where
  "nullable_int v = (case v of Some n \<Rightarrow> VInt n | None \<Rightarrow> VNull)"

fun deduplicate_from :: "(nat \<times> string) list \<Rightarrow> resolved_address list \<Rightarrow> resolved_address list" where
  "deduplicate_from seen [] = []"
| "deduplicate_from seen (v # vs) =
     (if (rs_family v, rs_address v) \<in> set seen then deduplicate_from seen vs
      else v # deduplicate_from ((rs_family v, rs_address v) # seen) vs)"

definition deduplicate_addresses :: "resolved_address list \<Rightarrow> resolved_address list" where
  "deduplicate_addresses vs = deduplicate_from [] vs"

definition median_int :: "int list \<Rightarrow> int option" where
  "median_int vs = (if vs = [] then None else Some (sort vs ! (length vs div 2)))"

definition range_int :: "int list \<Rightarrow> int option" where
  "range_int vs = (case vs of [] \<Rightarrow> None | v # r \<Rightarrow> Some (fold max r v - fold min r v))"

definition metric_status :: "nat \<Rightarrow> int option \<Rightarrow> int \<Rightarrow> check_status" where
  "metric_status samples value warning = (case value of
     None \<Rightarrow> St_Fail
   | Some v \<Rightarrow> if samples < 3 then St_Fail else if v > warning then St_Warning else St_Pass)"

definition metric_reason :: "string \<Rightarrow> int option \<Rightarrow> string" where
  "metric_reason label value = (case value of
     None \<Rightarrow> label @ '' was unavailable.'' | Some v \<Rightarrow> label @ '' was '' @ format_int 10 v @ '' ms.'')"

definition name_covers :: "string \<Rightarrow> string \<Rightarrow> bool" where
  "name_covers hostname raw =
     (let name = to_lower (trim_space raw); suffix = drop 1 name;
          left = take (length hostname - length suffix) hostname in
      name = hostname
      \<or> has_prefix name ''*.'' \<and> has_suffix hostname suffix \<and> left \<noteq> [] \<and> CHR ''.'' \<notin> set left)"

definition certificate_covers :: "string list \<Rightarrow> string \<Rightarrow> bool" where
  "certificate_covers names hostname \<longleftrightarrow> list_ex (name_covers (to_lower hostname)) names"

section \<open>The verdict\<close>

definition reports_problem :: "check \<Rightarrow> bool" where
  "reports_problem c \<longleftrightarrow> chk_status c = St_Fail \<or> (chk_status c = St_Warning \<and> chk_id c \<noteq> ''alpn'')"

definition finish ::
  "int \<Rightarrow> target \<Rightarrow> check list \<Rightarrow> probed_address list \<Rightarrow> int list \<Rightarrow> int option \<Rightarrow> sni_result"
where
  "finish now t checks addresses latencies latency =
     (let unavailable = list_ex (\<lambda>c. chk_status c = St_Unavailable) checks;
          independent = list_ex (\<lambda>c. chk_status c = St_Fail
            \<and> chk_id c \<notin> {''jitter'', ''latency'', ''tls-samples''}) checks;
          warning = list_ex (\<lambda>c. chk_status c = St_Warning \<and> chk_id c \<noteq> ''alpn'') checks;
          verdict = (if unavailable \<and> \<not> independent then Unverified
            else if list_ex (\<lambda>c. chk_status c = St_Fail) checks then Unusable
            else if warning then Warning else Usable)
      in \<lparr>sr_correlation_id = tg_correlation_id t, sr_inbound_tag = tg_inbound_tag t, sr_sni = tg_sni t,
          sr_dest = tg_dest t, sr_hostname = first_nonempty [tg_normalized_sni t, tg_sni t],
          sr_port = tg_port t, sr_verdict = verdict, sr_healthy = (verdict = Usable),
          sr_latency_ms = latency, sr_error = map_option chk_reason (List.find reports_problem checks),
          sr_checks = checks, sr_addresses = addresses, sr_latency_samples = latencies,
          sr_jitter_ms = range_int latencies, sr_checked_at = now\<rparr>)"

definition timeout_result :: "int \<Rightarrow> target \<Rightarrow> sni_result" where
  "timeout_result now t = finish now t
     [new_check ''probe-timeout'' St_Unavailable VNull
        ''The composite probe exceeded its 45-second deadline.''] [] [] None"

section \<open>The probe of one address\<close>

record address_probe =
  ap_resolved :: resolved_address
  ap_address :: probed_address
  ap_tcp_ok :: bool
  ap_xray :: "xray_result option"
  ap_tls :: "tls_observation option"

definition probe_address :: "probe_engine \<Rightarrow> target \<Rightarrow> resolved_address \<Rightarrow> address_probe" where
  "probe_address e t r =
     (let a = \<lparr>ad_address = rs_address r, ad_family = rs_family r, ad_is_public = is_public_address (rs_address r),
               ad_status = None, ad_error = None\<rparr>;
          p = \<lparr>ap_resolved = r, ap_address = a, ap_tcp_ok = False, ap_xray = None, ap_tls = None\<rparr> in
      if \<not> ad_is_public a then
        p\<lparr>ap_address := a\<lparr>ad_status := Some St_Fail, ad_error := Some ''Resolved address is private or reserved.''\<rparr>\<rparr>
      else case pe_tcp e (rs_address r) (tg_port t) of
        Some message \<Rightarrow> p\<lparr>ap_address := a\<lparr>ad_status := Some St_Fail, ad_error := Some message\<rparr>\<rparr>
      | None \<Rightarrow>
          (let x = pe_xray e (rs_address r) (tg_normalized_sni t) (tg_port t);
               o1 = pe_tls e 0 (rs_address r) (tg_normalized_sni t) (tg_port t);
               passed = xr_handshake x \<and> tls_handshake o1 in
           p\<lparr>ap_tcp_ok := True, ap_xray := Some x, ap_tls := Some o1,
             ap_address := a\<lparr>ad_status := Some (pass_when passed),
               ad_error := (if passed then None
                 else Some (first_nonempty [xr_command_error x, tls_error o1, ''TLS probe failed.'']))\<rparr>\<rparr>))"

definition selectable :: "address_probe \<Rightarrow> bool" where
  "selectable p \<longleftrightarrow> ap_tcp_ok p \<and> (case ap_xray p of Some x \<Rightarrow> xr_handshake x | None \<Rightarrow> False)
     \<and> (case ap_tls p of
          Some obs \<Rightarrow> tls_handshake obs \<and> tls_authorized obs \<and> tls_protocol obs = ''TLSv1.3''
        | None \<Rightarrow> False)"

definition first_xray_error :: "address_probe list \<Rightarrow> string" where
  "first_xray_error probes =
     (case List.map_filter (\<lambda>p. case ap_xray p of
          Some x \<Rightarrow> if xr_command_error x = [] then None else Some (xr_command_error x) | None \<Rightarrow> None) probes of
        m # _ \<Rightarrow> m | [] \<Rightarrow> ''Xray tls ping did not complete a handshake.'')"

section \<open>The checks of a target\<close>

definition security_checks ::
  "probe_engine \<Rightarrow> target \<Rightarrow> xray_result option \<Rightarrow> tls_observation option \<Rightarrow> check list"
where
  "security_checks e t xray observation =
     (let key_exchange = (case xray of Some x \<Rightarrow> xr_key_exchange x | None \<Rightarrow> []);
          key_status = (if key_exchange \<in> {''X25519'', ''X25519MLKEM768''} then St_Pass
            else if key_exchange = ''RSA Exchange'' then St_Fail else St_Unavailable);
          authorized = (case observation of Some obs \<Rightarrow> tls_authorized obs | None \<Rightarrow> False);
          window = (case observation of
              Some obs \<Rightarrow> (case (tls_valid_from obs, tls_valid_to obs) of (Some a, Some b) \<Rightarrow> Some (a, b) | _ \<Rightarrow> None)
            | None \<Rightarrow> None);
          valid = (case window of Some (a, b) \<Rightarrow> \<not> pe_now e < a \<and> \<not> pe_now e > b | None \<Rightarrow> False);
          covered = (case observation of
              Some obs \<Rightarrow> certificate_covers (tls_names obs) (tg_normalized_sni t) | None \<Rightarrow> False)
      in [new_check ''key-exchange'' key_status (nullable_string key_exchange)
            (if key_status = St_Pass then ''A supported key exchange was negotiated.''
             else ''A supported key exchange was not reported.''),
          new_check ''certificate-trust'' (pass_when authorized)
            (case observation of Some obs \<Rightarrow> nullable_string (tls_authorization_error obs) | None \<Rightarrow> VNull)
            (if authorized then ''The certificate chains to the node trust store.''
             else ''The certificate is not trusted.''),
          new_check ''certificate-validity'' (pass_when valid)
            (case window of Some (a, b) \<Rightarrow> VStr (pe_format_time e a @ '' - '' @ pe_format_time e b) | None \<Rightarrow> VNull)
            (if valid then ''The certificate is currently within its validity dates.''
             else ''The certificate is expired, not yet valid, or missing validity dates.''),
          new_check ''certificate-san'' (pass_when covered)
            (case observation of Some obs \<Rightarrow> strings_value (tls_names obs) | None \<Rightarrow> VNull)
            (if covered then ''The certificate SAN covers the configured SNI.''
             else ''The certificate SAN does not cover the configured SNI.'')])"

text \<open>The first latency is that of the probe; two more handshakes follow.\<close>

definition collect_latencies :: "probe_engine \<Rightarrow> target \<Rightarrow> address_probe option \<Rightarrow> int list" where
  "collect_latencies e t selected = (case selected of
     None \<Rightarrow> []
   | Some p \<Rightarrow> (case Option.bind (ap_tls p) tls_latency of
       None \<Rightarrow> []
     | Some first \<Rightarrow> first # List.map_filter (\<lambda>k.
         let obs = pe_tls e k (rs_address (ap_resolved p)) (tg_normalized_sni t) (tg_port t)
         in if tls_handshake obs then tls_latency obs else None) [1, 2]))"

definition match_check :: "target \<Rightarrow> check" where
  "match_check t = new_check ''destination-sni-match'' (pass_when (tg_matches_sni t)) (VBool (tg_matches_sni t))
     (if tg_matches_sni t then ''Destination hostname matches the configured SNI.''
      else ''Destination hostname and configured SNI differ.'')"

definition dns_check :: "string list \<Rightarrow> check" where
  "dns_check values = (if values = []
     then new_check ''dns-resolution'' St_Fail (strings_value values) ''DNS returned no addresses.''
     else new_check ''dns-resolution'' St_Pass (strings_value values)
       (''Resolved '' @ format_int 10 (int (length values)) @ '' address(es).''))"

definition count_xray :: "address_probe list \<Rightarrow> nat" where
  "count_xray probes =
     length (filter (\<lambda>p. case ap_xray p of Some x \<Rightarrow> xr_handshake x | None \<Rightarrow> False) probes)"

definition handshake_texts :: "(tls_observation \<Rightarrow> string) \<Rightarrow> address_probe list \<Rightarrow> string list" where
  "handshake_texts field probes = List.map_filter (\<lambda>p. case ap_tls p of
     Some obs \<Rightarrow> if tls_handshake obs \<and> field obs \<noteq> [] then Some (field obs) else None | None \<Rightarrow> None) probes"

definition connection_checks :: "address_probe list \<Rightarrow> check list" where
  "connection_checks probes =
     (let reachable = map (\<lambda>p. rs_address (ap_resolved p)) (filter ap_tcp_ok probes);
          ok = count_xray probes > 0;
          unavailable = list_ex (\<lambda>p. case ap_xray p of Some x \<Rightarrow> xr_command_error x \<noteq> [] | None \<Rightarrow> False) probes;
          xray_status = (if \<not> ok \<and> unavailable then St_Unavailable else pass_when ok);
          versions = handshake_texts tls_protocol probes;
          alpns = handshake_texts tls_alpn probes;
          alpn_ok = (alpns = [] \<or> ''h2'' \<in> set alpns \<or> ''http/1.1'' \<in> set alpns)
      in [new_check ''tcp-reachability'' (pass_when (reachable \<noteq> [])) (strings_value reachable)
            (if reachable \<noteq> [] then ''At least one public destination address accepted TCP connections.''
             else ''No public destination address accepted a TCP connection.''),
          new_check ''xray-capability'' xray_status (VInt (int (count_xray probes)))
            (if ok then ''Xray tls ping completed successfully.'' else first_xray_error probes),
          new_check ''xray-handshake'' xray_status (VInt (int (count_xray probes)))
            (if ok then ''Xray completed the SNI handshake.'' else ''Xray did not complete the SNI handshake.''),
          new_check ''tls-version'' (pass_when (''TLSv1.3'' \<in> set versions)) (strings_value versions)
            (if ''TLSv1.3'' \<in> set versions then ''TLS 1.3 was negotiated.'' else ''TLS 1.3 was not negotiated.''),
          new_check ''alpn'' (if alpn_ok then St_Pass else St_Warning) (strings_value alpns)
            (if alpn_ok then ''An accepted or empty ALPN was negotiated.''
             else ''The negotiated ALPN is non-standard for this probe.'')])"

definition latency_checks :: "probe_engine \<Rightarrow> int list \<Rightarrow> check list" where
  "latency_checks e latencies =
     (let n = length latencies; median = median_int latencies; jitter = range_int latencies
      in [new_check ''tls-samples'' (pass_when (n = 3)) (VInt (int n))
            (''Collected '' @ format_int 10 (int n) @ '' complete TLS sample(s).''),
          new_check ''latency'' (metric_status n median (pe_latency_warning e)) (nullable_int median)
            (metric_reason ''Median TLS handshake latency'' median),
          new_check ''jitter'' (metric_status n jitter (pe_jitter_warning e)) (nullable_int jitter)
            (metric_reason ''TLS jitter'' jitter)])"

definition coverage_check :: "nat \<Rightarrow> probed_address list \<Rightarrow> check" where
  "coverage_check omitted addresses =
     new_check ''address-coverage''
       (if omitted > 0 \<or> list_ex (\<lambda>a. ad_status a \<noteq> Some St_Pass) addresses then St_Warning else St_Pass)
       (VInt (int omitted)) (''Address coverage completed with '' @ format_int 10 (int omitted) @ '' omitted.'')"

definition run_probe :: "probe_engine \<Rightarrow> target \<Rightarrow> sni_result" where
  "run_probe e t =
     (if \<not> tg_matches_sni t \<or> tg_normalized_sni t = [] \<or> tg_normalized_host t = []
        then finish (pe_now e) t [match_check t] [] [] None
      else case pe_resolve e (tg_host t) of
        Inl message \<Rightarrow>
          finish (pe_now e) t [match_check t, new_check ''dns-resolution'' St_Fail VNull message] [] [] None
      | Inr resolved \<Rightarrow>
          (let unique = deduplicate_addresses resolved;
               inspected = take (pe_address_limit e) unique;
               omitted = length unique - length inspected;
               probes = map (probe_address e t) inspected;
               addresses = map ap_address probes;
               public = map (\<lambda>p. rs_address (ap_resolved p)) (filter (\<lambda>p. ad_is_public (ap_address p)) probes);
               checks = [match_check t, dns_check (map rs_address unique)]
           in if public = [] then
                finish (pe_now e) t (checks @ [new_check ''public-address'' St_Fail (strings_value public)
                  ''No resolved destination address is public.'']) addresses [] None
              else
                (let selected = List.find selectable probes;
                     xray = (case selected of Some p \<Rightarrow> ap_xray p
                       | None \<Rightarrow> Option.bind (List.find (\<lambda>p. ap_xray p \<noteq> None) probes) ap_xray);
                     observation = (case selected of Some p \<Rightarrow> ap_tls p
                       | None \<Rightarrow> Option.bind (List.find (\<lambda>p. ap_tls p \<noteq> None) probes) ap_tls);
                     latencies = collect_latencies e t selected
                 in finish (pe_now e) t
                      (checks @ [new_check ''public-address'' St_Pass (strings_value public)
                          ''At least one resolved destination address is public.'']
                        @ connection_checks probes @ security_checks e t xray observation
                        @ latency_checks e latencies @ [coverage_check omitted addresses])
                      addresses latencies (median_int latencies))))"

text \<open>Probe: the deadline of the whole.\<close>

definition probe_target :: "probe_engine \<Rightarrow> bool \<Rightarrow> target \<Rightarrow> sni_result" where
  "probe_target e deadline_exceeded t =
     (if deadline_exceeded then timeout_result (pe_now e) t else run_probe e t)"

section \<open>The service\<close>

text \<open>The service keeps the results of the last active run.  A provider gives the current configuration and
  the active tags; probe is the probe of one target.\<close>

record sni_service =
  ss_config :: jmap
  ss_tags :: "string list"
  ss_to_ascii :: "string \<Rightarrow> string option"
  ss_probe :: "target \<Rightarrow> sni_result"
  ss_results :: "sni_result list"

definition run_active :: "sni_service \<Rightarrow> sni_result list \<times> sni_service" where
  "run_active s =
     (let results = map (ss_probe s) (extract_reality_targets (ss_to_ascii s) (ss_config s) (ss_tags s))
      in (results, s\<lparr>ss_results := results\<rparr>))"

record candidate =
  cd_correlation_id :: string
  cd_hostname :: string
  cd_port :: int

datatype candidate_error = Bad_Candidate_Count | Bad_Correlation_Id | Bad_Candidate

definition correlation_char :: "char \<Rightarrow> bool" where
  "correlation_char c \<longleftrightarrow> ascii_letter c \<or> is_digit c \<or> c \<in> {CHR ''.'', CHR ''_'', CHR '':'', CHR ''-''}"

definition valid_correlation_id :: "string \<Rightarrow> bool" where
  "valid_correlation_id i \<longleftrightarrow> i \<noteq> [] \<and> length i \<le> 128 \<and> list_all correlation_char i"

definition candidate_target :: "candidate \<Rightarrow> string \<Rightarrow> target" where
  "candidate_target c hostname =
     \<lparr>tg_identity = ''candidate'' @ [CHR 0x00] @ cd_correlation_id c,
      tg_correlation_id = Some (cd_correlation_id c), tg_inbound_tag = None, tg_sni = hostname,
      tg_normalized_sni = hostname, tg_host = hostname, tg_normalized_host = hostname, tg_port = cd_port c,
      tg_dest = hostname @ '':'' @ format_int 10 (cd_port c), tg_matches_sni = True\<rparr>"

fun candidate_targets ::
  "(string \<Rightarrow> string option) \<Rightarrow> candidate list \<Rightarrow> candidate_error + target list"
where
  "candidate_targets to_ascii [] = Inr []"
| "candidate_targets to_ascii (c # cs) =
     (if \<not> valid_correlation_id (cd_correlation_id c) then Inl Bad_Correlation_Id
      else case normalize_hostname to_ascii (cd_hostname c) of
        None \<Rightarrow> Inl Bad_Candidate
      | Some hostname \<Rightarrow>
          if cd_port c < 1 \<or> cd_port c > 65535 then Inl Bad_Candidate
          else (case candidate_targets to_ascii cs of
              Inl e \<Rightarrow> Inl e | Inr ts \<Rightarrow> Inr (candidate_target c hostname # ts)))"

definition run_candidates :: "sni_service \<Rightarrow> candidate list \<Rightarrow> candidate_error + sni_result list" where
  "run_candidates s cs =
     (if cs = [] \<or> length cs > 64 then Inl Bad_Candidate_Count
      else case candidate_targets (ss_to_ascii s) cs of
        Inl e \<Rightarrow> Inl e | Inr ts \<Rightarrow> Inr (map (ss_probe s) ts))"

record status_response =
  sp_results :: "sni_result list"
  sp_unhealthy :: nat

definition sni_status :: "sni_service \<Rightarrow> status_response \<times> sni_service" where
  "sni_status s =
     (let (results, s') = (if ss_results s = [] then run_active s else (ss_results s, s))
      in (\<lparr>sp_results = results, sp_unhealthy = length (filter (\<lambda>r. \<not> sr_healthy r) results)\<rparr>, s'))"

record counts =
  ct_usable :: nat
  ct_warning :: nat
  ct_unusable :: nat
  ct_unverified :: nat

record probe_response =
  pr_mode :: string
  pr_results :: "sni_result list"
  pr_aggregate :: verdict
  pr_counts :: counts
  pr_unhealthy :: nat

definition count_verdict :: "verdict \<Rightarrow> sni_result list \<Rightarrow> nat" where
  "count_verdict v results = length (filter (\<lambda>r. sr_verdict r = v) results)"

definition build_probe_response :: "string \<Rightarrow> sni_result list \<Rightarrow> probe_response" where
  "build_probe_response mode results =
     \<lparr>pr_mode = mode, pr_results = results,
      pr_aggregate = (case filter (\<lambda>v. list_ex (\<lambda>r. sr_verdict r = v) results)
          [Unusable, Unverified, Warning, Usable] of v # _ \<Rightarrow> v | [] \<Rightarrow> Unverified),
      pr_counts = \<lparr>ct_usable = count_verdict Usable results, ct_warning = count_verdict Warning results,
        ct_unusable = count_verdict Unusable results, ct_unverified = count_verdict Unverified results\<rparr>,
      pr_unhealthy = length (filter (\<lambda>r. sr_verdict r \<noteq> Usable) results)\<rparr>"

definition candidate_error_text :: "candidate_error \<Rightarrow> string" where
  "candidate_error_text e = (case e of
     Bad_Candidate_Count \<Rightarrow> ''candidate probes require between 1 and 64 targets''
   | Bad_Correlation_Id \<Rightarrow> ''invalid candidate correlationId''
   | Bad_Candidate \<Rightarrow> ''invalid candidate target'')"

definition handle_get_sni_health_status ::
  "sni_service option \<Rightarrow> status_response reply \<times> sni_service option"
where
  "handle_get_sni_health_status service = (case service of
     None \<Rightarrow> (Http_Error 500 ''SNI health service unavailable'', None)
   | Some s \<Rightarrow> (case sni_status s of (r, s') \<Rightarrow> (Json r, Some s')))"

text \<open>The decoded body: its mode and its targets.\<close>

definition handle_probe_sni_health ::
  "sni_service option \<Rightarrow> (string \<times> candidate list option) option \<Rightarrow> probe_response reply \<times> sni_service option"
where
  "handle_probe_sni_health service body = (case service of
     None \<Rightarrow> (Http_Error 500 ''SNI health service unavailable'', None)
   | Some s \<Rightarrow> (case body of
       None \<Rightarrow> (Http_Error 400 ''invalid SNI health probe request'', Some s)
     | Some (mode, targets) \<Rightarrow>
         if mode = ''active'' then
           (if targets \<noteq> None then (Http_Error 400 ''active probes do not accept candidate targets'', Some s)
            else (case run_active s of (results, s') \<Rightarrow> (Json (build_probe_response mode results), Some s')))
         else if mode = ''candidates'' then
           (case targets of
              None \<Rightarrow> (Http_Error 400 ''candidate probes require targets'', Some s)
            | Some cs \<Rightarrow> (case run_candidates s cs of
                Inl e \<Rightarrow> (Http_Error 400 (trim_suffix ''.'' (candidate_error_text e)), Some s)
              | Inr results \<Rightarrow> (Json (build_probe_response mode results), Some s)))
         else (Http_Error 400 ''mode must be active or candidates'', Some s)))"

section \<open>What the verdicts mean\<close>

lemma find_map_some: "List.find P xs = None \<longleftrightarrow> list_all (\<lambda>x. \<not> P x) xs"
  by (auto simp: find_None_iff list_all_iff)

lemma finish_usable:
  "sr_verdict (finish now t checks as ls l) = Usable
   \<longleftrightarrow> list_all (\<lambda>c. \<not> reports_problem c \<and> chk_status c \<noteq> St_Unavailable) checks"
  by (auto simp: finish_def Let_def list_ex_iff list_all_iff reports_problem_def split: if_splits)

lemma chk_new_check [simp]:
  "chk_status (new_check i s v r) = s" "chk_id (new_check i s v r) = i"
  by (simp_all add: new_check_def)

definition clean_check :: "check \<Rightarrow> bool" where
  "clean_check c \<longleftrightarrow> \<not> reports_problem c \<and> chk_status c \<noteq> St_Unavailable"

lemma clean_new_check [simp]:
  "clean_check (new_check i s v r) \<longleftrightarrow> s = St_Pass \<or> (s = St_Warning \<and> i = ''alpn'')"
  by (cases s) (auto simp: clean_check_def reports_problem_def)

lemma pass_when_pass [simp]: "pass_when b = St_Pass \<longleftrightarrow> b" "pass_when b \<noteq> St_Warning"
  by (simp_all add: pass_when_def)

lemma metric_status_pass: "metric_status n v w = St_Pass \<longleftrightarrow> (\<exists>m. v = Some m \<and> 3 \<le> n \<and> m \<le> w)"
  by (auto simp: metric_status_def split: option.splits)

text \<open>An address with a passing status was public and answered in every way.\<close>

definition answers :: "probe_engine \<Rightarrow> target \<Rightarrow> string \<Rightarrow> bool" where
  "answers e t a \<longleftrightarrow> is_public_address a \<and> pe_tcp e a (tg_port t) = None
     \<and> xr_handshake (pe_xray e a (tg_normalized_sni t) (tg_port t))
     \<and> tls_handshake (pe_tls e 0 a (tg_normalized_sni t) (tg_port t))"

lemma probe_address_passes:
  "ad_status (ap_address (probe_address e t r)) = Some St_Pass \<longleftrightarrow> answers e t (rs_address r)"
  by (auto simp: probe_address_def Let_def answers_def split: option.splits)

lemma probe_address_resolved [simp]: "ap_resolved (probe_address e t r) = r"
  by (auto simp: probe_address_def Let_def split: option.splits)

lemma probe_address_selectable:
  "selectable (probe_address e t r) \<Longrightarrow>
     answers e t (rs_address r)
   \<and> ap_xray (probe_address e t r) = Some (pe_xray e (rs_address r) (tg_normalized_sni t) (tg_port t))
   \<and> ap_tls (probe_address e t r) = Some (pe_tls e 0 (rs_address r) (tg_normalized_sni t) (tg_port t))
   \<and> tls_authorized (pe_tls e 0 (rs_address r) (tg_normalized_sni t) (tg_port t))
   \<and> tls_protocol (pe_tls e 0 (rs_address r) (tg_normalized_sni t) (tg_port t)) = ''TLSv1.3''"
  by (auto simp: probe_address_def Let_def answers_def selectable_def split: option.splits if_splits)

lemma set_deduplicate_from:
  "(\<lambda>r. (rs_family r, rs_address r)) ` set (deduplicate_from seen vs)
     = (\<lambda>r. (rs_family r, rs_address r)) ` set vs - set seen
   \<and> set (deduplicate_from seen vs) \<subseteq> set vs"
  by (induction vs arbitrary: seen) (auto simp: image_iff)

lemma resolved_address_key: "(rs_family r, rs_address r) = (rs_family q, rs_address q) \<Longrightarrow> r = (q :: resolved_address)"
  by simp

lemma set_deduplicate: "set (deduplicate_addresses vs) = set vs"
proof -
  have "inj (\<lambda>r :: resolved_address. (rs_family r, rs_address r))" by (rule injI) simp
  then show ?thesis
    using set_deduplicate_from [of "[]" vs] by (simp add: deduplicate_addresses_def inj_image_eq_iff)
qed

text \<open>The part of a probe after the addresses are known.\<close>

definition selected_probe :: "probe_engine \<Rightarrow> target \<Rightarrow> resolved_address list \<Rightarrow> address_probe option" where
  "selected_probe e t unique = List.find selectable (map (probe_address e t) (take (pe_address_limit e) unique))"

lemma selected_probe_from:
  assumes "selected_probe e t unique = Some p"
  obtains r where "r \<in> set unique" "p = probe_address e t r" "selectable p"
  using assms in_set_takeD by (fastforce simp: selected_probe_def find_Some_iff set_conv_nth)

lemma run_probe_usable:
  assumes "sr_verdict (run_probe e t) = Usable"
    and "tg_matches_sni t \<longrightarrow> tg_normalized_sni t \<noteq> [] \<and> tg_normalized_host t \<noteq> []"
  obtains resolved unique x obs where "tg_matches_sni t" "pe_resolve e (tg_host t) = Inr resolved"
    "unique = deduplicate_addresses resolved" "length unique \<le> pe_address_limit e"
    "list_all (\<lambda>r. answers e t (rs_address r)) unique"
    "list_all clean_check (security_checks e t x obs)"
    "selected_probe e t unique \<noteq> None \<longrightarrow>
       x = ap_xray (the (selected_probe e t unique)) \<and> obs = ap_tls (the (selected_probe e t unique))"
    "sr_latency_samples (run_probe e t) = collect_latencies e t (selected_probe e t unique)"
    "list_all clean_check (latency_checks e (sr_latency_samples (run_probe e t)))"
proof -
  note usable = finish_usable [folded clean_check_def]
  have m: "tg_matches_sni t"
  proof (rule ccontr)
    assume "\<not> tg_matches_sni t"
    with assms(1) show False by (simp add: run_probe_def usable match_check_def)
  qed
  with assms(2) have pre: "\<not> (\<not> tg_matches_sni t \<or> tg_normalized_sni t = [] \<or> tg_normalized_host t = [])" by simp
  obtain resolved where r: "pe_resolve e (tg_host t) = Inr resolved"
  proof (cases "pe_resolve e (tg_host t)")
    case (Inl m)
    with assms(1) pre show ?thesis by (simp add: run_probe_def usable)
  qed
  let ?unique = "deduplicate_addresses resolved"
  let ?probes = "map (probe_address e t) (take (pe_address_limit e) ?unique)"
  let ?sel = "selected_probe e t ?unique"
  let ?x = "case ?sel of Some p \<Rightarrow> ap_xray p | None \<Rightarrow> Option.bind (List.find (\<lambda>p. ap_xray p \<noteq> None) ?probes) ap_xray"
  let ?obs = "case ?sel of Some p \<Rightarrow> ap_tls p | None \<Rightarrow> Option.bind (List.find (\<lambda>p. ap_tls p \<noteq> None) ?probes) ap_tls"
  let ?public = "filter (\<lambda>p. ad_is_public (ap_address p)) ?probes"
  let ?pubs = "map (\<lambda>p. rs_address (ap_resolved p)) ?public"
  let ?ls = "collect_latencies e t ?sel"
  have pub: "?pubs \<noteq> []"
  proof
    assume none: "?pubs = []"
    have "run_probe e t = finish (pe_now e) t ([match_check t, dns_check (map rs_address ?unique)]
        @ [new_check ''public-address'' St_Fail (strings_value ?pubs) ''No resolved destination address is public.''])
        (map ap_address ?probes) [] None"
      by (simp only: run_probe_def Let_def if_not_P [OF pre] r sum.case if_P [OF none])
    with assms(1) show False by (simp add: usable)
  qed
  have run: "run_probe e t = finish (pe_now e) t ([match_check t, dns_check (map rs_address ?unique)]
      @ [new_check ''public-address'' St_Pass (strings_value ?pubs)
          ''At least one resolved destination address is public.'']
      @ connection_checks ?probes @ security_checks e t ?x ?obs @ latency_checks e ?ls
      @ [coverage_check (length ?unique - length (take (pe_address_limit e) ?unique)) (map ap_address ?probes)])
      (map ap_address ?probes) ?ls (median_int ?ls)"
    by (simp only: run_probe_def Let_def if_not_P [OF pre] r sum.case if_not_P [OF pub] selected_probe_def)
  from assms(1) [unfolded run usable]
  have clean: "list_all clean_check (security_checks e t ?x ?obs)"
    "list_all clean_check (latency_checks e (collect_latencies e t ?sel))"
    "clean_check (coverage_check (length ?unique - length (take (pe_address_limit e) ?unique)) (map ap_address ?probes))"
    by simp_all
  have cov: "length ?unique \<le> pe_address_limit e" "list_all (\<lambda>r. answers e t (rs_address r)) ?unique"
    using clean(3) by (auto simp: coverage_check_def list_ex_iff list_all_iff probe_address_passes split: if_splits)
  have samples: "sr_latency_samples (run_probe e t) = collect_latencies e t ?sel" unfolding run by (simp add: finish_def Let_def)
  show ?thesis
    by (rule that [OF m r refl cov clean(1) _ samples]) (use clean(2) samples in \<open>auto split: option.splits\<close>)
qed

text \<open>C30: A target is called usable only if its name resolves to few enough addresses, all of them public and
  answering over TCP, Xray and TLS, and one of them gave a trusted TLS 1.3 certificate that is valid now and
  covers the SNI, a supported key exchange, and three samples within the latency and jitter limits.\<close>
theorem usable_target_works:
  assumes "sr_verdict (run_probe e t) = Usable"
    and "tg_matches_sni t \<longrightarrow> tg_normalized_sni t \<noteq> [] \<and> tg_normalized_host t \<noteq> []"
  shows "\<exists>resolved r obs. tg_matches_sni t \<and> pe_resolve e (tg_host t) = Inr resolved
    \<and> length (deduplicate_addresses resolved) \<le> pe_address_limit e
    \<and> (\<forall>a\<in>set resolved. answers e t (rs_address a)) \<and> r \<in> set resolved
    \<and> obs = pe_tls e 0 (rs_address r) (tg_normalized_sni t) (tg_port t)
    \<and> tls_authorized obs \<and> tls_protocol obs = ''TLSv1.3''
    \<and> certificate_covers (tls_names obs) (tg_normalized_sni t)
    \<and> (\<exists>a b. tls_valid_from obs = Some a \<and> tls_valid_to obs = Some b \<and> a \<le> pe_now e \<and> pe_now e \<le> b)
    \<and> xr_key_exchange (pe_xray e (rs_address r) (tg_normalized_sni t) (tg_port t)) \<in> {''X25519'', ''X25519MLKEM768''}
    \<and> length (sr_latency_samples (run_probe e t)) = 3
    \<and> (\<exists>m j. median_int (sr_latency_samples (run_probe e t)) = Some m \<and> m \<le> pe_latency_warning e
        \<and> range_int (sr_latency_samples (run_probe e t)) = Some j \<and> j \<le> pe_jitter_warning e)"
proof -
  from assms obtain resolved unique x obs where u: "tg_matches_sni t" "pe_resolve e (tg_host t) = Inr resolved"
    "unique = deduplicate_addresses resolved" "length unique \<le> pe_address_limit e"
    "list_all (\<lambda>r. answers e t (rs_address r)) unique"
    "list_all clean_check (security_checks e t x obs)"
    "selected_probe e t unique \<noteq> None \<longrightarrow>
       x = ap_xray (the (selected_probe e t unique)) \<and> obs = ap_tls (the (selected_probe e t unique))"
    "sr_latency_samples (run_probe e t) = collect_latencies e t (selected_probe e t unique)"
    "list_all clean_check (latency_checks e (sr_latency_samples (run_probe e t)))"
    by (rule run_probe_usable)
  have samples: "length (sr_latency_samples (run_probe e t)) = 3"
    "\<exists>m j. median_int (sr_latency_samples (run_probe e t)) = Some m \<and> m \<le> pe_latency_warning e
        \<and> range_int (sr_latency_samples (run_probe e t)) = Some j \<and> j \<le> pe_jitter_warning e"
    using u(9) by (auto simp: latency_checks_def Let_def metric_status_pass)
  have "selected_probe e t unique \<noteq> None"
  proof
    assume "selected_probe e t unique = None"
    with u(8) samples(1) show False by (simp add: collect_latencies_def)
  qed
  then obtain p where p: "selected_probe e t unique = Some p" by blast
  from selected_probe_from [OF p] obtain r where r: "r \<in> set unique" "p = probe_address e t r" "selectable p" .
  from probe_address_selectable [OF r(3) [unfolded r(2)]] u(7) p r(2)
  have sel: "x = Some (pe_xray e (rs_address r) (tg_normalized_sni t) (tg_port t))"
    "obs = Some (pe_tls e 0 (rs_address r) (tg_normalized_sni t) (tg_port t))"
    "tls_authorized (the obs)" "tls_protocol (the obs) = ''TLSv1.3''" by auto
  have sec: "certificate_covers (tls_names (the obs)) (tg_normalized_sni t)"
    "\<exists>a b. tls_valid_from (the obs) = Some a \<and> tls_valid_to (the obs) = Some b \<and> a \<le> pe_now e \<and> pe_now e \<le> b"
    "xr_key_exchange (the x) \<in> {''X25519'', ''X25519MLKEM768''}"
    using u(6) sel(1,2) by (auto simp: security_checks_def Let_def split: if_splits option.splits)
  have "\<forall>a\<in>set resolved. answers e t (rs_address a)" "r \<in> set resolved"
    using u(3,5) r(1) by (simp_all add: list_all_iff set_deduplicate)
  with u(1-4) sel sec samples show ?thesis
    by (intro exI [of _ resolved] exI [of _ r] exI [of _ "the obs"]) simp
qed

text \<open>An engine whose connections differ only on addresses that are not public gives the same results:
  those addresses are not contacted.\<close>

text \<open>C31: Addresses that are not public are not contacted: what their connections would give is without
  effect on the result.\<close>
theorem private_addresses_not_contacted:
  assumes "\<forall>a. is_public_address a \<longrightarrow> tcp a = pe_tcp e a \<and> (\<forall>k. tls k a = pe_tls e k a) \<and> xray a = pe_xray e a"
  shows "run_probe (e\<lparr>pe_tcp := tcp, pe_tls := tls, pe_xray := xray\<rparr>) t = run_probe e t"
proof -
  let ?e = "e\<lparr>pe_tcp := tcp, pe_tls := tls, pe_xray := xray\<rparr>"
  have addr: "probe_address ?e t r = probe_address e t r" for r
    by (cases "pe_tcp e (rs_address r) (tg_port t)") (use assms in \<open>simp_all add: probe_address_def Let_def\<close>)
  have sel: "collect_latencies ?e t (List.find selectable (map (probe_address e t) rs))
      = collect_latencies e t (List.find selectable (map (probe_address e t) rs))" for rs
  proof (cases "List.find selectable (map (probe_address e t) rs)")
    case (Some p)
    then have "selectable p" by (auto simp: find_Some_iff)
    moreover obtain r where "p = probe_address e t r" using Some by (auto simp: find_Some_iff)
    ultimately have "is_public_address (rs_address (ap_resolved p))"
      using probe_address_selectable [of e t r] by (simp add: answers_def)
    with assms Some show ?thesis
      by (cases "Option.bind (ap_tls p) tls_latency") (simp_all add: collect_latencies_def List.map_filter_simps)
  qed (simp add: collect_latencies_def)
  have m: "map (probe_address ?e t) rs = map (probe_address e t) rs" for rs by (simp add: addr)
  have s: "security_checks ?e t x obs = security_checks e t x obs" "latency_checks ?e ls = latency_checks e ls" for x obs ls
    by (simp_all add: security_checks_def latency_checks_def cong: option.case_cong)
  have f: "pe_resolve ?e = pe_resolve e" "pe_now ?e = pe_now e" "pe_address_limit ?e = pe_address_limit e" by simp_all
  show ?thesis unfolding run_probe_def Let_def m s f sel ..
qed

text \<open>The aggregate is the worst verdict in the order unusable, unverified, warning, usable.\<close>

fun severity :: "verdict \<Rightarrow> nat" where
  "severity Unusable = 3"
| "severity Unverified = 2"
| "severity Warning = 1"
| "severity Usable = 0"

lemma severity_inject: "severity v = severity w \<longleftrightarrow> v = w"
  by (cases v; cases w) simp_all

text \<open>The aggregate of a response is its worst verdict, unverified when there is none; the counts add up,
  and it is usable exactly when there are results and none is unhealthy.\<close>
theorem aggregate_is_worst_verdict:
  "let p = build_probe_response mode results in
    (results = [] \<longrightarrow> pr_aggregate p = Unverified)
    \<and> (results \<noteq> [] \<longrightarrow> pr_aggregate p \<in> sr_verdict ` set results
        \<and> (\<forall>r\<in>set results. severity (sr_verdict r) \<le> severity (pr_aggregate p)))
    \<and> ct_usable (pr_counts p) + ct_warning (pr_counts p) + ct_unusable (pr_counts p) + ct_unverified (pr_counts p)
        = length results
    \<and> pr_unhealthy p = length results - ct_usable (pr_counts p)
    \<and> (pr_aggregate p = Usable \<longleftrightarrow> results \<noteq> [] \<and> pr_unhealthy p = 0)"
proof -
  define p where "p = build_probe_response mode results"
  have agg: "pr_aggregate p = (if list_ex (\<lambda>r. sr_verdict r = Unusable) results then Unusable
      else if list_ex (\<lambda>r. sr_verdict r = Unverified) results then Unverified
      else if list_ex (\<lambda>r. sr_verdict r = Warning) results then Warning
      else if list_ex (\<lambda>r. sr_verdict r = Usable) results then Usable else Unverified)"
    by (simp add: p_def build_probe_response_def)
  have worst: "results \<noteq> [] \<Longrightarrow> pr_aggregate p \<in> sr_verdict ` set results
        \<and> (\<forall>r\<in>set results. severity (sr_verdict r) \<le> severity (pr_aggregate p))"
  proof -
    assume "results \<noteq> []"
    have all: "sr_verdict r \<in> {Unusable, Unverified, Warning, Usable}" for r by (cases "sr_verdict r") auto
    have lev: "severity v \<le> 3" "v \<noteq> Unusable \<Longrightarrow> severity v \<le> 2"
      "v \<noteq> Unusable \<Longrightarrow> v \<noteq> Unverified \<Longrightarrow> severity v \<le> 1"
      "v \<noteq> Unusable \<Longrightarrow> v \<noteq> Unverified \<Longrightarrow> v \<noteq> Warning \<Longrightarrow> severity v = 0" for v by (cases v; simp)+
    obtain r where r: "r \<in> set results" using \<open>results \<noteq> []\<close> by (cases results) auto
    consider (a) "list_ex (\<lambda>r. sr_verdict r = Unusable) results"
      | (b) "\<not> list_ex (\<lambda>r. sr_verdict r = Unusable) results" "list_ex (\<lambda>r. sr_verdict r = Unverified) results"
      | (c) "\<not> list_ex (\<lambda>r. sr_verdict r = Unusable) results" "\<not> list_ex (\<lambda>r. sr_verdict r = Unverified) results"
          "list_ex (\<lambda>r. sr_verdict r = Warning) results"
      | (d) "\<forall>r\<in>set results. sr_verdict r = Usable"
      using all by (auto simp: list_ex_iff)
    then show ?thesis
    proof cases
      case a
      then have "pr_aggregate p = Unusable" by (simp add: agg)
      with a lev(1) show ?thesis by (auto simp: list_ex_iff intro: rev_image_eqI)
    next
      case b
      then have "pr_aggregate p = Unverified" by (simp add: agg)
      with b lev(2) show ?thesis by (auto simp: list_ex_iff intro: rev_image_eqI)
    next
      case c
      then have "pr_aggregate p = Warning" by (simp add: agg)
      with c lev(3) show ?thesis by (auto simp: list_ex_iff intro: rev_image_eqI)
    next
      case d
      then have "pr_aggregate p = Usable" using r by (auto simp: agg list_ex_iff)
      with d r show ?thesis by force
    qed
  qed
  have count: "count_verdict Usable rs + count_verdict Warning rs + count_verdict Unusable rs + count_verdict Unverified rs
      = length rs" for rs
  proof (induction rs)
    case (Cons r rs)
    then show ?case by (cases "sr_verdict r") (simp_all add: count_verdict_def)
  qed (simp add: count_verdict_def)
  have unhealthy: "length (filter (\<lambda>r. sr_verdict r \<noteq> Usable) rs) = length rs - count_verdict Usable rs" for rs
    using sum_length_filter_compl [of "\<lambda>r. sr_verdict r = Usable" rs] by (simp add: count_verdict_def)
  have "pr_aggregate p = Usable \<longleftrightarrow> results \<noteq> [] \<and> pr_unhealthy p = 0"
  proof
    assume u: "pr_aggregate p = Usable"
    then have "results \<noteq> []" unfolding agg by (auto split: if_splits)
    have "sr_verdict r = Usable" if "r \<in> set results" for r
      using worst [OF \<open>results \<noteq> []\<close>] u that severity_inject [of "sr_verdict r" Usable] by simp
    with \<open>results \<noteq> []\<close> show "results \<noteq> [] \<and> pr_unhealthy p = 0"
      by (simp add: p_def build_probe_response_def filter_empty_conv)
  next
    assume u: "results \<noteq> [] \<and> pr_unhealthy p = 0"
    then have "\<forall>r\<in>set results. sr_verdict r = Usable"
      by (simp add: p_def build_probe_response_def filter_empty_conv)
    with worst u show "pr_aggregate p = Usable" by auto
  qed
  moreover have "results = [] \<longrightarrow> pr_aggregate p = Unverified" by (simp add: agg)
  moreover have "ct_usable (pr_counts p) + ct_warning (pr_counts p) + ct_unusable (pr_counts p) + ct_unverified (pr_counts p)
      = length results" "pr_unhealthy p = length results - ct_usable (pr_counts p)"
    using count [of results] unhealthy [of results] by (simp_all add: p_def build_probe_response_def)
  ultimately show ?thesis using worst unfolding Let_def p_def [symmetric] by blast
qed

text \<open>Targets of a configuration and of candidates match only with names.\<close>

lemma reality_target_names:
  "tg_matches_sni (reality_target to_ascii tag dest raw) \<longrightarrow>
     tg_normalized_sni (reality_target to_ascii tag dest raw) \<noteq> []
   \<and> tg_normalized_host (reality_target to_ascii tag dest raw) \<noteq> []"
  by (simp add: reality_target_def Let_def)

lemma normalize_hostname_name: "normalize_hostname to_ascii raw = Some n \<Longrightarrow> n \<noteq> []"
  by (auto simp: normalize_hostname_def Let_def split: if_splits option.splits)

lemma candidate_targets_names:
  "candidate_targets to_ascii cs = Inr ts \<Longrightarrow>
   list_all2 (\<lambda>c t. normalize_hostname to_ascii (cd_hostname c) = Some (tg_host t) \<and> tg_port t = cd_port c
     \<and> 1 \<le> tg_port t \<and> tg_port t \<le> 65535 \<and> tg_correlation_id t = Some (cd_correlation_id c)
     \<and> tg_normalized_sni t = tg_host t \<and> tg_normalized_host t = tg_host t \<and> tg_host t \<noteq> []) cs ts"
  by (induction cs arbitrary: ts)
    (auto simp: candidate_target_def split: if_splits option.splits sum.splits dest: normalize_hostname_name)

section \<open>Witnesses\<close>

definition sample_engine :: probe_engine where
  "sample_engine = \<lparr>pe_resolve = (\<lambda>_. Inr [\<lparr>rs_address = ''8.8.8.8'', rs_family = 4\<rparr>]),
     pe_tcp = (\<lambda>_ _. None),
     pe_tls = (\<lambda>k _ _ _. \<lparr>tls_handshake = True, tls_authorized = True, tls_authorization_error = [],
       tls_protocol = ''TLSv1.3'', tls_alpn = ''h2'', tls_valid_from = Some 0, tls_valid_to = Some 10,
       tls_names = [''*.io''], tls_latency = Some (20 + int k), tls_error = []\<rparr>),
     pe_xray = (\<lambda>_ _ _. \<lparr>xr_handshake = True, xr_key_exchange = ''X25519'', xr_command_error = []\<rparr>),
     pe_address_limit = 8, pe_latency_warning = 1000, pe_jitter_warning = 500, pe_now = 5,
     pe_format_time = (\<lambda>_. [])\<rparr>"

definition sample_target :: target where
  "sample_target = \<lparr>tg_identity = ''i'', tg_correlation_id = None, tg_inbound_tag = Some ''in'', tg_sni = ''a.io'',
     tg_normalized_sni = ''a.io'', tg_host = ''a.io'', tg_normalized_host = ''a.io'', tg_port = 443,
     tg_dest = ''a.io:443'', tg_matches_sni = True\<rparr>"

lemma sample_public: "is_public_address ''8.8.8.8''" "\<not> is_public_address ''10.0.0.1''"
proof -
  have "parse_addr ''8.8.8.8'' = Some (IP4 0x08080808, [])" "parse_addr ''10.0.0.1'' = Some (IP4 0x0a000001, [])"
    by (simp_all add: net_eval Let_def)
  then show "is_public_address ''8.8.8.8''" "\<not> is_public_address ''10.0.0.1''"
    by (simp_all add: is_public_address_def blocked_prefixes_values)
qed

lemma sample_fields:
  "tg_matches_sni sample_target" "tg_normalized_sni sample_target = ''a.io''" "tg_normalized_host sample_target = ''a.io''"
  "pe_resolve sample_engine h = Inr [\<lparr>rs_address = ''8.8.8.8'', rs_family = 4\<rparr>]" "pe_tcp sample_engine a n = None"
  "xr_handshake (pe_xray sample_engine a h n)" "xr_key_exchange (pe_xray sample_engine a h n) = ''X25519''"
  "xr_command_error (pe_xray sample_engine a h n) = []"
  "tls_handshake (pe_tls sample_engine k a h n)" "tls_authorized (pe_tls sample_engine k a h n)"
  "tls_protocol (pe_tls sample_engine k a h n) = ''TLSv1.3''" "tls_alpn (pe_tls sample_engine k a h n) = ''h2''"
  "tls_valid_from (pe_tls sample_engine k a h n) = Some 0" "tls_valid_to (pe_tls sample_engine k a h n) = Some 10"
  "tls_names (pe_tls sample_engine k a h n) = [''*.io'']" "tls_latency (pe_tls sample_engine k a h n) = Some (20 + int k)"
  "pe_address_limit sample_engine = 8" "pe_latency_warning sample_engine = 1000"
  "pe_jitter_warning sample_engine = 500" "pe_now sample_engine = 5"
  by (simp_all add: sample_target_def sample_engine_def)

lemma sample_verdict: "sr_verdict (run_probe sample_engine sample_target) = Usable"
proof -
  have covers: "certificate_covers [''*.io''] ''a.io''" by code_simp
  have one: "probe_address sample_engine sample_target \<lparr>rs_address = ''8.8.8.8'', rs_family = 4\<rparr>
      = \<lparr>ap_resolved = \<lparr>rs_address = ''8.8.8.8'', rs_family = 4\<rparr>,
         ap_address = \<lparr>ad_address = ''8.8.8.8'', ad_family = 4, ad_is_public = True, ad_status = Some St_Pass, ad_error = None\<rparr>,
         ap_tcp_ok = True, ap_xray = Some (pe_xray sample_engine ''8.8.8.8'' ''a.io'' (tg_port sample_target)),
         ap_tls = Some (pe_tls sample_engine 0 ''8.8.8.8'' ''a.io'' (tg_port sample_target))\<rparr>"
    by (simp add: probe_address_def sample_public Let_def sample_fields pass_when_def)
  have dd: "take 8 (deduplicate_addresses [\<lparr>rs_address = ''8.8.8.8'', rs_family = 4\<rparr>]) = [\<lparr>rs_address = ''8.8.8.8'', rs_family = 4\<rparr>]"
    "deduplicate_addresses [\<lparr>rs_address = ''8.8.8.8'', rs_family = 4\<rparr>] = [\<lparr>rs_address = ''8.8.8.8'', rs_family = 4\<rparr>]"
    by (simp_all add: deduplicate_addresses_def)
  have ls: "length [20, 21, 22 :: int] = 3" "median_int [20, 21, 22] = Some 21" "range_int [20, 21, 22] = Some 2"
    by (simp_all add: median_int_def range_int_def)
  show ?thesis
    by (simp add: run_probe_def Let_def sample_fields one dd finish_usable [folded clean_check_def]
        match_check_def dns_check_def connection_checks_def count_xray_def handshake_texts_def List.map_filter_simps
        security_checks_def covers coverage_check_def latency_checks_def collect_latencies_def selectable_def
        metric_status_def ls)
qed

theorem usable_target_works_witness:
  "\<exists>r. tls_protocol (pe_tls sample_engine 0 r ''a.io'' 443) = ''TLSv1.3'' \<and> answers sample_engine sample_target r"
  using usable_target_works [OF sample_verdict] by (auto simp: sample_target_def)

theorem private_addresses_not_contacted_witness:
  "run_probe (sample_engine\<lparr>pe_tcp := (\<lambda>a p. if a = ''10.0.0.1'' then Some [] else None)\<rparr>) sample_target
     = run_probe sample_engine sample_target"
  using private_addresses_not_contacted [of "\<lambda>a p. if a = ''10.0.0.1'' then Some [] else None" sample_engine
    "pe_tls sample_engine" "pe_xray sample_engine" sample_target] sample_public
  by (auto simp: sample_engine_def)

theorem aggregate_is_worst_verdict_witness:
  "pr_aggregate (build_probe_response ''active'' [timeout_result 0 sample_target]) = Unverified"
  using aggregate_is_worst_verdict [of "''active''" "[timeout_result 0 sample_target]"]
  by (simp add: Let_def timeout_result_def finish_def new_check_def)


end
