(* ===== verification/XrayPing.thy ===== *)
theory XrayPing
  imports SniHealth
begin

text \<open>internal/snihealth/xray_ping.go: the run of xray tls ping and the reading of its output.  The command
  itself and idna are parameters.  A regular expression of the source is a search for the first place of the
  text where it matches.\<close>

section \<open>Diagnostics\<close>

definition control_rune :: "nat \<Rightarrow> bool" where
  "control_rune r \<longleftrightarrow> r \<le> 8 \<or> r = 11 \<or> r = 12 \<or> (14 \<le> r \<and> r \<le> 31) \<or> r = 127"

text \<open>The loop over the runes, up to 2048 bytes.\<close>

fun write_runes :: "nat list \<Rightarrow> nat list \<Rightarrow> nat list" where
  "write_runes result [] = result"
| "write_runes result (r # rs) =
     (if control_rune r then write_runes result rs
      else if length result + length (utf8_bytes r) > 2048 then result
      else write_runes (result @ utf8_bytes r) rs)"

definition sanitize_diagnostic :: "string \<Rightarrow> string" where
  "sanitize_diagnostic value =
     trim_space (map char_of (write_runes [] (runes (bytes_of (filter (\<lambda>c. c \<noteq> CHR 0x0D) value)))))"

section \<open>Reading the output\<close>

record xray_evidence =
  ev_handshake :: bool
  ev_tls_version :: string
  ev_key_exchange :: string
  ev_post_quantum :: "bool option"
  ev_domains :: "string list"
  ev_diagnostic :: string

text \<open>The text after a marker, at the first place where a match succeeds.\<close>

fun first_match :: "(string \<Rightarrow> 'a option) \<Rightarrow> string \<Rightarrow> string \<Rightarrow> 'a option" where
  "first_match m marker [] =
     (if has_prefix [] marker then m (drop (length marker) []) else None)"
| "first_match m marker (c # s) =
     (case (if has_prefix (to_lower (c # s)) marker then m (drop (length marker) (c # s)) else None) of
        Some x \<Rightarrow> Some x | None \<Rightarrow> first_match m marker s)"

definition line_end :: "char \<Rightarrow> bool" where
  "line_end c \<longleftrightarrow> c = CHR 0x0D \<or> c = CHR 0x0A"

definition line_of :: "string \<Rightarrow> string" where
  "line_of s = takeWhile (\<lambda>c. \<not> line_end c) s"

text \<open>The rest of the line; with nothing but white space left, the text would be empty anyway.\<close>

definition match_version :: "string \<Rightarrow> string option" where
  "match_version s = (let rest = dropWhile re_space s in if rest = [] then None else Some (line_of rest))"

text \<open>A text in parentheses that opens as late on the line as it can.\<close>

definition parenthesized :: "string \<Rightarrow> string option" where
  "parenthesized s = (let inner = before (CHR '')'') s in
     if inner \<noteq> [] \<and> length inner < length s then Some inner else None)"

definition match_key_exchange :: "string \<Rightarrow> string option" where
  "match_key_exchange s =
     (let rest = dropWhile re_space s; n = length (line_of rest);
          found = List.map_filter (\<lambda>i. if rest ! i = CHR ''('' then parenthesized (drop (Suc i) rest) else None)
            (rev [0..<n])
      in case found of x # _ \<Rightarrow> Some x | [] \<Rightarrow> None)"

definition match_bool :: "string \<Rightarrow> string option" where
  "match_bool s = (let rest = dropWhile re_space s in
     if has_prefix (to_lower rest) ''true'' then Some (take 4 rest)
     else if has_prefix (to_lower rest) ''false'' then Some (take 5 rest) else None)"

definition match_domains :: "string \<Rightarrow> string option" where
  "match_domains s = (case dropWhile re_space s of
     c # rest \<Rightarrow> if c = CHR ''['' \<and> CHR '']'' \<in> set rest then Some (before (CHR '']'') rest) else None
   | [] \<Rightarrow> None)"

definition capture :: "(string \<Rightarrow> string option) \<Rightarrow> string \<Rightarrow> string \<Rightarrow> string" where
  "capture m marker s = (case first_match m marker s of Some x \<Rightarrow> trim_space x | None \<Rightarrow> [])"

definition cut_at :: "string \<Rightarrow> string \<Rightarrow> nat \<Rightarrow> nat" where
  "cut_at s marker n = (case first_match (\<lambda>t. Some (length s - length t - length marker)) marker s of
     Some i \<Rightarrow> min i n | None \<Rightarrow> n)"

definition sni_section :: "string \<Rightarrow> string" where
  "sni_section output = (case first_match Some ''pinging with sni'' output of
     None \<Rightarrow> []
   | Some s \<Rightarrow> take (cut_at s (CHR 0x0A # ''tls ping finished'') (cut_at s (CHR 0x0A # ''---'') (length s))) s)"

definition evidence_line :: "string \<Rightarrow> bool" where
  "evidence_line line \<longleftrightarrow> (let s = to_lower (trim_space line) in
     has_prefix s ''handshake succeeded'' \<or> has_prefix s ''tls version:''
     \<or> has_prefix s ''tls post-quantum'' \<or> has_prefix s (''cert'' @ [CHR 0x27]))"

definition parse_xray_output :: "string \<Rightarrow> xray_evidence" where
  "parse_xray_output output =
     (let s = sni_section output;
          key = capture match_key_exchange ''tls post-quantum key exchange:'' s;
          quantum = capture match_bool ''tls post-quantum key exchange:'' s;
          domains = capture match_domains (''cert'' @ [CHR 0x27] @ ''s allowed domains:'') s
      in \<lparr>ev_handshake = contains_text (to_lower s) ''handshake succeeded'',
          ev_tls_version = capture match_version ''tls version:'' s,
          ev_key_exchange = (if key \<in> {''X25519'', ''X25519MLKEM768'', ''RSA Exchange''} then key else []),
          ev_post_quantum = (if quantum = [] then None else Some (to_lower quantum = ''true'')),
          ev_domains = take 64 (split_fields domains),
          ev_diagnostic = sanitize_diagnostic
            (join_with [CHR 0x0A] (filter (\<lambda>l. \<not> evidence_line l) (split_on (CHR 0x0A) s)))\<rparr>)"

section \<open>The run\<close>

record ping_result =
  pg_evidence :: xray_evidence
  pg_command_error :: string
  pg_timed_out :: bool

definition failed_xray_result :: "string \<Rightarrow> bool \<Rightarrow> ping_result" where
  "failed_xray_result message timed_out =
     \<lparr>pg_evidence = \<lparr>ev_handshake = False, ev_tls_version = [], ev_key_exchange = [], ev_post_quantum = None,
        ev_domains = [], ev_diagnostic = message\<rparr>, pg_command_error = message, pg_timed_out = timed_out\<rparr>"

text \<open>The runner gives the output, the text of an error, and whether its time was up.\<close>

definition ping ::
  "(string \<Rightarrow> string option) \<Rightarrow> (string list \<Rightarrow> string \<times> string option \<times> bool)
   \<Rightarrow> string \<Rightarrow> string \<Rightarrow> int \<Rightarrow> ping_result \<times> string list list"
where
  "ping to_ascii runner address hostname port =
     (case normalize_hostname to_ascii hostname of
        None \<Rightarrow> (failed_xray_result ''Invalid public Xray TLS ping target.'' False, [])
      | Some host \<Rightarrow>
          if \<not> is_public_address address \<or> port < 1 \<or> port > 65535
            then (failed_xray_result ''Invalid public Xray TLS ping target.'' False, [])
          else
            (let args = [''tls'', ''ping'', ''-ip'', address, host @ '':'' @ format_int 10 port];
                 (output, err, timed_out) = runner args; evidence = parse_xray_output output in
             (case err of
                None \<Rightarrow> \<lparr>pg_evidence = evidence, pg_command_error = [], pg_timed_out = False\<rparr>
              | Some message \<Rightarrow>
                  (let d = sanitize_diagnostic output;
                       d = (if d = [] then sanitize_diagnostic message else d);
                       diagnostic = (if d = [] then ''Xray TLS ping failed.'' else d) in
                   \<lparr>pg_evidence = evidence\<lparr>ev_handshake := False,
                        ev_diagnostic := (if ev_diagnostic evidence = [] then diagnostic else ev_diagnostic evidence)\<rparr>,
                    pg_command_error = diagnostic, pg_timed_out = timed_out\<rparr>), [args])))"

text \<open>The buffer of the output: 64 KiB are kept, the rest is dropped.\<close>

definition bounded_write :: "nat \<Rightarrow> string \<Rightarrow> string \<Rightarrow> string" where
  "bounded_write limit value buffer = (let remaining = limit - length buffer in
     if length buffer < limit then buffer @ (if length value > remaining then take remaining value else value)
     else buffer)"

text \<open>The adapter of the probes.\<close>

definition xray_adapter ::
  "(string \<Rightarrow> string option) \<Rightarrow> (string list \<Rightarrow> string \<times> string option \<times> bool)
   \<Rightarrow> string \<Rightarrow> string \<Rightarrow> int \<Rightarrow> xray_result"
where
  "xray_adapter to_ascii runner address hostname port =
     (let r = fst (ping to_ascii runner address hostname port) in
      \<lparr>xr_handshake = ev_handshake (pg_evidence r), xr_key_exchange = ev_key_exchange (pg_evidence r),
       xr_command_error = pg_command_error r\<rparr>)"

section \<open>Properties\<close>

lemma write_runes_length: "length result \<le> 2048 \<Longrightarrow> length (write_runes result rs) \<le> 2048"
  by (induction result rs rule: write_runes.induct) auto

lemma length_trim_space: "length (trim_space s) \<le> length s"
  using length_dropWhile_le [of is_space "rev (dropWhile is_space s)"] length_dropWhile_le [of is_space s]
  by (simp add: trim_space_def)

lemma sanitize_diagnostic_length: "length (sanitize_diagnostic s) \<le> 2048"
  unfolding sanitize_diagnostic_def by (rule le_trans [OF length_trim_space]) (simp add: write_runes_length)

text \<open>Xray is run only on a public address with a normalised name and a port in range; what is read from
  its output is bounded, and a run that failed never counts as a handshake.\<close>
theorem ping_is_guarded_and_bounded:
  assumes "ping to_ascii runner address hostname port = (r, cmds)"
  shows "length (ev_diagnostic (pg_evidence r)) \<le> 2048 \<and> length (pg_command_error r) \<le> 2048
    \<and> length (ev_domains (pg_evidence r)) \<le> 64
    \<and> ev_key_exchange (pg_evidence r) \<in> {[], ''X25519'', ''X25519MLKEM768'', ''RSA Exchange''}
    \<and> (ev_handshake (pg_evidence r) \<longrightarrow> pg_command_error r = [])
    \<and> (cmds = [] \<and> pg_command_error r \<noteq> [] \<or>
       (\<exists>host. normalize_hostname to_ascii hostname = Some host \<and> is_public_address address
         \<and> 1 \<le> port \<and> port \<le> 65535
         \<and> cmds = [[''tls'', ''ping'', ''-ip'', address, host @ '':'' @ format_int 10 port]]))"
proof -
  have ev: "length (ev_diagnostic (parse_xray_output s)) \<le> 2048" "length (ev_domains (parse_xray_output s)) \<le> 64"
    "ev_key_exchange (parse_xray_output s) \<in> {[], ''X25519'', ''X25519MLKEM768'', ''RSA Exchange''}" for s
    by (simp_all add: parse_xray_output_def Let_def sanitize_diagnostic_length)
  have fail: "length (ev_diagnostic (pg_evidence (failed_xray_result ''Invalid public Xray TLS ping target.'' False))) \<le> 2048"
    "length (pg_command_error (failed_xray_result ''Invalid public Xray TLS ping target.'' False)) \<le> 2048"
    by (simp_all add: failed_xray_result_def)
  show ?thesis
  proof (cases "normalize_hostname to_ascii hostname")
    case None
    with assms fail show ?thesis by (auto simp: ping_def failed_xray_result_def)
  next
    case (Some host)
    note host = this
    show ?thesis
    proof (cases "\<not> is_public_address address \<or> port < 1 \<or> port > 65535")
      case True
      with assms host fail show ?thesis by (auto simp: ping_def failed_xray_result_def)
    next
      case False
      let ?args = "[''tls'', ''ping'', ''-ip'', address, host @ '':'' @ format_int 10 port]"
      obtain out err timed_out where run: "runner ?args = (out, err, timed_out)" using prod_cases3 by blast
      note ping = assms [unfolded ping_def host option.case if_not_P [OF False] Let_def run prod.case]
      have cmds: "cmds = [?args]" using ping by simp
      have "length (ev_diagnostic (pg_evidence r)) \<le> 2048 \<and> length (pg_command_error r) \<le> 2048
          \<and> length (ev_domains (pg_evidence r)) \<le> 64
          \<and> ev_key_exchange (pg_evidence r) \<in> {[], ''X25519'', ''X25519MLKEM768'', ''RSA Exchange''}
          \<and> (ev_handshake (pg_evidence r) \<longrightarrow> pg_command_error r = [])"
      proof (cases err)
        case None
        with ping have "r = \<lparr>pg_evidence = parse_xray_output out, pg_command_error = [], pg_timed_out = False\<rparr>" by simp
        with ev [of out] show ?thesis by simp
      next
        case (Some message)
        define d where "d = (if sanitize_diagnostic out = [] then sanitize_diagnostic message else sanitize_diagnostic out)"
        define e where "e = (if d = [] then ''Xray TLS ping failed.'' else d)"
        have "length d \<le> 2048" using sanitize_diagnostic_length by (simp add: d_def)
        then have e: "length e \<le> 2048" by (simp add: e_def)
        have "r = \<lparr>pg_evidence = (parse_xray_output out)\<lparr>ev_handshake := False,
            ev_diagnostic := (if ev_diagnostic (parse_xray_output out) = [] then e else ev_diagnostic (parse_xray_output out))\<rparr>,
            pg_command_error = e, pg_timed_out = timed_out\<rparr>"
          using ping unfolding Some option.case d_def e_def by simp
        then show ?thesis using ev [of out] e by simp
      qed
      then show ?thesis using cmds host False by simp
    qed
  qed
qed

lemma bounded_writes:
  "length buffer \<le> limit \<Longrightarrow> fold (bounded_write limit) ws buffer = take limit (buffer @ concat ws)"
proof (induction ws arbitrary: buffer)
  case (Cons w ws)
  have "bounded_write limit w buffer = take limit (buffer @ w)" using Cons.prems by (auto simp: bounded_write_def Let_def)
  moreover have "take limit (take limit (buffer @ w) @ u) = take limit ((buffer @ w) @ u)" for u by (simp add: min_def)
  ultimately show ?case using Cons.IH [of "take limit (buffer @ w)"] by simp
qed simp

section \<open>Witnesses\<close>

theorem ping_is_guarded_and_bounded_witness:
  "\<exists>r. ping Some (\<lambda>_. ([], Some ''exit status 1'', False)) ''8.8.8.8'' ''a.io'' 443
       = (r, [[''tls'', ''ping'', ''-ip'', ''8.8.8.8'', ''a.io:443'']])
     \<and> length (pg_command_error r) \<le> 2048 \<and> \<not> ev_handshake (pg_evidence r)"
proof -
  obtain r cmds where run: "ping Some (\<lambda>_. ([], Some ''exit status 1'', False)) ''8.8.8.8'' ''a.io'' 443 = (r, cmds)" by force
  have norm: "normalize_hostname Some ''a.io'' = Some ''a.io''" by code_simp
  have "cmds = [[''tls'', ''ping'', ''-ip'', ''8.8.8.8'', ''a.io:443'']]" "\<not> ev_handshake (pg_evidence r)"
    using run by (auto simp: ping_def norm sample_public Let_def format_int_def base_digits.simps digit_char_table)
  moreover have "length (pg_command_error r) \<le> 2048" using ping_is_guarded_and_bounded [OF run] by blast
  ultimately show ?thesis using run by blast
qed

end
