(* ===== verification/TcpStats.thy ===== *)
theory TcpStats
  imports NetPrefix "HOL-Library.Multiset"
begin

text \<open>internal/tcpstats: the tables of /proc/net, the connections of peers to the listening ports, and the
  list of listening ports of ss.\<close>

section \<open>Addresses in the tables\<close>

definition upper_char :: "char \<Rightarrow> char" where
  "upper_char c = (if 97 \<le> (of_char c :: nat) \<and> (of_char c :: nat) \<le> 122
     then char_of ((of_char c :: nat) - 32) else c)"

definition to_upper :: "string \<Rightarrow> string" where
  "to_upper s = map upper_char s"

text \<open>hex.DecodeString.\<close>

fun hex_bytes :: "string \<Rightarrow> nat list option" where
  "hex_bytes [] = Some []"
| "hex_bytes [c] = None"
| "hex_bytes (a # b # s) =
     (if hex_char a \<and> hex_char b then map_option ((#) (hex_val [a, b])) (hex_bytes s) else None)"

definition dotted_bytes :: "nat list \<Rightarrow> string" where
  "dotted_bytes bs = join_with ''.'' (map (base_digits 10) bs)"

definition decode_hex4 :: "string \<Rightarrow> string option" where
  "decode_hex4 s = map_option (dotted_bytes \<circ> rev) (hex_bytes s)"

fun swap_words :: "nat list \<Rightarrow> nat list" where
  "swap_words (a # b # c # d # bs) = d # c # b # a # swap_words bs"
| "swap_words bs = bs"

fun pair_groups :: "nat list \<Rightarrow> nat list" where
  "pair_groups (a # b # bs) = (a * 256 + b) # pair_groups bs"
| "pair_groups bs = []"

text \<open>The recursive call of DecodeHexIPAddress is for the last eight digits of an upper-case text.\<close>

definition decode_hex_ip_address :: "string \<Rightarrow> string option" where
  "decode_hex_ip_address raw =
     (let s = to_upper (trim_space raw) in
      if length s = 8 then decode_hex4 s
      else if length s \<noteq> 32 then None
      else if has_prefix s (replicate 20 (CHR ''0'') @ ''FFFF'')
          \<or> has_prefix s (replicate 16 (CHR ''0'') @ ''FFFF0000'') then
        (let last8 = to_upper (trim_space (drop 24 s)) in
         if length last8 = 8 then decode_hex4 last8 else None)
      else map_option (\<lambda>bs. join_with '':'' (map (base_digits 16) (pair_groups (swap_words bs)))) (hex_bytes s))"

section \<open>Rows\<close>

record proc_row =
  pw_local_port :: string
  pw_remote_ip :: string
  pw_state :: string

definition parse_proc_row :: "string \<Rightarrow> proc_row option" where
  "parse_proc_row line =
     (let fs = split_fields (trim_space line) in
      if length fs < 4 then None
      else
        (let addr = before (CHR '':'') (fs ! 1); port = drop (Suc (length addr)) (fs ! 1);
             remote = before (CHR '':'') (fs ! 2) in
         if CHR '':'' \<notin> set (fs ! 1) \<or> CHR '':'' \<notin> set (fs ! 2) then None
         else if port = [] \<or> \<not> list_all hex_char port \<or> hex_val port \<ge> 2 ^ 16 then None
         else Some \<lparr>pw_local_port = to_upper port, pw_remote_ip = to_upper remote,
             pw_state = to_upper (fs ! 3)\<rparr>))"

definition parse_proc_rows :: "string \<Rightarrow> proc_row list" where
  "parse_proc_rows content = List.map_filter parse_proc_row (split_on (CHR 0x0A) content)"

record tcp_stats =
  ts_established :: nat
  ts_total :: nat
  ts_listening :: nat
  ts_time_wait :: nat

definition no_stats :: tcp_stats where
  "no_stats = \<lparr>ts_established = 0, ts_total = 0, ts_listening = 0, ts_time_wait = 0\<rparr>"

definition count_row :: "proc_row \<Rightarrow> tcp_stats \<Rightarrow> tcp_stats" where
  "count_row row st0 =
     (let st = st0\<lparr>ts_total := ts_total st0 + 1\<rparr> in
      if pw_state row = ''01'' then st\<lparr>ts_established := ts_established st + 1\<rparr>
      else if pw_state row = ''0A'' then st\<lparr>ts_listening := ts_listening st + 1\<rparr>
      else if pw_state row = ''06'' then st\<lparr>ts_time_wait := ts_time_wait st + 1\<rparr>
      else st)"

definition parse_proc_net_tcp_stats :: "string \<Rightarrow> tcp_stats" where
  "parse_proc_net_tcp_stats content = fold count_row (parse_proc_rows content) no_stats"

text \<open>The contents of the files that can be read.\<close>

definition read_stats :: "string option list \<Rightarrow> tcp_stats" where
  "read_stats files = fold (\<lambda>content r. let st = parse_proc_net_tcp_stats content in
       \<lparr>ts_established = ts_established r + ts_established st, ts_total = ts_total r + ts_total st,
        ts_listening = ts_listening r + ts_listening st, ts_time_wait = ts_time_wait r + ts_time_wait st\<rparr>)
     (List.map_filter id files) no_stats"

definition read_udp_connection_count :: "string option list \<Rightarrow> nat" where
  "read_udp_connection_count files =
     sum_list (map (\<lambda>content. length (parse_proc_rows content)) (List.map_filter id files))"

section \<open>Peers\<close>

record peer_connection =
  pc_established :: nat
  pc_source_ip :: string
  pc_total :: nat

definition is_loopback_or_unspecified :: "string \<Rightarrow> bool" where
  "is_loopback_or_unspecified s = (case parse_ip s of
     None \<Rightarrow> True
   | Some ip \<Rightarrow> (case to4 ip of
       Some n \<Rightarrow> n div 2 ^ 24 = 127 \<or> n = 0 | None \<Rightarrow> addr_val ip = 1 \<or> addr_val ip = 0))"

text \<open>The peer of a row to one of the listening ports.\<close>

definition counted_peer :: "string set \<Rightarrow> proc_row \<Rightarrow> string option" where
  "counted_peer listeners row =
     (if to_upper (pw_local_port row) \<notin> listeners then None
      else case decode_hex_ip_address (pw_remote_ip row) of
        None \<Rightarrow> None
      | Some ip \<Rightarrow> if is_loopback_or_unspecified ip then None else Some ip)"

text \<open>The counts in the order of their first rows.\<close>

fun bump_peer :: "string \<Rightarrow> nat \<Rightarrow> peer_connection list \<Rightarrow> peer_connection list" where
  "bump_peer ip e [] = [\<lparr>pc_established = e, pc_source_ip = ip, pc_total = 1\<rparr>]"
| "bump_peer ip e (p # ps) =
     (if pc_source_ip p = ip
      then p\<lparr>pc_total := pc_total p + 1, pc_established := pc_established p + e\<rparr> # ps
      else p # bump_peer ip e ps)"

definition listening_local_ports :: "proc_row list \<Rightarrow> string set" where
  "listening_local_ports rows =
     set (map (to_upper \<circ> pw_local_port) (filter (\<lambda>r. pw_state r = ''0A'' \<and> pw_local_port r \<noteq> []) rows))"

definition count_peer :: "string set \<Rightarrow> proc_row \<Rightarrow> peer_connection list \<Rightarrow> peer_connection list" where
  "count_peer listeners row ps = (case counted_peer listeners row of
     None \<Rightarrow> ps | Some ip \<Rightarrow> bump_peer ip (if pw_state row = ''01'' then 1 else 0) ps)"

text \<open>A stable sort by falling numbers of established connections.\<close>

definition parse_peer_connections :: "string list \<Rightarrow> peer_connection list" where
  "parse_peer_connections contents =
     (let rows = concat (map parse_proc_rows contents) in
      sort_key (\<lambda>p. - int (pc_established p)) (fold (count_peer (listening_local_ports rows)) rows []))"

definition read_peer_connections :: "string option list \<Rightarrow> peer_connection list" where
  "read_peer_connections files =
     (let contents = List.map_filter id files in
      if contents = [] then [] else parse_peer_connections contents)"

section \<open>Listening ports\<close>

record listening_port =
  lp_networks :: "string list"
  lp_port :: int

text \<open>Network and port of a line; the port is the digits after the last colon.\<close>

definition parse_listening_line :: "string \<Rightarrow> (string \<times> int) option" where
  "parse_listening_line line =
     (let cs = split_fields (trim_space line) in
      if length cs < 5 \<or> cs ! 0 \<notin> {''tcp'', ''udp''} then None
      else case last_index (CHR '':'') (cs ! 4) of
        None \<Rightarrow> None
      | Some i \<Rightarrow>
          (let digits = drop (Suc i) (cs ! 4) in
           if digits = [] \<or> \<not> list_all is_digit digits then None
           else case atoi digits of
             None \<Rightarrow> None
           | Some port \<Rightarrow> if port < 1 \<or> port > 65535 then None else Some (cs ! 0, port)))"

definition parse_listening_ports :: "string \<Rightarrow> listening_port list" where
  "parse_listening_ports out =
     (let found = List.map_filter parse_listening_line (split_on (CHR 0x0A) out) in
      map (\<lambda>port. \<lparr>lp_networks = filter (\<lambda>net. (net, port) \<in> set found) [''tcp'', ''udp''], lp_port = port\<rparr>)
        (sorted_list_of_set (snd ` set found)))"

text \<open>The output of ss, unless it failed.\<close>

definition collect_listening_ports :: "string option \<Rightarrow> listening_port list option" where
  "collect_listening_ports out = map_option parse_listening_ports out"

section \<open>The addresses of the kernel\<close>

text \<open>The kernel prints each 32-bit word of an address with %08X on a little-endian machine.\<close>

definition hex_byte :: "nat \<Rightarrow> string" where
  "hex_byte b = [''0123456789ABCDEF'' ! (b div 16), ''0123456789ABCDEF'' ! (b mod 16)]"

definition kernel_hex :: "nat list \<Rightarrow> string" where
  "kernel_hex bs = concat (map hex_byte (swap_words bs))"

fun addr_bytes :: "ip_addr \<Rightarrow> nat list" where
  "addr_bytes (IP4 n) = be_bytes 4 n"
| "addr_bytes (IP6 n) = be_bytes 16 n"

lemma hex_digit_table:
  "\<forall>d\<in>{0..<16}. (let c = ''0123456789ABCDEF'' ! d in
     hex_char c \<and> hex_val [c] = d \<and> upper_char c = c \<and> \<not> is_space c)"
proof -
  have "{0..<16::nat} = {0, 1, 2, 3, 4, 5, 6, 7, 8, 9, 10, 11, 12, 13, 14, 15}"
    by (simp add: atLeastLessThan_nat_numeral insert_commute)
  then show ?thesis
    by (simp add: hex_char_def is_digit_def hex_val_def base_val_def digit_val_def lower_char_def upper_char_def is_space_def Let_def)
qed

lemma hex_digit:
  assumes "d < 16"
  shows "hex_char (''0123456789ABCDEF'' ! d) \<and> hex_val [''0123456789ABCDEF'' ! d] = d
    \<and> upper_char (''0123456789ABCDEF'' ! d) = ''0123456789ABCDEF'' ! d
    \<and> \<not> is_space (''0123456789ABCDEF'' ! d)"
  using hex_digit_table assms by (simp only: Let_def) auto

lemma hex_val_pair: "hex_val [a, b] = hex_val [a] * 16 + hex_val [b]"
  by (simp add: hex_val_def base_val_def)

lemma hex_byte_facts:
  assumes "b < 256"
  shows "hex_bytes (hex_byte b @ s) = map_option ((#) b) (hex_bytes s)"
    "map upper_char (hex_byte b) = hex_byte b" "list_all (\<lambda>c. \<not> is_space c) (hex_byte b)"
proof -
  have d: "b div 16 < 16" "b mod 16 < 16" using assms by auto
  note f = hex_digit [OF d(1)] hex_digit [OF d(2)]
  show "hex_bytes (hex_byte b @ s) = map_option ((#) b) (hex_bytes s)"
    using f by (simp only: hex_byte_def append_Cons append_Nil hex_bytes.simps hex_val_pair) simp
  show "map upper_char (hex_byte b) = hex_byte b" "list_all (\<lambda>c. \<not> is_space c) (hex_byte b)"
    using f by (simp_all only: hex_byte_def list.map list.pred_inject) simp_all
qed

lemma hex_bytes_text: "list_all (\<lambda>b. b < 256) bs \<Longrightarrow> hex_bytes (concat (map hex_byte bs)) = Some bs"
proof (induction bs)
  case (Cons b bs)
  then show ?case using hex_byte_facts(1) [of b "concat (map hex_byte bs)"] by simp
qed simp

lemma hex_text_upper: "list_all (\<lambda>b. b < 256) bs \<Longrightarrow> to_upper (concat (map hex_byte bs)) = concat (map hex_byte bs)"
  by (induction bs) (auto simp: to_upper_def hex_byte_facts)

lemma hex_text_no_space: "list_all (\<lambda>b. b < 256) bs \<Longrightarrow> list_all (\<lambda>c. \<not> is_space c) (concat (map hex_byte bs))"
  by (induction bs) (auto simp: hex_byte_facts)

lemma length_hex_text [simp]: "length (concat (map hex_byte bs)) = 2 * length bs"
  by (induction bs) (auto simp: hex_byte_def)

lemma drop_hex_text: "drop (2 * k) (concat (map hex_byte bs)) = concat (map hex_byte (drop k bs))"
proof (induction k arbitrary: bs)
  case (Suc k)
  then show ?case by (cases bs) (auto simp: hex_byte_def)
qed simp

lemma take_hex_text: "take (2 * k) (concat (map hex_byte bs)) = concat (map hex_byte (take k bs))"
proof (induction k arbitrary: bs)
  case (Suc k)
  then show ?case by (cases bs) (auto simp: hex_byte_def)
qed simp

lemma has_prefix_hex_text:
  assumes "list_all (\<lambda>b. b < 256) bs" "list_all (\<lambda>b. b < 256) cs"
  shows "has_prefix (concat (map hex_byte bs)) (concat (map hex_byte cs)) \<longleftrightarrow> take (length cs) bs = cs"
proof -
  have "has_prefix (concat (map hex_byte bs)) (concat (map hex_byte cs))
     \<longleftrightarrow> concat (map hex_byte (take (length cs) bs)) = concat (map hex_byte cs)"
    using take_hex_text [of "length cs" bs] by (simp add: has_prefix_def)
  also have "\<dots> \<longleftrightarrow> take (length cs) bs = cs"
  proof
    assume "concat (map hex_byte (take (length cs) bs)) = concat (map hex_byte cs)"
    then have "hex_bytes (concat (map hex_byte (take (length cs) bs))) = hex_bytes (concat (map hex_byte cs))"
      by (rule arg_cong)
    moreover have "list_all (\<lambda>b. b < 256) (take (length cs) bs)"
      using assms(1) by (auto simp: list_all_iff dest: in_set_takeD)
    ultimately show "take (length cs) bs = cs" using assms(2) by (simp add: hex_bytes_text)
  qed simp
  finally show ?thesis .
qed

lemma bytes_below: "list_all (\<lambda>b. b < 256) (be_bytes k n)"
  by (auto simp: be_bytes_def le_bytes_def list_all_iff)

lemma be_bytes_4: "be_bytes 4 n = [n div 2 ^ 24 mod 256, n div 2 ^ 16 mod 256, n div 2 ^ 8 mod 256, n mod 256]"
  by (simp add: be_bytes_def le_bytes_def upt_rec)

lemma decode_hex4_text:
  assumes "length bs = 4" "list_all (\<lambda>b. b < 256) bs"
  shows "decode_hex4 (kernel_hex bs) = Some (dotted_bytes bs)"
proof -
  obtain a b c d where bs: "bs = [a, b, c, d]" using assms(1) by (auto simp: eval_nat_numeral length_Suc_conv)
  with assms(2) show ?thesis
    using hex_bytes_text [of "swap_words bs"] by (simp add: decode_hex4_def kernel_hex_def)
qed

lemma kernel_hex_plain:
  assumes "list_all (\<lambda>b. b < 256) (swap_words bs)"
  shows "to_upper (trim_space (kernel_hex bs)) = kernel_hex bs"
  using hex_text_no_space [OF assms] hex_text_upper [OF assms] by (simp add: kernel_hex_def trim_space_id)

lemma swap_words_16:
  assumes "length bs = 16"
  shows "length (swap_words bs) = 16" "swap_words (swap_words bs) = bs" "set (swap_words bs) = set bs"
    "drop 12 (swap_words bs) = swap_words (drop 12 bs)"
proof -
  from assms obtain a b c d e f g h i j k l m n p q where
    bs: "bs = [a, b, c, d, e, f, g, h, i, j, k, l, m, n, p, q]"
    by (auto simp: eval_nat_numeral length_Suc_conv)
  show "length (swap_words bs) = 16" "swap_words (swap_words bs) = bs" "set (swap_words bs) = set bs"
    "drop 12 (swap_words bs) = swap_words (drop 12 bs)"
    unfolding bs by auto
qed

lemma be_bytes_16:
  "be_bytes 16 n = map (\<lambda>i. n div 256 ^ (15 - i) mod 256) [0..<16]"
  by (simp add: be_bytes_def le_bytes_def upt_rec)

lemma pair_groups_bytes: "pair_groups (be_bytes 16 n) = groups_of n"
proof -
  have "a div 256 mod 256 * 256 + a mod 256 = a mod 65536" for a :: nat
    using mod_mult2_eq [of a 256 256] by simp
  then have g: "n div k div 256 mod 256 * 256 + n div k mod 256 = n div k mod 65536" for k :: nat by blast
  show ?thesis
    using g [of "256 ^ 14"] g [of "256 ^ 12"] g [of "256 ^ 10"] g [of "256 ^ 8"] g [of "256 ^ 6"] g [of "256 ^ 4"]
      g [of "256 ^ 2"] g [of 1]
    by (simp add: be_bytes_16 groups_of_def upt_rec flip: div_mult2_eq)
qed

lemma last_bytes: "drop 12 (be_bytes 16 n) = be_bytes 4 n"
  by (simp add: be_bytes_16 be_bytes_4 upt_rec)

lemma first_bytes: "take 12 (be_bytes 16 n) = be_bytes 12 (n div 2 ^ 32)"
  by (simp add: be_bytes_16 be_bytes_def le_bytes_def upt_rec flip: div_mult2_eq)

lemma be_bytes_eq_iff:
  assumes "m < 256 ^ k" "be_value bs < 256 ^ k" "be_bytes k (be_value bs) = bs"
  shows "be_bytes k m = bs \<longleftrightarrow> m = be_value bs"
  using assms be_value_bytes [of k m] by (metis mod_less)

lemma dotted_low: "dotted n = dotted (n mod 2 ^ 32)"
proof -
  have "n mod 2 ^ 32 div 2 ^ j mod 256 = n div 2 ^ j mod 256" if "j \<le> 24" for j
  proof -
    have e: "(2::nat) ^ 32 = 2 ^ j * 2 ^ (32 - j)" using that by (simp flip: power_add)
    have "n mod (2 ^ j * 2 ^ (32 - j)) div 2 ^ j = n div 2 ^ j mod 2 ^ (32 - j)" by (simp add: mod_mult2_eq)
    then have "n mod 2 ^ 32 div 2 ^ j = n div 2 ^ j mod 2 ^ (32 - j)" by (simp only: e)
    moreover have "256 dvd (2::nat) ^ (32 - j)"
      using that le_imp_power_dvd [of 8 "32 - j" "2::nat"] by simp
    ultimately show ?thesis by (simp add: mod_mod_cancel)
  qed
  from this [of 24] this [of 16] this [of 8] this [of 0] show ?thesis by (simp only: dotted_def) simp
qed

lemma decode_kernel_v4: "decode_hex_ip_address (kernel_hex (be_bytes 4 n)) = Some (dotted n)"
proof -
  let ?b = "be_bytes 4 n"
  have b: "list_all (\<lambda>b. b < 256) ?b" "length ?b = 4" by (simp_all add: bytes_below)
  moreover from b have "list_all (\<lambda>b. b < 256) (swap_words ?b)" "length (swap_words ?b) = 4"
    by (simp_all add: be_bytes_4)
  moreover have "dotted_bytes ?b = dotted n" by (simp add: dotted_bytes_def dotted_def be_bytes_4)
  ultimately show ?thesis
    using decode_hex4_text [of ?b] kernel_hex_plain [of ?b]
    by (simp add: decode_hex_ip_address_def Let_def kernel_hex_def)
qed

lemma hex_constants:
  "replicate 20 (CHR ''0'') @ ''FFFF'' = concat (map hex_byte (replicate 10 0 @ [255, 255]))"
  "replicate 16 (CHR ''0'') @ ''FFFF0000'' = concat (map hex_byte (replicate 8 0 @ [255, 255, 0, 0]))"
  by code_simp+

text \<open>Both tests of the code in the value of the address: the first text is that of the addresses
  ::ffff:0:a.b.c.d, the second that of ::ffff:a.b.c.d.\<close>

lemma mapped_texts:
  assumes "n < 2 ^ 128"
  shows "take 12 (swap_words (be_bytes 16 n)) = replicate 10 0 @ [255, 255] \<longleftrightarrow> n div 2 ^ 32 = 0xFFFF0000"
    "take 12 (swap_words (be_bytes 16 n)) = replicate 8 0 @ [255, 255, 0, 0] \<longleftrightarrow> n div 2 ^ 32 = 0xFFFF"
proof -
  have lt: "n div 2 ^ 32 < 256 ^ 12" using assms by (simp add: less_mult_imp_div_less)
  define bs where "bs = be_bytes 16 n"
  then have len: "length bs = 16" by simp
  then obtain a b c d e f g h i j k l m r p q where
    "bs = [a, b, c, d, e, f, g, h, i, j, k, l, m, r, p, q]"
    by (auto simp: eval_nat_numeral length_Suc_conv)
  then have bs: "be_bytes 16 n = [a, b, c, d, e, f, g, h, i, j, k, l, m, r, p, q]" by (simp add: bs_def)
  have r: "replicate 8 0 @ [255, 255, 0, 0] = [0, 0, 0, 0, 0, 0, 0, 0, 255, 255, 0, 0::nat]"
    "replicate 10 0 @ [255, 255] = [0, 0, 0, 0, 0, 0, 0, 0, 0, 0, 255, 255::nat]"
    by (simp_all add: eval_nat_numeral)
  have v: "be_value (replicate 8 0 @ [255, 255, 0, 0]) = 0xFFFF0000"
    "be_value (replicate 10 0 @ [255, 255]) = 0xFFFF"
    "be_bytes 12 0xFFFF0000 = replicate 8 0 @ [255, 255, 0, 0]" "be_bytes 12 0xFFFF = replicate 10 0 @ [255, 255]"
    unfolding r by (simp_all add: be_value_def be_bytes_def le_bytes_def upt_rec)
  have t: "take 12 (swap_words (be_bytes 16 n)) = [d, c, b, a, h, g, f, e, l, k, j, i]"
    "be_bytes 12 (n div 2 ^ 32) = [a, b, c, d, e, f, g, h, i, j, k, l]"
    by (simp add: bs, simp only: bs flip: first_bytes, simp)
  have "n div 2 ^ 32 = 0xFFFF0000 \<longleftrightarrow> [a, b, c, d, e, f, g, h, i, j, k, l] = replicate 8 0 @ [255, 255, 0, 0]"
    using be_bytes_eq_iff [OF lt, of "replicate 8 0 @ [255, 255, 0, 0]", unfolded t v] v by auto
  then show "take 12 (swap_words (be_bytes 16 n)) = replicate 10 0 @ [255, 255] \<longleftrightarrow> n div 2 ^ 32 = 0xFFFF0000"
    unfolding t r by auto
  have "n div 2 ^ 32 = 0xFFFF \<longleftrightarrow> [a, b, c, d, e, f, g, h, i, j, k, l] = replicate 10 0 @ [255, 255]"
    using be_bytes_eq_iff [OF lt, of "replicate 10 0 @ [255, 255]", unfolded t v] v by auto
  then show "take 12 (swap_words (be_bytes 16 n)) = replicate 8 0 @ [255, 255, 0, 0] \<longleftrightarrow> n div 2 ^ 32 = 0xFFFF"
    unfolding t r by auto
qed

lemma decode_last_word:
  "decode_hex4 (kernel_hex (be_bytes 4 n)) = Some (dotted (n mod 2 ^ 32))"
  "to_upper (trim_space (kernel_hex (be_bytes 4 n))) = kernel_hex (be_bytes 4 n)"
  "length (kernel_hex (be_bytes 4 n)) = 8"
proof -
  have b: "list_all (\<lambda>b. b < 256) (be_bytes 4 n)" by (rule bytes_below)
  moreover from b have "list_all (\<lambda>b. b < 256) (swap_words (be_bytes 4 n))" by (simp add: be_bytes_4)
  moreover have "dotted_bytes (be_bytes 4 n) = dotted (n mod 2 ^ 32)"
    using dotted_low [of n] by (simp add: dotted_bytes_def dotted_def be_bytes_4)
  ultimately show "decode_hex4 (kernel_hex (be_bytes 4 n)) = Some (dotted (n mod 2 ^ 32))"
    "to_upper (trim_space (kernel_hex (be_bytes 4 n))) = kernel_hex (be_bytes 4 n)"
    using decode_hex4_text [of "be_bytes 4 n"] kernel_hex_plain [of "be_bytes 4 n"] by simp_all
  show "length (kernel_hex (be_bytes 4 n)) = 8" by (simp add: kernel_hex_def be_bytes_4 hex_byte_def)
qed

text \<open>C35: Every address of the kernel is decoded: IPv4 and mapped addresses to the dotted form, the others to
  eight groups.  An address ::ffff:0:a.b.c.d counts as mapped, too.\<close>

theorem kernel_address_decoded:
  assumes "addr_val a < 2 ^ bit_len a"
  shows "decode_hex_ip_address (kernel_hex (addr_bytes a)) = Some (case a of
      IP4 n \<Rightarrow> dotted n
    | IP6 n \<Rightarrow> if n div 2 ^ 32 \<in> {0xFFFF, 0xFFFF0000} then dotted (n mod 2 ^ 32) else colon_hex (groups_of n))"
proof (cases a)
  case (IP4 n)
  then show ?thesis by (simp add: decode_kernel_v4)
next
  case (IP6 n)
  let ?b = "be_bytes 16 n" and ?s = "swap_words (be_bytes 16 n)"
  have n: "n < 2 ^ 128" using assms IP6 by simp
  have len: "length ?b = 16" by simp
  note sw = swap_words_16 [OF len]
  have below: "list_all (\<lambda>b. b < 256) ?s"
    using bytes_below [of 16 n] by (simp only: list_all_iff sw)
  have low: "list_all (\<lambda>b. b < 256) (replicate 10 0 @ [255, 255 :: nat])"
    "list_all (\<lambda>b. b < 256) (replicate 8 0 @ [255, 255, 0, 0 :: nat])"
    by (simp_all add: list_all_iff)
  have p: "has_prefix (kernel_hex ?b) (replicate 20 (CHR ''0'') @ ''FFFF'') \<longleftrightarrow> n div 2 ^ 32 = 0xFFFF0000"
    "has_prefix (kernel_hex ?b) (replicate 16 (CHR ''0'') @ ''FFFF0000'') \<longleftrightarrow> n div 2 ^ 32 = 0xFFFF"
    using mapped_texts [OF n] has_prefix_hex_text [OF below low(1)] has_prefix_hex_text [OF below low(2)]
    by (simp_all add: hex_constants kernel_hex_def)
  have plain: "to_upper (trim_space (kernel_hex ?b)) = kernel_hex ?b"
    using below by (rule kernel_hex_plain)
  have long: "length (kernel_hex ?b) = 32" by (simp add: kernel_hex_def sw)
  have last8: "drop 24 (kernel_hex ?b) = kernel_hex (be_bytes 4 n)"
    using drop_hex_text [of 12 ?s] by (simp add: kernel_hex_def sw last_bytes)
  note d = decode_last_word [of n]
  have g: "map_option (\<lambda>bs. join_with '':'' (map (base_digits 16) (pair_groups (swap_words bs))))
      (hex_bytes (kernel_hex ?b)) = Some (colon_hex (groups_of n))"
    using below by (simp add: kernel_hex_def hex_bytes_text sw pair_groups_bytes colon_hex_def)
  show ?thesis
    by (simp only: IP6 addr_bytes.simps decode_hex_ip_address_def Let_def plain long last8 d p g) (auto simp: d)
qed

theorem kernel_address_decoded_witness:
  "decode_hex_ip_address (kernel_hex (addr_bytes (IP6 (0xFFFF * 2 ^ 32 + 3221225985)))) = Some (dotted 3221225985)"
  using kernel_address_decoded [of "IP6 (0xFFFF * 2 ^ 32 + 3221225985)"] by simp

section \<open>The counts of the peers\<close>

text \<open>The entry of a peer with the given rows.\<close>

definition peer_of_rows :: "string \<Rightarrow> proc_row list \<Rightarrow> peer_connection list" where
  "peer_of_rows ip rows = (if rows = [] then [] else
     [\<lparr>pc_established = length (filter (\<lambda>r. pw_state r = ''01'') rows), pc_source_ip = ip, pc_total = length rows\<rparr>])"

definition rows_of_peer :: "string set \<Rightarrow> string \<Rightarrow> proc_row list \<Rightarrow> proc_row list" where
  "rows_of_peer listeners ip rows = filter (\<lambda>r. counted_peer listeners r = Some ip) rows"

lemma bump_peer_sources:
  "set (map pc_source_ip (bump_peer ip e ps)) = insert ip (set (map pc_source_ip ps))"
  by (induction ps) auto

lemma bump_peer_distinct:
  "distinct (map pc_source_ip ps) \<Longrightarrow> distinct (map pc_source_ip (bump_peer ip e ps))"
proof (induction ps)
  case (Cons p ps)
  then show ?case using bump_peer_sources [of ip e ps] by (auto simp del: set_map)
qed simp

lemma bump_peer_other:
  "jp \<noteq> ip \<Longrightarrow> filter (\<lambda>p. pc_source_ip p = jp) (bump_peer ip e ps) = filter (\<lambda>p. pc_source_ip p = jp) ps"
  by (induction ps) auto

lemma bump_peer_same:
  "filter (\<lambda>p. pc_source_ip p = ip) (bump_peer ip e ps) = bump_peer ip e (filter (\<lambda>p. pc_source_ip p = ip) ps)"
  by (induction ps) auto

lemma bump_peer_of_rows:
  "bump_peer ip (if pw_state r = ''01'' then 1 else 0) (peer_of_rows ip rows) = peer_of_rows ip (rows @ [r])"
  by (simp add: peer_of_rows_def)

lemma fold_count_peer:
  "distinct (map pc_source_ip (fold (count_peer ls) rows []))
   \<and> (\<forall>ip. filter (\<lambda>p. pc_source_ip p = ip) (fold (count_peer ls) rows []) = peer_of_rows ip (rows_of_peer ls ip rows))"
proof (induction rows rule: rev_induct)
  case Nil
  then show ?case by (simp add: peer_of_rows_def rows_of_peer_def)
next
  case (snoc r rows)
  show ?case
  proof (cases "counted_peer ls r")
    case None
    then show ?thesis using snoc by (simp add: count_peer_def rows_of_peer_def)
  next
    case (Some jp)
    let ?ps = "fold (count_peer ls) rows []" and ?e = "if pw_state r = ''01'' then 1 else 0 :: nat"
    have step: "fold (count_peer ls) (rows @ [r]) [] = bump_peer jp ?e ?ps" by (simp add: count_peer_def Some)
    have "filter (\<lambda>p. pc_source_ip p = ip) (bump_peer jp ?e ?ps) = peer_of_rows ip (rows_of_peer ls ip (rows @ [r]))" for ip
    proof (cases "ip = jp")
      case True
      then show ?thesis
        using snoc bump_peer_of_rows [of jp r "rows_of_peer ls jp rows"]
        by (simp only: bump_peer_same) (simp add: rows_of_peer_def Some)
    next
      case False
      then show ?thesis using snoc by (simp add: bump_peer_other rows_of_peer_def Some)
    qed
    moreover have "distinct (map pc_source_ip (bump_peer jp ?e ?ps))" using snoc by (intro bump_peer_distinct) simp
    ultimately show ?thesis unfolding step by blast
  qed
qed

text \<open>ParsePeerConnections: each peer once, with the number of its rows and of its established ones, the
  peers with more established connections first.\<close>

theorem peers_counted_once:
  "let rows = concat (map parse_proc_rows contents); ls = listening_local_ports rows;
       ps = parse_peer_connections contents in
   distinct (map pc_source_ip ps) \<and> sorted_wrt (\<lambda>p q. pc_established q \<le> pc_established p) ps
   \<and> (\<forall>ip. filter (\<lambda>p. pc_source_ip p = ip) ps = peer_of_rows ip (rows_of_peer ls ip rows))"
proof -
  let ?rows = "concat (map parse_proc_rows contents)"
  let ?ls = "listening_local_ports ?rows"
  let ?ps = "fold (count_peer ?ls) ?rows []"
  let ?k = "\<lambda>p. - int (pc_established p)"
  note f = fold_count_peer [of ?ls ?rows]
  have "sorted (map ?k (sort_key ?k ?ps))" by (rule sorted_sort_key)
  then have s: "sorted_wrt (\<lambda>p q. pc_established q \<le> pc_established p) (sort_key ?k ?ps)"
    by (simp add: sorted_map)
  have "distinct (map pc_source_ip (sort_key ?k ?ps))"
    using f by (auto simp: distinct_map)
  moreover have "filter (\<lambda>p. pc_source_ip p = ip) (sort_key ?k ?ps) = peer_of_rows ip (rows_of_peer ?ls ip ?rows)" for ip
  proof -
    have "filter (\<lambda>p. pc_source_ip p = ip) (sort_key ?k ?ps) = sort_key ?k (peer_of_rows ip (rows_of_peer ?ls ip ?rows))"
      using f by (simp add: filter_sort)
    then show ?thesis by (simp add: peer_of_rows_def)
  qed
  ultimately show ?thesis using s by (simp add: parse_peer_connections_def Let_def)
qed

end
