(* ===== verification/Forwarding.thy ===== *)
theory Forwarding
  imports GoNet GoHttp
begin

text \<open>internal/forwarding: the mappings of the forwarding service and the connections in the stick tables
  of its HAProxy.  The file and the socket are parameters: what reading the file gives, and what the
  socket does with each command.\<close>

section \<open>Mappings\<close>

definition max_response_bytes :: nat where
  "max_response_bytes = 4 * 1024 * 1024"

definition max_requested :: nat where
  "max_requested = 100"

record mapping =
  mp_enabled :: bool
  mp_listen_port :: int
  mp_name :: string
  mp_protocol :: string
  mp_source_ip_mode :: string
  mp_table_name :: string
  mp_target_ip :: string
  mp_target_port :: int

definition name_char :: "char \<Rightarrow> bool" where
  "name_char c \<longleftrightarrow> is_digit c \<or> (97 \<le> (of_char c :: nat) \<and> (of_char c :: nat) \<le> 122)
     \<or> (65 \<le> (of_char c :: nat) \<and> (of_char c :: nat) \<le> 90)"

definition mapping_name_pattern :: "string \<Rightarrow> bool" where
  "mapping_name_pattern s \<longleftrightarrow> s \<noteq> [] \<and> length s \<le> 32 \<and> (name_char (hd s) \<or> hd s = CHR ''$'')
     \<and> list_all (\<lambda>c. name_char c \<or> c \<in> {CHR ''_'', CHR ''$'', CHR ''-''}) (tl s)"

definition table_name_of :: "string \<Rightarrow> string" where
  "table_name_of name = ''mf_'' @ map (\<lambda>c. if c = CHR ''-'' \<or> c = CHR ''$'' then CHR ''_'' else c) name"

definition port_of :: "string \<Rightarrow> int option" where
  "port_of s = (case atoi s of
     Some p \<Rightarrow> if p < 1 \<or> p > 65535 then None else Some p | None \<Rightarrow> None)"

definition parse_mapping_row :: "string \<Rightarrow> mapping option" where
  "parse_mapping_row row =
     (let fs = split_on (CHR 0x09) row in
      if trim_space row = [] \<or> length fs < 8 then None
      else if fs ! 7 \<noteq> ''1'' \<or> fs ! 2 \<noteq> ''tcp'' \<or> fs ! 3 \<noteq> ''proxy_protocol''
          \<or> \<not> mapping_name_pattern (fs ! 1) \<or> parse_ip (fs ! 5) = None then None
      else case (port_of (fs ! 4), port_of (fs ! 6)) of
        (Some listen_port, Some target_port) \<Rightarrow>
          Some \<lparr>mp_enabled = True, mp_listen_port = listen_port, mp_name = fs ! 1, mp_protocol = ''tcp'',
            mp_source_ip_mode = ''proxy_protocol'', mp_table_name = table_name_of (fs ! 1),
            mp_target_ip = fs ! 5, mp_target_port = target_port\<rparr>
      | _ \<Rightarrow> None)"

text \<open>The first line is the header; the error of the scanner is not looked at.\<close>

definition parse_configured_proxy_mappings :: "string \<Rightarrow> mapping gomap" where
  "parse_configured_proxy_mappings content =
     fold (\<lambda>row m. case parse_mapping_row row of Some p \<Rightarrow> put (mp_name p) p m | None \<Rightarrow> m)
       (drop 1 (fst (scan_lines content))) []"

section \<open>Stick tables\<close>

record forwarded_connection =
  fc_count :: nat
  fc_mapping :: string
  fc_source_ip :: string

text \<open>The text after the prefix in the last field that has it, empty without one.\<close>

definition field_value :: "string \<Rightarrow> string list \<Rightarrow> string" where
  "field_value p fs = fold (\<lambda>f v. if has_prefix f p then drop (length p) f else v) fs []"

datatype table_error = Invalid_Row | Invalid_Source | Duplicate_Source | Invalid_Count

definition table_message :: "string \<Rightarrow> table_error \<Rightarrow> string" where
  "table_message name e = (case e of
     Invalid_Row \<Rightarrow> ''invalid HAProxy stick-table row for '' @ name
   | Invalid_Source \<Rightarrow> ''invalid source IP in HAProxy table for '' @ name
   | Duplicate_Source \<Rightarrow> ''duplicate source IP in HAProxy table for '' @ name
   | Invalid_Count \<Rightarrow> ''invalid connection count in HAProxy table for '' @ name)"

definition stick_row :: "string \<Rightarrow> string list \<Rightarrow> string \<Rightarrow> table_error + forwarded_connection" where
  "stick_row name seen line =
     (let fs = split_fields line; source = field_value ''key='' fs; count_text = field_value ''conn_cur='' fs in
      if source = [] \<or> count_text = [] then Inl Invalid_Row
      else if parse_ip source = None then Inl Invalid_Source
      else if source \<in> set seen then Inl Duplicate_Source
      else case parse_uint 31 count_text of
        None \<Rightarrow> Inl Invalid_Count
      | Some n \<Rightarrow> Inr \<lparr>fc_count = n, fc_mapping = name, fc_source_ip = source\<rparr>)"

fun stick_rows :: "string \<Rightarrow> string list \<Rightarrow> string list \<Rightarrow> table_error + forwarded_connection list" where
  "stick_rows name seen [] = Inr []"
| "stick_rows name seen (line # lines) =
     (if \<not> contains_text line ''key='' then stick_rows name seen lines
      else case stick_row name seen line of
        Inl e \<Rightarrow> Inl e
      | Inr c \<Rightarrow> (case stick_rows name (fc_source_ip c # seen) lines of
          Inl e \<Rightarrow> Inl e | Inr cs \<Rightarrow> Inr (c # cs)))"

definition parse_haproxy_stick_table :: "string \<Rightarrow> string \<Rightarrow> string + forwarded_connection list" where
  "parse_haproxy_stick_table name content = (case stick_rows name [] (split_on (CHR 0x0A) content) of
     Inl e \<Rightarrow> Inl (table_message name e) | Inr cs \<Rightarrow> Inr cs)"

section \<open>The socket\<close>

text \<open>What one connection to the socket does: the errors of connecting, writing and half-closing, and the
  bytes that can be read with the error after them, if any.\<close>

record socket_run =
  sk_dial :: "string option"
  sk_write :: "string option"
  sk_close_write :: "string option"
  sk_stream :: string
  sk_read_error :: "string option"

definition query_command :: "string \<Rightarrow> string" where
  "query_command table_name = ''show table '' @ table_name @ [CHR 0x0A]"

definition query_socket :: "(string \<Rightarrow> socket_run) \<Rightarrow> string \<Rightarrow> string + string" where
  "query_socket socket table_name =
     (let r = socket (query_command table_name);
          data = take (max_response_bytes + 1) (sk_stream r) in
      case sk_dial r of Some e \<Rightarrow> Inl (''HAProxy socket is unavailable: '' @ e)
      | None \<Rightarrow> (case sk_write r of Some e \<Rightarrow> Inl (''HAProxy socket write failed: '' @ e)
        | None \<Rightarrow> (case sk_close_write r of Some e \<Rightarrow> Inl (''HAProxy socket half-close failed: '' @ e)
          | None \<Rightarrow>
              if length data > max_response_bytes then Inl ''HAProxy stick-table response is too large.''
              else case sk_read_error r of
                Some e \<Rightarrow> Inl (''HAProxy socket read failed: '' @ e)
              | None \<Rightarrow> Inr data)))"

section \<open>The service\<close>

record telemetry_diagnostic =
  dg_code :: string
  dg_mapping :: string
  dg_message :: string

record telemetry =
  tl_connections :: "forwarded_connection list"
  tl_diagnostics :: "telemetry_diagnostic list"
  tl_mappings :: "mapping list"

datatype file_error = Not_Exist | Permission | Path_Error string | Unknown_Error

definition error_code :: "file_error \<Rightarrow> string" where
  "error_code e = (case e of Not_Exist \<Rightarrow> ''ENOENT'' | Permission \<Rightarrow> ''EACCES''
     | Path_Error m \<Rightarrow> m | Unknown_Error \<Rightarrow> ''UNKNOWN'')"

definition mapping_unavailable_message :: "string \<Rightarrow> file_error \<Rightarrow> string" where
  "mapping_unavailable_message path e = ''Cannot read '' @ path @ '' ('' @ error_code e
     @ ''). Configure forwarding Remnanode with environment MIDDLE_FORWARD_TELEMETRY=1, MIDDLE_FORWARD_ETC_MOUNT=/etc/middle-forward, MIDDLE_FORWARD_RUN_MOUNT=/run/middle-forward and read-only volumes /etc/middle-forward:/etc/middle-forward:ro, /run/middle-forward:/run/middle-forward:ro.''"

fun unique_loop :: "string list \<Rightarrow> string list \<Rightarrow> string list" where
  "unique_loop acc [] = acc"
| "unique_loop acc (v # vs) =
     (let value = trim_space v in
      if value = [] \<or> value \<in> set acc then unique_loop acc vs
      else if length acc + 1 = max_requested then acc @ [value]
      else unique_loop (acc @ [value]) vs)"

definition unique_mappings :: "string list \<Rightarrow> string list" where
  "unique_mappings vs = unique_loop [] vs"

definition diagnose :: "string \<Rightarrow> string \<Rightarrow> string \<Rightarrow> telemetry \<Rightarrow> telemetry" where
  "diagnose code name message r =
     r\<lparr>tl_diagnostics := tl_diagnostics r @ [\<lparr>dg_code = code, dg_mapping = name, dg_message = message\<rparr>]\<rparr>"

text \<open>One requested name, with the commands written to the socket so far.\<close>

definition get_mapping ::
  "(string \<Rightarrow> socket_run) \<Rightarrow> mapping gomap \<Rightarrow> string \<Rightarrow> telemetry \<times> string list \<Rightarrow> telemetry \<times> string list" where
  "get_mapping socket configured name st =
     (case lookup configured name of
        None \<Rightarrow> (diagnose ''mapping-not-configured'' name
          ''The requested mapping is not an enabled TCP PROXY-protocol mapping.'' (fst st), snd st)
      | Some p \<Rightarrow>
          (let r = (fst st)\<lparr>tl_mappings := tl_mappings (fst st) @ [p]\<rparr>;
               command = query_command (mp_table_name p);
               sent = (if sk_dial (socket command) = None then snd st @ [command] else snd st) in
           case query_socket socket (mp_table_name p) of
             Inl e \<Rightarrow> (diagnose ''socket-unavailable'' name e r, sent)
           | Inr response \<Rightarrow>
               if contains_text (to_lower response) ''no such table''
                 \<or> contains_text (to_lower response) ''unknown table''
               then (diagnose ''table-unavailable'' name ''The HAProxy stick table is unavailable.'' r, sent)
               else (case parse_haproxy_stick_table name response of
                 Inl e \<Rightarrow> (diagnose ''invalid-response'' name e r, sent)
               | Inr cs \<Rightarrow> (r\<lparr>tl_connections := tl_connections r @ cs\<rparr>, sent))))"

definition no_telemetry :: telemetry where
  "no_telemetry = \<lparr>tl_connections = [], tl_diagnostics = [], tl_mappings = []\<rparr>"

definition get_telemetry ::
  "(string \<Rightarrow> socket_run) \<Rightarrow> (string \<Rightarrow> file_error + string) \<Rightarrow> string \<Rightarrow> string list \<Rightarrow> telemetry \<times> string list" where
  "get_telemetry socket read_file path names =
     (let path = (if path = [] then ''/etc/middle-forward/mappings.tsv'' else path);
          requested = unique_mappings names in
      case read_file path of
        Inl e \<Rightarrow> (fold (\<lambda>name. diagnose ''mapping-not-configured'' name (mapping_unavailable_message path e))
          requested no_telemetry, [])
      | Inr content \<Rightarrow>
          fold (get_mapping socket (parse_configured_proxy_mappings content)) requested (no_telemetry, []))"

text \<open>HTTPService.HandleGet; the time of the answer is left out.\<close>

definition handle_get_forwarding ::
  "(string \<Rightarrow> socket_run) \<Rightarrow> (string \<Rightarrow> file_error + string) \<Rightarrow> string \<Rightarrow> query \<Rightarrow> telemetry reply \<times> string list" where
  "handle_get_forwarding socket read_file path q =
     (let raw = trim_space (values_get q ''mappingNames'') in
      if raw = [] \<or> length raw > 3300 then
        (Http_Error 400 ''mappingNames must be a non-empty string of at most 3300 characters'', [])
      else
        (let (r, sent) = get_telemetry socket read_file path (split_on (CHR '','') raw) in (Json r, sent)))"

section \<open>Configured mappings are safe\<close>

definition mapping_ok :: "mapping \<Rightarrow> bool" where
  "mapping_ok p \<longleftrightarrow> mapping_name_pattern (mp_name p) \<and> mp_table_name p = table_name_of (mp_name p)
     \<and> 1 \<le> mp_listen_port p \<and> mp_listen_port p \<le> 65535 \<and> 1 \<le> mp_target_port p \<and> mp_target_port p \<le> 65535
     \<and> parse_ip (mp_target_ip p) \<noteq> None"

lemma port_of_range: "port_of s = Some p \<Longrightarrow> 1 \<le> p \<and> p \<le> 65535"
  by (auto simp: port_of_def split: option.splits if_splits)

lemma parse_mapping_row_ok: "parse_mapping_row row = Some p \<Longrightarrow> mapping_ok p"
  by (auto simp: parse_mapping_row_def mapping_ok_def Let_def split: if_splits option.splits dest: port_of_range)

lemma fold_mappings_ok:
  assumes "\<And>n p. lookup m n = Some p \<Longrightarrow> mp_name p = n \<and> mapping_ok p"
  shows "lookup (fold (\<lambda>row m. case parse_mapping_row row of Some p \<Rightarrow> put (mp_name p) p m | None \<Rightarrow> m) rows m) n = Some p
    \<Longrightarrow> mp_name p = n \<and> mapping_ok p"
  using assms
proof (induction rows arbitrary: m)
  case (Cons row rows)
  let ?m = "case parse_mapping_row row of Some p \<Rightarrow> put (mp_name p) p m | None \<Rightarrow> m"
  have "mp_name q = k \<and> mapping_ok q" if "lookup ?m k = Some q" for k q
    using that Cons.prems(2) parse_mapping_row_ok [of row]
    by (auto simp: update_conv split: option.splits if_splits)
  with Cons.IH [of ?m] Cons.prems(1) show ?case by simp
qed simp

lemma configured_mapping_ok:
  "lookup (parse_configured_proxy_mappings content) n = Some p \<Longrightarrow> mp_name p = n \<and> mapping_ok p"
  unfolding parse_configured_proxy_mappings_def by (rule fold_mappings_ok) auto

definition safe_command :: "string \<Rightarrow> bool" where
  "safe_command c \<longleftrightarrow> (\<exists>t. c = ''show table mf_'' @ t @ [CHR 0x0A] \<and> t \<noteq> [] \<and> length t \<le> 32
     \<and> list_all (\<lambda>x. name_char x \<or> x = CHR ''_'') t)"

lemma mapping_command_safe: "mapping_ok p \<Longrightarrow> safe_command (query_command (mp_table_name p))"
proof -
  let ?f = "\<lambda>c. if c = CHR ''-'' \<or> c = CHR ''$'' then CHR ''_'' else c"
  assume "mapping_ok p"
  then have n: "mapping_name_pattern (mp_name p)" "mp_table_name p = table_name_of (mp_name p)"
    by (simp_all add: mapping_ok_def)
  have "list_all (\<lambda>x. name_char x \<or> x = CHR ''_'') (map ?f (mp_name p))"
    using n(1) by (cases "mp_name p") (auto simp: mapping_name_pattern_def list_all_iff)
  moreover have "mp_name p \<noteq> []" "length (mp_name p) \<le> 32" using n(1) by (simp_all add: mapping_name_pattern_def)
  ultimately show ?thesis
    unfolding safe_command_def query_command_def n(2) table_name_of_def
    by (intro exI [of _ "map ?f (mp_name p)"]) simp
qed

lemma get_mapping_sent_safe:
  "list_all safe_command (snd st)
   \<Longrightarrow> list_all safe_command (snd (get_mapping socket (parse_configured_proxy_mappings content) name st))"
  using configured_mapping_ok [of content name] mapping_command_safe
  by (auto simp: get_mapping_def Let_def split: option.splits sum.splits)

text \<open>Whatever the panel asks for and whatever the file holds, each command written to the HAProxy socket shows
  one table, named by letters, digits and underscores.\<close>

theorem socket_commands_are_safe:
  "list_all safe_command (snd (handle_get_forwarding socket read_file path q))"
proof -
  have "list_all safe_command (snd (fold (get_mapping socket (parse_configured_proxy_mappings content)) names st))"
    if "list_all safe_command (snd st)" for content names st
    using that by (induction names arbitrary: st) (simp_all add: get_mapping_sent_safe)
  then have "list_all safe_command (snd (get_telemetry socket read_file path names))" for names
    by (simp add: get_telemetry_def Let_def split: sum.split)
  then show ?thesis by (simp add: handle_get_forwarding_def Let_def case_prod_beta)
qed

section \<open>The answer of the service\<close>

text \<open>The requested names as the panel means them: each name once, in the order of their first occurrences.\<close>

fun first_occurrences :: "string list \<Rightarrow> string list" where
  "first_occurrences [] = []"
| "first_occurrences (x # xs) = x # filter (\<lambda>y. y \<noteq> x) (first_occurrences xs)"

lemma set_first_occurrences: "set (first_occurrences xs) = set xs"
  by (induction xs) auto

lemma distinct_first_occurrences: "distinct (first_occurrences xs)"
  by (induction xs) auto

definition given_names :: "string list \<Rightarrow> string list" where
  "given_names vs = first_occurrences (filter (\<lambda>v. v \<noteq> []) (map trim_space vs))"

lemma unique_loop_spec:
  "length acc < max_requested
   \<Longrightarrow> unique_loop acc vs = take max_requested (acc @ filter (\<lambda>v. v \<notin> set acc) (given_names vs))"
proof (induction vs arbitrary: acc)
  case (Cons v vs)
  let ?v = "trim_space v"
  have new: "filter (\<lambda>x. x \<noteq> y \<and> x \<notin> set acc) xs = filter (\<lambda>x. x \<notin> set (acc @ [y])) xs" for xs y
    by (rule filter_cong) auto
  consider "?v = [] \<or> ?v \<in> set acc"
    | "?v \<noteq> []" "?v \<notin> set acc" "length acc + 1 = max_requested"
    | "?v \<noteq> []" "?v \<notin> set acc" "length acc + 1 < max_requested"
    using Cons.prems by force
  then show ?case
  proof cases
    case 1
    then have "filter (\<lambda>x. x \<notin> set acc) (given_names (v # vs)) = filter (\<lambda>x. x \<notin> set acc) (given_names vs)"
      by (auto simp: given_names_def intro!: filter_cong)
    with 1 Cons show ?thesis by (auto simp: Let_def)
  next
    case 2
    then show ?thesis by (simp add: Let_def given_names_def flip: 2(3))
  next
    case 3
    then show ?thesis using Cons.IH [of "acc @ [?v]"] by (simp add: Let_def given_names_def conj_commute new [simplified])
  qed
qed (simp add: given_names_def)

lemma unique_mappings_first: "unique_mappings vs = take max_requested (given_names vs)"
  using unique_loop_spec [of "[]" vs] by (simp add: unique_mappings_def max_requested_def)

lemma unique_mappings_spec: "distinct (unique_mappings vs) \<and> length (unique_mappings vs) \<le> max_requested"
  by (simp add: unique_mappings_first given_names_def distinct_first_occurrences)

text \<open>The connections of a mapping, unless it is diagnosed.\<close>

definition table_of :: "(string \<Rightarrow> socket_run) \<Rightarrow> mapping gomap \<Rightarrow> string \<Rightarrow> forwarded_connection list option" where
  "table_of socket configured name = (case lookup configured name of
     None \<Rightarrow> None
   | Some p \<Rightarrow> (case query_socket socket (mp_table_name p) of
       Inl _ \<Rightarrow> None
     | Inr response \<Rightarrow>
         if contains_text (to_lower response) ''no such table''
           \<or> contains_text (to_lower response) ''unknown table'' then None
         else (case parse_haproxy_stick_table name response of Inl _ \<Rightarrow> None | Inr cs \<Rightarrow> Some cs)))"

definition connections_of :: "(string \<Rightarrow> socket_run) \<Rightarrow> mapping gomap \<Rightarrow> string \<Rightarrow> forwarded_connection list" where
  "connections_of socket configured name =
     (case table_of socket configured name of Some cs \<Rightarrow> cs | None \<Rightarrow> [])"

lemma get_mapping_step:
  "tl_connections (fst (get_mapping socket configured name st))
     = tl_connections (fst st) @ connections_of socket configured name"
  "map dg_mapping (tl_diagnostics (fst (get_mapping socket configured name st)))
     = map dg_mapping (tl_diagnostics (fst st)) @ (if table_of socket configured name = None then [name] else [])"
  "tl_mappings (fst (get_mapping socket configured name st))
     = tl_mappings (fst st) @ (case lookup configured name of Some p \<Rightarrow> [p] | None \<Rightarrow> [])"
  by (auto simp: get_mapping_def diagnose_def connections_of_def table_of_def Let_def split: option.splits sum.splits)

lemma fold_get_mapping:
  "tl_connections (fst (fold (get_mapping socket configured) names st))
     = tl_connections (fst st) @ concat (map (connections_of socket configured) names)"
  "map dg_mapping (tl_diagnostics (fst (fold (get_mapping socket configured) names st)))
     = map dg_mapping (tl_diagnostics (fst st)) @ filter (\<lambda>n. table_of socket configured n = None) names"
  "tl_mappings (fst (fold (get_mapping socket configured) names st))
     = tl_mappings (fst st) @ List.map_filter (lookup configured) names"
  by (induction names arbitrary: st) (auto simp: get_mapping_step map_filter_simps split: option.split)

lemma stick_row_ok:
  "stick_row name seen line = Inr c \<Longrightarrow> fc_mapping c = name \<and> fc_source_ip c \<notin> set seen
    \<and> parse_ip (fc_source_ip c) \<noteq> None \<and> fc_count c < 2 ^ 31"
  by (auto simp: stick_row_def Let_def parse_uint_def split: if_splits option.splits)

lemma stick_rows_ok:
  "stick_rows name seen lines = Inr cs \<Longrightarrow> distinct (map fc_source_ip cs) \<and> set seen \<inter> set (map fc_source_ip cs) = {}
    \<and> list_all (\<lambda>c. fc_mapping c = name \<and> parse_ip (fc_source_ip c) \<noteq> None \<and> fc_count c < 2 ^ 31) cs"
proof (induction name seen lines arbitrary: cs rule: stick_rows.induct)
  case (2 name seen line lines)
  show ?case
  proof (cases "contains_text line ''key=''")
    case True
    with "2.prems" obtain c cs' where c: "stick_row name seen line = Inr c"
      "stick_rows name (fc_source_ip c # seen) lines = Inr cs'" "cs = c # cs'"
      by (auto split: sum.splits)
    with "2.IH"(2) [of c cs'] True stick_row_ok [OF c(1)] show ?thesis by auto
  next
    case False
    with 2 show ?thesis by simp
  qed
qed simp

lemma connections_of_ok:
  "distinct (map fc_source_ip (connections_of socket configured name))"
  "list_all (\<lambda>c. fc_mapping c = name \<and> parse_ip (fc_source_ip c) \<noteq> None \<and> fc_count c < 2 ^ 31)
     (connections_of socket configured name)"
  by (auto simp: connections_of_def table_of_def parse_haproxy_stick_table_def dest: stick_rows_ok
      split: option.split sum.splits)

lemma distinct_pairs:
  assumes "distinct names"
  shows "distinct (map (\<lambda>c. (fc_mapping c, fc_source_ip c)) (concat (map (connections_of socket configured) names)))"
  using assms
proof (induction names)
  case (Cons n names)
  have m: "fc_mapping c = k" if "c \<in> set (connections_of socket configured k)" for c k
    using connections_of_ok(2) [of k socket configured] that by (auto simp: list_all_iff)
  have "distinct (map (\<lambda>c. (fc_mapping c, fc_source_ip c)) (connections_of socket configured n))"
    using connections_of_ok(1) [of socket configured n] by (auto simp: distinct_map inj_on_def)
  with Cons m show ?case by (auto dest!: m)
qed simp

text \<open>C34: The names a request gives, trimmed, without empty ones and each once, are the mappings that are
  asked for, the first 100 of them in the order given.  The answer has, in this order, the configured ones among
  them, the connections of each in its table, and one diagnostic for each that is not configured or whose table
  cannot be read; within one mapping no source text is reported twice (another mapping, or another spelling of an
  IPv6 address, can report the same source again), every source is an address and every count fits in 31 bits.\<close>

theorem telemetry_answers:
  "let r = fst (get_telemetry socket read_file path names);
       requested = take 100 (first_occurrences (filter (\<lambda>v. v \<noteq> []) (map trim_space names)));
       configured = (case read_file (if path = [] then ''/etc/middle-forward/mappings.tsv'' else path) of
         Inl _ \<Rightarrow> [] | Inr content \<Rightarrow> parse_configured_proxy_mappings content) in
   tl_connections r = concat (map (connections_of socket configured) requested)
   \<and> map dg_mapping (tl_diagnostics r) = filter (\<lambda>n. table_of socket configured n = None) requested
   \<and> tl_mappings r = List.map_filter (lookup configured) requested
   \<and> distinct (map (\<lambda>c. (fc_mapping c, fc_source_ip c)) (tl_connections r))
   \<and> list_all (\<lambda>c. parse_ip (fc_source_ip c) \<noteq> None \<and> fc_count c < 2 ^ 31) (tl_connections r)"
proof -
  let ?path = "if path = [] then ''/etc/middle-forward/mappings.tsv'' else path"
  let ?req = "unique_mappings names"
  define configured where "configured = (case read_file ?path of
    Inl _ \<Rightarrow> [] | Inr content \<Rightarrow> parse_configured_proxy_mappings content)"
  define r where "r = fst (get_telemetry socket read_file path names)"
  have none: "fold (\<lambda>name. diagnose ''mapping-not-configured'' name m) ns st
      = st\<lparr>tl_diagnostics := tl_diagnostics st @ map (\<lambda>n. \<lparr>dg_code = ''mapping-not-configured'', dg_mapping = n, dg_message = m\<rparr>) ns\<rparr>"
    for m ns st by (induction ns arbitrary: st) (simp_all add: diagnose_def)
  have r: "tl_connections r = concat (map (connections_of socket configured) ?req)
    \<and> map dg_mapping (tl_diagnostics r) = filter (\<lambda>n. table_of socket configured n = None) ?req
    \<and> tl_mappings r = List.map_filter (lookup configured) ?req"
  proof (cases "read_file ?path")
    case (Inl e)
    then have "configured = []" by (simp add: configured_def)
    moreover from this have "connections_of socket configured n = []" "table_of socket configured n = None" for n
      by (simp_all add: connections_of_def table_of_def)
    moreover have "List.map_filter (\<lambda>_. None :: mapping option) ns = []" for ns :: "string list" by (induction ns) (simp_all add: map_filter_simps)
    ultimately show ?thesis
      using Inl by (simp add: r_def get_telemetry_def Let_def none no_telemetry_def comp_def)
  next
    case (Inr content)
    then show ?thesis
      by (simp add: r_def get_telemetry_def Let_def configured_def fold_get_mapping no_telemetry_def)
  qed
  have "list_all (\<lambda>c. parse_ip (fc_source_ip c) \<noteq> None \<and> fc_count c < 2 ^ 31) (tl_connections r)"
    using r connections_of_ok(2) by (fastforce simp: list_all_iff)
  moreover have "distinct (map (\<lambda>c. (fc_mapping c, fc_source_ip c)) (tl_connections r))"
    using r distinct_pairs [of ?req socket configured] unique_mappings_spec [of names] by simp
  moreover have "?req = take 100 (first_occurrences (filter (\<lambda>v. v \<noteq> []) (map trim_space names)))"
    by (simp add: unique_mappings_first given_names_def max_requested_def)
  ultimately show ?thesis using r by (simp add: Let_def flip: r_def configured_def)
qed

text \<open>Two names that differ only in a dash and an underscore share a table, so its connections are reported
  for both; and a line that does not fit into the buffer of the scanner hides the mappings after it.\<close>

lemma shared_stick_table: "table_name_of ''eu-1'' = table_name_of ''eu_1''"
  by (simp add: table_name_of_def)

lemma long_line_hides_mappings:
  assumes "CHR 0x0A \<notin> set header" "CHR 0x0A \<notin> set l" "length l \<ge> 65536" "length header < 65536"
  shows "parse_configured_proxy_mappings (header @ CHR 0x0A # l @ CHR 0x0A # rest) = []"
proof -
  have "split_on (CHR 0x0A) (header @ CHR 0x0A # l @ CHR 0x0A # rest) = header # l # split_on (CHR 0x0A) rest"
    using assms by (simp add: split_on_append)
  then have "fst (scan_lines (header @ CHR 0x0A # l @ CHR 0x0A # rest)) = [drop_cr header]"
    using assms by (simp add: scan_lines_def Let_def)
  then show ?thesis by (simp add: parse_configured_proxy_mappings_def)
qed

end
