(* ===== verification/NodeAccess.thy ===== *)
theory NodeAccess
  imports PluginService GoHttp
begin

text \<open>internal/auth/jwt.go, internal/bodylimit/middleware.go, internal/unixconfig/server.go and the routes of
  internal/httpserver/server.go: who may call the node, with how large a body, and what is called.  The JSON
  scanner, the RSA verification, the zstd decoder and the services behind the routes are parameters.\<close>

section \<open>Tokens\<close>

definition url_digit :: "char \<Rightarrow> nat option" where
  "url_digit c = (if c = CHR ''-'' then Some 62 else if c = CHR ''_'' then Some 63
     else if c = CHR ''+'' \<or> c = CHR ''/'' then None else b64_digit c)"

text \<open>base64.RawURLEncoding: no padding, and the bits left over at the end are not looked at.\<close>

fun raw_quads :: "nat list \<Rightarrow> nat list option" where
  "raw_quads [] = Some []"
| "raw_quads [w] = None"
| "raw_quads [w, x] = Some [w * 4 + x div 16]"
| "raw_quads [w, x, y] = Some [w * 4 + x div 16, (x mod 16) * 16 + y div 4]"
| "raw_quads (w # x # y # z # rest) = map_option
     (\<lambda>bs. [w * 4 + x div 16, (x mod 16) * 16 + y div 4, (y mod 4) * 64 + z] @ bs) (raw_quads rest)"

definition raw_url_decode :: "string \<Rightarrow> nat list option" where
  "raw_url_decode s =
     Option.bind (all_some (map url_digit (filter (\<lambda>c. c \<noteq> CHR 0x0A \<and> c \<noteq> CHR 0x0D) s))) raw_quads"

record claim_expectations =
  ce_issuer :: string
  ce_audience :: string
  ce_subject :: string

definition default_claim_expectations :: claim_expectations where
  "default_claim_expectations =
     \<lparr>ce_issuer = ''remnawave'', ce_audience = ''remnawave-node'', ce_subject = ''remnawave-backend''\<rparr>"

text \<open>The verification takes the SHA-256 digest of the signed text and the signature.  The scanner gives the
  first JSON value of a text.\<close>

record jwt_validator =
  jv_verify :: "string \<Rightarrow> nat list \<Rightarrow> bool"
  jv_claims :: claim_expectations
  jv_now :: int
  jv_json :: "string \<Rightarrow> raw_json option"

datatype jwt_error =
    Missing_Bearer
  | Invalid_Format
  | Bad_Header
  | Unsupported_Algorithm string
  | Bad_Signature_Text
  | Bad_Signature
  | Bad_Claims
  | Not_Numeric string
  | Token_Expired
  | Token_Not_Yet_Valid
  | Claim_Mismatch string

definition decode_jwt_json :: "jwt_validator \<Rightarrow> string \<Rightarrow> raw_json option" where
  "decode_jwt_json v segment = (case raw_url_decode segment of
     None \<Rightarrow> None | Some raw \<Rightarrow> jv_json v (map char_of raw))"

text \<open>Decoding into the struct of the header: a key matches a field without regard to case, null leaves the
  field as it is, and a value of another type is an error.\<close>

definition header_field :: "string \<times> raw_json \<Rightarrow> string option \<Rightarrow> string option" where
  "header_field kv alg =
     (if to_lower (fst kv) = ''alg'' then
        (case snd kv of RStr s \<Rightarrow> map_option (\<lambda>_. s) alg | RNull \<Rightarrow> alg | _ \<Rightarrow> None)
      else if to_lower (fst kv) = ''typ'' then
        (case snd kv of RStr s \<Rightarrow> alg | RNull \<Rightarrow> alg | _ \<Rightarrow> None)
      else alg)"

definition header_algorithm :: "raw_json \<Rightarrow> string option" where
  "header_algorithm raw = (case raw of
     RObj kvs \<Rightarrow> fold header_field kvs (Some []) | RNull \<Rightarrow> Some [] | _ \<Rightarrow> None)"

text \<open>Decoding into map[string]any: the last of repeated keys wins, null gives no claims.\<close>

definition claims_of :: "raw_json \<Rightarrow> raw_json gomap option" where
  "claims_of raw = (case raw of
     RObj kvs \<Rightarrow> Some (fold (\<lambda>(k, v). put k v) kvs []) | RNull \<Rightarrow> Some [] | _ \<Rightarrow> None)"

definition claim_string_equals :: "raw_json \<Rightarrow> string \<Rightarrow> bool" where
  "claim_string_equals value expected \<longleftrightarrow> value = RStr expected"

definition audience_contains :: "raw_json \<Rightarrow> string \<Rightarrow> bool" where
  "audience_contains value expected \<longleftrightarrow> (case value of
     RStr s \<Rightarrow> s = expected | RArr items \<Rightarrow> list_ex (\<lambda>i. i = RStr expected) items | _ \<Rightarrow> False)"

definition validate_identity_claims :: "claim_expectations \<Rightarrow> raw_json gomap \<Rightarrow> jwt_error option" where
  "validate_identity_claims expected claims =
     (if (case lookup claims ''iss'' of Some x \<Rightarrow> \<not> claim_string_equals x (ce_issuer expected) | None \<Rightarrow> False)
      then Some (Claim_Mismatch ''iss'')
      else if (case lookup claims ''aud'' of Some x \<Rightarrow> \<not> audience_contains x (ce_audience expected) | None \<Rightarrow> False)
      then Some (Claim_Mismatch ''aud'')
      else if (case lookup claims ''sub'' of Some x \<Rightarrow> \<not> claim_string_equals x (ce_subject expected) | None \<Rightarrow> False)
      then Some (Claim_Mismatch ''sub'') else None)"

text \<open>An absent claim, a claim with its value, or an error.\<close>

definition numeric_claim :: "raw_json gomap \<Rightarrow> string \<Rightarrow> jwt_error + int option" where
  "numeric_claim claims key = (case lookup claims key of
     None \<Rightarrow> Inr None
   | Some (RNum t) \<Rightarrow> (case atoi t of Some n \<Rightarrow> Inr (Some n) | None \<Rightarrow> Inl (Not_Numeric key))
   | Some _ \<Rightarrow> Inl (Not_Numeric key))"

definition validate_time_claims :: "int \<Rightarrow> raw_json gomap \<Rightarrow> jwt_error option" where
  "validate_time_claims now claims = (case numeric_claim claims ''exp'' of
     Inl e \<Rightarrow> Some e
   | Inr expiry \<Rightarrow>
       if (case expiry of Some t \<Rightarrow> now \<ge> t | None \<Rightarrow> False) then Some Token_Expired
       else (case numeric_claim claims ''nbf'' of
         Inl e \<Rightarrow> Some e
       | Inr nbf \<Rightarrow> if (case nbf of Some t \<Rightarrow> now < t | None \<Rightarrow> False) then Some Token_Not_Yet_Valid else None))"

definition validate_claims :: "jwt_validator \<Rightarrow> string \<Rightarrow> jwt_error option" where
  "validate_claims v segment = (case Option.bind (decode_jwt_json v segment) claims_of of
     None \<Rightarrow> Some Bad_Claims
   | Some claims \<Rightarrow> (case validate_time_claims (jv_now v) claims of
       Some e \<Rightarrow> Some e | None \<Rightarrow> validate_identity_claims (jv_claims v) claims))"

definition validate_jwt :: "jwt_validator \<Rightarrow> string \<Rightarrow> jwt_error option" where
  "validate_jwt v jwt = (case split_on (CHR ''.'') jwt of
     [header, payload, signature] \<Rightarrow> (case Option.bind (decode_jwt_json v header) header_algorithm of
         None \<Rightarrow> Some Bad_Header
       | Some alg \<Rightarrow>
           if alg \<noteq> ''RS256'' then Some (Unsupported_Algorithm alg)
           else (case raw_url_decode signature of
             None \<Rightarrow> Some Bad_Signature_Text
           | Some sig \<Rightarrow>
               if \<not> jv_verify v (sha256_hex (header @ ''.'' @ payload)) sig then Some Bad_Signature
               else validate_claims v payload))
   | _ \<Rightarrow> Some Invalid_Format)"

definition validate_bearer :: "jwt_validator \<Rightarrow> string \<Rightarrow> jwt_error option" where
  "validate_bearer v header =
     (if \<not> has_prefix header ''Bearer '' then Some Missing_Bearer
      else validate_jwt v (trim_space (drop 7 header)))"

section \<open>Bodies\<close>

text \<open>The limit of a body, an int64: the shift of a large number of megabytes wraps.\<close>

definition configure_max_bytes :: "bool \<Rightarrow> int \<Rightarrow> int" where
  "configure_max_bytes low body_limit_mb =
     (if body_limit_mb > 0 then wrap64 (body_limit_mb * 2 ^ 20)
      else if low then 64 * 2 ^ 20 else 256 * 2 ^ 20)"

datatype read_error = Read_EOF | Too_Large | Other_Error string

text \<open>A zstd decoder is a state with its Read, which takes the length of the buffer.\<close>

record 'd zstd_reader =
  zr_decoder :: 'd
  zr_limit :: int
  zr_read :: int

type_synonym 'd decoder_read = "'d \<Rightarrow> int \<Rightarrow> (nat list \<times> read_error option) \<times> 'd"

definition zstd_read ::
  "'d decoder_read \<Rightarrow> int \<Rightarrow> 'd zstd_reader \<Rightarrow> (nat list \<times> read_error option) \<times> 'd zstd_reader" where
  "zstd_read read p z =
     (let remaining = zr_limit z - zr_read z in
      if zr_limit z > 0 \<and> remaining \<le> 0 then (([], Some Too_Large), z)
      else (let p' = (if zr_limit z > 0 \<and> p > remaining then remaining else p);
                ((bytes, err), d) = read (zr_decoder z) p';
                z' = z\<lparr>zr_decoder := d, zr_read := zr_read z + int (length bytes)\<rparr> in
            if zr_limit z > 0 \<and> zr_read z' > zr_limit z then ((bytes, Some Too_Large), z')
            else ((bytes, err), z')))"

text \<open>How the body of a request is read: as it is, through a limit, or decompressed with a limit on the
  compressed and on the decompressed bytes.  No body stays none.\<close>

datatype body_reader = No_Body | Raw_Body | Max_Bytes int body_reader | Zstd int int

datatype middleware_result = Next body_reader string | Answer nat string

definition decompress_middleware :: "int \<Rightarrow> bool \<Rightarrow> body_reader \<Rightarrow> string \<Rightarrow> middleware_result" where
  "decompress_middleware max_bytes decoder_ok body content_encoding =
     (if body \<noteq> No_Body \<and> to_lower content_encoding = ''zstd'' then
        (if \<not> decoder_ok then Answer 400 ''invalid zstd body''
         else Next (Zstd (min max_bytes (64 * 2 ^ 20)) max_bytes) [])
      else Next body content_encoding)"

definition limit_middleware :: "int \<Rightarrow> body_reader \<Rightarrow> body_reader" where
  "limit_middleware max_bytes body = (if body = No_Body then No_Body else Max_Bytes max_bytes body)"

section \<open>Routes\<close>

datatype route =
    Running_Config | Healthcheck | Stop_Core | Start_Core | User_Online_Status | System_Stats |
  Tcp_Connections | Forwarded_Tcp_Connections | Audit_Log_Chunk | Audit_Log_Source_Metadata |
  Audit_Log_Catalog | Clean_Audit_Logs | Users_Stats | Accounting_Snapshot | Inbound_Stats |
  Outbound_Stats | All_Inbounds_Stats | All_Outbounds_Stats | Combined_Stats | User_Ip_List |
  Users_Ip_List | Sni_Health_Status | Sni_Health_Probe | Backtrace_Run | Add_User | Remove_User |
  Inbound_Users_Count | Inbound_Users | Add_Users | Remove_Users | Drop_Users_Connections | Drop_Ips |
  Plugin_Sync | Collect_Reports | Block_Ips | Unblock_Ips | Recreate_Tables | Vision_Block_Ip |
  Vision_Unblock_Ip

definition node_routes :: "(string list \<times> string \<times> route) list" where
  "node_routes =
     [([''GET''], ''/node/xray/running-config'', Running_Config),
      ([''GET''], ''/node/xray/healthcheck'', Healthcheck),
      ([''POST'', ''GET''], ''/node/xray/stop'', Stop_Core),
      ([''POST''], ''/node/xray/start'', Start_Core),
      ([''POST''], ''/node/stats/get-user-online-status'', User_Online_Status),
      ([''GET''], ''/node/stats/get-system-stats'', System_Stats),
      ([''GET''], ''/node/stats/get-tcp-connections'', Tcp_Connections),
      ([''GET''], ''/node/stats/get-forwarded-tcp-connections'', Forwarded_Tcp_Connections),
      ([''GET''], ''/node/stats/get-audit-log-chunk'', Audit_Log_Chunk),
      ([''GET''], ''/node/stats/get-audit-log-source-metadata'', Audit_Log_Source_Metadata),
      ([''GET''], ''/node/stats/get-audit-log-segments-v2'', Audit_Log_Catalog),
      ([''POST''], ''/node/stats/clean-audit-logs'', Clean_Audit_Logs),
      ([''POST''], ''/node/stats/get-users-stats'', Users_Stats),
      ([''POST''], ''/node/stats/get-accounting-snapshot'', Accounting_Snapshot),
      ([''POST''], ''/node/stats/get-inbound-stats'', Inbound_Stats),
      ([''POST''], ''/node/stats/get-outbound-stats'', Outbound_Stats),
      ([''POST''], ''/node/stats/get-all-inbounds-stats'', All_Inbounds_Stats),
      ([''POST''], ''/node/stats/get-all-outbounds-stats'', All_Outbounds_Stats),
      ([''POST''], ''/node/stats/get-combined-stats'', Combined_Stats),
      ([''POST''], ''/node/stats/get-user-ip-list'', User_Ip_List),
      ([''GET''], ''/node/stats/get-users-ip-list'', Users_Ip_List),
      ([''GET''], ''/node/sni-health/status'', Sni_Health_Status),
      ([''POST''], ''/node/sni-health/probe'', Sni_Health_Probe),
      ([''POST''], ''/node/backtrace/run'', Backtrace_Run),
      ([''POST''], ''/node/handler/add-user'', Add_User),
      ([''POST''], ''/node/handler/remove-user'', Remove_User),
      ([''POST''], ''/node/handler/get-inbound-users-count'', Inbound_Users_Count),
      ([''POST''], ''/node/handler/get-inbound-users'', Inbound_Users),
      ([''POST''], ''/node/handler/add-users'', Add_Users),
      ([''POST''], ''/node/handler/remove-users'', Remove_Users),
      ([''POST''], ''/node/handler/drop-users-connections'', Drop_Users_Connections),
      ([''POST''], ''/node/handler/drop-ips'', Drop_Ips),
      ([''POST''], ''/node/plugin/sync'', Plugin_Sync),
      ([''POST''], ''/node/plugin/torrent-blocker/collect'', Collect_Reports),
      ([''POST''], ''/node/plugin/nftables/block-ips'', Block_Ips),
      ([''POST''], ''/node/plugin/nftables/unblock-ips'', Unblock_Ips),
      ([''POST''], ''/node/plugin/nftables/recreate-tables'', Recreate_Tables),
      ([''POST''], ''/node/vision/block-ip'', Vision_Block_Ip),
      ([''POST''], ''/node/vision/unblock-ip'', Vision_Unblock_Ip)]"

definition node_route :: "string \<Rightarrow> string \<Rightarrow> route option" where
  "node_route method path = (case filter (\<lambda>(ms, p, _). method \<in> set ms \<and> p = path) node_routes of
     (_, _, r) # _ \<Rightarrow> Some r | [] \<Rightarrow> None)"

text \<open>The services behind the routes: what each does with the body, and which are present.  Stopping the core
  resets the plugins first; a start is decoded before it reaches the manager.\<close>

datatype 'b start_body = Bad_Json | No_Xray_Config | Start_Body 'b

record ('w, 'b, 'r) services =
  sv_serve :: "route \<Rightarrow> 'b \<Rightarrow> 'w \<Rightarrow> 'r \<times> 'w"
  sv_reset_plugins :: "'w \<Rightarrow> 'w"
  sv_decode_start :: "'b \<Rightarrow> 'b start_body"
  sv_warp_check :: "'w \<Rightarrow> 'r"
  sv_forwarding :: bool
  sv_vision :: bool
  sv_warp :: bool

datatype 'r http_reply = Handled 'r | Failed nat string

definition handle_start :: "('w, 'b, 'r) services \<Rightarrow> 'b \<Rightarrow> 'w \<Rightarrow> 'r http_reply \<times> 'w" where
  "handle_start sv body w = (case sv_decode_start sv body of
     Bad_Json \<Rightarrow> (Failed 400 ''invalid JSON body'', w)
   | No_Xray_Config \<Rightarrow> (Failed 400 ''xrayConfig is required'', w)
   | Start_Body request \<Rightarrow> (let (r, w') = sv_serve sv Start_Core request w in (Handled r, w')))"

definition handle_node_routes ::
  "('w, 'b, 'r) services \<Rightarrow> string \<Rightarrow> string \<Rightarrow> 'b \<Rightarrow> 'w \<Rightarrow> 'r http_reply \<times> 'w" where
  "handle_node_routes sv method path body w = (case node_route method path of
     None \<Rightarrow> (Failed 404 ''404 page not found'', w)
   | Some r \<Rightarrow>
       if r = Start_Core then handle_start sv body w
       else if r = Stop_Core then
         (let (x, w') = sv_serve sv r body (sv_reset_plugins sv w) in (Handled x, w'))
       else if r = Forwarded_Tcp_Connections \<and> \<not> sv_forwarding sv then
         (Failed 500 ''forwarding telemetry service unavailable'', w)
       else if r \<in> {Vision_Block_Ip, Vision_Unblock_Ip} \<and> \<not> sv_vision sv then
         (Failed 500 ''vision service unavailable'', w)
       else (let (x, w') = sv_serve sv r body w in (Handled x, w')))"

definition handle_warp_routes ::
  "('w, 'b, 'r) services \<Rightarrow> string \<Rightarrow> string \<Rightarrow> 'w \<Rightarrow> 'r http_reply \<times> 'w" where
  "handle_warp_routes sv method path w =
     (if method \<noteq> ''GET'' \<or> path \<noteq> ''/node/warp/healthcheck'' \<or> \<not> sv_warp sv
      then (Failed 404 ''404 page not found'', w) else (Handled (sv_warp_check sv w), w))"

record http_request =
  rq_method :: string
  rq_path :: string
  rq_authorization :: string
  rq_encoding :: string
  rq_body :: body_reader

text \<open>The handlers of the server: validation, decompression, limit, routes.  The body that a route gets is
  what read makes of the reader.  The paths are clean, as net/http redirects the others.\<close>

definition serve_http ::
  "jwt_validator \<Rightarrow> ('w, 'b, 'r) services \<Rightarrow> int \<Rightarrow> bool \<Rightarrow> (body_reader \<Rightarrow> 'b) \<Rightarrow> http_request \<Rightarrow> 'w \<Rightarrow> 'r http_reply \<times> 'w" where
  "serve_http v sv max_bytes decoder_ok read rq w =
     (if \<not> has_prefix (rq_path rq) ''/node/'' then (Failed 404 ''404 page not found'', w)
      else if validate_bearer v (rq_authorization rq) \<noteq> None then (Failed 401 ''Unauthorized'', w)
      else case decompress_middleware max_bytes decoder_ok (rq_body rq) (rq_encoding rq) of
        Answer status message \<Rightarrow> (Failed status message, w)
      | Next body _ \<Rightarrow>
          if has_prefix (rq_path rq) ''/node/warp/'' then handle_warp_routes sv (rq_method rq) (rq_path rq) w
          else handle_node_routes sv (rq_method rq) (rq_path rq) (read (limit_middleware max_bytes body)) w)"

section \<open>The internal socket\<close>

record internal_server =
  is_token :: string
  is_has_webhook :: bool

definition authorize_internal :: "internal_server \<Rightarrow> string \<Rightarrow> string \<Rightarrow> bool" where
  "authorize_internal s header query_token =
     (if is_token s = [] then False
      else if header \<noteq> [] \<or> query_token \<noteq> [] then header = is_token s \<or> query_token = is_token s
      else True)"

text \<open>The body of a webhook is None when it is not a JSON object.\<close>

definition handle_webhook ::
  "internal_server \<Rightarrow> plugin_env \<Rightarrow> string \<Rightarrow> string \<Rightarrow> string \<Rightarrow> jmap option \<Rightarrow> plugin_world \<Rightarrow> nat \<times> plugin_world" where
  "handle_webhook s env method header query_token body w =
     (if method \<noteq> ''POST'' then (405, w)
      else if \<not> authorize_internal s header query_token then (403, w)
      else (200, if is_has_webhook s then
          (case body of Some payload \<Rightarrow> handle_xray_webhook env payload w | None \<Rightarrow> w) else w))"

definition handle_get_config :: "internal_server \<Rightarrow> string \<Rightarrow> string \<Rightarrow> string \<Rightarrow> string \<Rightarrow> nat \<times> string option" where
  "handle_get_config s method header query_token config_json =
     (if method \<noteq> ''GET'' then (405, None)
      else if \<not> authorize_internal s header query_token then (403, None)
      else (200, Some config_json))"

section \<open>What an accepted token says\<close>

lemma time_claims_ok:
  assumes "validate_time_claims now claims = None"
  shows "lookup claims ''exp'' = Some x \<Longrightarrow> \<exists>t n. x = RNum t \<and> atoi t = Some n \<and> now < n"
    "lookup claims ''nbf'' = Some x \<Longrightarrow> \<exists>t n. x = RNum t \<and> atoi t = Some n \<and> n \<le> now"
  using assms
  by (auto simp: validate_time_claims_def numeric_claim_def split: option.splits sum.splits raw_json.splits if_splits)

lemma identity_claims_ok:
  assumes "validate_identity_claims c claims = None"
  shows "lookup claims ''iss'' = Some x \<Longrightarrow> x = RStr (ce_issuer c)"
    "lookup claims ''aud'' = Some x \<Longrightarrow> audience_contains x (ce_audience c)"
    "lookup claims ''sub'' = Some x \<Longrightarrow> x = RStr (ce_subject c)"
  using assms by (auto simp: validate_identity_claims_def claim_string_equals_def split: if_splits option.splits)

lemma accepted_jwt:
  assumes "validate_jwt v jwt = None"
  obtains h p sg hv sig cv claims where
    "jwt = h @ ''.'' @ p @ ''.'' @ sg" "decode_jwt_json v h = Some hv" "header_algorithm hv = Some ''RS256''"
    "raw_url_decode sg = Some sig" "jv_verify v (sha256_hex (h @ ''.'' @ p)) sig"
    "decode_jwt_json v p = Some cv" "claims_of cv = Some claims"
    "validate_time_claims (jv_now v) claims = None" "validate_identity_claims (jv_claims v) claims = None"
proof -
  from assms obtain h p sg where parts: "split_on (CHR ''.'') jwt = [h, p, sg]"
    by (auto simp: validate_jwt_def split: list.splits)
  have joined: "jwt = h @ ''.'' @ p @ ''.'' @ sg" using join_split_on [of "CHR ''.''" jwt] parts by simp
  from assms parts obtain hv sig where h: "decode_jwt_json v h = Some hv" "header_algorithm hv = Some ''RS256''"
    "raw_url_decode sg = Some sig" "jv_verify v (sha256_hex (h @ ''.'' @ p)) sig" "validate_claims v p = None"
    by (auto simp: validate_jwt_def bind_eq_None_conv split: option.splits if_splits dest!: bind_eq_Some_conv [THEN iffD1])
  from h(5) obtain cv claims where c: "decode_jwt_json v p = Some cv" "claims_of cv = Some claims"
    "validate_time_claims (jv_now v) claims = None" "validate_identity_claims (jv_claims v) claims = None"
    by (auto simp: validate_claims_def split: option.splits dest!: bind_eq_Some_conv [THEN iffD1])
  from joined h(1-4) c show thesis by (rule that)
qed

text \<open>C26: An accepted Authorization header carries a token in three parts, of which the first names RS256 and the
  third signs the first two; the claims in the second part that the validator knows have the expected values
  and their times enclose the present.\<close>

theorem accepted_bearer_is_signed:
  assumes "validate_bearer v authorization = None"
  shows "has_prefix authorization ''Bearer ''
    \<and> (\<exists>h p sg hv sig cv claims. trim_space (drop 7 authorization) = h @ ''.'' @ p @ ''.'' @ sg
      \<and> decode_jwt_json v h = Some hv \<and> header_algorithm hv = Some ''RS256''
      \<and> raw_url_decode sg = Some sig \<and> jv_verify v (sha256_hex (h @ ''.'' @ p)) sig
      \<and> decode_jwt_json v p = Some cv \<and> claims_of cv = Some claims
      \<and> (\<forall>x. lookup claims ''exp'' = Some x \<longrightarrow> (\<exists>t n. x = RNum t \<and> atoi t = Some n \<and> jv_now v < n))
      \<and> (\<forall>x. lookup claims ''nbf'' = Some x \<longrightarrow> (\<exists>t n. x = RNum t \<and> atoi t = Some n \<and> n \<le> jv_now v))
      \<and> (\<forall>x. lookup claims ''iss'' = Some x \<longrightarrow> x = RStr (ce_issuer (jv_claims v)))
      \<and> (\<forall>x. lookup claims ''aud'' = Some x \<longrightarrow> audience_contains x (ce_audience (jv_claims v)))
      \<and> (\<forall>x. lookup claims ''sub'' = Some x \<longrightarrow> x = RStr (ce_subject (jv_claims v))))"
proof -
  from assms have b: "has_prefix authorization ''Bearer ''" "validate_jwt v (trim_space (drop 7 authorization)) = None"
    by (simp_all add: validate_bearer_def split: if_splits)
  from b(2) obtain h p sg hv sig cv claims where j:
    "trim_space (drop 7 authorization) = h @ ''.'' @ p @ ''.'' @ sg" "decode_jwt_json v h = Some hv"
    "header_algorithm hv = Some ''RS256''" "raw_url_decode sg = Some sig"
    "jv_verify v (sha256_hex (h @ ''.'' @ p)) sig" "decode_jwt_json v p = Some cv" "claims_of cv = Some claims"
    "validate_time_claims (jv_now v) claims = None" "validate_identity_claims (jv_claims v) claims = None"
    by (rule accepted_jwt)
  note t = time_claims_ok [OF j(8)] and i = identity_claims_ok [OF j(9)]
  have "(\<forall>x. lookup claims ''exp'' = Some x \<longrightarrow> (\<exists>t n. x = RNum t \<and> atoi t = Some n \<and> jv_now v < n))
      \<and> (\<forall>x. lookup claims ''nbf'' = Some x \<longrightarrow> (\<exists>t n. x = RNum t \<and> atoi t = Some n \<and> n \<le> jv_now v))
      \<and> (\<forall>x. lookup claims ''iss'' = Some x \<longrightarrow> x = RStr (ce_issuer (jv_claims v)))
      \<and> (\<forall>x. lookup claims ''aud'' = Some x \<longrightarrow> audience_contains x (ce_audience (jv_claims v)))
      \<and> (\<forall>x. lookup claims ''sub'' = Some x \<longrightarrow> x = RStr (ce_subject (jv_claims v)))"
    using t i by blast
  with b(1) j(1-7) show ?thesis by blast
qed

section \<open>Nothing happens without a token\<close>

text \<open>C25: A request is only handled, and only changes the state of the node, with an accepted token and a known
  route; and a service then reads a body under the configured limit, or none.\<close>

theorem requests_need_a_token:
  assumes "serve_http v sv max_bytes decoder_ok read rq w = (reply, w')"
    and "w' \<noteq> w \<or> (\<exists>r. reply = Handled r)"
  shows "validate_bearer v (rq_authorization rq) = None \<and> has_prefix (rq_path rq) ''/node/''
    \<and> (if has_prefix (rq_path rq) ''/node/warp/'' then w' = w
       else node_route (rq_method rq) (rq_path rq) \<noteq> None
         \<and> (\<exists>body. (body = No_Body \<or> (\<exists>b. body = Max_Bytes max_bytes b))
            \<and> (reply, w') = handle_node_routes sv (rq_method rq) (rq_path rq) (read body) w))"
proof -
  let ?d = "decompress_middleware max_bytes decoder_ok (rq_body rq) (rq_encoding rq)"
  from assms have p: "has_prefix (rq_path rq) ''/node/''" "validate_bearer v (rq_authorization rq) = None"
    by (auto simp: serve_http_def split: if_splits)
  with assms obtain body enc where d: "?d = Next body enc"
    by (cases ?d) (auto simp: serve_http_def)
  show ?thesis
  proof (cases "has_prefix (rq_path rq) ''/node/warp/''")
    case True
    then have "w' = w" using assms(1) p d by (auto simp: serve_http_def handle_warp_routes_def split: if_splits)
    with True p show ?thesis by simp
  next
    case False
    then have h: "(reply, w') = handle_node_routes sv (rq_method rq) (rq_path rq) (read (limit_middleware max_bytes body)) w"
      using assms(1) p d by (simp add: serve_http_def)
    moreover have "node_route (rq_method rq) (rq_path rq) \<noteq> None"
      using h assms(2) by (auto simp: handle_node_routes_def split: option.splits)
    ultimately show ?thesis using False p by (auto simp: limit_middleware_def)
  qed
qed

section \<open>Decompressed bodies\<close>

text \<open>The bytes that a series of calls gives, and the errors among the answers.\<close>

fun zstd_reads ::
  "'d decoder_read \<Rightarrow> int list \<Rightarrow> 'd zstd_reader \<Rightarrow> (nat list \<times> read_error list) \<times> 'd zstd_reader" where
  "zstd_reads read [] z = (([], []), z)"
| "zstd_reads read (p # ps) z =
     (let ((bytes, err), z') = zstd_read read p z; ((rest, errs), z'') = zstd_reads read ps z' in
      ((bytes @ rest, (case err of Some e \<Rightarrow> [e] | None \<Rightarrow> []) @ errs), z''))"

text \<open>The contract of io.Reader, and that the error of this reader is its own.\<close>

definition decoder_contract :: "'d decoder_read \<Rightarrow> bool" where
  "decoder_contract read \<longleftrightarrow> (\<forall>d p. int (length (fst (fst (read d p)))) \<le> max 0 p
     \<and> snd (fst (read d p)) \<noteq> Some Too_Large)"

lemma zstd_read_bound:
  assumes "decoder_contract read" "0 < zr_limit z" "zr_read z \<le> zr_limit z" "zstd_read read p z = ((bytes, err), z')"
  shows "zr_limit z' = zr_limit z \<and> zr_read z' = zr_read z + int (length bytes) \<and> zr_read z' \<le> zr_limit z
    \<and> (err = Some Too_Large \<longrightarrow> zr_read z = zr_limit z)"
proof (cases "zr_limit z - zr_read z \<le> 0")
  case True
  then show ?thesis using assms by (auto simp: zstd_read_def)
next
  case False
  let ?p = "if p > zr_limit z - zr_read z then zr_limit z - zr_read z else p"
  obtain bs e d where r: "read (zr_decoder z) ?p = ((bs, e), d)" by (metis prod.exhaust)
  have c: "int (length bs) \<le> max 0 ?p" "e \<noteq> Some Too_Large"
    using assms(1) r unfolding decoder_contract_def by (metis fst_conv snd_conv)+
  then have le: "int (length bs) \<le> zr_limit z - zr_read z" using False by (auto split: if_splits)
  have "bytes = bs \<and> err = e \<and> z' = z\<lparr>zr_decoder := d, zr_read := zr_read z + int (length bs)\<rparr>"
    using assms(2,4) False r le by (simp add: zstd_read_def Let_def split: if_splits)
  with le c show ?thesis by simp
qed

text \<open>C38: However a body is read, at most the limit is decompressed; and it is only called too large after that
  many bytes.\<close>

theorem decompressed_bytes_bounded:
  assumes "decoder_contract read" "0 < zr_limit z" "zr_read z = 0"
  shows "int (length (fst (fst (zstd_reads read ps z)))) \<le> zr_limit z
    \<and> (Too_Large \<in> set (snd (fst (zstd_reads read ps z)))
       \<longrightarrow> int (length (fst (fst (zstd_reads read ps z)))) = zr_limit z)"
proof -
  have "zr_read z + int (length (fst (fst (zstd_reads read ps z)))) \<le> zr_limit z
    \<and> (Too_Large \<in> set (snd (fst (zstd_reads read ps z)))
       \<longrightarrow> zr_read z + int (length (fst (fst (zstd_reads read ps z)))) = zr_limit z)"
    if "0 < zr_limit z" "zr_read z \<le> zr_limit z" for z
    using that
  proof (induction ps arbitrary: z)
    case (Cons p ps)
    obtain bytes err z' where s: "zstd_read read p z = ((bytes, err), z')" by (metis prod.exhaust)
    from zstd_read_bound [OF assms(1) Cons.prems s] have b: "zr_limit z' = zr_limit z"
      "zr_read z' = zr_read z + int (length bytes)" "zr_read z' \<le> zr_limit z"
      "err = Some Too_Large \<longrightarrow> zr_read z = zr_limit z" by auto
    show ?case using Cons.IH [of z'] Cons.prems b s
      by (auto simp: Let_def case_prod_beta split: option.splits)
  qed simp
  from this [of z] assms show ?thesis by simp
qed

section \<open>Samples\<close>

definition sample_validator :: jwt_validator where
  "sample_validator = \<lparr>jv_verify = (\<lambda>_ sig. sig = [1]), jv_claims = default_claim_expectations, jv_now = 7,
     jv_json = (\<lambda>s. if s = ''a'' then Some (RObj [(''alg'', RStr ''RS256'')])
       else if s = ''b'' then Some (RObj [(''exp'', RNum ''20''), (''iss'', RStr ''remnawave'')]) else None)\<rparr>"

lemma sample_texts:
  "split_on (CHR ''.'') (trim_space (drop 7 ''Bearer YQ.Yg.AQ'')) = [''YQ'', ''Yg'', ''AQ'']"
  "raw_url_decode ''YQ'' = Some [97]" "raw_url_decode ''Yg'' = Some [98]" "raw_url_decode ''AQ'' = Some [1]"
  "atoi ''20'' = Some 20"
  by (simp_all add: net_eval raw_url_decode_def url_digit_def)

lemma sample_chars: "char_of (97 :: nat) = CHR ''a''" "char_of (98 :: nat) = CHR ''b''"
  by code_simp+

lemma sample_accepted: "validate_bearer sample_validator ''Bearer YQ.Yg.AQ'' = None"
  unfolding validate_bearer_def validate_jwt_def sample_texts(1)
  by (simp add: sample_texts sample_chars decode_jwt_json_def sample_validator_def header_algorithm_def header_field_def to_lower_def
      lower_char_def validate_claims_def claims_of_def validate_time_claims_def numeric_claim_def
      validate_identity_claims_def claim_string_equals_def default_claim_expectations_def has_prefix_def)

theorem accepted_bearer_is_signed_witness: "has_prefix ''Bearer YQ.Yg.AQ'' ''Bearer ''"
  using accepted_bearer_is_signed [OF sample_accepted] by simp

definition sample_services :: "(nat, nat, nat) services" where
  "sample_services = \<lparr>sv_serve = (\<lambda>_ b w. (b, w + b)), sv_reset_plugins = (\<lambda>w. 0), sv_decode_start = Start_Body,
     sv_warp_check = (\<lambda>w. w), sv_forwarding = True, sv_vision = True, sv_warp = True\<rparr>"

definition sample_http_request :: http_request where
  "sample_http_request = \<lparr>rq_method = ''POST'', rq_path = ''/node/handler/add-user'',
     rq_authorization = ''Bearer YQ.Yg.AQ'', rq_encoding = ''zstd'', rq_body = Raw_Body\<rparr>"

lemma sample_served:
  "serve_http sample_validator sample_services 9 True (\<lambda>_. 5) sample_http_request 1 = (Handled 5, 6)"
proof -
  have r: "node_route ''POST'' ''/node/handler/add-user'' = Some Add_User"
    "has_prefix ''/node/handler/add-user'' ''/node/''" "\<not> has_prefix ''/node/handler/add-user'' ''/node/warp/''"
    "to_lower ''zstd'' = ''zstd''"
    by code_simp+
  show ?thesis
    by (simp add: serve_http_def sample_http_request_def sample_accepted r decompress_middleware_def
        handle_node_routes_def sample_services_def)
qed

theorem requests_need_a_token_witness:
  "validate_bearer sample_validator (rq_authorization sample_http_request) = None
   \<and> node_route (rq_method sample_http_request) (rq_path sample_http_request) \<noteq> None"
proof -
  have "\<not> has_prefix (rq_path sample_http_request) ''/node/warp/''"
    unfolding sample_http_request_def by code_simp
  with requests_need_a_token [OF sample_served] show ?thesis by simp
qed

definition list_read :: "nat list decoder_read" where
  "list_read bs p = ((take (nat p) bs, if bs = [] then Some Read_EOF else None), drop (nat p) bs)"

lemma list_read_contract: "decoder_contract list_read"
  by (auto simp: decoder_contract_def list_read_def)

theorem decompressed_bytes_bounded_witness:
  "fst (zstd_reads list_read [2, 2, 2] \<lparr>zr_decoder = [1, 2, 3, 4, 5], zr_limit = 3, zr_read = 0\<rparr>) = ([1, 2, 3], [Too_Large])
   \<and> int (length (fst (fst (zstd_reads list_read [2, 2, 2] \<lparr>zr_decoder = [1, 2, 3, 4, 5], zr_limit = 3, zr_read = 0\<rparr>)))) \<le> 3"
  using decompressed_bytes_bounded [OF list_read_contract, of "\<lparr>zr_decoder = [1, 2, 3, 4, 5], zr_limit = 3, zr_read = 0\<rparr>" "[2, 2, 2]"]
  by (simp add: zstd_read_def list_read_def)

text \<open>A body whose decompressed length is the limit is refused where its end should be reported.\<close>

lemma body_of_the_limit_refused:
  assumes "bs \<noteq> []" "p > 0"
  shows "zstd_reads list_read [int (length bs), p] \<lparr>zr_decoder = bs, zr_limit = int (length bs), zr_read = 0\<rparr>
    = ((bs, [Too_Large]), \<lparr>zr_decoder = [], zr_limit = int (length bs), zr_read = int (length bs)\<rparr>)"
  using assms by (simp add: zstd_read_def list_read_def Let_def)

lemma routes_distinct:
  "distinct (concat (map (\<lambda>(ms, p, _). map (\<lambda>m. (m, p)) ms) node_routes)) \<and> distinct (map (snd \<circ> snd) node_routes)"
  by code_simp

section \<open>The internal socket needs its token\<close>

text \<open>The socket answers nothing and the plugins do not change unless a token is configured and the request
  has no other one; without one in the request the permissions of the socket are the only guard.\<close>

theorem internal_calls_are_authorized:
  assumes "w' \<noteq> w \<or> config \<noteq> None"
    and "handle_webhook s env method header query_token body w = (status, w')"
    and "handle_get_config s get_method header query_token config_json = (get_status, config)"
  shows "is_token s \<noteq> [] \<and> (header = is_token s \<or> query_token = is_token s \<or> header = [] \<and> query_token = [])"
  using assms
  by (auto simp: handle_webhook_def handle_get_config_def authorize_internal_def split: if_splits)

theorem internal_calls_are_authorized_witness:
  "is_token \<lparr>is_token = ''k'', is_has_webhook = False\<rparr> \<noteq> []"
  using internal_calls_are_authorized [of w w "Some ''{}''" "\<lparr>is_token = ''k'', is_has_webhook = False\<rparr>" env "''GET''" "''k''" "[]" None
      405 "''GET''" "''{}''" 200]
  by (simp add: handle_webhook_def handle_get_config_def authorize_internal_def)

end
