(* ===== verification/Vision.thy ===== *)
theory Vision
  imports Targets Sha256 Manager
begin

text \<open>internal/vision/service.go, internal/xtls/router.go and internal/xray/router.go: the panel blocks and
  unblocks single addresses through a routing rule of the core.  The gRPC client is a parameter.\<close>

section \<open>MD5\<close>

text \<open>crypto/md5: four rounds of sixteen steps on little-endian words.\<close>

definition md5_shifts :: "nat list" where
  "md5_shifts = concat (replicate 4 [7, 12, 17, 22]) @ concat (replicate 4 [5, 9, 14, 20])
     @ concat (replicate 4 [4, 11, 16, 23]) @ concat (replicate 4 [6, 10, 15, 21])"

text \<open>The whole part of 2^32 times the absolute sine of 1 to 64.\<close>

definition md5_table :: "w32 list" where
  "md5_table =
    [0xd76aa478, 0xe8c7b756, 0x242070db, 0xc1bdceee, 0xf57c0faf, 0x4787c62a, 0xa8304613, 0xfd469501,
     0x698098d8, 0x8b44f7af, 0xffff5bb1, 0x895cd7be, 0x6b901122, 0xfd987193, 0xa679438e, 0x49b40821,
     0xf61e2562, 0xc040b340, 0x265e5a51, 0xe9b6c7aa, 0xd62f105d, 0x02441453, 0xd8a1e681, 0xe7d3fbc8,
     0x21e1cde6, 0xc33707d6, 0xf4d50d87, 0x455a14ed, 0xa9e3e905, 0xfcefa3f8, 0x676f02d9, 0x8d2a4c8a,
     0xfffa3942, 0x8771f681, 0x6d9d6122, 0xfde5380c, 0xa4beea44, 0x4bdecfa9, 0xf6bb4b60, 0xbebfbc70,
     0x289b7ec6, 0xeaa127fa, 0xd4ef3085, 0x04881d05, 0xd9d4d039, 0xe6db99e5, 0x1fa27cf8, 0xc4ac5665,
     0xf4292244, 0x432aff97, 0xab9423a7, 0xfc93a039, 0x655b59c3, 0x8f0ccc92, 0xffeff47d, 0x85845dd1,
     0x6fa87e4f, 0xfe2ce6e0, 0xa3014314, 0x4e0811a1, 0xf7537e82, 0xbd3af235, 0x2ad7d2bb, 0xeb86d391]"

definition md5_pad :: "nat list \<Rightarrow> nat list" where
  "md5_pad bytes =
     (let n = length bytes; zeros = (119 - n mod 64) mod 64
      in bytes @ [0x80] @ replicate zeros 0 @ map (\<lambda>i. (8 * n) div 256 ^ i mod 256) [0..<8])"

fun md5_words :: "nat list \<Rightarrow> w32 list" where
  "md5_words (a # b # c # d # bytes) = word_of_nat (((d * 256 + c) * 256 + b) * 256 + a) # md5_words bytes"
| "md5_words _ = []"

definition md5_step :: "w32 list \<Rightarrow> nat \<Rightarrow> w32 \<times> w32 \<times> w32 \<times> w32 \<Rightarrow> w32 \<times> w32 \<times> w32 \<times> w32" where
  "md5_step m i st = (case st of (a, b, c, d) \<Rightarrow>
     (let (f, g) =
        (if i < 16 then ((b AND c) OR (NOT b AND d), i)
         else if i < 32 then ((d AND b) OR (NOT d AND c), (5 * i + 1) mod 16)
         else if i < 48 then (b XOR c XOR d, (3 * i + 5) mod 16)
         else (c XOR (b OR NOT d), (7 * i) mod 16))
      in (d, b + word_rotl (md5_shifts ! i) (a + f + md5_table ! i + m ! g), b, c)))"

definition md5_block :: "w32 list \<Rightarrow> w32 \<times> w32 \<times> w32 \<times> w32 \<Rightarrow> w32 \<times> w32 \<times> w32 \<times> w32" where
  "md5_block m st = (case st of (a0, b0, c0, d0) \<Rightarrow>
     (let (a, b, c, d) = fold (md5_step m) [0..<64] st in (a0 + a, b0 + b, c0 + c, d0 + d)))"

function md5_blocks :: "w32 list \<Rightarrow> w32 \<times> w32 \<times> w32 \<times> w32 \<Rightarrow> w32 \<times> w32 \<times> w32 \<times> w32" where
  "md5_blocks ws st = (if ws = [] then st else md5_blocks (drop 16 ws) (md5_block (take 16 ws) st))"
  by pat_completeness auto
termination by (relation "measure (length \<circ> fst)") auto

declare md5_blocks.simps [simp del]

definition le_hex :: "w32 \<Rightarrow> string" where
  "le_hex w = concat (map (\<lambda>i. let b = unat w div 256 ^ i mod 256 in [digit_char (b div 16), digit_char (b mod 16)]) [0..<4])"

definition md5_hex :: "string \<Rightarrow> string" where
  "md5_hex s = (case md5_blocks (md5_words (md5_pad (map of_char s))) (0x67452301, 0xefcdab89, 0x98badcfe, 0x10325476) of
     (a, b, c, d) \<Rightarrow> le_hex a @ le_hex b @ le_hex c @ le_hex d)"

section \<open>Rules of the core\<close>

record core_rule =
  ru_tag :: string
  ru_outbound :: string
  ru_source :: net_prefix

datatype router_call = Add_Rule core_rule bool | Remove_Rule string

text \<open>The connection to the core: whether it can be opened, and the error of each call.\<close>

record router_client =
  rt_dial :: "string option"
  rt_call :: "router_call \<Rightarrow> string option"

text \<open>The error of a result, None when it is OK.\<close>

type_synonym router_result = "string option"

definition source_ip_rule_tag :: "string \<Rightarrow> string" where
  "source_ip_rule_tag ip = md5_hex (''string:'' @ base_digits 10 (length ip) @ '':'' @ ip)"

definition source_prefix :: "ip_addr \<Rightarrow> net_prefix" where
  "source_prefix a = (case to4 a of Some n \<Rightarrow> (IP4 n, 32) | None \<Rightarrow> (a, 128))"

definition add_source_ip_rule ::
  "router_client \<Rightarrow> string \<Rightarrow> string \<Rightarrow> string \<Rightarrow> bool \<Rightarrow> router_result \<times> router_call list" where
  "add_source_ip_rule cl tag outbound ip should_append = (case parse_ip (trim_space ip) of
     None \<Rightarrow> (Some ''invalid IP address'', [])
   | Some a \<Rightarrow>
       (let call = Add_Rule \<lparr>ru_tag = tag, ru_outbound = outbound, ru_source = source_prefix a\<rparr> should_append in
        (rt_call cl call, [call])))"

definition remove_rule_by_tag :: "router_client \<Rightarrow> string \<Rightarrow> router_result \<times> router_call list" where
  "remove_rule_by_tag cl tag = (rt_call cl (Remove_Rule tag), [Remove_Rule tag])"

text \<open>The manager only calls a core that is online.\<close>

definition with_router_api ::
  "manager \<Rightarrow> router_client \<Rightarrow> router_result \<times> router_call list \<Rightarrow> router_result \<times> router_call list" where
  "with_router_api m cl run =
     (if \<not> xray_online m then (Some ''xray is not online'', [])
      else case rt_dial cl of Some e \<Rightarrow> (Some e, []) | None \<Rightarrow> run)"

definition router_add_source_ip_rule where
  "router_add_source_ip_rule m cl tag outbound ip should_append =
     with_router_api m cl (add_source_ip_rule cl tag outbound ip should_append)"

definition router_remove_rule_by_tag where
  "router_remove_rule_by_tag m cl tag = with_router_api m cl (remove_rule_by_tag cl tag)"

section \<open>The handlers\<close>

datatype vision_reply = Invalid_Ip_Address | Vision_Reply nat bool "string option"

definition write_result :: "router_result \<Rightarrow> vision_reply" where
  "write_result r = (case r of
     None \<Rightarrow> Vision_Reply 200 True None
   | Some e \<Rightarrow> Vision_Reply 500 False (if e = [] then None else Some e))"

text \<open>The ip of the decoded body; None when the body is not JSON.\<close>

definition handle_vision_block_ip :: "manager \<Rightarrow> router_client \<Rightarrow> string option \<Rightarrow> vision_reply \<times> router_call list" where
  "handle_vision_block_ip m cl body = (case body of
     None \<Rightarrow> (Invalid_Ip_Address, [])
   | Some s \<Rightarrow>
       (let ip = trim_space s in
        if parse_ip ip = None then (Invalid_Ip_Address, [])
        else (let (r, calls) = router_add_source_ip_rule m cl (source_ip_rule_tag ip) ''BLOCK'' ip True in
              (write_result r, calls))))"

definition handle_vision_unblock_ip :: "manager \<Rightarrow> router_client \<Rightarrow> string option \<Rightarrow> vision_reply \<times> router_call list" where
  "handle_vision_unblock_ip m cl body = (case body of
     None \<Rightarrow> (Invalid_Ip_Address, [])
   | Some s \<Rightarrow>
       (let ip = trim_space s in
        if parse_ip ip = None then (Invalid_Ip_Address, [])
        else (let (r, calls) = router_remove_rule_by_tag m cl (source_ip_rule_tag ip) in
              (write_result r, calls))))"

section \<open>What is blocked\<close>

lemma trim_space_idem [simp]: "trim_space (trim_space s) = trim_space s"
proof -
  let ?t = "dropWhile is_space s"
  have hd: "?t = [] \<or> \<not> is_space (hd ?t)" using hd_dropWhile by blast
  have "dropWhile is_space (trim_space s) = trim_space s"
  proof (cases "trim_space s")
    case (Cons c u)
    then have "rev (dropWhile is_space (rev ?t)) = c # u" by (simp add: trim_space_def)
    moreover obtain v where "?t = rev (dropWhile is_space (rev ?t)) @ v"
      using takeWhile_dropWhile_id [of is_space "rev ?t"] by (metis rev_append rev_rev_ident)
    ultimately have "hd ?t = c" "?t \<noteq> []" by (metis append_Cons list.sel(1), metis append_Cons list.distinct(1))
    then have "\<not> is_space c" using hd by blast
    with Cons show ?thesis by simp
  qed simp
  moreover have "dropWhile is_space (rev (trim_space s)) = rev (trim_space s)"
    by (simp add: trim_space_def dropWhile_idem)
  ultimately show ?thesis by (simp add: trim_space_def [of "trim_space s"])
qed

lemma source_prefix_exact: "prefix_contains (source_prefix a) (unmap b, []) \<longleftrightarrow> unmap b = unmap a"
proof (cases "to4 a")
  case None
  then obtain n where "a = IP6 n" "unmap a = IP6 n" by (cases a) auto
  then show ?thesis using None by (cases "unmap b") (auto simp: source_prefix_def)
next
  case (Some k)
  then show ?thesis by (cases "unmap b") (auto simp: source_prefix_def)
qed

text \<open>A block request with an address for a core that is online makes one call: a rule to BLOCK that holds
  exactly this address (an IPv4 address and its mapped form are one), under a tag with which the unblock
  request for the same text removes it.  Every other request makes no call.\<close>

theorem vision_blocks_the_address:
  "case (body, Option.bind body (parse_ip \<circ> trim_space)) of
     (Some s, Some a) \<Rightarrow>
       (if xray_online m \<and> rt_dial cl = None then
          (let tag = source_ip_rule_tag (trim_space s);
               call = Add_Rule \<lparr>ru_tag = tag, ru_outbound = ''BLOCK'', ru_source = source_prefix a\<rparr> True in
           handle_vision_block_ip m cl body = (write_result (rt_call cl call), [call])
           \<and> handle_vision_unblock_ip m cl body = (write_result (rt_call cl (Remove_Rule tag)), [Remove_Rule tag])
           \<and> (\<forall>b. prefix_contains (source_prefix a) (unmap b, []) = (unmap b = unmap a)))
        else snd (handle_vision_block_ip m cl body) = [] \<and> snd (handle_vision_unblock_ip m cl body) = []
          \<and> fst (handle_vision_block_ip m cl body) = fst (handle_vision_unblock_ip m cl body))
   | _ \<Rightarrow> handle_vision_block_ip m cl body = (Invalid_Ip_Address, [])
       \<and> handle_vision_unblock_ip m cl body = (Invalid_Ip_Address, [])"
proof (cases body)
  case None
  then show ?thesis by (simp add: handle_vision_block_ip_def handle_vision_unblock_ip_def)
next
  case (Some s)
  then show ?thesis
    by (cases "parse_ip (trim_space s)"; cases "rt_dial cl")
      (auto simp: handle_vision_block_ip_def handle_vision_unblock_ip_def Let_def router_add_source_ip_rule_def
        router_remove_rule_by_tag_def with_router_api_def add_source_ip_rule_def remove_rule_by_tag_def
        source_prefix_exact simp del: unmap.simps)
qed

end
