(* ===== verification/WarpHealth.thy ===== *)
theory WarpHealth
  imports ManagerLifecycle
begin

text \<open>internal/warp/service.go: the check of the WARP outbound of the running configuration through the probe
  inbound.  The HTTP request through the SOCKS proxy and the clock are parameters.\<close>

section \<open>The request\<close>

text \<open>What the request does: the errors of its construction, or what came of it; a body comes with the error
  after its bytes, if any.\<close>

datatype http_outcome =
    Timed_Out
  | Request_Failed string
  | Response int string "string option"

record warp_env =
  we_port :: int
  we_proxy_error :: "string option"
  we_context_dialer :: bool
  we_request_error :: "string option"
  we_outcome :: http_outcome
  we_latency :: int
  we_now :: string
  we_env_version :: string
  we_version_output :: "string option"
  we_ping :: bool

definition service_port :: "int \<Rightarrow> int" where
  "service_port port = (if port = 0 then 61001 else port)"

definition warp_fetch :: "warp_env \<Rightarrow> string + string" where
  "warp_fetch env =
     (let port = service_port (we_port env) in
      if port < 1 \<or> port > 65535 then Inl ''invalid WARP probe port''
      else case we_proxy_error env of Some e \<Rightarrow> Inl e
      | None \<Rightarrow>
          if \<not> we_context_dialer env then Inl ''warp-proxy-context-unavailable''
          else case we_request_error env of Some e \<Rightarrow> Inl e
          | None \<Rightarrow> (case we_outcome env of
              Timed_Out \<Rightarrow> Inl ''warp-probe-timeout''
            | Request_Failed e \<Rightarrow> Inl (''warp-probe-failed: '' @ e)
            | Response status stream read_error \<Rightarrow>
                if status \<noteq> 200 then Inl (''warp-http-status-'' @ format_int 10 status)
                else if length stream > 8192 then Inl ''warp-response-too-large''
                else (case read_error of Some e \<Rightarrow> Inl e | None \<Rightarrow> Inr stream)))"

section \<open>The check\<close>

datatype warp_state = Not_Configured | Unsupported | Disabled | Unusable_Warp | Usable_Warp

record warp_response =
  wr_checked_at :: string
  wr_latency :: "int option"
  wr_observed :: "string option"
  wr_reason :: "string option"
  wr_state :: warp_state

fun first_warp :: "jval list \<Rightarrow> jmap option" where
  "first_warp [] = None"
| "first_warp (item # rest) = (case as_warp item of Some ob \<Rightarrow> Some ob | None \<Rightarrow> first_warp rest)"

definition warp_endpoint :: "jmap \<Rightarrow> string" where
  "warp_endpoint warp = (case arr_or_nil (lookup (map_or_nil (lookup warp ''settings'')) ''peers'') of
     peer # _ \<Rightarrow> str_or_empty (lookup (map_or_nil (Some peer)) ''endpoint'') | [] \<Rightarrow> [])"

text \<open>The value of the first line with the marker, if it is one of the three.\<close>

definition warp_marker :: "string \<Rightarrow> string option" where
  "warp_marker body = (case filter (\<lambda>l. has_prefix l ''warp='') (split_on (CHR 0x0A) body) of
     line # _ \<Rightarrow>
       (let value = trim_space (drop 5 line) in
        if value \<in> {''off'', ''on'', ''plus''} then Some value else None)
   | [] \<Rightarrow> None)"

definition warp_check :: "warp_env \<Rightarrow> manager \<Rightarrow> manager \<times> warp_response" where
  "warp_check env m =
     (let result = \<lparr>wr_checked_at = we_now env, wr_latency = None, wr_observed = None, wr_reason = None,
            wr_state = Unusable_Warp\<rparr>;
          config = current_config_response m in
      case first_warp (arr_or_nil (lookup config ''outbounds'')) of
        None \<Rightarrow> (m, result\<lparr>wr_state := Not_Configured, wr_reason := Some ''warp-outbound-missing''\<rparr>)
      | Some warp \<Rightarrow>
          if lookup warp ''protocol'' \<noteq> Some (VStr ''wireguard'') then
            (m, result\<lparr>wr_state := Unsupported, wr_reason := Some ''warp-outbound-invalid''\<rparr>)
          else if warp_endpoint warp = disabled_warp_endpoint then
            (m, result\<lparr>wr_state := Disabled, wr_observed := Some ''off'', wr_reason := Some ''warp-disabled''\<rparr>)
          else
            (let (m', h) = health (we_env_version env) (we_version_output env) (we_ping env) m in
             if \<not> hr_status_cached h then (m', result\<lparr>wr_reason := Some ''xray-not-running''\<rparr>)
             else case warp_fetch env of
               Inl e \<Rightarrow> (m', result\<lparr>wr_reason := Some (take 240 e)\<rparr>)
             | Inr body \<Rightarrow>
                 (let r = result\<lparr>wr_latency := Some (we_latency env), wr_observed := warp_marker body\<rparr> in
                  case warp_marker body of
                    None \<Rightarrow> (m', r\<lparr>wr_reason := Some ''warp-marker-missing''\<rparr>)
                  | Some value \<Rightarrow>
                      if value \<noteq> ''on'' \<and> value \<noteq> ''plus'' then (m', r\<lparr>wr_reason := Some ''warp-marker-off''\<rparr>)
                      else (m', r\<lparr>wr_state := Usable_Warp\<rparr>))))"

section \<open>The check of a guarded configuration\<close>

lemma first_warp_Some: "first_warp obs = Some ob \<Longrightarrow> lookup ob ''tag'' = Some (VStr ''WARP'')"
  by (induction obs) (auto simp: as_warp_Some split: option.splits)

lemma str_or_empty_clone [simp]: "str_or_empty (map_option clone_val v) = str_or_empty v"
  by (cases v; cases "the v") (auto simp: str_or_empty_def)

lemma as_warp_clone: "as_warp (clone_val v) = map_option clone_map (as_warp v)"
  by (cases v) (auto simp: clone_map_def [symmetric] go_map)

lemma first_warp_clone: "first_warp (map clone_val obs) = map_option clone_map (first_warp obs)"
  by (induction obs) (auto simp: as_warp_clone split: option.split)

lemma warp_endpoint_clone [simp]: "warp_endpoint (clone_map ob) = warp_endpoint ob"
proof -
  have m: "map_or_nil (map_option clone_val v) = clone_map (map_or_nil v)" for v
    by (cases v; cases "the v") (auto simp: map_or_nil_def clone_map_def)
  have a: "arr_or_nil (map_option clone_val v) = map clone_val (arr_or_nil v)" for v
    by (cases v; cases "the v") (auto simp: arr_or_nil_def)
  have p: "str_or_empty (lookup (map_or_nil (Some (clone_val v))) k) = str_or_empty (lookup (map_or_nil (Some v)) k)" for v k
    using m [of "Some v"] by (simp add: go_map)
  show ?thesis
    by (cases "arr_or_nil (lookup (map_or_nil (lookup ob ''settings'')) ''peers'')")
      (simp_all add: warp_endpoint_def go_map m a p)
qed

lemma guard_warp_keeps:
  assumes guard: "guard_warp env ob settings = Inr nob" and s: "as_map (lookup ob ''settings'') = Some settings"
  shows "lookup nob ''tag'' = map_option clone_val (lookup ob ''tag'')"
    "lookup nob ''protocol'' = map_option clone_val (lookup ob ''protocol'')" "warp_endpoint nob = warp_endpoint ob"
proof -
  obtain peer where peer: "warp_peer settings = Some peer"
    using guard by (auto simp: guard_warp_def split: option.splits)
  define a where "a = first_ipv4_address (arr_or_nil (lookup settings ''address''))"
  define base where "base = put ''peers''
               (VArr [VMap (put ''allowedIPs'' (VArr [VStr ''0.0.0.0/0'']) (clone_map peer))])
               (put ''domainStrategy'' (VStr ''ForceIPv4'')
               (put ''address'' (VArr [VStr a]) (clone_map settings)))"
  from guard peer obtain t where
    t: "t = base \<or> reserved_from_env env base = Inr t"
    and nob: "nob = force_stream ob
             (put ''targetStrategy'' (VStr ''ForceIPv4'')
             (put ''settings'' (VMap t) (clone_map ob)))"
    unfolding guard_warp_def Let_def a_def base_def
    by (simp split: if_splits sum.splits) blast+
  show "lookup nob ''tag'' = map_option clone_val (lookup ob ''tag'')"
    "lookup nob ''protocol'' = map_option clone_val (lookup ob ''protocol'')"
    by (simp_all add: nob lookup_force_stream go_map)
  have "lookup t ''peers'' = lookup base ''peers''" using t reserved_from_env_keeps by fastforce
  then have "warp_endpoint nob = str_or_empty (lookup peer ''endpoint'')"
    by (simp add: warp_endpoint_def nob lookup_force_stream go_map base_def arr_or_nil_def)
  moreover have "warp_endpoint ob = str_or_empty (lookup peer ''endpoint'')"
    using peer s by (auto simp: warp_endpoint_def warp_peer_def arr_or_nil_def split: list.splits jval.splits option.splits)
  ultimately show "warp_endpoint nob = warp_endpoint ob" by simp
qed

lemma guard_loop_first:
  assumes "guard_loop env c app obs = Inr (obs', w)"
  shows "case first_warp obs of
      None \<Rightarrow> first_warp obs' = None
    | Some ob \<Rightarrow> (\<exists>nob. first_warp obs' = Some nob \<and> lookup nob ''protocol'' = Some (VStr ''wireguard'')
        \<and> warp_endpoint nob = warp_endpoint ob)"
  using assms
proof (induction env c app obs arbitrary: obs' w rule: guard_loop.induct)
  case (2 env c app v rest)
  show ?case
  proof (cases "as_warp v")
    case None
    with "2.prems" obtain tail where tail: "guard_loop env c app rest = Inr (tail, w)" "obs' = v # tail"
      by (auto split: sum.splits prod.splits)
    show ?thesis using "2.IH" [OF tail(1)] by (simp add: tail(2) None cong: option.case_cong)
  next
    case (Some ob)
    note warp = this
    with "2.prems" have wg: "lookup ob ''protocol'' = Some (VStr ''wireguard'')" by (auto split: if_splits)
    show ?thesis
    proof (cases "as_map (lookup ob ''settings'')")
      case None
      with warp "2.prems" wg obtain tail where "obs' = v # tail" by (auto split: sum.splits prod.splits if_splits)
      with warp wg show ?thesis by simp
    next
      case (Some settings)
      with warp "2.prems" wg obtain nob tail where
        nob: "guard_warp env ob settings = Inr nob" and obs': "obs' = VMap nob # tail"
        by (auto split: sum.splits prod.splits if_splits)
      from guard_warp_keeps [OF nob Some] warp wg obs' show ?thesis by (simp add: as_warp_Some)
    qed
  qed
qed simp

text \<open>C39: With the outbounds that the guard accepted, the check says not-configured exactly without a WARP outbound
  and disabled exactly for the endpoint that stands for that, never unsupported; otherwise usable means that
  the core runs and the probe came back through WARP.\<close>

theorem warp_health_of_guarded_core:
  assumes "guard_warp_outbounds env obs = Inr (obs', applied)"
    and "current_config m = Some config" "lookup config ''outbounds'' = Some (VArr obs')"
  shows "let r = snd (warp_check wenv m) in
    case first_warp obs of
      None \<Rightarrow> wr_state r = Not_Configured \<and> fst (warp_check wenv m) = m
    | Some ob \<Rightarrow>
        if warp_endpoint ob = disabled_warp_endpoint
        then wr_state r = Disabled \<and> wr_observed r = Some ''off'' \<and> fst (warp_check wenv m) = m
        else wr_state r \<in> {Usable_Warp, Unusable_Warp}
          \<and> (wr_state r = Usable_Warp \<longleftrightarrow>
              hr_status_cached (snd (health (we_env_version wenv) (we_version_output wenv) (we_ping wenv) m))
              \<and> (\<exists>body. warp_fetch wenv = Inr body \<and> warp_marker body \<in> {Some ''on'', Some ''plus''}))"
proof -
  note g = guard_loop_first [OF assms(1) [unfolded guard_warp_outbounds_def]]
  have outs: "arr_or_nil (lookup (current_config_response m) ''outbounds'') = map clone_val obs'"
    using assms(2,3) by (simp add: current_config_response_def go_map arr_or_nil_def)
  show ?thesis
  proof (cases "first_warp obs")
    case None
    with g show ?thesis by (simp add: warp_check_def outs first_warp_clone Let_def)
  next
    case (Some ob)
    with g obtain nob where nob: "first_warp obs' = Some nob" "lookup nob ''protocol'' = Some (VStr ''wireguard'')"
      "warp_endpoint nob = warp_endpoint ob" by auto
    obtain m' h where h: "health (we_env_version wenv) (we_version_output wenv) (we_ping wenv) m = (m', h)" by fastforce
    show ?thesis using nob Some
      by (cases "warp_endpoint ob = disabled_warp_endpoint"; cases "warp_fetch wenv"; cases "hr_status_cached h")
        (auto simp: warp_check_def outs first_warp_clone go_map h Let_def split: option.split)
  qed
qed

text \<open>The port of the probe inbound in the generated configuration is the one of the check when the configured
  one is in range; a port out of range is replaced in the configuration only, and no check succeeds.\<close>

lemma probe_port_agrees: "1 \<le> port \<Longrightarrow> port \<le> 65535 \<Longrightarrow> probe_port env [port] = service_port port"
  by (simp add: probe_port_def service_port_def)

lemma port_out_of_range_never_usable:
  "we_port env < 0 \<or> we_port env > 65535 \<Longrightarrow> warp_fetch env = Inl ''invalid WARP probe port''"
  "env_warp_probe_port cenv = [] \<Longrightarrow> port > 65535 \<Longrightarrow> probe_port cenv [port] = 61001"
  by (auto simp: warp_fetch_def service_port_def probe_port_def split: option.split)

definition sample_warp_env :: warp_env where
  "sample_warp_env = \<lparr>we_port = 0, we_proxy_error = None, we_context_dialer = True, we_request_error = None,
     we_outcome = Response 200 (''ip=1'' @ [CHR 0x0A] @ ''warp=on'') None, we_latency = 12, we_now = [],
     we_env_version = [], we_version_output = None, we_ping = True\<rparr>"

theorem warp_health_of_guarded_core_witness:
  "\<exists>outbounds. guard_warp_outbounds sample_env sample_outbounds = Inr (outbounds, True)
    \<and> wr_state (snd (warp_check sample_warp_env
        (example_manager\<lparr>xray_online := True, current_config := Some [(''outbounds'', VArr outbounds)]\<rparr>))) = Usable_Warp"
proof -
  obtain outbounds where g: "guard_warp_outbounds sample_env sample_outbounds = Inr (outbounds, True)"
    by (simp add: sample_guard)
  let ?m = "example_manager\<lparr>xray_online := True, current_config := Some [(''outbounds'', VArr outbounds)]\<rparr>"
  have f: "warp_endpoint ob \<noteq> disabled_warp_endpoint" if "first_warp sample_outbounds = Some ob" for ob
    using that by (auto simp: sample_outbounds_def warp_endpoint_def arr_or_nil_def disabled_warp_endpoint_def)
  have "first_warp sample_outbounds \<noteq> None" by (simp add: sample_outbounds_def)
  moreover have "hr_status_cached (snd (health [] None True ?m))" by (simp add: health_def refresh_version_def Let_def)
  moreover have "warp_fetch sample_warp_env = Inr (''ip=1'' @ [CHR 0x0A] @ ''warp=on'')"
    by (simp add: warp_fetch_def sample_warp_env_def service_port_def)
  moreover have "warp_marker (''ip=1'' @ [CHR 0x0A] @ ''warp=on'') = Some ''on''" by code_simp
  ultimately show ?thesis
    using warp_health_of_guarded_core [OF g, of ?m _ sample_warp_env] f g
    by (auto simp: Let_def sample_warp_env_def)
qed

end
