(* ===== verification/Vnstat.thy ===== *)
theory Vnstat
  imports PluginConfig GoTime
begin

text \<open>internal/vnstat: the traffic of the host by day, from the JSON output of vnstat, and the cache before it.
  Sums of float64 are rounded by a parameter; dates are of calendar size, so that no int overflows.  Times are
  in nanoseconds since 1970; the zero time is None.\<close>

section \<open>Entries\<close>

record daily_entry =
  de_day :: int
  de_month :: int
  de_year :: int
  de_rx :: rat
  de_timestamp :: "int option"
  de_tx :: rat

datatype vnstat_error = Command_Failed | Data_Stale | Default_Interface_Not_Tracked

record vnstat_snapshot =
  vn_daily :: "daily_entry list"
  vn_total_bytes :: rat

type_synonym vnstat_result = "vnstat_error + vnstat_snapshot"

record parse_options =
  po_default_interface :: string
  po_max_age :: int
  po_now :: "int option"
  po_require_current_day :: bool

record parsed_interface =
  pi_daily :: "daily_entry list"
  pi_loopback :: bool
  pi_name :: string
  pi_total_bytes :: rat
  pi_updated_at :: int
  pi_updated_okay :: bool

definition positive_number :: "jval option \<Rightarrow> rat" where
  "positive_number v = (case v of Some (VFloat q) \<Rightarrow> if q \<le> 0 then 0 else q | _ \<Rightarrow> 0)"

definition integer_of :: "jval option \<Rightarrow> int option" where
  "integer_of v = (case v of
     Some (VFloat q) \<Rightarrow> if of_int (trunc_rat q) \<noteq> q then None else Some (go_int q) | _ \<Rightarrow> None)"

definition positive_integer :: "jval option \<Rightarrow> int option" where
  "positive_integer v = (case integer_of v of Some n \<Rightarrow> if n > 0 then Some n else None | None \<Rightarrow> None)"

definition parse_daily_entry :: "jval \<Rightarrow> daily_entry option" where
  "parse_daily_entry v = (case as_map (Some v) of
     None \<Rightarrow> None
   | Some r \<Rightarrow> (case as_map (lookup r ''date'') of
       None \<Rightarrow> None
     | Some date \<Rightarrow> (case (integer_of (lookup date ''year''), integer_of (lookup date ''month''), integer_of (lookup date ''day'')) of
         (Some y, Some m, Some d) \<Rightarrow> Some \<lparr>de_day = d, de_month = m, de_year = y, de_rx = positive_number (lookup r ''rx''),
             de_timestamp = positive_integer (lookup r ''timestamp''), de_tx = positive_number (lookup r ''tx'')\<rparr>
       | _ \<Rightarrow> None)))"

definition parse_interface :: "(rat \<Rightarrow> rat) \<Rightarrow> jval \<Rightarrow> parsed_interface option" where
  "parse_interface fl v = (case as_map (Some v) of
     None \<Rightarrow> None
   | Some r \<Rightarrow> (case as_map (lookup r ''traffic'') of
       None \<Rightarrow> None
     | Some traffic \<Rightarrow>
         (let daily = List.map_filter parse_daily_entry (arr_or_nil (lookup traffic ''day''));
              total = map_or_nil (lookup traffic ''total'');
              total_bytes = fl (positive_number (lookup total ''rx'') + positive_number (lookup total ''tx''));
              name = str_or_empty (lookup r ''name'');
              updated = integer_of (lookup (map_or_nil (lookup r ''updated'')) ''timestamp'') in
          if daily = [] \<and> total_bytes = 0 then None
          else Some \<lparr>pi_daily = daily, pi_loopback = (name = ''lo''), pi_name = name, pi_total_bytes = total_bytes,
              pi_updated_at = (case updated of Some s \<Rightarrow> s * 10 ^ 9 | None \<Rightarrow> 0),
              pi_updated_okay = (case updated of Some s \<Rightarrow> s > 0 | None \<Rightarrow> False)\<rparr>)))"

section \<open>Days\<close>

definition date_key :: "daily_entry \<Rightarrow> int" where
  "date_key e = de_year e * 10000 + de_month e * 100 + de_day e"

definition add_entry :: "(rat \<Rightarrow> rat) \<Rightarrow> daily_entry \<Rightarrow> (int \<times> daily_entry) list \<Rightarrow> (int \<times> daily_entry) list" where
  "add_entry fl e by_date =
     (let current = (case map_of by_date (date_key e) of
            None \<Rightarrow> e\<lparr>de_rx := 0, de_tx := 0\<rparr>
          | Some c \<Rightarrow> if de_timestamp c = None then c\<lparr>de_timestamp := de_timestamp e\<rparr> else c) in
      AList.update (date_key e)
        (current\<lparr>de_rx := fl (de_rx current + de_rx e), de_tx := fl (de_tx current + de_tx e)\<rparr>) by_date)"

definition aggregate_daily :: "(rat \<Rightarrow> rat) \<Rightarrow> parsed_interface list \<Rightarrow> daily_entry list" where
  "aggregate_daily fl interfaces =
     (let by_date = fold (add_entry fl) (concat (map pi_daily interfaces)) [] in
      map (\<lambda>k. the (map_of by_date k)) (sort (map fst by_date)))"

text \<open>Days from 1970 of time.Date in UTC, which takes months and days out of range.\<close>

definition civil_days :: "int \<Rightarrow> int \<Rightarrow> int \<Rightarrow> int" where
  "civil_days year month day =
     (let y = year + (month - 1) div 12; m = (month - 1) mod 12 + 1;
          leap = (y mod 4 = 0 \<and> (y mod 100 \<noteq> 0 \<or> y mod 400 = 0));
          passed = [0, 31, 59, 90, 120, 151, 181, 212, 243, 273, 304, 334] ! nat (m - 1) + (if leap \<and> m > 2 then 1 else 0) in
      365 * (y - 1970) + leap_days (y - 1) - leap_days 1969 + passed + day - 1)"

definition month_length :: "int \<Rightarrow> int \<Rightarrow> int" where
  "month_length year month = civil_days year (month + 1) 1 - civil_days year month 1"

text \<open>A day is the date of an instant when it is a date of the calendar and the instant is in it.\<close>

definition is_date_of :: "daily_entry \<Rightarrow> int \<Rightarrow> bool" where
  "is_date_of e seconds \<longleftrightarrow> 1 \<le> de_month e \<and> de_month e \<le> 12 \<and> 1 \<le> de_day e
     \<and> de_day e \<le> month_length (de_year e) (de_month e)
     \<and> civil_days (de_year e) (de_month e) (de_day e) = seconds div 86400"

definition source_offset :: "daily_entry \<Rightarrow> int option" where
  "source_offset e = (case de_timestamp e of
     None \<Rightarrow> None
   | Some t \<Rightarrow>
       (let offset = civil_days (de_year e) (de_month e) (de_day e) * 86400 - t in
        if - 14 * 60 * 60 \<le> offset \<and> offset \<le> 14 * 60 * 60 then Some offset else None))"

definition has_current_source_day :: "daily_entry list \<Rightarrow> int option \<Rightarrow> bool" where
  "has_current_source_day entries now = (case now of
     None \<Rightarrow> False
   | Some t \<Rightarrow>
       (let offset = (case List.map_filter source_offset entries of x # _ \<Rightarrow> x | [] \<Rightarrow> 0) in
        list_ex (\<lambda>e. is_date_of e (t div 10 ^ 9 + offset)) entries))"

definition is_fresh :: "parsed_interface \<Rightarrow> int option \<Rightarrow> int \<Rightarrow> bool" where
  "is_fresh i now max_age \<longleftrightarrow> pi_updated_okay i \<and> (case now of
     None \<Rightarrow> False | Some t \<Rightarrow> pi_updated_at i \<le> t \<and> t - pi_updated_at i \<le> max_age)"

section \<open>The result\<close>

definition select_interfaces :: "parsed_interface list \<Rightarrow> parsed_interface list" where
  "select_interfaces interfaces =
     (let selected = filter (\<lambda>i. \<not> pi_loopback i) interfaces in if selected = [] then interfaces else selected)"

definition default_interface :: "parsed_interface list \<Rightarrow> string \<Rightarrow> parsed_interface option" where
  "default_interface interfaces name = find (\<lambda>i. pi_name i = name) interfaces"

text \<open>ParseJSONResult of the decoded output; None stands for a text that is not a JSON object.\<close>

definition parse_json_result :: "(rat \<Rightarrow> rat) \<Rightarrow> jmap option \<Rightarrow> parse_options \<Rightarrow> vnstat_result option" where
  "parse_json_result fl document opts = (case document of
     None \<Rightarrow> None
   | Some r \<Rightarrow> Some
       (let interfaces = List.map_filter (parse_interface fl) (arr_or_nil (lookup r ''interfaces''));
            name = trim_space (po_default_interface opts);
            default = (if name = [] then None else default_interface interfaces name);
            selected = select_interfaces interfaces in
        if name \<noteq> [] \<and> default = None then Inl Default_Interface_Not_Tracked
        else if (case default of Some d \<Rightarrow> po_max_age opts > 0 \<and> \<not> is_fresh d (po_now opts) (po_max_age opts) | None \<Rightarrow> False)
        then Inl Data_Stale
        else if po_require_current_day opts
          \<and> \<not> has_current_source_day (case default of Some d \<Rightarrow> pi_daily d | None \<Rightarrow> aggregate_daily fl selected) (po_now opts)
        then Inl Data_Stale
        else Inr \<lparr>vn_daily = aggregate_daily fl selected,
            vn_total_bytes = foldl (\<lambda>a i. fl (a + pi_total_bytes i)) 0 selected\<rparr>))"

section \<open>The cache\<close>

record vnstat_service =
  vs_cache_ttl :: int
  vs_max_age :: int
  vs_cache :: "(int \<times> vnstat_result) gomap"

definition new_vnstat_service :: "int \<Rightarrow> int \<Rightarrow> vnstat_service" where
  "new_vnstat_service ttl max_age =
     \<lparr>vs_cache_ttl = (if ttl \<le> 0 then 5 * 60 * 10 ^ 9 else ttl),
      vs_max_age = (if max_age \<le> 0 then 24 * 60 * 60 * 10 ^ 9 else max_age), vs_cache = []\<rparr>"

text \<open>One run of the command at a time: its decoded output, None when the command or the decoding failed.\<close>

definition run_vnstat :: "(rat \<Rightarrow> rat) \<Rightarrow> (int \<Rightarrow> jmap option) \<Rightarrow> int \<Rightarrow> int \<Rightarrow> string \<Rightarrow> vnstat_result" where
  "run_vnstat fl command max_age now name =
     (case parse_json_result fl (command now) \<lparr>po_default_interface = name, po_max_age = max_age,
         po_now = Some now, po_require_current_day = True\<rparr> of
        None \<Rightarrow> Inl Command_Failed | Some r \<Rightarrow> r)"

definition vnstat_snapshot_at ::
  "(rat \<Rightarrow> rat) \<Rightarrow> (int \<Rightarrow> jmap option) \<Rightarrow> int \<Rightarrow> string \<Rightarrow> vnstat_service \<Rightarrow> vnstat_result \<times> vnstat_service" where
  "vnstat_snapshot_at fl command now interface s =
     (let name = trim_space interface;
          fetch = (let r = run_vnstat fl command (vs_max_age s) now name in
            (r, s\<lparr>vs_cache := put name (now, r) (vs_cache s)\<rparr>)) in
      case lookup (vs_cache s) name of
        Some (fetched_at, r) \<Rightarrow>
          if now - fetched_at \<ge> 0 \<and> now - fetched_at < vs_cache_ttl s then (r, s) else fetch
      | None \<Rightarrow> fetch)"

section \<open>The sums of the days\<close>

lemma fold_add_entry_keys:
  "set (map fst (fold (add_entry fl) es m)) = set (map fst m) \<union> set (map date_key es)"
  "distinct (map fst m) \<Longrightarrow> distinct (map fst (fold (add_entry fl) es m))"
  by (induction es arbitrary: m) (auto simp: add_entry_def Let_def dom_update distinct_update)

text \<open>The entry of a day: its first entry's date, the first timestamp among its entries, and the sums.\<close>

definition day_sum :: "(rat \<Rightarrow> rat) \<Rightarrow> (daily_entry \<Rightarrow> rat) \<Rightarrow> daily_entry list \<Rightarrow> rat" where
  "day_sum fl f es = foldl (\<lambda>a e. fl (a + f e)) 0 es"

definition day_ok :: "(rat \<Rightarrow> rat) \<Rightarrow> daily_entry \<Rightarrow> daily_entry list \<Rightarrow> bool" where
  "day_ok fl d es \<longleftrightarrow> es \<noteq> [] \<and> de_year d = de_year (hd es) \<and> de_month d = de_month (hd es) \<and> de_day d = de_day (hd es)
     \<and> de_rx d = day_sum fl de_rx es \<and> de_tx d = day_sum fl de_tx es
     \<and> de_timestamp d = (case List.map_filter de_timestamp es of t # _ \<Rightarrow> Some t | [] \<Rightarrow> None)"

lemma lookup_add_entry:
  "map_of (add_entry fl e m) k = (if k \<noteq> date_key e then map_of m k else
     Some (let c = (case map_of m k of
            None \<Rightarrow> e\<lparr>de_rx := 0, de_tx := 0\<rparr>
          | Some c \<Rightarrow> if de_timestamp c = None then c\<lparr>de_timestamp := de_timestamp e\<rparr> else c)
      in c\<lparr>de_rx := fl (de_rx c + de_rx e), de_tx := fl (de_tx c + de_tx e)\<rparr>))"
  by (simp add: add_entry_def Let_def update_conv)

lemma day_ok_first: "day_ok fl (e\<lparr>de_rx := fl (0 + de_rx e), de_tx := fl (0 + de_tx e)\<rparr>) [e]"
  by (simp add: day_ok_def day_sum_def map_filter_simps split: option.split)

lemma day_ok_next:
  assumes "day_ok fl d es" "c = (if de_timestamp d = None then d\<lparr>de_timestamp := de_timestamp e\<rparr> else d)"
  shows "day_ok fl (c\<lparr>de_rx := fl (de_rx c + de_rx e), de_tx := fl (de_tx c + de_tx e)\<rparr>) (es @ [e])"
proof -
  have "List.map_filter de_timestamp (es @ [e]) = List.map_filter de_timestamp es @ List.map_filter de_timestamp [e]"
    by (simp add: List.map_filter_def)
  with assms show ?thesis
    by (auto simp: day_ok_def day_sum_def map_filter_simps split: option.splits list.splits)
qed

lemma fold_add_entry_days:
  "map_of (fold (add_entry fl) es []) k = None \<and> filter (\<lambda>e. date_key e = k) es = []
   \<or> (\<exists>d. map_of (fold (add_entry fl) es []) k = Some d \<and> day_ok fl d (filter (\<lambda>e. date_key e = k) es))"
proof (induction es rule: rev_induct)
  case (snoc e es)
  let ?m = "fold (add_entry fl) es []" and ?f = "filter (\<lambda>e. date_key e = k)"
  have step: "fold (add_entry fl) (es @ [e]) [] = add_entry fl e ?m" by simp
  show ?case
  proof (cases "date_key e = k")
    case False
    with snoc show ?thesis unfolding step by (simp add: lookup_add_entry)
  next
    case True
    show ?thesis
    proof (cases "map_of ?m k")
      case None
      with snoc have "?f es = []" by auto
      with True None day_ok_first [of fl e] show ?thesis
        unfolding step by (simp add: lookup_add_entry Let_def)
    next
      case (Some d)
      with snoc have d: "day_ok fl d (?f es)" by auto
      from day_ok_next [OF d refl, of e] True Some show ?thesis
        unfolding step by (simp add: lookup_add_entry Let_def)
    qed
  qed
qed simp

text \<open>Each day once, in the order of the calendar, with the sums of all its entries.\<close>

definition days_ok :: "(rat \<Rightarrow> rat) \<Rightarrow> daily_entry list \<Rightarrow> daily_entry list \<Rightarrow> bool" where
  "days_ok fl days es \<longleftrightarrow> sorted_wrt (<) (map date_key days) \<and> set (map date_key days) = set (map date_key es)
     \<and> (\<forall>d \<in> set days. day_ok fl d (filter (\<lambda>e. date_key e = date_key d) es))"

lemma aggregate_daily_ok: "days_ok fl (aggregate_daily fl ifs) (concat (map pi_daily ifs))"
proof -
  let ?es = "concat (map pi_daily ifs)"
  let ?m = "fold (add_entry fl) ?es []"
  have keys: "set (map fst ?m) = set (map date_key ?es)" "distinct (map fst ?m)"
    using fold_add_entry_keys [where fl = fl and es = ?es and m = "[]"] by auto
  have d: "\<exists>d. map_of ?m k = Some d \<and> day_ok fl d (filter (\<lambda>e. date_key e = k) ?es)" if "k \<in> set (map fst ?m)" for k
    using fold_add_entry_days [of fl ?es k] that by (auto simp: map_of_eq_None_iff)
  have key: "date_key d = k" if "day_ok fl d (filter (\<lambda>e. date_key e = k) ?es)" for d k
  proof -
    have "filter (\<lambda>e. date_key e = k) ?es \<noteq> []" using that by (simp add: day_ok_def)
    then have "hd (filter (\<lambda>e. date_key e = k) ?es) \<in> set (filter (\<lambda>e. date_key e = k) ?es)" by (rule hd_in_set)
    then have "date_key (hd (filter (\<lambda>e. date_key e = k) ?es)) = k" by (simp only: set_filter mem_Collect_eq)
    with that show ?thesis by (simp add: day_ok_def date_key_def)
  qed
  have dk: "date_key (the (map_of ?m k)) = k" if "k \<in> set (map fst ?m)" for k
    using d [OF that] key by (metis option.sel)
  have ks: "map date_key (aggregate_daily fl ifs) = sort (map fst ?m)"
  proof -
    have "map date_key (aggregate_daily fl ifs) = map (\<lambda>k. date_key (the (map_of ?m k))) (sort (map fst ?m))"
      by (simp only: aggregate_daily_def Let_def map_map comp_def)
    also have "\<dots> = sort (map fst ?m)" by (rule map_idI) (use dk in simp)
    finally show ?thesis .
  qed
  have "sorted_wrt (<) (sort (map fst ?m))"
    using keys(2) by (simp add: strict_sorted_iff)
  moreover have "day_ok fl e (filter (\<lambda>x. date_key x = date_key e) ?es)" if "e \<in> set (aggregate_daily fl ifs)" for e
  proof -
    from that obtain k where k: "k \<in> set (map fst ?m)" "e = the (map_of ?m k)"
      by (auto simp: aggregate_daily_def Let_def)
    from d [OF k(1)] obtain d' where "map_of ?m k = Some d'" "day_ok fl d' (filter (\<lambda>e. date_key e = k) ?es)" by blast
    with k(2) dk [OF k(1)] show ?thesis by simp
  qed
  ultimately show ?thesis
    using keys(1) by (simp add: days_ok_def ks del: set_map)
qed

text \<open>C36: A snapshot sums all interfaces but the loopback, day by day, and is only given when the default interface
  is tracked and fresh and today is among the days.\<close>

theorem vnstat_snapshot_sums:
  assumes "parse_json_result fl (Some document) opts = Some (Inr snapshot)"
  shows "let interfaces = List.map_filter (parse_interface fl) (arr_or_nil (lookup document ''interfaces''));
      selected = (if \<exists>i \<in> set interfaces. \<not> pi_loopback i then filter (\<lambda>i. \<not> pi_loopback i) interfaces else interfaces);
      name = trim_space (po_default_interface opts) in
    days_ok fl (vn_daily snapshot) (concat (map pi_daily selected))
    \<and> vn_total_bytes snapshot = foldl (\<lambda>a i. fl (a + pi_total_bytes i)) 0 selected
    \<and> (name \<noteq> [] \<longrightarrow> (\<exists>d \<in> set interfaces. pi_name d = name
         \<and> (po_max_age opts > 0 \<longrightarrow> is_fresh d (po_now opts) (po_max_age opts))
         \<and> (po_require_current_day opts \<longrightarrow> has_current_source_day (pi_daily d) (po_now opts))))"
proof -
  let ?i = "List.map_filter (parse_interface fl) (arr_or_nil (lookup document ''interfaces''))"
  let ?name = "trim_space (po_default_interface opts)"
  let ?sel = "select_interfaces ?i"
  have sel: "?sel = (if \<exists>i \<in> set ?i. \<not> pi_loopback i then filter (\<lambda>i. \<not> pi_loopback i) ?i else ?i)"
    by (auto simp: select_interfaces_def Let_def filter_empty_conv)
  from assms have s: "snapshot = \<lparr>vn_daily = aggregate_daily fl ?sel,
      vn_total_bytes = foldl (\<lambda>a i. fl (a + pi_total_bytes i)) 0 ?sel\<rparr>"
    by (auto simp: parse_json_result_def Let_def split: if_splits)
  have d: "\<exists>d \<in> set ?i. pi_name d = ?name
         \<and> (po_max_age opts > 0 \<longrightarrow> is_fresh d (po_now opts) (po_max_age opts))
         \<and> (po_require_current_day opts \<longrightarrow> has_current_source_day (pi_daily d) (po_now opts))" if "?name \<noteq> []"
  proof -
    from assms that obtain d where f: "default_interface ?i ?name = Some d"
      by (auto simp: parse_json_result_def Let_def split: if_splits)
    then have "d \<in> set ?i" "pi_name d = ?name" by (auto simp: default_interface_def find_Some_iff)
    moreover have "(po_max_age opts > 0 \<longrightarrow> is_fresh d (po_now opts) (po_max_age opts))
         \<and> (po_require_current_day opts \<longrightarrow> has_current_source_day (pi_daily d) (po_now opts))"
      using assms that f by (auto simp: parse_json_result_def Let_def split: if_splits)
    ultimately show ?thesis by blast
  qed
  from aggregate_daily_ok [of fl ?sel] s d show ?thesis by (simp only: Let_def sel) simp
qed

definition sample_vnstat :: jmap where
  "sample_vnstat = [(''interfaces'', VArr
     [VMap [(''name'', VStr ''lo''), (''traffic'', VMap [(''total'', VMap [(''rx'', VFloat 7)])])],
      VMap [(''name'', VStr ''eth0''), (''updated'', VMap [(''timestamp'', VFloat 90000)]),
        (''traffic'', VMap [(''total'', VMap [(''rx'', VFloat 5), (''tx'', VFloat 3)]),
          (''day'', VArr [VMap [(''date'', VMap [(''year'', VFloat 1970), (''month'', VFloat 1), (''day'', VFloat 2)]),
             (''rx'', VFloat 4)]])])]])]"

lemma sample_vnstat_result:
  "parse_json_result id (Some sample_vnstat)
     \<lparr>po_default_interface = ''eth0'', po_max_age = 1000000000000, po_now = Some (90001000000000), po_require_current_day = True\<rparr>
   = Some (Inr \<lparr>vn_daily = [\<lparr>de_day = 2, de_month = 1, de_year = 1970, de_rx = 4, de_timestamp = None, de_tx = 0\<rparr>],
       vn_total_bytes = 8\<rparr>)"
proof -
  let ?e = "\<lparr>de_day = 2, de_month = 1, de_year = 1970, de_rx = 4, de_timestamp = None, de_tx = 0\<rparr> :: daily_entry"
  let ?lo = "\<lparr>pi_daily = [], pi_loopback = True, pi_name = ''lo'', pi_total_bytes = 7, pi_updated_at = 0,
    pi_updated_okay = False\<rparr>"
  let ?eth = "\<lparr>pi_daily = [?e], pi_loopback = False, pi_name = ''eth0'', pi_total_bytes = 8,
    pi_updated_at = 90000000000000, pi_updated_okay = True\<rparr>"
  have d: "parse_daily_entry (VMap [(''date'', VMap [(''year'', VFloat 1970), (''month'', VFloat 1), (''day'', VFloat 2)]),
             (''rx'', VFloat 4)]) = Some ?e"
    by (simp add: parse_daily_entry_def integer_of_def positive_integer_def positive_number_def trunc_rat_def go_int_def)
  have i: "List.map_filter (parse_interface id) (arr_or_nil (lookup sample_vnstat ''interfaces'')) = [?lo, ?eth]"
    by (simp add: sample_vnstat_def arr_or_nil_def map_filter_simps parse_interface_def Let_def d positive_number_def
        integer_of_def trunc_rat_def go_int_def map_or_nil_def)
  have n: "trim_space ''eth0'' = ''eth0''" by code_simp
  have today: "has_current_source_day [?e] (Some (90001000000000))"
    by (simp add: has_current_source_day_def source_offset_def is_date_of_def civil_days_def month_length_def
        leap_days_def Let_def map_filter_simps)
  have sel: "select_interfaces [?lo, ?eth] = [?eth]" by (simp add: select_interfaces_def)
  have sums: "aggregate_daily id [?eth] = [?e]" by (simp add: aggregate_daily_def add_entry_def date_key_def Let_def)
  have default: "default_interface [?lo, ?eth] ''eth0'' = Some ?eth" by (simp add: default_interface_def)
  have fresh: "is_fresh ?eth (Some (90001000000000)) 1000000000000" by (simp add: is_fresh_def)
  show ?thesis
    using today fresh by (simp add: parse_json_result_def i n sel sums default Let_def)
qed

theorem vnstat_snapshot_sums_witness:
  "\<exists>s. parse_json_result id (Some sample_vnstat)
     \<lparr>po_default_interface = ''eth0'', po_max_age = 1000000000000, po_now = Some (90001000000000), po_require_current_day = True\<rparr>
       = Some (Inr s) \<and> sorted_wrt (<) (map date_key (vn_daily s))"
proof -
  obtain s where s: "parse_json_result id (Some sample_vnstat)
     \<lparr>po_default_interface = ''eth0'', po_max_age = 1000000000000, po_now = Some 90001000000000, po_require_current_day = True\<rparr>
       = Some (Inr s)"
    by (rule that, rule sample_vnstat_result)
  have "\<exists>es. days_ok id (vn_daily s) es"
    by (rule exI, rule vnstat_snapshot_sums [OF s, unfolded Let_def, THEN conjunct1])
  then have "sorted_wrt (<) (map date_key (vn_daily s))" by (auto simp: days_ok_def)
  with s show ?thesis by (intro exI conjI)
qed

section \<open>The age of an answer\<close>

text \<open>Calls of Snapshot one after the other, with the time and the interface of each.\<close>

fun vnstat_calls ::
  "(rat \<Rightarrow> rat) \<Rightarrow> (int \<Rightarrow> jmap option) \<Rightarrow> (int \<times> string) list \<Rightarrow> vnstat_service \<Rightarrow> vnstat_result list \<times> vnstat_service" where
  "vnstat_calls fl command [] s = ([], s)"
| "vnstat_calls fl command ((now, interface) # calls) s =
     (let (r, s') = vnstat_snapshot_at fl command now interface s;
          (rs, s'') = vnstat_calls fl command calls s' in (r # rs, s''))"

definition cache_ok :: "(rat \<Rightarrow> rat) \<Rightarrow> (int \<Rightarrow> jmap option) \<Rightarrow> vnstat_service \<Rightarrow> bool" where
  "cache_ok fl command s \<longleftrightarrow> (\<forall>name t r. lookup (vs_cache s) name = Some (t, r)
     \<longrightarrow> r = run_vnstat fl command (vs_max_age s) t name)"

lemma vnstat_snapshot_at_ok:
  assumes "cache_ok fl command s" "0 < vs_cache_ttl s" "vnstat_snapshot_at fl command now interface s = (r, s')"
  shows "cache_ok fl command s' \<and> vs_cache_ttl s' = vs_cache_ttl s \<and> vs_max_age s' = vs_max_age s
    \<and> (\<exists>t. t \<le> now \<and> now - t < vs_cache_ttl s \<and> r = run_vnstat fl command (vs_max_age s) t (trim_space interface))"
proof -
  let ?name = "trim_space interface"
  let ?r = "run_vnstat fl command (vs_max_age s) now ?name"
  have hit: ?thesis if "lookup (vs_cache s) ?name = Some (t, r)" "0 \<le> now - t" "now - t < vs_cache_ttl s" "s' = s" for t
    using that assms(1) unfolding cache_ok_def by auto
  have miss: ?thesis if "r = ?r" "s' = s\<lparr>vs_cache := put ?name (now, ?r) (vs_cache s)\<rparr>"
    using that assms(1,2) unfolding cache_ok_def by (auto simp: update_conv intro!: exI [of _ now])
  show ?thesis
  proof (cases "lookup (vs_cache s) ?name")
    case None
    then show ?thesis using assms(3) by (intro miss) (auto simp: vnstat_snapshot_at_def Let_def)
  next
    case (Some e)
    obtain t x where e: "e = (t, x)" by fastforce
    show ?thesis
    proof (cases "0 \<le> now - t \<and> now - t < vs_cache_ttl s")
      case True
      then show ?thesis using assms(3) Some e by (intro hit [of t]) (auto simp: vnstat_snapshot_at_def Let_def)
    next
      case False
      then have "\<not> (now - t \<ge> 0 \<and> now - t < vs_cache_ttl s)" by simp
      then show ?thesis using assms(3) Some e by (intro miss) (auto simp: vnstat_snapshot_at_def Let_def)
    qed
  qed
qed

text \<open>Whatever calls a new service gets, each answer is the one of a run for the same interface less than the
  lifetime of the cache before.\<close>

theorem vnstat_answers_are_recent:
  "let (rs, s) = vnstat_calls fl command calls (new_vnstat_service ttl max_age) in
   list_all2 (\<lambda>(now, interface) r. \<exists>t. t \<le> now \<and> now - t < (if ttl \<le> 0 then 5 * 60 * 10 ^ 9 else ttl)
       \<and> r = run_vnstat fl command (if max_age \<le> 0 then 24 * 60 * 60 * 10 ^ 9 else max_age) t (trim_space interface))
     calls rs"
proof -
  have "list_all2 (\<lambda>(now, interface) r. \<exists>t. t \<le> now \<and> now - t < vs_cache_ttl s
       \<and> r = run_vnstat fl command (vs_max_age s) t (trim_space interface)) calls (fst (vnstat_calls fl command calls s))"
    if "cache_ok fl command s" "0 < vs_cache_ttl s" for s
    using that
  proof (induction calls arbitrary: s)
    case (Cons c calls)
    obtain now interface where c: "c = (now, interface)" by fastforce
    obtain r s' where r: "vnstat_snapshot_at fl command now interface s = (r, s')" by fastforce
    from vnstat_snapshot_at_ok [OF Cons.prems r] Cons.IH [of s'] Cons.prems show ?case
      by (auto simp: c r case_prod_beta)
  qed simp
  from this [of "new_vnstat_service ttl max_age"] show ?thesis
    by (simp add: new_vnstat_service_def cache_ok_def case_prod_beta)
qed

end
