(* ===== verification/SystemStats.thy ===== *)
theory SystemStats
  imports TcpStats Vnstat
begin

text \<open>internal/system: the sampler of CPU and disk (resources.go), the monitor of the default network
  interface (network.go) and the readers of system.go.  The contents of the files under /proc and /sys are
  parameters, None when a file cannot be read; float64 results are rounded by the parameter fl.  Times are in
  nanoseconds.\<close>

definition max_uint64 :: nat where
  "max_uint64 = 2 ^ 64 - 1"

section \<open>CPU\<close>

record cpu_counters =
  cc_total :: nat
  cc_idle :: nat

text \<open>At most eight counters; the fourth and the fifth are idle times.\<close>

fun cpu_loop :: "nat \<Rightarrow> string list \<Rightarrow> cpu_counters \<Rightarrow> cpu_counters option" where
  "cpu_loop i [] c = Some c"
| "cpu_loop i (f # fs) c =
     (if i \<ge> 8 then Some c
      else case parse_uint 64 f of
        None \<Rightarrow> None
      | Some v \<Rightarrow>
          if max_uint64 - cc_total c < v then None
          else cpu_loop (Suc i) fs (c\<lparr>cc_total := cc_total c + v,
              cc_idle := (if i = 3 \<or> i = 4 then cc_idle c + v else cc_idle c)\<rparr>))"

definition parse_cpu_counters :: "string \<Rightarrow> cpu_counters option" where
  "parse_cpu_counters raw =
     (let fs = split_fields (before (CHR 0x0A) raw) in
      if length fs < 5 \<or> hd fs \<noteq> ''cpu'' then None
      else cpu_loop 0 (tl fs) \<lparr>cc_total = 0, cc_idle = 0\<rparr>)"

definition cpu_percent :: "(rat \<Rightarrow> rat) \<Rightarrow> cpu_counters \<Rightarrow> cpu_counters \<Rightarrow> rat option" where
  "cpu_percent fl previous current =
     (if cc_total current \<le> cc_total previous \<or> cc_idle current < cc_idle previous then None
      else
        (let total = cc_total current - cc_total previous; idle = cc_idle current - cc_idle previous in
         if idle > total then None
         else Some (fl (fl (fl (of_nat (total - idle)) / fl (of_nat total)) * 100))))"

section \<open>Disks\<close>

record disk_stats =
  ds_total_bytes :: string
  ds_used_bytes :: string
  ds_available_bytes :: string
  ds_used_percent :: rat
  ds_sampled_at :: string

record disk_io_stats =
  di_read :: rat
  di_write :: rat
  di_sampled_at :: string

record disk_counters =
  dc_read :: nat
  dc_write :: nat

definition virtual_disk_prefixes :: "string list" where
  "virtual_disk_prefixes = [''dm-'', ''fd'', ''loop'', ''md'', ''nbd'', ''ram'', ''sr'', ''zram'']"

text \<open>The product of sectors and their length wraps in 64 bits.\<close>

definition parse_disk_line :: "string list \<Rightarrow> string \<Rightarrow> (string \<times> disk_counters) option" where
  "parse_disk_line devices line =
     (let fs = split_fields line in
      if length fs < 10 then None
      else if fs ! 2 \<notin> set devices \<or> list_ex (\<lambda>p. has_prefix (fs ! 2) p) virtual_disk_prefixes then None
      else case (parse_uint 64 (fs ! 5), parse_uint 64 (fs ! 9)) of
        (Some r, Some w) \<Rightarrow> Some (fs ! 2, \<lparr>dc_read = r * 512 mod 2 ^ 64, dc_write = w * 512 mod 2 ^ 64\<rparr>)
      | _ \<Rightarrow> None)"

definition parse_diskstats :: "string \<Rightarrow> string list \<Rightarrow> disk_counters gomap" where
  "parse_diskstats content devices =
     fold (\<lambda>line m. case parse_disk_line devices line of Some (name, c) \<Rightarrow> put name c m | None \<Rightarrow> m)
       (split_on (CHR 0x0A) content) []"

definition disk_stats_of :: "(rat \<Rightarrow> rat) \<Rightarrow> nat \<Rightarrow> nat \<Rightarrow> nat \<Rightarrow> nat \<Rightarrow> string \<Rightarrow> disk_stats option" where
  "disk_stats_of fl blocks free available block_size sampled_at =
     (if blocks = 0 \<or> block_size = 0 \<or> free > blocks \<or> available > free then None
      else Some \<lparr>ds_total_bytes = base_digits 10 (blocks * block_size),
          ds_used_bytes = base_digits 10 ((blocks - free) * block_size),
          ds_available_bytes = base_digits 10 (available * block_size),
          ds_used_percent = fl (fl (fl (of_nat (blocks - free)) / fl (of_nat blocks)) * 100),
          ds_sampled_at = sampled_at\<rparr>)"

section \<open>The sampler\<close>

datatype telemetry_error = Cpu_Warming_Up | Cpu_Unavailable | Disk_Unavailable

record resource_stats =
  rs_cpu_percent :: "rat option"
  rs_cpu_sampled_at :: "string option"
  rs_disk :: "disk_stats option"
  rs_disk_io :: "disk_io_stats option"
  rs_errors :: "telemetry_error list"

record collector =
  co_previous :: "cpu_counters option"
  co_next_disk_at :: "int option"
  co_previous_disk_io :: "disk_counters gomap option"
  co_previous_disk_at :: int
  co_snapshot :: resource_stats

definition new_collector :: collector where
  "new_collector = \<lparr>co_previous = None, co_next_disk_at = None, co_previous_disk_io = None, co_previous_disk_at = 0,
     co_snapshot = \<lparr>rs_cpu_percent = None, rs_cpu_sampled_at = None, rs_disk = None, rs_disk_io = None,
       rs_errors = [Cpu_Warming_Up, Disk_Unavailable]\<rparr>\<rparr>"

text \<open>What one sample reads: /proc/stat, /sys/block, /proc/diskstats and statfs of the root, with its blocks,
  free and available blocks, and the signed block size.\<close>

record resource_env =
  se_stat :: "string option"
  se_devices :: "string list option"
  se_diskstats :: "string option"
  se_statfs :: "(nat \<times> nat \<times> nat \<times> int) option"
  se_now :: int
  se_sampled_at :: string

text \<open>The growth of one counter over the devices that were there before, in 64 bits.\<close>

definition growth :: "(disk_counters \<Rightarrow> nat) \<Rightarrow> disk_counters gomap \<Rightarrow> disk_counters gomap \<Rightarrow> nat" where
  "growth f previous current = sum_list (map (\<lambda>(name, c). case lookup previous name of
       Some b \<Rightarrow> if f c \<ge> f b then f c - f b else 0 | None \<Rightarrow> 0) current) mod 2 ^ 64"

definition sample_disk_io :: "(rat \<Rightarrow> rat) \<Rightarrow> resource_env \<Rightarrow> collector \<Rightarrow> collector" where
  "sample_disk_io fl env co =
     (let nothing = co\<lparr>co_previous_disk_io := None, co_snapshot := (co_snapshot co)\<lparr>rs_disk_io := None\<rparr>\<rparr> in
      case se_devices env of None \<Rightarrow> nothing
      | Some devices \<Rightarrow> (case se_diskstats env of None \<Rightarrow> nothing
        | Some raw \<Rightarrow>
            (let current = parse_diskstats raw devices;
                 co' = co\<lparr>co_previous_disk_io := Some current, co_previous_disk_at := se_now env\<rparr>;
                 baseline = co'\<lparr>co_snapshot := (co_snapshot co)\<lparr>rs_disk_io := None\<rparr>\<rparr> in
             case co_previous_disk_io co of None \<Rightarrow> baseline
             | Some previous \<Rightarrow>
                 if current = [] \<or> se_now env \<le> co_previous_disk_at co then baseline
                 else (let elapsed = fl (of_int (se_now env - co_previous_disk_at co) / 10 ^ 9) in
                   co'\<lparr>co_snapshot := (co_snapshot co)\<lparr>rs_disk_io := Some
                     \<lparr>di_read = fl (fl (of_nat (growth dc_read previous current)) / elapsed),
                      di_write = fl (fl (of_nat (growth dc_write previous current)) / elapsed),
                      di_sampled_at = se_sampled_at env\<rparr>\<rparr>\<rparr>))))"

text \<open>The collector after the CPU part, with its error.\<close>

definition sample_cpu :: "(rat \<Rightarrow> rat) \<Rightarrow> resource_env \<Rightarrow> collector \<Rightarrow> collector \<times> telemetry_error list" where
  "sample_cpu fl env co =
     (let clear = (co_snapshot co)\<lparr>rs_cpu_percent := None, rs_cpu_sampled_at := None\<rparr> in
      case Option.bind (se_stat env) parse_cpu_counters of
        None \<Rightarrow> (co\<lparr>co_previous := None, co_snapshot := clear\<rparr>, [Cpu_Unavailable])
      | Some current \<Rightarrow>
          (let percent = (case co_previous co of Some p \<Rightarrow> cpu_percent fl p current | None \<Rightarrow> None) in
           (co\<lparr>co_previous := Some current,
              co_snapshot := clear\<lparr>rs_cpu_percent := percent, rs_cpu_sampled_at := Some (se_sampled_at env)\<rparr>\<rparr>,
            if percent = None then [Cpu_Warming_Up] else [])))"

definition sample_disk :: "(rat \<Rightarrow> rat) \<Rightarrow> resource_env \<Rightarrow> collector \<Rightarrow> collector \<times> telemetry_error list" where
  "sample_disk fl env co =
     (if (case co_next_disk_at co of Some t \<Rightarrow> se_now env < t | None \<Rightarrow> False) then
        (co, filter (\<lambda>e. e = Disk_Unavailable) (rs_errors (co_snapshot co)))
      else
        (let disk = (case se_statfs env of
               None \<Rightarrow> None
             | Some (blocks, free, available, bsize) \<Rightarrow>
                 if bsize \<le> 0 then None else disk_stats_of fl blocks free available (nat bsize) (se_sampled_at env)) in
         (co\<lparr>co_next_disk_at := Some (se_now env + 5 * 10 ^ 9),
            co_snapshot := (co_snapshot co)\<lparr>rs_disk := disk\<rparr>\<rparr>,
          if disk = None then [Disk_Unavailable] else [])))"

definition sample_resources :: "(rat \<Rightarrow> rat) \<Rightarrow> resource_env \<Rightarrow> collector \<Rightarrow> collector" where
  "sample_resources fl env co =
     (let (co1, errors1) = sample_cpu fl env co; (co2, errors2) = sample_disk fl env (sample_disk_io fl env co1) in
      co2\<lparr>co_snapshot := (co_snapshot co2)\<lparr>rs_errors := errors1 @ errors2\<rparr>\<rparr>)"

section \<open>What a sample says\<close>

text \<open>Rounding to a float64: monotone, and exact on small integers.\<close>

definition float_rounding :: "(rat \<Rightarrow> rat) \<Rightarrow> bool" where
  "float_rounding fl \<longleftrightarrow> mono fl \<and> fl 0 = 0 \<and> fl 1 = 1 \<and> fl 100 = 100"

definition percentage :: "rat \<Rightarrow> bool" where
  "percentage q \<longleftrightarrow> 0 \<le> q \<and> q \<le> 100"

lemma rounded_percentage:
  assumes "float_rounding fl" "part \<le> whole" "0 < whole"
  shows "percentage (fl (fl (fl (of_nat part) / fl (of_nat whole)) * 100))"
proof -
  have m: "fl x \<le> fl y" if "x \<le> y" for x y using assms(1) that by (simp add: float_rounding_def monoD)
  have c: "fl 0 = 0" "fl 1 = 1" "fl 100 = 100" using assms(1) by (simp_all add: float_rounding_def)
  have p: "0 \<le> fl (of_nat part)" using m [of 0 "of_nat part"] c by simp
  have t: "1 \<le> fl (of_nat whole)" using m [of 1 "of_nat whole"] c assms(3) by simp
  have le: "fl (of_nat part) \<le> fl (of_nat whole)" using assms(2) by (intro m) simp
  let ?q = "fl (of_nat part) / fl (of_nat whole)"
  have "0 \<le> ?q" "?q \<le> 1" using p t le by (simp_all add: divide_le_eq_1)
  then have "0 \<le> fl ?q" "fl ?q \<le> 1" using m [of 0 ?q] m [of ?q 1] c by simp_all
  then have "0 \<le> fl ?q * 100" "fl ?q * 100 \<le> 100" by simp_all
  then show ?thesis using m [of 0 "fl ?q * 100"] m [of "fl ?q * 100" 100] c by (simp add: percentage_def)
qed

lemma cpu_percent_range:
  assumes "float_rounding fl" "cpu_percent fl p c = Some q"
  shows "percentage q"
proof -
  let ?t = "cc_total c - cc_total p" and ?i = "cc_idle c - cc_idle p"
  from assms(2) have "0 < ?t" "q = fl (fl (fl (of_nat (?t - ?i)) / fl (of_nat ?t)) * 100)"
    by (auto simp: cpu_percent_def Let_def simp del: of_nat_diff split: if_splits)
  with rounded_percentage [OF assms(1), of "?t - ?i" ?t] show ?thesis by (simp del: of_nat_diff)
qed

text \<open>The counters of one line never wrap.\<close>

lemma cpu_loop_bound:
  "cpu_loop i fs c = Some c' \<Longrightarrow> cc_idle c \<le> cc_total c \<Longrightarrow> cc_total c \<le> max_uint64
   \<Longrightarrow> cc_idle c' \<le> cc_total c' \<and> cc_total c' \<le> max_uint64"
proof (induction i fs c rule: cpu_loop.induct)
  case (2 i f fs c)
  show ?case
  proof (cases "i \<ge> 8")
    case False
    with "2.prems" obtain v where v: "parse_uint 64 f = Some v" "\<not> max_uint64 - cc_total c < v"
      by (auto split: option.splits if_splits)
    with "2.IH" [OF False v] "2.prems" False show ?thesis by (auto split: if_splits)
  qed (use "2.prems" in simp)
qed simp

lemma parse_cpu_counters_bound:
  "parse_cpu_counters raw = Some c \<Longrightarrow> cc_idle c \<le> cc_total c \<and> cc_total c \<le> max_uint64"
  using cpu_loop_bound [of 0 _ "\<lparr>cc_total = 0, cc_idle = 0\<rparr>" c]
  by (auto simp: parse_cpu_counters_def Let_def split: if_splits)

text \<open>Each value of a snapshot is there unless its error is, and the CPU percentage is a percentage.\<close>

definition snapshot_ok :: "resource_stats \<Rightarrow> bool" where
  "snapshot_ok s \<longleftrightarrow>
     (rs_cpu_percent s = None \<longleftrightarrow> Cpu_Warming_Up \<in> set (rs_errors s) \<or> Cpu_Unavailable \<in> set (rs_errors s))
     \<and> (rs_disk s = None \<longleftrightarrow> Disk_Unavailable \<in> set (rs_errors s))
     \<and> distinct (rs_errors s) \<and> \<not> (Cpu_Warming_Up \<in> set (rs_errors s) \<and> Cpu_Unavailable \<in> set (rs_errors s))
     \<and> (case rs_cpu_percent s of Some q \<Rightarrow> percentage q \<and> rs_cpu_sampled_at s \<noteq> None | None \<Rightarrow> True)"

text \<open>The numbers of a disk against what statfs gave: total, used and available bytes are those of its blocks,
  no more is used and available than there is, the percentage is the used share of the total, and the time is
  that of the reading.\<close>

definition disk_numbers_of :: "(rat \<Rightarrow> rat) \<Rightarrow> resource_env \<Rightarrow> disk_stats \<Rightarrow> bool" where
  "disk_numbers_of fl env d \<longleftrightarrow> (\<exists>blocks free available bsize total used rest.
     se_statfs env = Some (blocks, free, available, bsize) \<and> 0 < bsize
     \<and> parse_digits (ds_total_bytes d) = Some total \<and> int total = int blocks * bsize
     \<and> parse_digits (ds_used_bytes d) = Some used \<and> int used = int total - int free * bsize
     \<and> parse_digits (ds_available_bytes d) = Some rest \<and> int rest = int available * bsize
     \<and> 0 < total \<and> used + rest \<le> total
     \<and> percentage (ds_used_percent d) \<and> (fl = id \<longrightarrow> ds_used_percent d = 100 * of_nat used / of_nat total)
     \<and> ds_sampled_at d = se_sampled_at env)"

text \<open>statfs gave no usable numbers.\<close>

definition disk_unknown :: "resource_env \<Rightarrow> bool" where
  "disk_unknown env \<longleftrightarrow> (case se_statfs env of None \<Rightarrow> True
     | Some (blocks, free, available, bsize) \<Rightarrow> bsize \<le> 0 \<or> blocks = 0 \<or> blocks < free \<or> free < available)"

text \<open>The sample whose statfs the snapshot shows: the first one, and then each that comes five seconds or more after
  the one before it in this chain.\<close>

definition due :: "resource_env \<Rightarrow> resource_env option \<Rightarrow> resource_env option" where
  "due env shown = (case shown of None \<Rightarrow> Some env
     | Some e \<Rightarrow> if se_now env < se_now e + 5 * 10 ^ 9 then Some e else Some env)"

definition last_due :: "resource_env list \<Rightarrow> resource_env option" where
  "last_due envs = fold due envs None"

definition disk_of_last_due :: "(rat \<Rightarrow> rat) \<Rightarrow> resource_env list \<Rightarrow> disk_stats option \<Rightarrow> bool" where
  "disk_of_last_due fl envs disk \<longleftrightarrow> (case last_due envs of
     None \<Rightarrow> envs = [] \<and> disk = None
   | Some env \<Rightarrow> (case disk of None \<Rightarrow> disk_unknown env | Some d \<Rightarrow> \<not> disk_unknown env \<and> disk_numbers_of fl env d))"

lemma sample_disk_io_frame:
  "rs_cpu_percent (co_snapshot (sample_disk_io fl env co)) = rs_cpu_percent (co_snapshot co)"
  "rs_cpu_sampled_at (co_snapshot (sample_disk_io fl env co)) = rs_cpu_sampled_at (co_snapshot co)"
  "rs_disk (co_snapshot (sample_disk_io fl env co)) = rs_disk (co_snapshot co)"
  "rs_errors (co_snapshot (sample_disk_io fl env co)) = rs_errors (co_snapshot co)"
  "co_next_disk_at (sample_disk_io fl env co) = co_next_disk_at co"
  by (simp_all add: sample_disk_io_def Let_def split: option.split)

lemma sample_cpu_facts:
  assumes "float_rounding fl" "sample_cpu fl env co = (co1, es)"
  shows "rs_disk (co_snapshot co1) = rs_disk (co_snapshot co)" "rs_errors (co_snapshot co1) = rs_errors (co_snapshot co)"
    "(case rs_cpu_percent (co_snapshot co1) of
        Some q \<Rightarrow> es = [] \<and> percentage q \<and> rs_cpu_sampled_at (co_snapshot co1) \<noteq> None
      | None \<Rightarrow> es = [Cpu_Warming_Up] \<or> es = [Cpu_Unavailable])"
  using assms cpu_percent_range [OF assms(1)]
  by (auto simp: sample_cpu_def Let_def split: option.splits if_splits)

text \<open>What one disk sample gives when it is due.\<close>

definition disk_reading :: "(rat \<Rightarrow> rat) \<Rightarrow> resource_env \<Rightarrow> disk_stats option" where
  "disk_reading fl env = (case se_statfs env of None \<Rightarrow> None
     | Some (blocks, free, available, bsize) \<Rightarrow>
         if bsize \<le> 0 then None else disk_stats_of fl blocks free available (nat bsize) (se_sampled_at env))"

lemma disk_reading_numbers:
  assumes "float_rounding fl"
  shows "case disk_reading fl env of None \<Rightarrow> disk_unknown env | Some d \<Rightarrow> \<not> disk_unknown env \<and> disk_numbers_of fl env d"
proof (cases "disk_unknown env")
  case True
  then have "disk_reading fl env = None"
    by (auto simp: disk_unknown_def disk_reading_def disk_stats_of_def split: option.splits prod.splits)
  with True show ?thesis by simp
next
  case False
  then obtain b f a s where st: "se_statfs env = Some (b, f, a, s)" and l: "0 < s" "0 < b" "f \<le> b" "a \<le> f"
    by (auto simp: disk_unknown_def split: option.splits prod.splits)
  define n where "n = nat s"
  have n: "0 < n" "s = int n" using l(1) by (simp_all add: n_def)
  let ?d = "\<lparr>ds_total_bytes = base_digits 10 (b * n), ds_used_bytes = base_digits 10 ((b - f) * n),
    ds_available_bytes = base_digits 10 (a * n), ds_used_percent = fl (fl (fl (of_nat (b - f)) / fl (of_nat b)) * 100),
    ds_sampled_at = se_sampled_at env\<rparr>"
  have d: "disk_reading fl env = Some ?d" using st l n by (simp add: disk_reading_def disk_stats_of_def)
  have fits: "(b - f) * n + a * n \<le> b * n" unfolding add_mult_distrib [symmetric] by (rule mult_le_mono1) (use l in simp)
  have used: "int ((b - f) * n) = int (b * n) - int f * s" using l(3) n(2) by (simp add: of_nat_diff left_diff_distrib)
  have share: "fl = id \<longrightarrow> ds_used_percent ?d = 100 * of_nat ((b - f) * n) / of_nat (b * n)"
  proof -
    have "of_nat (b - f) / of_nat b * 100 = 100 * of_nat ((b - f) * n) / (of_nat (b * n) :: rat)"
      using n(1) unfolding of_nat_mult by (simp del: of_nat_diff)
    then show ?thesis by (simp del: of_nat_diff of_nat_mult)
  qed
  have percent: "percentage (ds_used_percent ?d)"
    using rounded_percentage [OF assms, of "b - f" b] l(2) by (simp del: of_nat_diff)
  have "disk_numbers_of fl env ?d"
    unfolding disk_numbers_of_def
  proof (rule exI [of _ b], rule exI [of _ f], rule exI [of _ a], rule exI [of _ s], rule exI [of _ "b * n"],
      rule exI [of _ "(b - f) * n"], rule exI [of _ "a * n"], intro conjI)
  qed (use st l n fits used share percent in \<open>simp_all only: parse_digits_decimal disk_stats.select_convs of_nat_mult mult_pos_pos\<close>)
  with False d show ?thesis by simp
qed

lemma sample_disk_cases:
  "sample_disk fl env co =
     (if (case co_next_disk_at co of Some t \<Rightarrow> se_now env < t | None \<Rightarrow> False) then
        (co, filter (\<lambda>e. e = Disk_Unavailable) (rs_errors (co_snapshot co)))
      else (co\<lparr>co_next_disk_at := Some (se_now env + 5 * 10 ^ 9),
              co_snapshot := (co_snapshot co)\<lparr>rs_disk := disk_reading fl env\<rparr>\<rparr>,
            if disk_reading fl env = None then [Disk_Unavailable] else []))"
  by (simp add: sample_disk_def disk_reading_def Let_def)

lemma sample_disk_facts:
  assumes "sample_disk fl env co = (co2, es)"
    and "rs_disk (co_snapshot co) = None \<longleftrightarrow> Disk_Unavailable \<in> set (rs_errors (co_snapshot co))"
    and "distinct (rs_errors (co_snapshot co))"
  shows "rs_cpu_percent (co_snapshot co2) = rs_cpu_percent (co_snapshot co)"
    "rs_cpu_sampled_at (co_snapshot co2) = rs_cpu_sampled_at (co_snapshot co)"
    "es = (if rs_disk (co_snapshot co2) = None then [Disk_Unavailable] else [])"
proof -
  have one: "filter (\<lambda>e. e = Disk_Unavailable) es = (if Disk_Unavailable \<in> set es then [Disk_Unavailable] else [])"
    if "distinct es" for es :: "telemetry_error list"
    using that by (induction es) auto
  show "rs_cpu_percent (co_snapshot co2) = rs_cpu_percent (co_snapshot co)"
    "rs_cpu_sampled_at (co_snapshot co2) = rs_cpu_sampled_at (co_snapshot co)"
    "es = (if rs_disk (co_snapshot co2) = None then [Disk_Unavailable] else [])"
    using assms one [OF assms(3)] by (auto simp: sample_disk_cases split: if_splits)
qed

lemma sample_resources_split:
  obtains co1 e1 co2 e2 where "sample_cpu fl env co = (co1, e1)" "sample_disk fl env (sample_disk_io fl env co1) = (co2, e2)"
    "sample_resources fl env co = co2\<lparr>co_snapshot := (co_snapshot co2)\<lparr>rs_errors := e1 @ e2\<rparr>\<rparr>"
proof -
  obtain co1 e1 where 1: "sample_cpu fl env co = (co1, e1)" by fastforce
  obtain co2 e2 where 2: "sample_disk fl env (sample_disk_io fl env co1) = (co2, e2)" by fastforce
  from that [OF 1 2] 1 2 show ?thesis by (simp add: sample_resources_def)
qed

lemma sample_resources_ok:
  assumes "float_rounding fl" "snapshot_ok (co_snapshot co)"
  shows "snapshot_ok (co_snapshot (sample_resources fl env co))"
proof -
  obtain co1 e1 co2 e2 where 1: "sample_cpu fl env co = (co1, e1)"
    and 2: "sample_disk fl env (sample_disk_io fl env co1) = (co2, e2)"
    and r: "sample_resources fl env co = co2\<lparr>co_snapshot := (co_snapshot co2)\<lparr>rs_errors := e1 @ e2\<rparr>\<rparr>"
    by (rule sample_resources_split)
  let ?co = "sample_disk_io fl env co1"
  note f1 = sample_cpu_facts [OF assms(1) 1]
  have pre: "rs_disk (co_snapshot ?co) = None \<longleftrightarrow> Disk_Unavailable \<in> set (rs_errors (co_snapshot ?co))"
    "distinct (rs_errors (co_snapshot ?co))"
    using f1 assms(2) by (simp_all add: sample_disk_io_frame snapshot_ok_def)
  note f2 = sample_disk_facts [OF 2 pre]
  show ?thesis
    unfolding r using f1(3) f2 by (auto simp: snapshot_ok_def sample_disk_io_frame split: option.splits)
qed

text \<open>The disk of the collector belongs to the last sample that was due.\<close>

definition disk_inv :: "(rat \<Rightarrow> rat) \<Rightarrow> resource_env option \<Rightarrow> collector \<Rightarrow> bool" where
  "disk_inv fl shown co \<longleftrightarrow> co_next_disk_at co = map_option (\<lambda>e. se_now e + 5 * 10 ^ 9) shown
     \<and> rs_disk (co_snapshot co) = Option.bind shown (disk_reading fl)"

lemma sample_cpu_frame:
  "sample_cpu fl env co = (co1, es)
   \<Longrightarrow> rs_disk (co_snapshot co1) = rs_disk (co_snapshot co) \<and> co_next_disk_at co1 = co_next_disk_at co"
  by (auto simp: sample_cpu_def Let_def split: option.splits)

lemma sample_resources_disk:
  assumes "disk_inv fl shown co" shows "disk_inv fl (due env shown) (sample_resources fl env co)"
proof -
  obtain co1 e1 co2 e2 where 1: "sample_cpu fl env co = (co1, e1)"
    and 2: "sample_disk fl env (sample_disk_io fl env co1) = (co2, e2)"
    and r: "sample_resources fl env co = co2\<lparr>co_snapshot := (co_snapshot co2)\<lparr>rs_errors := e1 @ e2\<rparr>\<rparr>"
    by (rule sample_resources_split)
  let ?late = "case co_next_disk_at co of Some t \<Rightarrow> se_now env < t | None \<Rightarrow> False"
  have "co_next_disk_at co2 = (if ?late then co_next_disk_at co else Some (se_now env + 5 * 10 ^ 9))"
    "rs_disk (co_snapshot co2) = (if ?late then rs_disk (co_snapshot co) else disk_reading fl env)"
    using 2 sample_cpu_frame [OF 1] by (auto simp: sample_disk_cases sample_disk_io_frame split: if_splits)
  with assms show ?thesis by (cases shown) (simp_all add: r disk_inv_def due_def)
qed

lemma last_due_None: "last_due envs = None \<longleftrightarrow> envs = []"
  by (cases envs rule: rev_cases) (auto simp: last_due_def due_def split: option.splits)

text \<open>C37: After any samples, whatever the files hold, a value is missing exactly when its error is reported and the
  CPU usage is between 0 and 100 percent.  The disk of the snapshot is that of the last sample that was due, five
  seconds or more after the one shown before: it is missing when the statfs of that sample failed or was impossible,
  and otherwise its total, used and available bytes are those of the blocks that statfs gave, used and available fit
  into the total, and the percentage is the used share.\<close>

theorem resource_snapshots_consistent:
  assumes "float_rounding fl"
  shows "snapshot_ok (co_snapshot (fold (sample_resources fl) envs new_collector))
    \<and> disk_of_last_due fl envs (rs_disk (co_snapshot (fold (sample_resources fl) envs new_collector)))"
proof -
  let ?run = "\<lambda>envs. fold (sample_resources fl) envs new_collector"
  have ok: "snapshot_ok (co_snapshot (?run es)) \<and> disk_inv fl (last_due es) (?run es)" for es
  proof (induction es rule: rev_induct)
    case Nil
    show ?case by (simp add: snapshot_ok_def disk_inv_def last_due_def new_collector_def)
  next
    case (snoc e es)
    then show ?case using sample_resources_ok [OF assms] sample_resources_disk by (simp add: last_due_def)
  qed
  then have "rs_disk (co_snapshot (?run envs)) = Option.bind (last_due envs) (disk_reading fl)"
    by (simp add: disk_inv_def)
  then have "disk_of_last_due fl envs (rs_disk (co_snapshot (?run envs)))"
    unfolding disk_of_last_due_def using disk_reading_numbers [OF assms] last_due_None [of envs]
    by (cases "last_due envs") simp_all
  with ok show ?thesis by blast
qed

definition sample_read :: resource_env where
  "sample_read = \<lparr>se_stat = Some ''cpu 10 0 5 80 5 0 0 0'', se_devices = Some [''sda''], se_diskstats = None,
     se_statfs = Some (100, 40, 30, 4096), se_now = 5, se_sampled_at = ''now''\<rparr>"

theorem resource_snapshots_consistent_witness:
  "let s = co_snapshot (fold (sample_resources id) [sample_read, sample_read] new_collector) in
   snapshot_ok s \<and> disk_of_last_due id [sample_read, sample_read] (rs_disk s) \<and> rs_disk s \<noteq> None"
proof -
  have "float_rounding id" by (simp add: float_rounding_def mono_def)
  note ok = resource_snapshots_consistent [OF this, of "[sample_read, sample_read]"]
  then have "\<not> disk_of_last_due id [sample_read, sample_read] None"
    by (simp add: disk_of_last_due_def disk_unknown_def last_due_def due_def sample_read_def)
  with ok show ?thesis unfolding Let_def by metis
qed

section \<open>The network monitor\<close>

record interface_sample =
  is_rx :: nat
  is_tx :: nat
  is_timestamp :: int

record network_interface =
  ni_interface :: string
  ni_rx_rate :: int
  ni_tx_rate :: int
  ni_rx_total :: int
  ni_tx_total :: int

record network_monitor =
  nm_default :: string
  nm_previous :: "interface_sample gomap"
  nm_current :: "network_interface option"

text \<open>strconv.ParseUint with its error dropped.\<close>

definition parse_uint64 :: "string \<Rightarrow> nat" where
  "parse_uint64 s = (case parse_digits s of Some n \<Rightarrow> min n max_uint64 | None \<Rightarrow> 0)"

definition trim_colon :: "string \<Rightarrow> string" where
  "trim_colon s = (if has_suffix s '':'' then butlast s else s)"

definition parse_net_line :: "int \<Rightarrow> string \<Rightarrow> (string \<times> interface_sample) option" where
  "parse_net_line now line =
     (let fs = split_fields (trim_space line) in
      if length fs < 10 then None
      else Some (trim_colon (fs ! 0), \<lparr>is_rx = parse_uint64 (fs ! 1), is_tx = parse_uint64 (fs ! 9), is_timestamp = now\<rparr>))"

text \<open>The text of /proc/net/dev after its two lines of headings.\<close>

definition read_proc_net_dev :: "int \<Rightarrow> string option \<Rightarrow> interface_sample gomap" where
  "read_proc_net_dev now dev = (case dev of
     None \<Rightarrow> []
   | Some content \<Rightarrow>
       fold (\<lambda>line m. case parse_net_line now line of Some (name, s) \<Rightarrow> put name s m | None \<Rightarrow> m)
         (drop 2 (fst (scan_lines content))) [])"

definition resolve_default_interface :: "string option \<Rightarrow> string" where
  "resolve_default_interface route = (case route of
     None \<Rightarrow> []
   | Some raw \<Rightarrow>
       (case filter (\<lambda>fs. length fs \<ge> 2 \<and> fs ! 1 = ''00000000'') (map split_fields (tl (split_on (CHR 0x0A) raw))) of
          fs # _ \<Rightarrow> hd fs | [] \<Rightarrow> []))"

definition new_network_monitor :: "bool \<Rightarrow> string option \<Rightarrow> int \<Rightarrow> string option \<Rightarrow> network_monitor" where
  "new_network_monitor available route now dev =
     (if available then \<lparr>nm_default = resolve_default_interface route, nm_previous = read_proc_net_dev now dev, nm_current = None\<rparr>
      else \<lparr>nm_default = [], nm_previous = [], nm_current = None\<rparr>)"

definition to_int64 :: "nat \<Rightarrow> int" where
  "to_int64 n = (if n < 2 ^ 63 then int n else int n - 2 ^ 64)"

text \<open>The rate of a counter: bytes by seconds, cut to an integer.\<close>

definition rate_of :: "(rat \<Rightarrow> rat) \<Rightarrow> nat \<Rightarrow> rat \<Rightarrow> int" where
  "rate_of fl bytes elapsed = go_int (fl (fl (of_nat bytes) / elapsed))"

definition network_tick :: "(rat \<Rightarrow> rat) \<Rightarrow> int \<Rightarrow> string option \<Rightarrow> network_monitor \<Rightarrow> network_monitor" where
  "network_tick fl now dev m =
     (let current = read_proc_net_dev now dev;
          shown = (if nm_default m = [] then nm_current m
            else case (lookup current (nm_default m), lookup (nm_previous m) (nm_default m)) of
              (Some c, Some p) \<Rightarrow>
                (let elapsed = fl (of_int (now - is_timestamp p) / 10 ^ 9) in
                 if elapsed > 0 \<and> is_rx c \<ge> is_rx p \<and> is_tx c \<ge> is_tx p
                 then Some \<lparr>ni_interface = nm_default m, ni_rx_rate = rate_of fl (is_rx c - is_rx p) elapsed,
                     ni_tx_rate = rate_of fl (is_tx c - is_tx p) elapsed,
                     ni_rx_total = to_int64 (is_rx c), ni_tx_total = to_int64 (is_tx c)\<rparr>
                 else nm_current m)
            | _ \<Rightarrow> nm_current m) in
      m\<lparr>nm_current := shown, nm_previous := fold (\<lambda>(name, s). put name (s\<lparr>is_timestamp := now\<rparr>)) current (nm_previous m)\<rparr>)"

section \<open>Memory and the host\<close>

record memory_info =
  me_free :: nat
  me_total :: nat
  me_swap_free :: "nat option"
  me_swap_total :: "nat option"

text \<open>The values of a line of /proc/meminfo by its first field: kilobytes, in 64 bits.\<close>

definition meminfo_line :: "string \<Rightarrow> (string \<times> nat) option" where
  "meminfo_line line =
     (let fs = split_fields line in
      if length fs < 2 then None
      else map_option (\<lambda>v. (hd fs, v * 1024 mod 2 ^ 64)) (parse_uint 64 (fs ! 1)))"

definition meminfo_value :: "(string \<times> nat) list \<Rightarrow> string \<Rightarrow> nat option" where
  "meminfo_value found key = map_of (rev found) key"

definition read_memory_info :: "string option \<Rightarrow> nat \<Rightarrow> memory_info" where
  "read_memory_info meminfo runtime_sys = (case meminfo of
     None \<Rightarrow> \<lparr>me_free = 0, me_total = runtime_sys, me_swap_free = None, me_swap_total = None\<rparr>
   | Some content \<Rightarrow>
       (let found = List.map_filter meminfo_line (fst (scan_lines content));
            value = (\<lambda>k. case meminfo_value found k of Some v \<Rightarrow> v | None \<Rightarrow> 0);
            available = value ''MemAvailable:'';
            has_swap = (meminfo_value found ''SwapTotal:'' \<noteq> None) in
        \<lparr>me_free = (if available > 0 then available else value ''MemFree:''), me_total = value ''MemTotal:'',
         me_swap_free = (if has_swap then Some (value ''SwapFree:'') else None),
         me_swap_total = (if has_swap then Some (value ''SwapTotal:'') else None)\<rparr>))"

definition memory_used :: "memory_info \<Rightarrow> nat" where
  "memory_used m = (if me_total m > me_free m then me_total m - me_free m else 0)"

definition swap_used :: "memory_info \<Rightarrow> nat option" where
  "swap_used m = (case (me_swap_total m, me_swap_free m) of
     (Some t, Some f) \<Rightarrow> if t \<ge> f then Some (t - f) else None | _ \<Rightarrow> None)"

text \<open>The directories of /proc with a number for a name.\<close>

definition process_count :: "(string \<times> bool) list option \<Rightarrow> nat option" where
  "process_count entries = map_option (\<lambda>es. length (filter (\<lambda>(name, dir). dir \<and> atoi name \<noteq> None) es)) entries"

definition kernel_release :: "string option \<Rightarrow> string" where
  "kernel_release osrelease = (case osrelease of
     Some raw \<Rightarrow> if trim_space raw \<noteq> [] then trim_space raw else ''linux'' | None \<Rightarrow> ''linux'')"

definition trim_quotes :: "string \<Rightarrow> string" where
  "trim_quotes s = rev (dropWhile (\<lambda>c. c = CHR 0x22) (rev (dropWhile (\<lambda>c. c = CHR 0x22) s)))"

definition pretty_names :: "string \<Rightarrow> string list" where
  "pretty_names raw = filter (\<lambda>v. v \<noteq> []) (map (\<lambda>l. trim_quotes (drop 12 l))
     (filter (\<lambda>l. has_prefix l ''PRETTY_NAME='') (split_on (CHR 0x0A) raw)))"

definition os_release_name :: "string option list \<Rightarrow> string option" where
  "os_release_name files = (case concat (map pretty_names (List.map_filter id files)) of v # _ \<Rightarrow> Some v | [] \<Rightarrow> None)"

definition hypervisor_names :: "string list" where
  "hypervisor_names = [''kvm'', ''qemu'', ''vmware'', ''virtualbox'', ''bochs'', ''xen'', ''hyper-v'', ''virtual machine'',
     ''droplet'', ''openstack'', ''amazon ec2'', ''bhyve'', ''parallels'', ''google compute'']"

definition virtualization :: "string option \<Rightarrow> string option list \<Rightarrow> string" where
  "virtualization cpuinfo dmi =
     (let flag = (case cpuinfo of None \<Rightarrow> False
            | Some raw \<Rightarrow> list_ex (\<lambda>l. has_prefix l ''flags'' \<and> contains_text l ''hypervisor'') (split_on (CHR 0x0A) raw));
          named = filter (\<lambda>v. v \<noteq> [] \<and> list_ex (contains_text (to_lower v)) hypervisor_names)
            (map trim_space (List.map_filter id dmi)) in
      case named of v # _ \<Rightarrow> v | [] \<Rightarrow> if flag then ''virtual'' else ''none'')"

definition cpu_model :: "string option \<Rightarrow> string" where
  "cpu_model cpuinfo = (case cpuinfo of
     None \<Rightarrow> ''unknown''
   | Some raw \<Rightarrow> (case filter (\<lambda>l. has_prefix l ''model name'' \<and> CHR '':'' \<in> set l) (fst (scan_lines raw)) of
       l # _ \<Rightarrow> trim_space (drop (Suc (length (before (CHR '':'') l))) l) | [] \<Rightarrow> ''unknown''))"

text \<open>strconv.ParseFloat is a parameter.\<close>

definition load_avg :: "(string \<Rightarrow> rat option) \<Rightarrow> string option \<Rightarrow> rat list" where
  "load_avg number loadavg = (case loadavg of
     None \<Rightarrow> [0, 0, 0]
   | Some raw \<Rightarrow>
       (let fs = split_fields raw in
        map (\<lambda>i. if i < length fs then (case number (fs ! i) of Some v \<Rightarrow> v | None \<Rightarrow> 0) else 0) [0..<3]))"

definition uptime :: "(string \<Rightarrow> rat option) \<Rightarrow> rat \<Rightarrow> string option \<Rightarrow> rat" where
  "uptime number since_start content = (case content of
     None \<Rightarrow> since_start
   | Some raw \<Rightarrow> (case split_fields raw of
       [] \<Rightarrow> since_start | f # _ \<Rightarrow> (case number f of Some v \<Rightarrow> v | None \<Rightarrow> since_start)))"

end
