(* ===== verification/NodeConfig.thy ===== *)
theory NodeConfig
  imports GoPath NodeAccess
begin

text \<open>internal/config/config.go: the settings of the node from a file of assignments and the environment.  The
  file, the secret file and the random bytes of the token are parameters.\<close>

section \<open>The file\<close>

text \<open>The two characters backslash and n become a line end.\<close>

fun unescape_newlines :: "string \<Rightarrow> string" where
  "unescape_newlines (c # d # s) =
     (if c = CHR 0x5C \<and> d = CHR ''n'' then CHR 0x0A # unescape_newlines s else c # unescape_newlines (d # s))"
| "unescape_newlines s = s"

definition quoted_by :: "char \<Rightarrow> string \<Rightarrow> bool" where
  "quoted_by q s \<longleftrightarrow> hd s = q \<and> last s = q"

definition unquote :: "string \<Rightarrow> string" where
  "unquote s =
     (if length s < 2 then s
      else unescape_newlines (if quoted_by (CHR 0x22) s \<or> quoted_by (CHR 0x27) s then butlast (tl s) else s))"

datatype node_config_error =
    Cannot_Open string
  | Invalid_Line nat
  | Empty_Key nat
  | Line_Too_Long
  | Missing string
  | Not_Integer string
  | Secret_Unreadable string
  | Secret_Missing
  | No_Random string

definition parse_assignment :: "nat \<Rightarrow> string \<Rightarrow> node_config_error + (string \<times> string)" where
  "parse_assignment n l =
     (let line = trim_prefix ''export '' l; key = before (CHR ''='') line in
      if CHR ''='' \<notin> set line then Inl (Invalid_Line n)
      else if trim_space key = [] then Inl (Empty_Key n)
      else Inr (trim_space key, unquote (trim_space (drop (Suc (length key)) line))))"

text \<open>The lines from a number on.\<close>

fun parse_lines :: "nat \<Rightarrow> string list \<Rightarrow> string gomap \<Rightarrow> node_config_error + string gomap" where
  "parse_lines n [] values = Inr values"
| "parse_lines n (raw # rest) values =
     (let line = trim_space raw in
      if line = [] \<or> has_prefix line ''#'' then parse_lines (Suc n) rest values
      else case parse_assignment n line of
        Inl e \<Rightarrow> Inl e
      | Inr (key, value) \<Rightarrow> parse_lines (Suc n) rest (put key value values))"

datatype env_file = No_File | Open_Error string | Env_File string

definition parse_dot_env :: "env_file \<Rightarrow> node_config_error + string gomap" where
  "parse_dot_env file_content = (case file_content of
     No_File \<Rightarrow> Inr []
   | Open_Error e \<Rightarrow> Inl (Cannot_Open e)
   | Env_File content \<Rightarrow>
       (let (ls, too_long) = scan_lines content in
        case parse_lines 1 ls [] of
          Inl e \<Rightarrow> Inl e
        | Inr values \<Rightarrow> if too_long then Inl Line_Too_Long else Inr values))"

section \<open>Values\<close>

definition value_of :: "string gomap \<Rightarrow> string \<Rightarrow> string" where
  "value_of values key = (case lookup values key of Some v \<Rightarrow> trim_space v | None \<Rightarrow> [])"

definition required_int :: "string gomap \<Rightarrow> string \<Rightarrow> node_config_error + int" where
  "required_int values key =
     (if value_of values key = [] then Inl (Missing key)
      else case atoi (value_of values key) of Some n \<Rightarrow> Inr n | None \<Rightarrow> Inl (Not_Integer key))"

definition optional_string :: "string gomap \<Rightarrow> string \<Rightarrow> string \<Rightarrow> string" where
  "optional_string values key fallback = (if value_of values key \<noteq> [] then value_of values key else fallback)"

definition optional_bool :: "string gomap \<Rightarrow> string \<Rightarrow> bool \<Rightarrow> bool" where
  "optional_bool values key fallback =
     (if value_of values key = [] then fallback else value_of values key \<in> {''true'', ''1'', ''yes''})"

definition optional_int_default :: "string gomap \<Rightarrow> string \<Rightarrow> int \<Rightarrow> int" where
  "optional_int_default values key fallback =
     (if value_of values key = [] then fallback
      else case atoi (value_of values key) of Some n \<Rightarrow> n | None \<Rightarrow> fallback)"

section \<open>Loading\<close>

definition config_keys :: "string list" where
  "config_keys = [''NODE_PORT'', ''NODE_BIND_ADDR'', ''SECRET_KEY'', ''SECRET_KEY_FILE'', ''XRAY_BIN'', ''NEXTTRACE_PATH'',
     ''GEO_DIR'', ''LOG_DIR'', ''DATA_DIR'', ''INTERNAL_SOCKET_PATH'', ''INTERNAL_REST_TOKEN'', ''ASN_DB_PATH'',
     ''DISABLE_HASHED_SET_CHECK'', ''LOW_MEMORY'', ''BODY_LIMIT_MB'', ''MIDDLE_FORWARD_ETC_MOUNT'',
     ''MIDDLE_FORWARD_RUN_MOUNT'', ''WARP_PROBE_PORT'']"

record node_config =
  nc_node_port :: int
  nc_bind_addr :: string
  nc_secret_key :: string
  nc_xray_bin :: string
  nc_nexttrace_bin :: string
  nc_geo_dir :: string
  nc_log_dir :: string
  nc_data_dir :: string
  nc_internal_socket_path :: string
  nc_internal_rest_token :: string
  nc_asn_db_path :: string
  nc_disable_hashed_set_check :: bool
  nc_low_memory :: bool
  nc_body_limit_mb :: int
  nc_forwarding_config_path :: string
  nc_forwarding_socket_path :: string
  nc_warp_probe_port :: int

record config_sources =
  cs_dotenv :: "env_file option"
  cs_env :: "string \<Rightarrow> string option"
  cs_read_file :: "string \<Rightarrow> string + string"
  cs_random :: "string + nat list"

definition overlay_env :: "(string \<Rightarrow> string option) \<Rightarrow> string gomap \<Rightarrow> string gomap" where
  "overlay_env env values = fold (\<lambda>key m. case env key of
       Some v \<Rightarrow> if trim_space v \<noteq> [] then put key v m else m | None \<Rightarrow> m) config_keys values"

definition load_secret_from_file :: "(string \<Rightarrow> string + string) \<Rightarrow> string gomap \<Rightarrow> node_config_error + string" where
  "load_secret_from_file read_file values =
     (let path = value_of values ''SECRET_KEY_FILE'' in
      if path = [] then Inr []
      else case read_file path of Inl e \<Rightarrow> Inl (Secret_Unreadable path) | Inr raw \<Rightarrow> Inr (trim_space raw))"

definition load_secret :: "(string \<Rightarrow> string + string) \<Rightarrow> string gomap \<Rightarrow> node_config_error + string" where
  "load_secret read_file values =
     (if value_of values ''SECRET_KEY'' \<noteq> [] then Inr (value_of values ''SECRET_KEY'')
      else case load_secret_from_file read_file values of
        Inl e \<Rightarrow> Inl e
      | Inr key \<Rightarrow> if key = [] then Inl Secret_Missing else Inr key)"

text \<open>The token of 48 random bytes in base64.RawURLEncoding.\<close>

fun raw_url_encode :: "nat list \<Rightarrow> string" where
  "raw_url_encode bs = map (\<lambda>c. if c = CHR ''+'' then CHR ''-'' else if c = CHR ''/'' then CHR ''_'' else c)
     (filter (\<lambda>c. c \<noteq> CHR ''='') (b64_encode_bytes bs))"

definition load_token :: "string + nat list \<Rightarrow> string gomap \<Rightarrow> node_config_error + string" where
  "load_token random values =
     (if value_of values ''INTERNAL_REST_TOKEN'' \<noteq> [] then Inr (value_of values ''INTERNAL_REST_TOKEN'')
      else case random of Inl e \<Rightarrow> Inl (No_Random e) | Inr bytes \<Rightarrow> Inr (raw_url_encode bytes))"

definition config_of_values :: "string gomap \<Rightarrow> int \<Rightarrow> string \<Rightarrow> string \<Rightarrow> node_config" where
  "config_of_values values port secret rest_token =
     \<lparr>nc_node_port = port, nc_bind_addr = value_of values ''NODE_BIND_ADDR'', nc_secret_key = secret,
      nc_xray_bin = optional_string values ''XRAY_BIN'' ''/usr/local/bin/rw-core'',
      nc_nexttrace_bin = optional_string values ''NEXTTRACE_PATH'' ''/usr/local/bin/nexttrace-tiny'',
      nc_geo_dir = optional_string values ''GEO_DIR'' ''/usr/local/share/xray'',
      nc_log_dir = optional_string values ''LOG_DIR'' ''/var/log/remnanode'',
      nc_data_dir = optional_string values ''DATA_DIR'' ''/var/lib/remnanode'',
      nc_internal_socket_path = optional_string values ''INTERNAL_SOCKET_PATH'' ''/run/remnanode/internal.sock'',
      nc_internal_rest_token = rest_token,
      nc_asn_db_path = optional_string values ''ASN_DB_PATH'' ''/usr/local/share/asn/asn-prefixes.bin'',
      nc_disable_hashed_set_check = optional_bool values ''DISABLE_HASHED_SET_CHECK'' False,
      nc_low_memory = optional_bool values ''LOW_MEMORY'' False,
      nc_body_limit_mb = optional_int_default values ''BODY_LIMIT_MB'' 0,
      nc_forwarding_config_path = path_join [optional_string values ''MIDDLE_FORWARD_ETC_MOUNT'' ''/etc/middle-forward'', ''mappings.tsv''],
      nc_forwarding_socket_path = path_join [optional_string values ''MIDDLE_FORWARD_RUN_MOUNT'' ''/run/middle-forward'', ''haproxy.sock''],
      nc_warp_probe_port = optional_int_default values ''WARP_PROBE_PORT'' 61001\<rparr>"

definition load_config :: "config_sources \<Rightarrow> node_config_error + node_config" where
  "load_config src = (case (case cs_dotenv src of None \<Rightarrow> Inr [] | Some content \<Rightarrow> parse_dot_env content) of
     Inl e \<Rightarrow> Inl e
   | Inr file_values \<Rightarrow>
       (let values = overlay_env (cs_env src) file_values in
        case required_int values ''NODE_PORT'' of
          Inl e \<Rightarrow> Inl e
        | Inr port \<Rightarrow> (case load_secret (cs_read_file src) values of
            Inl e \<Rightarrow> Inl e
          | Inr secret \<Rightarrow> (case load_token (cs_random src) values of
              Inl e \<Rightarrow> Inl e
            | Inr rest_token \<Rightarrow> Inr (config_of_values values port secret rest_token)))))"

definition http_addr :: "node_config \<Rightarrow> string" where
  "http_addr c = nc_bind_addr c @ '':'' @ format_int 10 (nc_node_port c)"

section \<open>Where a setting comes from\<close>

text \<open>The environment before the file, both without the space around them.\<close>

definition setting :: "(string \<Rightarrow> string option) \<Rightarrow> string gomap \<Rightarrow> string \<Rightarrow> string" where
  "setting env vals key = (case env key of
     Some v \<Rightarrow> if trim_space v \<noteq> [] then trim_space v else value_of vals key | None \<Rightarrow> value_of vals key)"

lemma overlay_fold:
  "lookup (fold (\<lambda>key m. case env key of Some v \<Rightarrow> if trim_space v \<noteq> [] then put key v m else m | None \<Rightarrow> m) keys vals) k
   = (case env k of Some v \<Rightarrow> if k \<in> set keys \<and> trim_space v \<noteq> [] then Some v else lookup vals k
      | None \<Rightarrow> lookup vals k)"
  by (induction keys arbitrary: vals) (auto simp: update_conv split: option.splits)

lemma overlay_value:
  "key \<in> set config_keys \<Longrightarrow> value_of (overlay_env env vals) key = setting env vals key"
  by (auto simp: value_of_def overlay_env_def overlay_fold setting_def split: option.split)

text \<open>A configuration that loads takes each setting from the environment, else from the file, else its default;
  it has an integer port and a secret, and a token for the internal socket.\<close>

theorem loaded_config:
  assumes "load_config src = Inr c" "\<And>bytes. cs_random src = Inr bytes \<Longrightarrow> raw_url_encode bytes \<noteq> []"
  shows "\<exists>vals. (case cs_dotenv src of None \<Rightarrow> Inr [] | Some content \<Rightarrow> parse_dot_env content) = Inr vals
    \<and> (let get = setting (cs_env src) vals; or_else = (\<lambda>key default. if get key \<noteq> [] then get key else default) in
       atoi (get ''NODE_PORT'') = Some (nc_node_port c) \<and> nc_bind_addr c = get ''NODE_BIND_ADDR''
       \<and> nc_secret_key c \<noteq> [] \<and> nc_internal_rest_token c \<noteq> []
       \<and> (if get ''SECRET_KEY'' \<noteq> [] then nc_secret_key c = get ''SECRET_KEY''
          else \<exists>raw. cs_read_file src (get ''SECRET_KEY_FILE'') = Inr raw \<and> nc_secret_key c = trim_space raw)
       \<and> (get ''INTERNAL_REST_TOKEN'' \<noteq> [] \<longrightarrow> nc_internal_rest_token c = get ''INTERNAL_REST_TOKEN'')
       \<and> nc_xray_bin c = or_else ''XRAY_BIN'' ''/usr/local/bin/rw-core''
       \<and> nc_log_dir c = or_else ''LOG_DIR'' ''/var/log/remnanode''
       \<and> nc_data_dir c = or_else ''DATA_DIR'' ''/var/lib/remnanode''
       \<and> nc_internal_socket_path c = or_else ''INTERNAL_SOCKET_PATH'' ''/run/remnanode/internal.sock''
       \<and> nc_low_memory c = (get ''LOW_MEMORY'' \<in> {''true'', ''1'', ''yes''})
       \<and> nc_body_limit_mb c = (case atoi (get ''BODY_LIMIT_MB'') of Some n \<Rightarrow> n | None \<Rightarrow> 0)
       \<and> nc_warp_probe_port c = (case atoi (get ''WARP_PROBE_PORT'') of Some n \<Rightarrow> n | None \<Rightarrow> 61001))"
proof -
  let ?file = "case cs_dotenv src of None \<Rightarrow> Inr [] | Some content \<Rightarrow> parse_dot_env content"
  from assms(1) obtain vals where v: "?file = Inr vals" by (auto simp: load_config_def split: sum.splits)
  let ?m = "overlay_env (cs_env src) vals"
  from assms(1) v obtain port secret rest_token where l: "required_int ?m ''NODE_PORT'' = Inr port"
    "load_secret (cs_read_file src) ?m = Inr secret" "load_token (cs_random src) ?m = Inr rest_token"
    "c = config_of_values ?m port secret rest_token"
    by (auto simp: load_config_def Let_def split: sum.splits)
  let ?get = "setting (cs_env src) vals"
  note ov = overlay_value [of _ "cs_env src" vals]
  have keys: "value_of ?m ''NODE_PORT'' = ?get ''NODE_PORT''" "value_of ?m ''NODE_BIND_ADDR'' = ?get ''NODE_BIND_ADDR''"
    "value_of ?m ''SECRET_KEY'' = ?get ''SECRET_KEY''" "value_of ?m ''SECRET_KEY_FILE'' = ?get ''SECRET_KEY_FILE''"
    "value_of ?m ''INTERNAL_REST_TOKEN'' = ?get ''INTERNAL_REST_TOKEN''" "value_of ?m ''XRAY_BIN'' = ?get ''XRAY_BIN''"
    "value_of ?m ''LOG_DIR'' = ?get ''LOG_DIR''" "value_of ?m ''DATA_DIR'' = ?get ''DATA_DIR''"
    "value_of ?m ''INTERNAL_SOCKET_PATH'' = ?get ''INTERNAL_SOCKET_PATH''" "value_of ?m ''LOW_MEMORY'' = ?get ''LOW_MEMORY''"
    "value_of ?m ''BODY_LIMIT_MB'' = ?get ''BODY_LIMIT_MB''" "value_of ?m ''WARP_PROBE_PORT'' = ?get ''WARP_PROBE_PORT''"
    by (rule overlay_value, simp add: config_keys_def)+
  have atoi_Nil: "atoi [] = None" by (simp add: atoi_def parse_digits_def)
  have port: "atoi (?get ''NODE_PORT'') = Some (nc_node_port c)" "nc_bind_addr c = ?get ''NODE_BIND_ADDR''"
    using l by (auto simp: required_int_def keys config_of_values_def split: if_splits option.splits)
  have secret: "nc_secret_key c \<noteq> []" "if ?get ''SECRET_KEY'' \<noteq> [] then nc_secret_key c = ?get ''SECRET_KEY''
          else \<exists>raw. cs_read_file src (?get ''SECRET_KEY_FILE'') = Inr raw \<and> nc_secret_key c = trim_space raw"
    using l(2,4) by (auto simp: load_secret_def load_secret_from_file_def Let_def keys config_of_values_def
        split: if_splits sum.splits)
  have tok: "nc_internal_rest_token c \<noteq> []"
    "?get ''INTERNAL_REST_TOKEN'' \<noteq> [] \<longrightarrow> nc_internal_rest_token c = ?get ''INTERNAL_REST_TOKEN''"
    using l(3,4) assms(2) by (auto simp: load_token_def keys config_of_values_def split: if_splits sum.splits)
  show ?thesis
    by (rule exI [of _ vals], unfold Let_def, intro conjI v port secret tok)
      (simp_all add: l(4) config_of_values_def optional_string_def optional_bool_def optional_int_default_def keys atoi_Nil
        split: option.split)
qed

definition sample_sources :: config_sources where
  "sample_sources = \<lparr>cs_dotenv = None, cs_env = [''NODE_PORT'' \<mapsto> ''2222'', ''SECRET_KEY'' \<mapsto> ''k''],
     cs_read_file = (\<lambda>_. Inl ''no such file''), cs_random = Inr [0, 0, 0]\<rparr>"

lemma sample_token: "raw_url_encode [0, 0, 0] = ''AAAA''"
  by code_simp

theorem loaded_config_witness:
  "\<exists>c. load_config sample_sources = Inr c \<and> nc_secret_key c \<noteq> [] \<and> nc_internal_rest_token c \<noteq> []"
proof -
  let ?m = "overlay_env (cs_env sample_sources) []"
  have env: "cs_env sample_sources = [''NODE_PORT'' \<mapsto> ''2222'', ''SECRET_KEY'' \<mapsto> ''k'']"
    by (simp add: sample_sources_def)
  have t: "trim_space ''2222'' = ''2222''" "trim_space ''k'' = ''k''" "atoi ''2222'' = Some 2222"
    by (simp_all add: net_eval)
  have v: "value_of ?m ''NODE_PORT'' = ''2222''" "value_of ?m ''SECRET_KEY'' = ''k''"
    "value_of ?m ''INTERNAL_REST_TOKEN'' = []"
    by (subst overlay_value, simp add: config_keys_def, simp add: setting_def env t value_of_def)+
  have l: "load_config sample_sources = Inr (config_of_values ?m 2222 ''k'' ''AAAA'')"
    using v t by (simp add: load_config_def sample_sources_def required_int_def load_secret_def load_token_def sample_token Let_def
        del: raw_url_encode.simps)
  have "cs_random sample_sources = Inr bytes \<Longrightarrow> raw_url_encode bytes \<noteq> []" for bytes
    by (auto simp: sample_sources_def sample_token simp del: raw_url_encode.simps)
  from loaded_config [OF l this] l show ?thesis by (auto simp: Let_def)
qed

section \<open>Writing and reading the file\<close>

definition escape_newlines :: "string \<Rightarrow> string" where
  "escape_newlines s = concat (map (\<lambda>c. if c = CHR 0x0A then [CHR 0x5C, CHR ''n''] else [c]) s)"

definition env_line :: "string \<times> string \<Rightarrow> string" where
  "env_line kv = fst kv @ ''='' @ [CHR 0x22] @ escape_newlines (snd kv) @ [CHR 0x22]"

definition env_text :: "(string \<times> string) list \<Rightarrow> string" where
  "env_text kvs = concat (map (\<lambda>kv. env_line kv @ [CHR 0x0A]) kvs)"

definition plain_setting :: "string \<times> string \<Rightarrow> bool" where
  "plain_setting kv \<longleftrightarrow> fst kv \<noteq> [] \<and> hd (fst kv) \<noteq> CHR ''#'' \<and> CHR ''='' \<notin> set (fst kv)
     \<and> list_all (\<lambda>c. \<not> is_space c) (fst kv) \<and> CHR 0x5C \<notin> set (snd kv) \<and> length (env_line kv) < 65536"

lemma unescape_plain: "c \<noteq> CHR 0x5C \<Longrightarrow> unescape_newlines (c # s) = c # unescape_newlines s"
  by (cases s) auto

lemma unescape_escape: "CHR 0x5C \<notin> set v \<Longrightarrow> unescape_newlines (escape_newlines v) = v"
  by (induction v) (auto simp: escape_newlines_def unescape_plain)

lemma trim_space_ends: "s \<noteq> [] \<Longrightarrow> \<not> is_space (hd s) \<Longrightarrow> \<not> is_space (last s) \<Longrightarrow> trim_space s = s"
proof -
  assume a: "s \<noteq> []" "\<not> is_space (hd s)" "\<not> is_space (last s)"
  have d: "dropWhile is_space t = t" if "t \<noteq> []" "\<not> is_space (hd t)" for t
    using that by (cases t) auto
  from a d [of s] d [of "rev s"] show ?thesis by (simp add: trim_space_def hd_rev)
qed

lemma escape_no_newline: "CHR 0x0A \<notin> set (escape_newlines v)"
  by (auto simp: escape_newlines_def split: if_splits)

lemma plain_line:
  assumes "plain_setting kv"
  shows "trim_space (env_line kv) = env_line kv" "env_line kv \<noteq> []" "\<not> has_prefix (env_line kv) ''#''"
    "CHR 0x0A \<notin> set (env_line kv)" "parse_assignment n (env_line kv) = Inr kv" "drop_cr (env_line kv) = env_line kv"
proof -
  obtain k v where kv: "kv = (k, v)" by fastforce
  with assms have k: "k \<noteq> []" "hd k \<noteq> CHR ''#''" "CHR ''='' \<notin> set k" "list_all (\<lambda>c. \<not> is_space c) k" "CHR 0x5C \<notin> set v"
    by (simp_all add: plain_setting_def)
  obtain c u where c: "k = c # u" using k(1) by (cases k) auto
  let ?q = "[CHR 0x22] @ escape_newlines v @ [CHR 0x22]"
  have line: "env_line kv = k @ ''='' @ ?q" by (simp add: env_line_def kv)
  have q: "trim_space ?q = ?q" by (rule trim_space_ends) (simp_all add: is_space_def)
  show "trim_space (env_line kv) = env_line kv"
    by (rule trim_space_ends) (use k(4) c in \<open>simp_all add: line is_space_def\<close>)
  show "env_line kv \<noteq> []" by (simp add: line)
  show "\<not> has_prefix (env_line kv) ''#''" using k(2) c by (simp add: line has_prefix_def)
  show "CHR 0x0A \<notin> set (env_line kv)"
    using k(4) escape_no_newline [of v] by (auto simp: line list_all_iff is_space_def)
  show "drop_cr (env_line kv) = env_line kv" by (simp add: line drop_cr_def)
  have "\<forall>x\<in>set k. x \<noteq> CHR ''=''" using k(3) by auto
  then have key: "before (CHR ''='') (env_line kv) = k" by (simp add: line before_def)
  have "\<not> has_prefix (env_line kv) ''export ''"
  proof
    assume "has_prefix (env_line kv) ''export ''"
    then obtain t where "env_line kv = ''export '' @ t" by (auto simp: has_prefix_iff)
    then have "CHR '' '' \<in> set k" using key by (auto simp: before_def)
    with k(4) show False by (auto simp: list_all_iff is_space_def)
  qed
  then have "trim_prefix ''export '' (env_line kv) = env_line kv" by (simp add: trim_prefix_def)
  moreover have "trim_space k = k" using k(4) by (rule trim_space_id)
  moreover have "drop (Suc (length k)) (env_line kv) = ?q" by (simp add: line)
  moreover have "unquote ?q = v"
    using unescape_escape [OF k(5)] by (simp add: unquote_def quoted_by_def)
  moreover have "CHR ''='' \<in> set (env_line kv)" by (simp add: line)
  ultimately show "parse_assignment n (env_line kv) = Inr kv"
    using k(1) q key unfolding kv by (simp add: parse_assignment_def Let_def)
qed

lemma parse_plain_lines:
  "\<forall>kv\<in>set kvs. plain_setting kv \<Longrightarrow> parse_lines n (map env_line kvs) m = Inr (fold (\<lambda>(k, v). put k v) kvs m)"
  by (induction kvs arbitrary: n m) (auto simp: plain_line Let_def split: prod.split)

lemma split_env_text:
  "\<forall>kv\<in>set kvs. plain_setting kv \<Longrightarrow> split_on (CHR 0x0A) (env_text kvs) = map env_line kvs @ [[]]"
  by (induction kvs) (auto simp: env_text_def plain_line split_on_append)

text \<open>C40: A file of quoted assignments, with line ends in the values written as two characters, reads back.\<close>

theorem dot_env_round_trip:
  assumes "\<forall>kv\<in>set kvs. plain_setting kv"
  shows "parse_dot_env (Env_File (env_text kvs)) = Inr (fold (\<lambda>(k, v). put k v) kvs [])"
proof -
  have t: "takeWhile (\<lambda>l. length l < 65536) (map env_line kvs) = map env_line kvs"
    unfolding takeWhile_eq_all_conv using assms by (auto simp: plain_setting_def)
  have d: "map drop_cr (map env_line kvs) = map env_line kvs"
    using assms by (auto simp: plain_line)
  have "scan_lines (env_text kvs) = (map env_line kvs, False)"
    unfolding scan_lines_def Let_def split_env_text [OF assms] by (simp only: last_snoc butlast_snoc simp_thms if_True t d) simp
  then show ?thesis using parse_plain_lines [OF assms] by (simp add: parse_dot_env_def)
qed

theorem dot_env_round_trip_witness:
  "parse_dot_env (Env_File (env_text [(''NODE_PORT'', ''2222''), (''SECRET_KEY'', ''a'' @ [CHR 0x0A] @ ''b'')]))
   = Inr [(''NODE_PORT'', ''2222''), (''SECRET_KEY'', ''a'' @ [CHR 0x0A] @ ''b'')]"
  by (subst dot_env_round_trip) (auto simp: plain_setting_def env_line_def escape_newlines_def is_space_def)

text \<open>The address of an IPv6 bind address is not bracketed, so it has no host and port.\<close>

lemma ipv6_bind_address_not_bracketed:
  assumes "nc_bind_addr c = ''::1''" "nc_node_port c = 2222"
  shows "split_host_port (http_addr c) = None"
proof -
  have "http_addr c = ''::1:2222''"
    using assms by (simp add: http_addr_def format_int_def base_digits.simps digit_char_table)
  then show ?thesis by (simp add: split_host_port_def last_index_def)
qed

end
