(* ===== verification/CoreLoader.thy ===== *)
theory CoreLoader
  imports GoPath Sha256
begin

text \<open>internal/artifact/download.go, internal/xray/core_loader.go and internal/xray/geodata.go: the downloads of a
  custom core and of geodata, and the link to the core that is run.  HTTP, url.Parse, the version command and
  the encoding of the marker are parameters.  Temporary files have names of their own and are removed, so they
  are not in the state; every call of the operating system can fail, by a plan.\<close>

section \<open>Files\<close>

text \<open>A regular file with its content, whether it is executable, and its time; a symbolic link; or something
  else.\<close>

datatype fnode =
    Regular (nd_content: string) (nd_exec: bool) (nd_mtime: int)
  | Symlink string
  | Other_Node

text \<open>The next call fails or not; after the end of the plan none fails.\<close>

type_synonym plan = "bool list"

definition next_call :: "plan \<Rightarrow> bool \<times> plan" where
  "next_call p = (case p of [] \<Rightarrow> (True, []) | failing # rest \<Rightarrow> (\<not> failing, rest))"

text \<open>Calls one after the other, until one fails.\<close>

fun calls_ok :: "nat \<Rightarrow> plan \<Rightarrow> bool \<times> plan" where
  "calls_ok 0 p = (True, p)"
| "calls_ok (Suc n) p = (let (ok, p') = next_call p in if ok then calls_ok n p' else (False, p'))"

section \<open>Downloads\<close>

text \<open>A parsed URL: scheme, host and normal form.\<close>

type_synonym url_parser = "string \<Rightarrow> (string \<times> string \<times> string) option"

definition absolute_https :: "url_parser \<Rightarrow> string \<Rightarrow> string option" where
  "absolute_https parse_url raw = (case parse_url raw of
     Some (scheme, host, url) \<Rightarrow> if scheme = ''https'' \<and> host \<noteq> [] then Some url else None
   | None \<Rightarrow> None)"

definition max_artifact_size :: int where
  "max_artifact_size = 128 * 1024 * 1024"

definition hex_digits :: "string \<Rightarrow> bool" where
  "hex_digits s \<longleftrightarrow> list_all hex_char s"

definition normalize_sha256 :: "string \<Rightarrow> string option" where
  "normalize_sha256 raw =
     (let s = to_lower (trim_space raw) in
      if s = [] then Some [] else if length s = 64 \<and> hex_digits s then Some s else None)"

text \<open>The policy of the client: the schemes of the redirect targets in order.\<close>

fun redirects_allowed :: "nat \<Rightarrow> string list \<Rightarrow> bool" where
  "redirects_allowed made [] = True"
| "redirects_allowed made (scheme # rest) =
     (scheme = ''https'' \<and> made < 10 \<and> redirects_allowed (Suc made) rest)"

text \<open>The answer of a server: the redirects on the way, an error of the request, the status, the announced
  length, the body with the error that ends it early, and why the context of the download is done, if it is.\<close>

datatype context_cause = Not_Done | Timeout_Cause | Cancelled_Cause

record http_answer =
  ha_redirects :: "string list"
  ha_error :: "string option"
  ha_final_https :: bool
  ha_status :: int
  ha_content_length :: int
  ha_body :: string
  ha_read_error :: "string option"
  ha_cause :: context_cause

datatype download_error =
    Bad_Url | Bad_Digest_Text | Request_Error | Not_Https | Bad_Status int | Announced_Too_Large | No_Temporary
  | Read_Error | Body_Too_Large | Empty_Body | Sync_Error | Close_Error | Digest_Mismatch string | Timed_Out
  | Context_Done | Rename_Error

definition size_limit :: "int \<Rightarrow> int" where
  "size_limit n = (if n \<le> 0 then max_artifact_size else n)"

text \<open>The checks of the answer before its body is read.\<close>

definition answer_error :: "int \<Rightarrow> http_answer \<Rightarrow> download_error option" where
  "answer_error max_size a =
     (if \<not> redirects_allowed 1 (ha_redirects a) \<or> ha_error a \<noteq> None then Some Request_Error
      else if \<not> ha_final_https a then Some Not_Https
      else if ha_status a < 200 \<or> ha_status a \<ge> 300 then Some (Bad_Status (ha_status a))
      else if ha_content_length a > max_size then Some Announced_Too_Large else None)"

text \<open>The error of the copy; a time-out comes before the error it causes.\<close>

definition copy_error :: "int \<Rightarrow> http_answer \<Rightarrow> bool \<Rightarrow> string \<Rightarrow> download_error option" where
  "copy_error max_size a written body =
     (let timed = (\<lambda>e. Some (if ha_cause a = Timeout_Cause then Timed_Out else e)) in
      if \<not> written \<or> (int (length body) \<le> max_size \<and> ha_read_error a \<noteq> None) then timed Read_Error
      else if int (length body) > max_size then timed Body_Too_Large
      else if body = [] then Some Empty_Body else None)"

text \<open>The temporary file is created, written, synchronised, closed and renamed; the target is only replaced by
  the rename, after all checks.\<close>

definition store_body :: "int \<Rightarrow> string \<Rightarrow> http_answer \<Rightarrow> int \<Rightarrow> fnode option \<times> plan
   \<Rightarrow> (download_error + string \<times> nat) \<times> fnode option \<times> plan" where
  "store_body max_size expected a now st =
     (let node = fst st; body = take (nat (max_size + 1)) (ha_body a); actual = sha256_hex body;
          (created, p1) = next_call (snd st); (written, p2) = next_call p1; (synced, p3) = next_call p2;
          (closed, p4) = next_call p3; (renamed, p5) = next_call p4 in
      if \<not> created then (Inl No_Temporary, node, p1)
      else case copy_error max_size a written body of
        Some e \<Rightarrow> (Inl e, node, p2)
      | None \<Rightarrow>
          if \<not> synced then (Inl Sync_Error, node, p3)
          else if \<not> closed then (Inl Close_Error, node, p4)
          else if expected \<noteq> [] \<and> actual \<noteq> expected then (Inl (Digest_Mismatch actual), node, p4)
          else if ha_cause a \<noteq> Not_Done then (Inl Context_Done, node, p4)
          else if \<not> renamed then (Inl Rename_Error, node, p5)
          else (Inr (actual, length body), Some (Regular body False now), p5))"

definition download ::
  "url_parser \<Rightarrow> (string \<Rightarrow> http_answer) \<Rightarrow> int \<Rightarrow> string \<Rightarrow> string \<Rightarrow> int \<Rightarrow> fnode option \<times> plan
   \<Rightarrow> (download_error + string \<times> nat) \<times> fnode option \<times> plan"
where
  "download parse_url fetch now raw_url expected_sha limit st =
     (case absolute_https parse_url raw_url of
        None \<Rightarrow> (Inl Bad_Url, st)
      | Some url \<Rightarrow> (case normalize_sha256 expected_sha of
          None \<Rightarrow> (Inl Bad_Digest_Text, st)
        | Some expected \<Rightarrow> (case answer_error (size_limit limit) (fetch url) of
            Some e \<Rightarrow> (Inl e, st)
          | None \<Rightarrow> store_body (size_limit limit) expected (fetch url) now st)))"

section \<open>The custom core\<close>

record core_paths =
  cp_active :: string
  cp_stock :: string
  cp_custom :: string
  cp_managed :: bool

definition core_paths_of :: "string \<Rightarrow> core_paths" where
  "core_paths_of active_path =
     (let clean = path_clean active_path; dir = path_dir clean in
      \<lparr>cp_active = clean, cp_stock = path_join [dir, ''xray''], cp_custom = path_join [dir, ''xray-custom''],
       cp_managed = (path_base clean = ''rw-core'')\<rparr>)"

record core_spec =
  sp_url :: string
  sp_sha256 :: string

record core_marker =
  cm_url :: string
  cm_sha256 :: string
  cm_size :: nat
  cm_mtime :: int
  cm_version :: string

text \<open>The files of the loader, by what they are for: in a managed installation the paths differ.  The marker is
  its decoded content, None when it cannot be read.\<close>

record core_files =
  cf_active :: "fnode option"
  cf_stock :: "fnode option"
  cf_custom :: "fnode option"
  cf_staged :: "fnode option"
  cf_marker :: "core_marker option"
  cf_plan :: plan

record core_env =
  cv_paths :: core_paths
  cv_parse_url :: url_parser
  cv_fetch :: "string \<Rightarrow> http_answer"
  cv_version :: "string \<Rightarrow> string + string"
  cv_now :: int

definition call :: "core_files \<Rightarrow> bool \<times> core_files" where
  "call s = (let (ok, p) = next_call (cf_plan s) in (ok, s\<lparr>cf_plan := p\<rparr>))"

datatype spec_result = Bad_Spec | No_Spec | Spec core_spec

definition parse_core_spec :: "url_parser \<Rightarrow> jval option \<Rightarrow> spec_result" where
  "parse_core_spec parse_url geodata = (case geodata of
     None \<Rightarrow> No_Spec | Some VNull \<Rightarrow> No_Spec
   | Some (VMap section) \<Rightarrow> (case lookup section ''core'' of
       None \<Rightarrow> No_Spec | Some VNull \<Rightarrow> No_Spec
     | Some (VMap core) \<Rightarrow> (case (lookup core ''url'', lookup core ''sha256'') of
         (Some (VStr raw), sha) \<Rightarrow> (case absolute_https parse_url raw of
             None \<Rightarrow> Bad_Spec
           | Some url \<Rightarrow> (case sha of
               Some (VStr s) \<Rightarrow> if length s = 64 \<and> hex_digits s then Spec \<lparr>sp_url = url, sp_sha256 = to_lower s\<rparr> else Bad_Spec
             | _ \<Rightarrow> Bad_Spec))
       | _ \<Rightarrow> Bad_Spec)
     | _ \<Rightarrow> Bad_Spec)
   | _ \<Rightarrow> Bad_Spec)"

definition resolve_link :: "string \<Rightarrow> string \<Rightarrow> string" where
  "resolve_link link_path target =
     path_clean (if has_prefix target ''/'' then target else path_join [path_dir link_path, target])"

definition link_target :: "core_env \<Rightarrow> core_files \<Rightarrow> string option" where
  "link_target env s = (case cf_active s of
     Some (Symlink t) \<Rightarrow> Some (resolve_link (cp_active (cv_paths env)) t) | _ \<Rightarrow> None)"

definition is_installed :: "core_env \<Rightarrow> core_spec \<Rightarrow> core_files \<Rightarrow> bool" where
  "is_installed env spec s = (case (cf_marker s, cf_custom s) of
     (Some m, Some (Regular content exec_bit mtime)) \<Rightarrow>
       cm_url m = sp_url spec \<and> cm_sha256 m = sp_sha256 spec \<and> exec_bit \<and> length content = cm_size m
       \<and> mtime = cm_mtime m \<and> link_target env s = Some (path_clean (cp_custom (cv_paths env)))
   | _ \<Rightarrow> False)"

text \<open>A temporary directory, a link in it, and the rename over the active path.\<close>

definition point_link_at :: "string \<Rightarrow> core_files \<Rightarrow> bool \<times> core_files" where
  "point_link_at target s =
     (let (ok, p) = calls_ok 3 (cf_plan s); s' = s\<lparr>cf_plan := p\<rparr> in
      if ok then (True, s'\<lparr>cf_active := Some (Symlink target)\<rparr>) else (False, s'))"

text \<open>A temporary file, its mode, content, synchronisation and closing, and the rename.\<close>

definition write_marker :: "core_marker \<Rightarrow> core_files \<Rightarrow> bool \<times> core_files" where
  "write_marker m s =
     (let (ok, p) = calls_ok 6 (cf_plan s); s' = s\<lparr>cf_plan := p\<rparr> in
      if ok then (True, s'\<lparr>cf_marker := Some m\<rparr>) else (False, s'))"

definition can_be_managed :: "core_files \<Rightarrow> bool \<times> core_files" where
  "can_be_managed s =
     (let (ok, s') = call s in
      (ok \<and> (case cf_active s of None \<Rightarrow> True | Some (Symlink _) \<Rightarrow> True | _ \<Rightarrow> False), s'))"

text \<open>The rest of install after the rename of the staged file: the link, and the marker of what was installed.\<close>

definition link_and_record :: "core_env \<Rightarrow> core_marker \<Rightarrow> core_files \<Rightarrow> bool \<times> core_files" where
  "link_and_record env m s4 =
     (let (link_ok, s5) = point_link_at (cp_custom (cv_paths env)) s4; (stat_ok, s6) = call s5 in
      if \<not> link_ok then (False, s5) else if \<not> stat_ok then (False, s6) else write_marker m s6)"

text \<open>After the download: the staged file is made executable, run for its version, renamed, linked and recorded.
  The deferred removal of the staged file is at the end of install.\<close>

definition activate_core :: "core_env \<Rightarrow> core_spec \<Rightarrow> string \<Rightarrow> core_files \<Rightarrow> bool \<times> core_files" where
  "activate_core env spec actual s0 = (case cf_staged s0 of
     Some (Regular content _ mtime) \<Rightarrow>
       (let (chmod_ok, s1) = call s0; s2 = s1\<lparr>cf_staged := Some (Regular content True mtime)\<rparr> in
        if \<not> chmod_ok then (False, s1)
        else case cv_version env content of
          Inl _ \<Rightarrow> (False, s2)
        | Inr version \<Rightarrow>
            (let (rename_ok, s3) = call s2 in
             if \<not> rename_ok then (False, s3)
             else link_and_record env
                 \<lparr>cm_url = sp_url spec, cm_sha256 = actual, cm_size = length content, cm_mtime = mtime, cm_version = version\<rparr>
                 (s3\<lparr>cf_custom := Some (Regular content True mtime), cf_staged := None\<rparr>)))
   | _ \<Rightarrow> (False, s0))"

definition remove_staged :: "core_files \<Rightarrow> bool \<times> core_files" where
  "remove_staged s = (let (ok, s') = call s in if ok then (True, s'\<lparr>cf_staged := None\<rparr>) else (False, s'))"

definition install_core :: "core_env \<Rightarrow> core_spec \<Rightarrow> core_files \<Rightarrow> bool \<times> core_files" where
  "install_core env spec s =
     (let (managed, s1) = can_be_managed s; (removed, s2) = remove_staged s1;
          (r, staged, p) = download (cv_parse_url env) (cv_fetch env) (cv_now env) (sp_url spec) (sp_sha256 spec) 0
            (cf_staged s2, cf_plan s2);
          s3 = s2\<lparr>cf_staged := staged, cf_plan := p\<rparr> in
      if \<not> managed then (False, s1)
      else if \<not> removed then (False, s2)
      else case r of
        Inl _ \<Rightarrow> (False, s3)
      | Inr (actual, _) \<Rightarrow> (let (ok, s4) = activate_core env spec actual s3 in (ok, snd (remove_staged s4))))"

definition restore_stock :: "core_env \<Rightarrow> core_files \<Rightarrow> bool \<times> core_files" where
  "restore_stock env s =
     (let (read_ok, s1) = call s in
      if \<not> read_ok then (\<not> (case cf_active s of Some (Symlink _) \<Rightarrow> True | _ \<Rightarrow> False), s1)
      else case cf_active s of
        Some (Symlink _) \<Rightarrow>
          if link_target env s = Some (path_clean (cp_stock (cv_paths env))) then (True, s1)
          else
            (let (stat_ok, s2) = call s1; (link_ok, s3) = point_link_at (cp_stock (cv_paths env)) s2;
                 (marker_ok, s4) = call s3; s5 = (if marker_ok then s4\<lparr>cf_marker := None\<rparr> else s4);
                 (custom_ok, s6) = call s5; s7 = (if custom_ok then s6\<lparr>cf_custom := None\<rparr> else s6) in
             if \<not> stat_ok then (False, s2)
             else case cf_stock s of
               Some (Regular _ True _) \<Rightarrow> if link_ok then (True, s7) else (False, s3)
             | _ \<Rightarrow> (False, s2))
      | _ \<Rightarrow> (True, s1))"

text \<open>The result is whether the start can go on.\<close>

definition prepare_core :: "core_env \<Rightarrow> jval option \<Rightarrow> core_files \<Rightarrow> bool \<times> core_files" where
  "prepare_core env geodata s = (case parse_core_spec (cv_parse_url env) geodata of
     Bad_Spec \<Rightarrow> (True, s)
   | No_Spec \<Rightarrow> if cp_managed (cv_paths env) then restore_stock env s else (True, s)
   | Spec spec \<Rightarrow>
       if \<not> cp_managed (cv_paths env) \<or> is_installed env spec s then (True, s)
       else (True, snd (install_core env spec s)))"

section \<open>A download commits a checked body\<close>

lemma next_call_Nil [simp]: "next_call [] = (True, [])"
  by (simp add: next_call_def)

lemma calls_ok_Nil [simp]: "calls_ok n [] = (True, [])"
  by (induction n) simp_all

lemma store_body_cases:
  "case store_body max_size expected a now (node, p) of
     (Inl e, node', p') \<Rightarrow> node' = node
   | (Inr (actual, n), node', p') \<Rightarrow> node' = Some (Regular (ha_body a) False now) \<and> actual = sha256_hex (ha_body a)
       \<and> n = length (ha_body a) \<and> 0 < n \<and> int n \<le> max_size \<and> (expected = [] \<or> expected = actual)"
proof -
  have t: "take (nat (max_size + 1)) (ha_body a) = ha_body a" if "int (length (take (nat (max_size + 1)) (ha_body a))) \<le> max_size"
    using that by (cases "length (ha_body a) \<le> nat (max_size + 1)") (auto simp: min_def split: if_splits)
  show ?thesis
    using t by (auto simp: store_body_def copy_error_def Let_def case_prod_beta split: option.splits if_splits)
qed

lemma download_cases:
  "case download parse_url fetch now raw_url expected_sha limit (node, p) of
     (Inl e, node', p') \<Rightarrow> node' = node
   | (Inr (actual, n), node', p') \<Rightarrow>
       (\<exists>url. absolute_https parse_url raw_url = Some url \<and> ha_final_https (fetch url) \<and> list_all (\<lambda>s. s = ''https'') (ha_redirects (fetch url))
         \<and> node' = Some (Regular (ha_body (fetch url)) False now) \<and> actual = sha256_hex (ha_body (fetch url))
         \<and> n = length (ha_body (fetch url)) \<and> 0 < n \<and> int n \<le> size_limit limit
         \<and> normalize_sha256 expected_sha \<in> {Some [], Some actual})"
proof -
  have r: "redirects_allowed k ss \<Longrightarrow> list_all (\<lambda>s. s = ''https'') ss" for k ss
    by (induction k ss rule: redirects_allowed.induct) auto
  show ?thesis
  proof (cases "absolute_https parse_url raw_url")
    case None
    then show ?thesis by (simp add: download_def)
  next
    case (Some url)
    note url = this
    show ?thesis
    proof (cases "normalize_sha256 expected_sha")
      case None
      with url show ?thesis by (simp add: download_def)
    next
      case (Some expected)
      show ?thesis
      proof (cases "answer_error (size_limit limit) (fetch url)")
        case None
        then have ok: "ha_final_https (fetch url)" "list_all (\<lambda>s. s = ''https'') (ha_redirects (fetch url))"
          using r by (auto simp: answer_error_def split: if_splits)
        have d: "download parse_url fetch now raw_url expected_sha limit (node, p)
            = store_body (size_limit limit) expected (fetch url) now (node, p)"
          using url Some None by (simp add: download_def)
        show ?thesis
          using store_body_cases [where max_size = "size_limit limit" and expected = expected and a = "fetch url" and now = now
            and node = node and p = p] ok url Some
          unfolding d by (auto split: prod.splits sum.splits)
      qed (use url Some in \<open>simp add: download_def\<close>)
    qed
  qed
qed

text \<open>The file at the path is either as it was, with an error, or holds the whole body that an HTTPS server sent,
  not empty and not larger than the limit, with the reported digest, which is the expected one if there is one.\<close>

theorem download_commits_checked_body:
  "case download parse_url fetch now raw_url expected_sha limit (node, p) of
     (Inl e, node', p') \<Rightarrow> node' = node
   | (Inr (actual, n), node', p') \<Rightarrow>
       (\<exists>url. absolute_https parse_url raw_url = Some url \<and> ha_final_https (fetch url) \<and> list_all (\<lambda>s. s = ''https'') (ha_redirects (fetch url))
         \<and> node' = Some (Regular (ha_body (fetch url)) False now) \<and> actual = sha256_hex (ha_body (fetch url))
         \<and> n = length (ha_body (fetch url)) \<and> 0 < n \<and> int n \<le> size_limit limit
         \<and> normalize_sha256 expected_sha \<in> {Some [], Some actual})"
  by (rule download_cases)

section \<open>The active core\<close>

text \<open>The file that is run, or the path of one that the loader does not know.\<close>

definition running_core :: "core_env \<Rightarrow> core_files \<Rightarrow> fnode option + string" where
  "running_core env s = (case cf_active s of
     Some (Symlink t) \<Rightarrow>
       (let r = resolve_link (cp_active (cv_paths env)) t in
        if r = path_clean (cp_custom (cv_paths env)) then Inl (cf_custom s)
        else if r = path_clean (cp_stock (cv_paths env)) then Inl (cf_stock s) else Inr r)
   | n \<Rightarrow> Inl n)"

lemma path_clean_absolute: "has_prefix p ''/'' \<Longrightarrow> has_prefix (path_clean p) ''/''"
proof -
  assume p: "has_prefix p ''/''"
  then have "p \<noteq> []" by (simp add: has_prefix_slash)
  then show ?thesis using p has_prefix_path_text [OF path_stack_clean [of p]] by (simp add: path_clean_text)
qed

lemma path_dir_absolute: "has_prefix p ''/'' \<Longrightarrow> has_prefix (path_dir p) ''/''"
proof -
  assume p: "has_prefix p ''/''"
  let ?q = "rev (dropWhile (\<lambda>c. c \<noteq> CHR ''/'') (rev p))"
  obtain r where r: "p = ?q @ r"
    using takeWhile_dropWhile_id [of "\<lambda>c. c \<noteq> CHR ''/''" "rev p"] by (metis rev_append rev_rev_ident)
  have "CHR ''/'' \<in> set (rev p)" using p by (cases p) (auto simp: has_prefix_slash)
  then have "?q \<noteq> []" by (auto simp: dropWhile_eq_Nil_conv)
  then have "has_prefix ?q ''/''" using p r by (metis has_prefix_slash hd_append2)
  then show ?thesis by (simp add: path_dir_def path_clean_absolute)
qed

text \<open>In an absolute installation the link to the custom core resolves to it, and it is not the stock one.\<close>

lemma absolute_core_paths:
  assumes "has_prefix p ''/''" "P = core_paths_of p"
  shows "resolve_link (cp_active P) (cp_custom P) = path_clean (cp_custom P)"
    "resolve_link (cp_active P) (cp_stock P) = path_clean (cp_stock P)"
    "path_clean (cp_custom P) \<noteq> path_clean (cp_stock P)"
proof -
  let ?d = "path_dir (path_clean p)"
  have d: "has_prefix ?d ''/''" using assms(1) by (intro path_dir_absolute path_clean_absolute)
  then have ne: "?d \<noteq> []" by (simp add: has_prefix_slash)
  have w: "plain_component ''xray''" "plain_component ''xray-custom''" by (simp_all add: plain_component_def)
  have j: "path_clean (path_join [?d, n]) = path_join [?d, n]" "has_prefix (path_join [?d, n]) ''/''" "path_base (path_join [?d, n]) = n"
    if "plain_component n" for n
  proof -
    have st: "clean_stack True (n # path_stack ?d)"
      using that d path_stack_clean [of ?d] by (auto simp: plain_component_def)
    have t: "path_join [?d, n] = path_text True (n # path_stack ?d)"
      using path_join_stack [OF ne that] d by simp
    show "path_clean (path_join [?d, n]) = path_join [?d, n]" unfolding t by (rule path_clean_path_text [OF st])
    show "has_prefix (path_join [?d, n]) ''/''" unfolding t by (simp add: has_prefix_path_text [OF st])
    show "path_base (path_join [?d, n]) = n" by (rule path_join_plain [OF ne that])
  qed
  show "resolve_link (cp_active P) (cp_custom P) = path_clean (cp_custom P)"
    "resolve_link (cp_active P) (cp_stock P) = path_clean (cp_stock P)"
    using j [OF w(1)] j [OF w(2)] by (simp_all add: resolve_link_def assms(2) core_paths_of_def Let_def)
  have "path_join [?d, ''xray-custom''] \<noteq> path_join [?d, ''xray'']"
  proof
    assume "path_join [?d, ''xray-custom''] = path_join [?d, ''xray'']"
    then have "path_base (path_join [?d, ''xray-custom'']) = path_base (path_join [?d, ''xray''])" by (rule arg_cong)
    then show False unfolding j(3) [OF w(1)] j(3) [OF w(2)] by simp
  qed
  then show "path_clean (cp_custom P) \<noteq> path_clean (cp_stock P)"
    using j [OF w(1)] j [OF w(2)] by (simp add: assms(2) core_paths_of_def Let_def)
qed

lemma hex_char_lower:
  assumes "hex_char c"
  shows "\<not> is_space (lower_char c)" "lower_char (lower_char c) = lower_char c" "hex_char (lower_char c)"
proof -
  define n where "n = (of_char c :: nat)"
  have sp: "is_space d \<Longrightarrow> (of_char d :: nat) \<le> 32" for d by (auto simp: is_space_def)
  have l: "(of_char (lower_char c) :: nat) = (if 65 \<le> n \<and> n \<le> 90 then n + 32 else n)"
    by (auto simp: lower_char_def n_def)
  have h: "48 \<le> n \<and> n \<le> 57 \<or> 97 \<le> n \<and> n \<le> 102 \<or> 65 \<le> n \<and> n \<le> 70"
    using assms by (auto simp: hex_char_def is_digit_def n_def)
  show "\<not> is_space (lower_char c)" using sp [of "lower_char c"] l h by (auto split: if_splits)
  show "lower_char (lower_char c) = lower_char c" using l h by (auto simp: lower_char_def split: if_splits)
  show "hex_char (lower_char c)" using l h by (auto simp: hex_char_def is_digit_def split: if_splits)
qed

lemma parsed_spec_digest:
  "parse_core_spec pu g = Spec spec \<Longrightarrow> sp_sha256 spec \<noteq> [] \<and> normalize_sha256 (sp_sha256 spec) = Some (sp_sha256 spec)"
proof -
  assume "parse_core_spec pu g = Spec spec"
  then obtain s where s: "length s = 64" "list_all hex_char s" "sp_sha256 spec = to_lower s"
    by (auto simp: parse_core_spec_def hex_digits_def split: option.splits jval.splits if_splits)
  have "list_all (\<lambda>c. \<not> is_space c) (to_lower s)" "to_lower (to_lower s) = to_lower s" "hex_digits (to_lower s)"
    using s(2) hex_char_lower by (auto simp: list_all_iff to_lower_def hex_digits_def)
  moreover have len: "length (to_lower s) = 64" by (simp add: to_lower_def s)
  then have "to_lower s \<noteq> []" by auto
  ultimately show ?thesis using len by (simp add: normalize_sha256_def trim_space_id Let_def s(3))
qed

lemma call_frame:
  "call s = (ok, s') \<Longrightarrow> cf_active s' = cf_active s \<and> cf_stock s' = cf_stock s \<and> cf_custom s' = cf_custom s
     \<and> cf_staged s' = cf_staged s \<and> cf_marker s' = cf_marker s"
  by (auto simp: call_def Let_def split: prod.splits)

lemma remove_staged_frame:
  "remove_staged s = (ok, s') \<Longrightarrow> cf_active s' = cf_active s \<and> cf_stock s' = cf_stock s \<and> cf_custom s' = cf_custom s
     \<and> cf_marker s' = cf_marker s"
  by (auto simp: remove_staged_def Let_def dest: call_frame split: prod.splits if_splits)

lemma point_link_at_frame:
  "point_link_at t s = (ok, s') \<Longrightarrow> cf_active s' = (if ok then Some (Symlink t) else cf_active s) \<and> cf_stock s' = cf_stock s
     \<and> cf_custom s' = cf_custom s \<and> cf_staged s' = cf_staged s \<and> cf_marker s' = cf_marker s"
  by (auto simp: point_link_at_def Let_def split: prod.splits if_splits)

lemma write_marker_frame:
  "write_marker m s = (ok, s') \<Longrightarrow> cf_active s' = cf_active s \<and> cf_stock s' = cf_stock s \<and> cf_custom s' = cf_custom s"
  by (auto simp: write_marker_def Let_def split: prod.splits if_splits)

lemma running_core_cong:
  "cf_active s' = cf_active s \<Longrightarrow> cf_stock s' = cf_stock s \<Longrightarrow> cf_custom s' = cf_custom s \<Longrightarrow> running_core env s' = running_core env s"
  unfolding running_core_def by (simp only:)

text \<open>A step of the loader leaves the core that runs or puts a good one in its place.\<close>

definition good_core :: "(string \<Rightarrow> bool) \<Rightarrow> fnode option + string \<Rightarrow> bool" where
  "good_core good r \<longleftrightarrow> (\<exists>c t. r = Inl (Some (Regular c True t)) \<and> good c)"

lemma link_and_record_frame:
  "link_and_record env m s = (ok, s') \<Longrightarrow> cf_stock s' = cf_stock s \<and> cf_custom s' = cf_custom s
     \<and> cf_active s' \<in> {cf_active s, Some (Symlink (cp_custom (cv_paths env)))}"
proof -
  assume a: "link_and_record env m s = (ok, s')"
  obtain l s5 where 5: "point_link_at (cp_custom (cv_paths env)) s = (l, s5)" by fastforce
  obtain t s6 where 6: "call s5 = (t, s6)" by fastforce
  have "s' \<in> {s5, s6} \<or> (\<exists>ok'. write_marker m s6 = (ok', s'))"
    using a by (auto simp: link_and_record_def 5 6 split: if_splits)
  then show ?thesis using point_link_at_frame [OF 5] call_frame [OF 6] by (auto dest: write_marker_frame split: if_splits)
qed

text \<open>Activation fails before the custom file is replaced, or replaces it by the staged one.\<close>

lemma activate_core_cases:
  assumes staged: "cf_staged s = Some (Regular content x mtime)" and a: "activate_core env spec actual s = (ok, s')"
  shows "cf_stock s' = cf_stock s \<and>
    (cf_active s' = cf_active s \<and> cf_custom s' = cf_custom s
     \<or> (\<exists>v. cv_version env content = Inr v) \<and> cf_custom s' = Some (Regular content True mtime)
       \<and> cf_active s' \<in> {cf_active s, Some (Symlink (cp_custom (cv_paths env)))})"
proof -
  obtain c1 s1 where 1: "call s = (c1, s1)" by fastforce
  obtain c3 s3 where 3: "call (s1\<lparr>cf_staged := Some (Regular content True mtime)\<rparr>) = (c3, s3)" by fastforce
  note f = call_frame [OF 1] call_frame [OF 3]
  show ?thesis
  proof (cases "cv_version env content")
    case (Inl e)
    then show ?thesis using a f by (auto simp: activate_core_def staged 1 Inl Let_def split: if_splits)
  next
    case (Inr v)
    then show ?thesis using a f
      by (auto simp: activate_core_def staged 1 3 Inr Let_def split: if_splits dest!: link_and_record_frame)
  qed
qed

lemma activate_core_running:
  assumes P: "resolve_link (cp_active (cv_paths env)) (cp_custom (cv_paths env)) = path_clean (cp_custom (cv_paths env))"
    and staged: "cf_staged s = Some (Regular content x mtime)"
    and a: "activate_core env spec actual s = (ok, s')"
  shows "running_core env s' = running_core env s
    \<or> good_core (\<lambda>c. c = content \<and> (\<exists>v. cv_version env c = Inr v)) (running_core env s')"
proof -
  let ?new = "Some (Regular content True mtime)"
  consider (same) "cf_stock s' = cf_stock s" "cf_active s' = cf_active s" "cf_custom s' = cf_custom s"
    | (new) v where "cv_version env content = Inr v" "cf_stock s' = cf_stock s" "cf_custom s' = ?new"
        "cf_active s' \<in> {cf_active s, Some (Symlink (cp_custom (cv_paths env)))}"
    using activate_core_cases [OF staged a] by blast
  then show ?thesis
  proof cases
    case same
    then show ?thesis using running_core_cong by blast
  next
    case new
    have "running_core env s' \<in> {Inl ?new, running_core env s}"
    proof (cases "cf_active s' = cf_active s")
      case True
      then show ?thesis using new(2, 3) by (auto simp: running_core_def Let_def split: option.splits fnode.splits)
    qed (use new(3, 4) P in \<open>simp add: running_core_def\<close>)
    with new(1) show ?thesis by (auto simp: good_core_def)
  qed
qed

text \<open>What an installation may leave in place of the core that ran before: an executable file whose content has the
  digest and which answered the version command.\<close>

definition verified_core :: "core_env \<Rightarrow> core_spec \<Rightarrow> string \<Rightarrow> bool" where
  "verified_core env spec c \<longleftrightarrow> sha256_hex c = sp_sha256 spec \<and> (\<exists>v. cv_version env c = Inr v)"

lemma install_core_running:
  assumes P: "resolve_link (cp_active (cv_paths env)) (cp_custom (cv_paths env)) = path_clean (cp_custom (cv_paths env))"
    and spec: "sp_sha256 spec \<noteq> []" "normalize_sha256 (sp_sha256 spec) = Some (sp_sha256 spec)"
    and i: "install_core env spec s = (ok, s')"
  shows "running_core env s' = running_core env s \<or> good_core (verified_core env spec) (running_core env s')"
proof -
  obtain managed s1 where 1: "can_be_managed s = (managed, s1)" by fastforce
  obtain removed s2 where 2: "remove_staged s1 = (removed, s2)" by fastforce
  obtain r staged p where d: "download (cv_parse_url env) (cv_fetch env) (cv_now env) (sp_url spec) (sp_sha256 spec) 0
      (cf_staged s2, cf_plan s2) = (r, staged, p)" by (rule prod_cases3)
  let ?s3 = "s2\<lparr>cf_staged := staged, cf_plan := p\<rparr>"
  have f1: "cf_active s1 = cf_active s \<and> cf_stock s1 = cf_stock s \<and> cf_custom s1 = cf_custom s"
    using 1 by (auto simp: can_be_managed_def Let_def dest: call_frame split: prod.splits)
  note f2 = remove_staged_frame [OF 2]
  have quiet: "running_core env t = running_core env s" if "t \<in> {s1, s2, ?s3}" for t
    using that f1 f2 by (intro running_core_cong) auto
  show ?thesis
  proof (cases "managed \<and> removed \<and> (\<exists>x. r = Inr x)")
    case False
    then have "s' \<in> {s1, s2, ?s3}" using i by (cases r) (auto simp: install_core_def Let_def 1 2 d split: if_splits)
    then show ?thesis using quiet by blast
  next
    case True
    then obtain actual n where r: "r = Inr (actual, n)" by (auto simp: split_paired_Ex)
    from download_cases [where parse_url = "cv_parse_url env" and fetch = "cv_fetch env" and now = "cv_now env"
        and raw_url = "sp_url spec" and expected_sha = "sp_sha256 spec" and limit = 0 and node = "cf_staged s2" and p = "cf_plan s2"]
    obtain body where b: "staged = Some (Regular body False (cv_now env))" "sha256_hex body = sp_sha256 spec"
      using spec by (auto simp: d r)
    obtain a s4 where 4: "activate_core env spec actual ?s3 = (a, s4)" by fastforce
    have s': "s' = snd (remove_staged s4)" using i True by (simp add: install_core_def Let_def 1 2 d r 4)
    obtain q s5 where 5: "remove_staged s4 = (q, s5)" by fastforce
    have same: "running_core env s' = running_core env s4"
      using remove_staged_frame [OF 5] by (intro running_core_cong) (auto simp: s' 5)
    have "cf_staged ?s3 = Some (Regular body False (cv_now env))" using b by simp
    from activate_core_running [OF P this 4] b(2) show ?thesis
      unfolding same quiet [of ?s3, simplified] by (auto simp: good_core_def verified_core_def)
  qed
qed

lemma restore_stock_running:
  assumes P: "resolve_link (cp_active (cv_paths env)) (cp_stock (cv_paths env)) = path_clean (cp_stock (cv_paths env))"
      "path_clean (cp_custom (cv_paths env)) \<noteq> path_clean (cp_stock (cv_paths env))"
    and i: "restore_stock env s = (ok, s')"
  shows "running_core env s' = running_core env s
    \<or> good_core (\<lambda>c. \<exists>t. cf_stock s = Some (Regular c True t)) (running_core env s')"
proof -
  let ?stock = "cp_stock (cv_paths env)"
  obtain c1 s1 where 1: "call s = (c1, s1)" by fastforce
  obtain c2 s2 where 2: "call s1 = (c2, s2)" by fastforce
  obtain c3 s3 where 3: "point_link_at ?stock s2 = (c3, s3)" by fastforce
  obtain c4 s4 where 4: "call s3 = (c4, s4)" by fastforce
  define s5 where "s5 = (if c4 then s4\<lparr>cf_marker := None\<rparr> else s4)"
  obtain c6 s6 where 6: "call s5 = (c6, s6)" by fastforce
  define s7 where "s7 = (if c6 then s6\<lparr>cf_custom := None\<rparr> else s6)"
  note f1 = call_frame [OF 1] and f2 = call_frame [OF 2] and f3 = point_link_at_frame [OF 3] and f4 = call_frame [OF 4]
    and f6 = call_frame [OF 6]
  have step: "s' \<in> {s1, s2} \<or> s' = s3 \<and> \<not> c3 \<or> s' = s7 \<and> c3 \<and> (\<exists>c t. cf_stock s = Some (Regular c True t))"
    using i unfolding restore_stock_def 1 prod.case Let_def 2 3 4 6 s5_def [symmetric] s7_def [symmetric]
    by (auto split: if_splits option.splits fnode.splits bool.splits)
  then consider (quiet) "cf_active s' = cf_active s" "cf_stock s' = cf_stock s" "cf_custom s' = cf_custom s"
    | (stock) c t where "s' = s7" c3 "cf_stock s = Some (Regular c True t)"
    using f1 f2 f3 by auto
  then show ?thesis
  proof cases
    case quiet
    then show ?thesis using running_core_cong by blast
  next
    case stock
    have "cf_active s7 = Some (Symlink ?stock) \<and> cf_stock s7 = cf_stock s"
      using stock(2) f1 f2 f3 f4 f6 by (simp add: s7_def s5_def)
    then have "running_core env s' = Inl (cf_stock s)" using P stock(1) by (simp add: running_core_def)
    with stock(3) show ?thesis by (auto simp: good_core_def)
  qed
qed

text \<open>An installation that reports success has left what isInstalled looks for, so the next start downloads
  nothing.\<close>

lemma link_and_record_done:
  "link_and_record env m s = (True, s') \<Longrightarrow> cf_marker s' = Some m \<and> cf_custom s' = cf_custom s
     \<and> cf_active s' = Some (Symlink (cp_custom (cv_paths env)))"
proof -
  assume a: "link_and_record env m s = (True, s')"
  obtain l s5 where 5: "point_link_at (cp_custom (cv_paths env)) s = (l, s5)" by fastforce
  obtain t s6 where 6: "call s5 = (t, s6)" by fastforce
  have w: "write_marker m s6 = (True, s')" "l" using a by (auto simp: link_and_record_def 5 6 split: if_splits)
  have "cf_marker s' = Some m" using w(1) by (auto simp: write_marker_def Let_def split: prod.splits if_splits)
  with w(2) show ?thesis using point_link_at_frame [OF 5] call_frame [OF 6] write_marker_frame [OF w(1)] by simp
qed

lemma activate_core_done:
  assumes staged: "cf_staged s = Some (Regular content x mtime)" and a: "activate_core env spec actual s = (True, s')"
  shows "\<exists>v. cv_version env content = Inr v \<and> cf_custom s' = Some (Regular content True mtime)
    \<and> cf_active s' = Some (Symlink (cp_custom (cv_paths env)))
    \<and> cf_marker s' = Some \<lparr>cm_url = sp_url spec, cm_sha256 = actual, cm_size = length content, cm_mtime = mtime, cm_version = v\<rparr>"
proof -
  obtain c1 s1 where 1: "call s = (c1, s1)" by fastforce
  obtain c3 s3 where 3: "call (s1\<lparr>cf_staged := Some (Regular content True mtime)\<rparr>) = (c3, s3)" by fastforce
  show ?thesis
  proof (cases "cv_version env content")
    case (Inl e)
    then show ?thesis using a by (auto simp: activate_core_def staged 1 Let_def split: if_splits)
  next
    case (Inr v)
    then show ?thesis using a by (auto simp: activate_core_def staged 1 3 Let_def split: if_splits dest!: link_and_record_done)
  qed
qed

lemma install_core_done:
  assumes P: "resolve_link (cp_active (cv_paths env)) (cp_custom (cv_paths env)) = path_clean (cp_custom (cv_paths env))"
    and spec: "sp_sha256 spec \<noteq> []" "normalize_sha256 (sp_sha256 spec) = Some (sp_sha256 spec)"
    and i: "install_core env spec s = (True, s')"
  shows "is_installed env spec s'"
proof -
  obtain managed s1 where 1: "can_be_managed s = (managed, s1)" by fastforce
  obtain removed s2 where 2: "remove_staged s1 = (removed, s2)" by fastforce
  obtain r staged p where d: "download (cv_parse_url env) (cv_fetch env) (cv_now env) (sp_url spec) (sp_sha256 spec) 0
      (cf_staged s2, cf_plan s2) = (r, staged, p)" by (rule prod_cases3)
  let ?s3 = "s2\<lparr>cf_staged := staged, cf_plan := p\<rparr>"
  obtain actual n where r: "managed" "removed" "r = Inr (actual, n)"
    using i by (cases r) (auto simp: install_core_def Let_def 1 2 d split: if_splits)
  from download_cases [where parse_url = "cv_parse_url env" and fetch = "cv_fetch env" and now = "cv_now env"
      and raw_url = "sp_url spec" and expected_sha = "sp_sha256 spec" and limit = 0 and node = "cf_staged s2" and p = "cf_plan s2"]
  obtain body where b: "staged = Some (Regular body False (cv_now env))" "actual = sp_sha256 spec"
    using spec by (auto simp: d r)
  obtain a s4 where 4: "activate_core env spec actual ?s3 = (a, s4)" by fastforce
  obtain q s5 where 5: "remove_staged s4 = (q, s5)" by fastforce
  have s': "a" "s' = s5" using i r 4 5 by (simp_all add: install_core_def Let_def 1 2 d r(3))
  have st: "cf_staged ?s3 = Some (Regular body False (cv_now env))" using b by simp
  have 4: "activate_core env spec actual ?s3 = (True, s4)" using 4 s'(1) by simp
  from activate_core_done [OF st 4]
  obtain v where end_state: "cf_custom s4 = Some (Regular body True (cv_now env))" "cf_active s4 = Some (Symlink (cp_custom (cv_paths env)))"
      "cf_marker s4 = Some \<lparr>cm_url = sp_url spec, cm_sha256 = actual, cm_size = length body, cm_mtime = cv_now env, cm_version = v\<rparr>"
    by blast
  then have "cf_custom s' = Some (Regular body True (cv_now env))" "cf_active s' = Some (Symlink (cp_custom (cv_paths env)))"
      "cf_marker s' = Some \<lparr>cm_url = sp_url spec, cm_sha256 = actual, cm_size = length body, cm_mtime = cv_now env, cm_version = v\<rparr>"
    using remove_staged_frame [OF 5] s'(2) by simp_all
  then show ?thesis using P b(2) by (simp add: is_installed_def link_target_def)
qed

text \<open>C28: Where XRAY_BIN is an absolute path: whatever the panel asks for and whatever call fails, after the
  preparation the core that runs is the one that ran before, or an executable with the digest the panel gave that has
  answered the version command, or the stock core when none is asked for.  An installation that succeeds is found
  again.  (With a relative path it is not, by the lemma after the theorem.)\<close>

theorem prepared_core_is_known:
  assumes "has_prefix p ''/''" "cv_paths env = core_paths_of p" "prepare_core env geodata s = (ok, s')"
  shows "(case parse_core_spec (cv_parse_url env) geodata of
      Bad_Spec \<Rightarrow> s' = s
    | No_Spec \<Rightarrow> running_core env s' = running_core env s
        \<or> good_core (\<lambda>c. \<exists>t. cf_stock s = Some (Regular c True t)) (running_core env s')
    | Spec spec \<Rightarrow> ok \<and> (running_core env s' = running_core env s \<or> good_core (verified_core env spec) (running_core env s'))
        \<and> (fst (install_core env spec s) \<longrightarrow> is_installed env spec (snd (install_core env spec s))))"
proof -
  note P = absolute_core_paths [OF assms(1,2)]
  show ?thesis
  proof (cases "parse_core_spec (cv_parse_url env) geodata")
    case No_Spec
    then show ?thesis using assms(3) restore_stock_running [OF P(2,3)] by (auto simp: prepare_core_def split: if_splits)
  next
    case (Spec spec)
    note digest = parsed_spec_digest [OF Spec]
    obtain k s4 where i: "install_core env spec s = (k, s4)" by fastforce
    have "ok \<and> (s' = s \<or> s' = s4)" using assms(3) Spec i by (auto simp: prepare_core_def split: if_splits)
    then show ?thesis
      using Spec i install_core_running [OF P(1) _ _ i] install_core_done [OF P(1), of spec s s4] digest by auto
  qed (use assms(3) in \<open>auto simp: prepare_core_def\<close>)
qed

text \<open>With a relative XRAY_BIN the target of the link is taken relative to the directory of the link.\<close>

lemma relative_core_link_dangles:
  "resolve_link (cp_active (core_paths_of ''bin/rw-core'')) (cp_custom (core_paths_of ''bin/rw-core'')) = ''bin/bin/xray-custom''"
  "path_clean (cp_custom (core_paths_of ''bin/rw-core'')) = ''bin/xray-custom''"
  by code_simp+

lemma sha256_hex_digits: "list_all hex_char (sha256_hex s)" "to_lower (sha256_hex s) = sha256_hex s"
proof -
  have "\<forall>c\<in>set (sha256_hex s). hex_char c \<and> lower_char c = c"
    by (auto simp: sha256_hex_def word_hex_def digit_char_hex)
  then show "list_all hex_char (sha256_hex s)" "to_lower (sha256_hex s) = sha256_hex s"
    by (auto simp: list_all_iff to_lower_def map_idI)
qed

definition sample_core_env :: core_env where
  "sample_core_env = \<lparr>cv_paths = core_paths_of ''/usr/local/bin/rw-core'',
     cv_parse_url = (\<lambda>raw. Some (''https'', ''h'', raw)),
     cv_fetch = (\<lambda>_. \<lparr>ha_redirects = [''https''], ha_error = None, ha_final_https = True, ha_status = 200,
       ha_content_length = -1, ha_body = ''core'', ha_read_error = None, ha_cause = Not_Done\<rparr>),
     cv_version = (\<lambda>_. Inr ''Xray 25.1.1''), cv_now = 7\<rparr>"

definition sample_core_files :: core_files where
  "sample_core_files = \<lparr>cf_active = Some (Symlink ''/usr/local/bin/xray''), cf_stock = Some (Regular ''stock'' True 1),
     cf_custom = None, cf_staged = None, cf_marker = None, cf_plan = []\<rparr>"

definition sample_core_geodata :: jval where
  "sample_core_geodata = VMap [(''core'', VMap [(''url'', VStr ''https://h/c''), (''sha256'', VStr (sha256_hex ''core''))])]"

lemma sample_core_paths: "core_paths_of ''/usr/local/bin/rw-core'' =
  \<lparr>cp_active = ''/usr/local/bin/rw-core'', cp_stock = ''/usr/local/bin/xray'', cp_custom = ''/usr/local/bin/xray-custom'', cp_managed = True\<rparr>"
  by code_simp

lemma sample_core_links:
  "resolve_link ''/usr/local/bin/rw-core'' ''/usr/local/bin/xray-custom'' = ''/usr/local/bin/xray-custom''"
  "resolve_link ''/usr/local/bin/rw-core'' ''/usr/local/bin/xray'' = ''/usr/local/bin/xray''"
  "path_clean ''/usr/local/bin/xray-custom'' = ''/usr/local/bin/xray-custom''" "path_clean ''/usr/local/bin/xray'' = ''/usr/local/bin/xray''"
  by code_simp+

lemma sample_core_spec: "parse_core_spec (cv_parse_url sample_core_env) (Some sample_core_geodata)
  = Spec \<lparr>sp_url = ''https://h/c'', sp_sha256 = sha256_hex ''core''\<rparr>"
  by (simp add: parse_core_spec_def sample_core_geodata_def sample_core_env_def absolute_https_def length_sha256_hex hex_digits_def
      sha256_hex_digits)

lemma sample_digest: "normalize_sha256 (sha256_hex ''core'') = Some (sha256_hex ''core'')"
  using parsed_spec_digest [OF sample_core_spec] by simp

lemma sample_prepared:
  "prepare_core sample_core_env (Some sample_core_geodata) sample_core_files
   = (True, sample_core_files\<lparr>cf_active := Some (Symlink ''/usr/local/bin/xray-custom''), cf_custom := Some (Regular ''core'' True 7),
      cf_marker := Some \<lparr>cm_url = ''https://h/c'', cm_sha256 = sha256_hex ''core'', cm_size = 4, cm_mtime = 7, cm_version = ''Xray 25.1.1''\<rparr>\<rparr>)"
  by (simp add: prepare_core_def sample_core_spec)
     (simp add: sample_core_env_def sample_core_files_def sample_core_paths is_installed_def install_core_def can_be_managed_def remove_staged_def
      call_def download_def sample_digest absolute_https_def answer_error_def size_limit_def max_artifact_size_def store_body_def copy_error_def
      activate_core_def link_and_record_def point_link_at_def write_marker_def Let_def)

theorem prepared_core_is_known_witness:
  "let (ok, s') = prepare_core sample_core_env (Some sample_core_geodata) sample_core_files in
   ok \<and> running_core sample_core_env s' \<noteq> running_core sample_core_env sample_core_files
   \<and> good_core (verified_core sample_core_env \<lparr>sp_url = ''https://h/c'', sp_sha256 = sha256_hex ''core''\<rparr>) (running_core sample_core_env s')"
proof -
  let ?s' = "snd (prepare_core sample_core_env (Some sample_core_geodata) sample_core_files)"
  have p: "cv_paths sample_core_env = core_paths_of ''/usr/local/bin/rw-core''" by (simp add: sample_core_env_def)
  have "running_core sample_core_env ?s' \<noteq> running_core sample_core_env sample_core_files"
    by (simp add: sample_prepared) (simp add: running_core_def sample_core_files_def sample_core_env_def sample_core_paths sample_core_links)
  then show ?thesis
    using prepared_core_is_known [OF _ p, of "Some sample_core_geodata" sample_core_files "True" ?s']
    by (simp add: sample_prepared sample_core_spec has_prefix_def)
qed


end
