(* ===== verification/Geodata.thy ===== *)
theory Geodata
  imports CoreLoader
begin

text \<open>internal/xray/geodata.go: the geodata files the panel asks for.  The groups of downloads run on up to five
  workers at once; here every interleaving of the workers is a run of a step relation.\<close>

record geodata_asset =
  ga_url :: string
  ga_file :: string

definition geodata_concurrency :: nat where
  "geodata_concurrency = 5"

definition geodata_char :: "char \<Rightarrow> bool" where
  "geodata_char c \<longleftrightarrow>
     c \<in> set ''ABCDEFGHIJKLMNOPQRSTUVWXYZabcdefghijklmnopqrstuvwxyz0123456789_.-''"

definition valid_geodata_file :: "string \<Rightarrow> bool" where
  "valid_geodata_file file \<longleftrightarrow> file \<noteq> ''.'' \<and> file \<noteq> ''..'' \<and> file \<noteq> [] \<and> list_all geodata_char file \<and> path_base file = file"

definition geodata_entry :: "url_parser \<Rightarrow> jval \<Rightarrow> geodata_asset option" where
  "geodata_entry parse_url item = (case item of
     VMap entry \<Rightarrow>
       (case lookup entry ''url'' of
          Some (VStr raw) \<Rightarrow>
            (case absolute_https parse_url raw of
               Some url \<Rightarrow>
                 (case lookup entry ''file'' of
                    Some (VStr file) \<Rightarrow> if valid_geodata_file file then Some \<lparr>ga_url = url, ga_file = file\<rparr> else None
                  | _ \<Rightarrow> None)
             | None \<Rightarrow> None)
        | _ \<Rightarrow> None)
   | _ \<Rightarrow> None)"

fun geodata_entries :: "url_parser \<Rightarrow> jval list \<Rightarrow> geodata_asset list option" where
  "geodata_entries parse_url [] = Some []"
| "geodata_entries parse_url (item # items) = (case geodata_entry parse_url item of
     None \<Rightarrow> None | Some a \<Rightarrow> map_option (Cons a) (geodata_entries parse_url items))"

text \<open>None is an error, which the caller logs.\<close>

definition parse_geodata_assets :: "url_parser \<Rightarrow> jval option \<Rightarrow> geodata_asset list option" where
  "parse_geodata_assets parse_url geodata = (case geodata of
     None \<Rightarrow> Some [] | Some VNull \<Rightarrow> Some []
   | Some (VMap section) \<Rightarrow>
       (case lookup section ''assets'' of
          None \<Rightarrow> Some [] | Some VNull \<Rightarrow> Some []
        | Some (VArr items) \<Rightarrow> geodata_entries parse_url items
        | _ \<Rightarrow> None)
   | _ \<Rightarrow> None)"

fun add_to_group :: "geodata_asset \<Rightarrow> geodata_asset list list \<Rightarrow> geodata_asset list list" where
  "add_to_group a [] = [[a]]"
| "add_to_group a (g # gs) =
     (if list_ex (\<lambda>b. ga_file b = ga_file a) g then (g @ [a]) # gs else g # add_to_group a gs)"

definition group_geodata_assets :: "geodata_asset list \<Rightarrow> geodata_asset list list" where
  "group_geodata_assets assets = fold add_to_group assets []"

text \<open>The files by path.  A link is followed by the file system; the plan tells which of the calls for an asset
  fail.\<close>

type_synonym geo_files = "string \<Rightarrow> fnode option"

record geo_env =
  gv_dir :: string
  gv_parse_url :: url_parser
  gv_fetch :: "string \<Rightarrow> http_answer"
  gv_follow :: "string \<Rightarrow> fnode option"
  gv_plan :: "geodata_asset \<Rightarrow> plan"
  gv_now :: int

definition asset_path :: "geo_env \<Rightarrow> geodata_asset \<Rightarrow> string" where
  "asset_path env a = path_join [gv_dir env, ga_file a]"

definition stat_node :: "geo_env \<Rightarrow> fnode option \<Rightarrow> fnode option" where
  "stat_node env node = (case node of Some (Symlink t) \<Rightarrow> gv_follow env t | _ \<Rightarrow> node)"

definition usable_file :: "geo_env \<Rightarrow> fnode option \<Rightarrow> bool" where
  "usable_file env node = (case stat_node env node of Some (Regular content _ _) \<Rightarrow> content \<noteq> [] | _ \<Rightarrow> False)"

text \<open>The node at the path of an asset after prepareAsset: the file that was there, the download, or an empty stub
  where there was nothing.\<close>

definition asset_node :: "geo_env \<Rightarrow> geodata_asset \<Rightarrow> fnode option \<Rightarrow> fnode option" where
  "asset_node env a node =
     (let (stat_ok, p1) = next_call (gv_plan env a) in
      if stat_ok \<and> usable_file env node then node
      else case download (gv_parse_url env) (gv_fetch env) (gv_now env) (ga_url a) [] 0 (node, p1) of
        (Inr _, node', _) \<Rightarrow> node'
      | (Inl _, node', p2) \<Rightarrow>
          if fst (next_call p2) \<and> node' = None then Some (Regular [] False (gv_now env)) else node')"

definition prepare_asset :: "geo_env \<Rightarrow> geodata_asset \<Rightarrow> geo_files \<Rightarrow> geo_files" where
  "prepare_asset env a files = files(asset_path env a := asset_node env a (files (asset_path env a)))"

section \<open>The workers\<close>

text \<open>The groups that are not yet sent, the groups the workers are at, whether the context is done, and the files.\<close>

record geo_state =
  gs_pending :: "geodata_asset list list"
  gs_busy :: "geodata_asset list list"
  gs_cancelled :: bool
  gs_files :: geo_files

text \<open>A worker takes a group; it handles the next asset of its group; it is done with its group; the context is
  cancelled; then the groups that are not sent are dropped, and a worker stops before its next asset.\<close>

inductive geo_step :: "geo_env \<Rightarrow> geo_state \<Rightarrow> geo_state \<Rightarrow> bool" for env where
  geo_take: "length (gs_busy s) < geodata_concurrency \<Longrightarrow> gs_pending s = g # gs
    \<Longrightarrow> geo_step env s (s\<lparr>gs_pending := gs, gs_busy := gs_busy s @ [g]\<rparr>)"
| geo_work: "gs_busy s = xs @ (a # r) # ys
    \<Longrightarrow> geo_step env s (s\<lparr>gs_busy := xs @ r # ys, gs_files := prepare_asset env a (gs_files s)\<rparr>)"
| geo_done: "gs_busy s = xs @ [] # ys \<Longrightarrow> geo_step env s (s\<lparr>gs_busy := xs @ ys\<rparr>)"
| geo_cancel: "geo_step env s (s\<lparr>gs_cancelled := True\<rparr>)"
| geo_drop: "gs_cancelled s \<Longrightarrow> geo_step env s (s\<lparr>gs_pending := []\<rparr>)"
| geo_stop: "gs_cancelled s \<Longrightarrow> gs_busy s = xs @ g # ys \<Longrightarrow> geo_step env s (s\<lparr>gs_busy := xs @ ys\<rparr>)"

definition geo_start :: "geodata_asset list \<Rightarrow> geo_files \<Rightarrow> geo_state" where
  "geo_start assets files =
     \<lparr>gs_pending = group_geodata_assets assets, gs_busy = [], gs_cancelled = False, gs_files = files\<rparr>"

definition geo_finished :: "geo_state \<Rightarrow> bool" where
  "geo_finished s \<longleftrightarrow> gs_pending s = [] \<and> gs_busy s = []"

text \<open>What prepare may leave behind, by the outcome of making the directory.\<close>

definition prepare_geodata :: "geo_env \<Rightarrow> jval option \<Rightarrow> bool \<Rightarrow> geo_files \<Rightarrow> geo_files \<Rightarrow> bool" where
  "prepare_geodata env geodata mkdir_ok files files' = (case parse_geodata_assets (gv_parse_url env) geodata of
     None \<Rightarrow> files' = files
   | Some assets \<Rightarrow>
       if assets = [] \<or> \<not> mkdir_ok then files' = files
       else \<exists>s. (geo_step env)\<^sup>*\<^sup>* (geo_start assets files) s \<and> geo_finished s \<and> files' = gs_files s)"

section \<open>Assets of one file are handled in order, those of different files apart\<close>

abbreviation of_file :: "string \<Rightarrow> geodata_asset list \<Rightarrow> geodata_asset list" where
  "of_file f \<equiv> filter (\<lambda>a. ga_file a = f)"

text \<open>The assets of each file are in at most one group.\<close>

definition files_in :: "geodata_asset list list \<Rightarrow> string set" where
  "files_in gs = ga_file ` set (concat gs)"

lemma files_in_simps [simp]:
  "files_in [] = {}" "files_in (g # gs) = ga_file ` set g \<union> files_in gs" "files_in (xs @ ys) = files_in xs \<union> files_in ys"
  by (auto simp: files_in_def)

fun apart :: "geodata_asset list list \<Rightarrow> bool" where
  "apart [] = True"
| "apart (g # gs) = (ga_file ` set g \<inter> files_in gs = {} \<and> apart gs)"

lemma apart_append: "apart (xs @ ys) \<longleftrightarrow> apart xs \<and> apart ys \<and> files_in xs \<inter> files_in ys = {}"
  by (induction xs) (simp_all, blast)

lemma of_file_none: "f \<notin> ga_file ` set as \<Longrightarrow> of_file f as = []"
  by (auto simp: filter_empty_conv)

lemma of_file_absent: "f \<notin> files_in gs \<Longrightarrow> of_file f (concat gs) = []"
  by (simp add: files_in_def of_file_none)

lemma files_in_add [simp]: "files_in (add_to_group a gs) = insert (ga_file a) (files_in gs)"
  by (induction gs) auto

lemma add_to_group_file:
  assumes "apart gs" "\<forall>g\<in>set gs. \<exists>f. ga_file ` set g \<subseteq> {f}"
  shows "apart (add_to_group a gs) \<and> (\<forall>g\<in>set (add_to_group a gs). \<exists>f. ga_file ` set g \<subseteq> {f})
    \<and> of_file f (concat (add_to_group a gs)) = of_file f (concat gs @ [a])"
  using assms
proof (induction gs)
  case (Cons g gs)
  show ?case
  proof (cases "ga_file a \<in> ga_file ` set g")
    case True
    then have add: "add_to_group a (g # gs) = (g @ [a]) # gs" by (auto simp: list_ex_iff)
    have g: "ga_file ` set g \<subseteq> {ga_file a}" using Cons.prems(2) True by (metis list.set_intros(1) singletonD subset_singletonD empty_iff)
    have "ga_file a \<notin> files_in gs" using Cons.prems(1) True by auto
    then have "of_file (ga_file a) (concat gs) = []" by (rule of_file_absent)
    then show ?thesis unfolding add using Cons.prems True g by (cases "f = ga_file a") auto
  next
    case False
    then have "\<not> list_ex (\<lambda>b. ga_file b = ga_file a) g" by (force simp: list_ex_iff image_iff)
    then have add: "add_to_group a (g # gs) = g # add_to_group a gs" by simp
    have "apart gs" "\<forall>g\<in>set gs. \<exists>f. ga_file ` set g \<subseteq> {f}" using Cons.prems by auto
    then show ?thesis unfolding add using Cons.IH Cons.prems False by auto
  qed
qed simp

lemma group_geodata_assets_file:
  "apart (group_geodata_assets assets)" "of_file f (concat (group_geodata_assets assets)) = of_file f assets"
proof -
  have "apart (fold add_to_group as gs) \<and> of_file f (concat (fold add_to_group as gs)) = of_file f (concat gs @ as)"
    if "apart gs" "\<forall>g\<in>set gs. \<exists>f. ga_file ` set g \<subseteq> {f}" for as gs
    using that
  proof (induction as arbitrary: gs)
    case (Cons a as)
    show ?case using Cons.IH [of "add_to_group a gs"] add_to_group_file [OF Cons.prems, of a f] by simp
  qed simp
  from this [of "[]" assets] show "apart (group_geodata_assets assets)"
    "of_file f (concat (group_geodata_assets assets)) = of_file f assets"
    by (simp_all add: group_geodata_assets_def)
qed

section \<open>Every run of the workers\<close>

text \<open>What has been handled, what the workers have left and what was dropped are, for each file, its assets in their
  order.\<close>

definition geo_inv :: "geo_env \<Rightarrow> geodata_asset list \<Rightarrow> geo_files \<Rightarrow> geo_state \<Rightarrow> bool" where
  "geo_inv env assets files s \<longleftrightarrow>
     length (gs_busy s) \<le> geodata_concurrency \<and> apart (gs_busy s @ gs_pending s)
     \<and> (\<exists>handled. set handled \<subseteq> set assets \<and> gs_files s = fold (prepare_asset env) handled files
         \<and> (\<forall>f. \<exists>dropped. of_file f assets = of_file f handled @ of_file f (concat (gs_busy s @ gs_pending s)) @ dropped
               \<and> (gs_cancelled s \<or> dropped = [])))"

lemma geo_invI:
  "\<lbrakk>length (gs_busy s) \<le> geodata_concurrency; apart (gs_busy s @ gs_pending s); set handled \<subseteq> set assets;
    gs_files s = fold (prepare_asset env) handled files;
    \<And>f. \<exists>dropped. of_file f assets = of_file f handled @ of_file f (concat (gs_busy s @ gs_pending s)) @ dropped
               \<and> (gs_cancelled s \<or> dropped = [])\<rbrakk> \<Longrightarrow> geo_inv env assets files s"
  unfolding geo_inv_def by blast

lemma geo_inv_weaken:
  assumes "geo_inv env assets files s" "gs_cancelled s'" "gs_files s' = gs_files s" "length (gs_busy s') \<le> geodata_concurrency"
    "apart (gs_busy s' @ gs_pending s')"
    "\<And>f. \<exists>d. of_file f (concat (gs_busy s @ gs_pending s)) = of_file f (concat (gs_busy s' @ gs_pending s')) @ d"
  shows "geo_inv env assets files s'"
proof -
  obtain handled where h: "set handled \<subseteq> set assets" "gs_files s = fold (prepare_asset env) handled files"
      "\<And>f. \<exists>dropped. of_file f assets = of_file f handled @ of_file f (concat (gs_busy s @ gs_pending s)) @ dropped"
    using assms(1) unfolding geo_inv_def by blast
  have "\<exists>dropped. of_file f assets = of_file f handled @ of_file f (concat (gs_busy s' @ gs_pending s')) @ dropped
      \<and> (gs_cancelled s' \<or> dropped = [])" for f
    using h(3) [of f] assms(2) assms(6) [of f] by (metis append.assoc)
  then show ?thesis using assms(2-5) h(1,2) by (intro geo_invI [of _ handled]) simp_all
qed

lemma geo_inv_start: "geo_inv env assets files (geo_start assets files)"
  by (rule geo_invI [of _ "[]"]) (simp_all add: geo_start_def group_geodata_assets_file)

lemma set_of_files: "\<forall>f. \<exists>d. of_file f assets = of_file f as @ d \<Longrightarrow> set as \<subseteq> set assets"
proof
  fix x assume a: "\<forall>f. \<exists>d. of_file f assets = of_file f as @ d" "x \<in> set as"
  then obtain d where "of_file (ga_file x) assets = of_file (ga_file x) as @ d" by blast
  then have "set (of_file (ga_file x) as) \<subseteq> set (of_file (ga_file x) assets)" by simp
  with a(2) show "x \<in> set assets" by auto
qed

lemma geo_inv_step:
  assumes "geo_step env s s'" "geo_inv env assets files s"
  shows "geo_inv env assets files s'"
  using assms
proof cases
  case (geo_take g gs)
  then show ?thesis using assms(2) by (simp add: geo_inv_def)
next
  case (geo_work xs a r ys)
  obtain handled where h: "gs_files s = fold (prepare_asset env) handled files"
      "\<And>f. \<exists>dropped. of_file f assets = of_file f handled @ of_file f (concat (gs_busy s @ gs_pending s)) @ dropped
               \<and> (gs_cancelled s \<or> dropped = [])"
    using assms(2) by (auto simp: geo_inv_def)
  have ap: "apart (xs @ (a # r) # ys @ gs_pending s)" using assms(2) geo_work by (simp add: geo_inv_def)
  then have "ga_file a \<notin> files_in xs" by (auto simp: apart_append)
  then have none: "of_file (ga_file a) (concat xs) = []" by (rule of_file_absent)
  have next_h: "\<exists>dropped. of_file f assets = of_file f (handled @ [a]) @ of_file f (concat ((xs @ r # ys) @ gs_pending s)) @ dropped
      \<and> (gs_cancelled s \<or> dropped = [])" for f
    using h(2) [of f] geo_work(2) none by (cases "ga_file a = f") auto
  then have "set (handled @ [a]) \<subseteq> set assets" by (intro set_of_files) (metis append.assoc)
  moreover have "apart ((xs @ r # ys) @ gs_pending s)" using ap by (auto simp: apart_append)
  moreover have "length (gs_busy s) \<le> geodata_concurrency" using assms(2) by (simp add: geo_inv_def)
  ultimately show ?thesis
    using next_h unfolding geo_work(1)
    by (intro geo_invI [of _ "handled @ [a]"]) (simp_all add: geo_work(2) h(1) del: filter_append concat_append)
next
  case (geo_done xs ys)
  then show ?thesis using assms(2) by (simp add: geo_inv_def apart_append)
next
  case geo_cancel
  then show ?thesis using assms(2) by (intro geo_inv_weaken [OF assms(2)]) (auto simp: geo_inv_def)
next
  case geo_drop
  then show ?thesis using assms(2) by (intro geo_inv_weaken [OF assms(2)]) (auto simp: geo_inv_def apart_append)
next
  case (geo_stop xs g ys)
  have ap: "apart (xs @ g # ys @ gs_pending s)" using assms(2) geo_stop by (simp add: geo_inv_def)
  have "\<exists>d. of_file f (concat (gs_busy s @ gs_pending s)) = of_file f (concat ((xs @ ys) @ gs_pending s)) @ d" for f
  proof (cases "f \<in> ga_file ` set g")
    case True
    with ap have "f \<notin> files_in (xs @ ys @ gs_pending s)" by (auto simp: apart_append)
    then have "of_file f (concat (xs @ ys @ gs_pending s)) = []" by (rule of_file_absent)
    then show ?thesis by simp
  qed (simp add: geo_stop(3) of_file_none)
  then show ?thesis
    using assms(2) geo_stop ap by (intro geo_inv_weaken [OF assms(2)]) (auto simp: geo_inv_def apart_append)
qed

lemma geo_inv_run:
  "(geo_step env)\<^sup>*\<^sup>* (geo_start assets files) s \<Longrightarrow> geo_inv env assets files s"
  by (induction rule: rtranclp_induct) (auto intro: geo_inv_start geo_inv_step)


section \<open>The files after a run\<close>

lemma geodata_entries_valid:
  "geodata_entries parse_url items = Some assets \<Longrightarrow> a \<in> set assets \<Longrightarrow> valid_geodata_file (ga_file a)"
proof (induction items arbitrary: assets)
  case (Cons item items)
  then show ?case
    by (auto simp: geodata_entry_def split: option.splits jval.splits if_splits)
qed simp

lemma parsed_assets_valid:
  "parse_geodata_assets parse_url geodata = Some assets \<Longrightarrow> a \<in> set assets \<Longrightarrow> valid_geodata_file (ga_file a)"
  by (auto simp: parse_geodata_assets_def dest: geodata_entries_valid split: option.splits jval.splits)

lemma valid_geodata_plain: "valid_geodata_file f \<Longrightarrow> plain_component f"
proof -
  assume f: "valid_geodata_file f"
  have "\<not> geodata_char (CHR ''/'')" by (simp add: geodata_char_def)
  with f have "CHR ''/'' \<notin> set f" unfolding valid_geodata_file_def list_all_iff by blast
  with f show ?thesis by (simp add: valid_geodata_file_def plain_component_def)
qed

lemma asset_path_base:
  "gv_dir env \<noteq> [] \<Longrightarrow> valid_geodata_file (ga_file a) \<Longrightarrow> path_base (asset_path env a) = ga_file a"
  by (simp add: asset_path_def path_join_plain valid_geodata_plain)

lemma fold_prepare_asset:
  "fold (prepare_asset env) as files p = fold (asset_node env) (filter (\<lambda>a. asset_path env a = p) as) (files p)"
  by (induction as arbitrary: files) (auto simp: prepare_asset_def)

text \<open>What an asset makes of the node at its path.\<close>

definition downloaded_body :: "geo_env \<Rightarrow> geodata_asset \<Rightarrow> string \<Rightarrow> bool" where
  "downloaded_body env a body \<longleftrightarrow> (\<exists>url. absolute_https (gv_parse_url env) (ga_url a) = Some url \<and> ha_final_https (gv_fetch env url)
     \<and> body = ha_body (gv_fetch env url) \<and> body \<noteq> [] \<and> int (length body) \<le> max_artifact_size)"

lemma asset_node_cases:
  "asset_node env a node = node \<or> node = None \<and> asset_node env a node = Some (Regular [] False (gv_now env))
   \<or> (\<exists>body. asset_node env a node = Some (Regular body False (gv_now env)) \<and> downloaded_body env a body)"
proof -
  obtain stat_ok p1 where 1: "next_call (gv_plan env a) = (stat_ok, p1)" by fastforce
  obtain r node' p2 where d: "download (gv_parse_url env) (gv_fetch env) (gv_now env) (ga_url a) [] 0 (node, p1) = (r, node', p2)"
    by (rule prod_cases3)
  show ?thesis
    using download_cases [where parse_url = "gv_parse_url env" and fetch = "gv_fetch env" and now = "gv_now env"
        and raw_url = "ga_url a" and expected_sha = "[]" and limit = 0 and node = node and p = p1]
    by (cases r) (auto simp: asset_node_def 1 d downloaded_body_def size_limit_def)
qed

lemma asset_node_usable:
  "fst (next_call (gv_plan env a)) \<Longrightarrow> usable_file env node \<Longrightarrow> asset_node env a node = node"
  by (simp add: asset_node_def case_prod_beta)

lemma fold_asset_node_usable:
  "\<forall>a\<in>set as. fst (next_call (gv_plan env a)) \<Longrightarrow> usable_file env node \<Longrightarrow> fold (asset_node env) as node = node"
  by (induction as) (simp_all add: asset_node_usable)

lemma fold_asset_node_cases:
  "fold (asset_node env) as node = node \<or> node = None \<and> fold (asset_node env) as node = Some (Regular [] False (gv_now env))
   \<or> (\<exists>a\<in>set as. \<exists>body. fold (asset_node env) as node = Some (Regular body False (gv_now env)) \<and> downloaded_body env a body)"
proof (induction as rule: rev_induct)
  case (snoc a as)
  then show ?case using asset_node_cases [of env a "fold (asset_node env) as node"] by auto
qed simp

text \<open>A path only changes to what an asset of it makes of it.\<close>

lemma handled_path:
  assumes "\<And>a. a \<in> set assets \<Longrightarrow> path_base (asset_path env a) = ga_file a" "set handled \<subseteq> set assets"
  shows "fold (prepare_asset env) handled files p = files p
    \<or> (\<exists>a\<in>set assets. p = asset_path env a \<and> path_base p = ga_file a
        \<and> (files p = None \<and> fold (prepare_asset env) handled files p = Some (Regular [] False (gv_now env))
          \<or> (\<exists>body. fold (prepare_asset env) handled files p = Some (Regular body False (gv_now env)) \<and> downloaded_body env a body)))"
proof -
  let ?at = "filter (\<lambda>a. asset_path env a = p) handled"
  have at: "a \<in> set assets \<and> p = asset_path env a \<and> path_base p = ga_file a" if "a \<in> set ?at" for a
    using that assms by auto
  show ?thesis
  proof (cases ?at)
    case (Cons a as)
    then have a: "a \<in> set ?at" by simp
    let ?node = "fold (prepare_asset env) handled files p"
    have "?node = fold (asset_node env) ?at (files p)" by (rule fold_prepare_asset)
    then consider "?node = files p" | "files p = None" "?node = Some (Regular [] False (gv_now env))"
      | b body where "b \<in> set ?at" "?node = Some (Regular body False (gv_now env))" "downloaded_body env b body"
      using fold_asset_node_cases [of env ?at "files p"] by auto
    then show ?thesis
    proof cases
      case 2
      then show ?thesis using at [OF a] by blast
    next
      case 3
      then show ?thesis using at [OF 3(1)] by blast
    qed simp
  qed (simp add: fold_prepare_asset)
qed

text \<open>Handling the assets of each file in their order is enough.\<close>

lemma fold_prepare_by_file:
  assumes base: "\<And>a. a \<in> set assets \<Longrightarrow> path_base (asset_path env a) = ga_file a"
    and sub: "set handled \<subseteq> set assets" and same: "\<And>f. of_file f handled = of_file f assets"
  shows "fold (prepare_asset env) handled files = fold (prepare_asset env) assets files"
proof
  fix p
  let ?at = "filter (\<lambda>a. asset_path env a = p)"
  have "?at handled = ?at assets"
  proof (cases "\<exists>a\<in>set assets. asset_path env a = p")
    case True
    then obtain a where a: "a \<in> set assets" "asset_path env a = p" by blast
    have "asset_path env b = p \<longleftrightarrow> ga_file b = ga_file a" if "b \<in> set assets" for b
    proof
      assume "asset_path env b = p"
      then show "ga_file b = ga_file a" using base [OF that] base [OF a(1)] a(2) by simp
    next
      assume "ga_file b = ga_file a"
      then show "asset_path env b = p" using a(2) by (simp add: asset_path_def)
    qed
    then have at: "?at as = of_file (ga_file a) as" if "set as \<subseteq> set assets" for as
      using that by (intro filter_cong) auto
    show ?thesis using at [OF sub] at [of assets] same [of "ga_file a"] by simp
  next
    case False
    with sub show ?thesis by (metis (mono_tags, lifting) filter_False subset_iff)
  qed
  then show "fold (prepare_asset env) handled files p = fold (prepare_asset env) assets files p"
    unfolding fold_prepare_asset by simp
qed

text \<open>C29: In every run of the workers at most five are busy, and a path only changes when it is that of an asset: to a
  complete body from an HTTPS server, or to an empty stub where there was nothing; a file with content stays.  If the
  run ends without being cancelled the files are those of the assets handled one after the other in the order of the
  configuration, whatever the interleaving.\<close>

theorem geodata_runs_as_configured:
  assumes dir: "gv_dir env \<noteq> []" and assets: "parse_geodata_assets (gv_parse_url env) geodata = Some assets"
    and run: "(geo_step env)\<^sup>*\<^sup>* (geo_start assets files) s"
  shows "length (gs_busy s) \<le> 5
    \<and> (\<forall>p. gs_files s p = files p
        \<or> (\<exists>a\<in>set assets. p = asset_path env a \<and> path_base p = ga_file a
            \<and> (files p = None \<and> gs_files s p = Some (Regular [] False (gv_now env))
              \<or> (\<exists>body. gs_files s p = Some (Regular body False (gv_now env)) \<and> downloaded_body env a body))))
    \<and> (\<forall>p. usable_file env (files p) \<and> (\<forall>a\<in>set assets. fst (next_call (gv_plan env a))) \<longrightarrow> gs_files s p = files p)
    \<and> (geo_finished s \<and> \<not> gs_cancelled s \<longrightarrow> gs_files s = fold (prepare_asset env) assets files)"
proof -
  note base = asset_path_base [OF dir parsed_assets_valid [OF assets]]
  obtain handled where h: "length (gs_busy s) \<le> 5" "set handled \<subseteq> set assets" "gs_files s = fold (prepare_asset env) handled files"
      "\<And>f. \<exists>dropped. of_file f assets = of_file f handled @ of_file f (concat (gs_busy s @ gs_pending s)) @ dropped
               \<and> (gs_cancelled s \<or> dropped = [])"
    using geo_inv_run [OF run] by (auto simp: geo_inv_def geodata_concurrency_def)
  have "gs_files s p = files p"
    if "usable_file env (files p)" "\<forall>a\<in>set assets. fst (next_call (gv_plan env a))" for p
    using that h(2) unfolding h(3) fold_prepare_asset by (intro fold_asset_node_usable) auto
  moreover have "gs_files s = fold (prepare_asset env) assets files" if "geo_finished s" "\<not> gs_cancelled s"
  proof -
    have "of_file f handled = of_file f assets" for f using h(4) [of f] that by (simp add: geo_finished_def)
    from fold_prepare_by_file [OF base h(2) this] h(3) show ?thesis by simp
  qed
  moreover note handled_path [OF base h(2), of files, folded h(3)]
  ultimately show ?thesis using h(1) by blast
qed

definition sample_geo_env :: geo_env where
  "sample_geo_env = \<lparr>gv_dir = ''/geo'', gv_parse_url = cv_parse_url sample_core_env, gv_fetch = cv_fetch sample_core_env,
     gv_follow = (\<lambda>_. None), gv_plan = (\<lambda>_. []), gv_now = 7\<rparr>"

definition sample_asset :: geodata_asset where
  "sample_asset = \<lparr>ga_url = ''https://h/c'', ga_file = ''geoip.dat''\<rparr>"

lemma sample_assets:
  "parse_geodata_assets (gv_parse_url sample_geo_env)
     (Some (VMap [(''assets'', VArr [VMap [(''url'', VStr ''https://h/c''), (''file'', VStr ''geoip.dat'')]])])) = Some [sample_asset]"
proof -
  have "valid_geodata_file ''geoip.dat''" by code_simp
  then show ?thesis
    by (simp add: parse_geodata_assets_def geodata_entry_def sample_geo_env_def sample_core_env_def absolute_https_def sample_asset_def)
qed

lemma sample_geo_run:
  "(geo_step sample_geo_env)\<^sup>*\<^sup>* (geo_start [sample_asset] (\<lambda>_. None))
     \<lparr>gs_pending = [], gs_busy = [], gs_cancelled = False, gs_files = prepare_asset sample_geo_env sample_asset (\<lambda>_. None)\<rparr>"
proof -
  let ?s = "\<lambda>p b f. \<lparr>gs_pending = p, gs_busy = b, gs_cancelled = False, gs_files = f\<rparr>"
  let ?f = "prepare_asset sample_geo_env sample_asset (\<lambda>_. None)"
  have "geo_step sample_geo_env (?s [[sample_asset]] [] (\<lambda>_. None)) (?s [] [[sample_asset]] (\<lambda>_. None))"
    using geo_take [of "?s [[sample_asset]] [] (\<lambda>_. None)"] by (simp add: geodata_concurrency_def)
  moreover have "geo_step sample_geo_env (?s [] [[sample_asset]] (\<lambda>_. None)) (?s [] [[]] ?f)"
    using geo_work [of "?s [] [[sample_asset]] (\<lambda>_. None)" "[]"] by simp
  moreover have "geo_step sample_geo_env (?s [] [[]] ?f) (?s [] [] ?f)"
    using geo_done [of "?s [] [[]] ?f" "[]"] by simp
  ultimately show ?thesis
    by (auto simp: geo_start_def group_geodata_assets_def intro: converse_rtranclp_into_rtranclp)
qed

theorem geodata_runs_as_configured_witness:
  "\<exists>s. (geo_step sample_geo_env)\<^sup>*\<^sup>* (geo_start [sample_asset] (\<lambda>_. None)) s \<and> geo_finished s
     \<and> gs_files s = fold (prepare_asset sample_geo_env) [sample_asset] (\<lambda>_. None)"
  using geodata_runs_as_configured [OF _ sample_assets sample_geo_run] sample_geo_run
  by (intro exI conjI) (assumption, auto simp: geo_finished_def sample_geo_env_def)

end
