(* ===== verification/Secret.thy ===== *)
theory Secret
  imports NodeAccess
begin

text \<open>internal/secret/secret.go: the secret key of the node, a base-64 JSON text with four PEM values.  JSON, PEM and
  the parsers of crypto/x509 are parameters; normalising the PEM texts and every check are written out.\<close>

section \<open>PEM texts\<close>

text \<open>strings.ReplaceAll for a text that is not empty.\<close>

function replace_all :: "string \<Rightarrow> string \<Rightarrow> string \<Rightarrow> string" where
  "replace_all old new s =
     (if s = [] then []
      else if old \<noteq> [] \<and> has_prefix s old then new @ replace_all old new (drop (length old) s)
      else hd s # replace_all old new (tl s))"
  by pat_completeness auto
termination by (relation "measure (\<lambda>(old, new, s). length s)") auto

declare replace_all.simps [simp del]

definition label_char :: "char \<Rightarrow> bool" where
  "label_char c \<longleftrightarrow> c = CHR '' '' \<or> 65 \<le> (of_char c :: nat) \<and> (of_char c :: nat) \<le> 90"

text \<open>The match of -----KIND [A-Z ]+----- at the start of a text, and what follows.\<close>

definition pem_marker :: "string \<Rightarrow> string \<Rightarrow> (string \<times> string) option" where
  "pem_marker kind s =
     (let head = ''-----'' @ kind @ '' ''; label = takeWhile label_char (drop (length head) s);
          tail = drop (length head + length label) s in
      if has_prefix s head \<and> label \<noteq> [] \<and> has_prefix tail ''-----'' then Some (head @ label @ ''-----'', drop 5 tail) else None)"

lemma pem_marker_shorter: "pem_marker kind s = Some (m, rest) \<Longrightarrow> length rest < length s"
  by (cases s) (auto simp: pem_marker_def Let_def has_prefix_def split: if_splits)

text \<open>The replacement of every match by the match between two texts.\<close>

function mark_markers :: "string \<Rightarrow> string \<Rightarrow> string \<Rightarrow> string \<Rightarrow> string" where
  "mark_markers kind pre post s =
     (if s = [] then []
      else case pem_marker kind s of
        Some (m, rest) \<Rightarrow> pre @ m @ post @ mark_markers kind pre post rest
      | None \<Rightarrow> hd s # mark_markers kind pre post (tl s))"
  by pat_completeness auto
termination
  by (relation "measure (\<lambda>(kind, pre, post, s). length s)") (auto dest: pem_marker_shorter)

declare mark_markers.simps [simp del]

function collapse_newlines :: "string \<Rightarrow> string" where
  "collapse_newlines s =
     (if s = [] then []
      else if hd s = CHR 0x0A then CHR 0x0A # collapse_newlines (dropWhile (\<lambda>c. c = CHR 0x0A) s)
      else hd s # collapse_newlines (tl s))"
  by pat_completeness auto
termination
proof (relation "measure length")
  fix s :: string assume "s \<noteq> []" "hd s = CHR 0x0A"
  then show "(dropWhile (\<lambda>c. c = CHR 0x0A) s, s) \<in> measure length"
    by (cases s) (auto simp: le_imp_less_Suc length_dropWhile_le)
qed auto

declare collapse_newlines.simps [simp del]

definition normalize_pem :: "string \<Rightarrow> string" where
  "normalize_pem pem =
     (let s1 = replace_all [CHR 0x5C, CHR ''n''] [CHR 0x0A] pem;
          s2 = replace_all [CHR 0x0D, CHR 0x0A] [CHR 0x0A] s1;
          s3 = mark_markers ''BEGIN'' [] [CHR 0x0A] s2;
          s4 = mark_markers ''END'' [CHR 0x0A] [] s3 in
      trim_space (collapse_newlines s4))"

section \<open>The payload\<close>

record secret_payload =
  sk_ca_cert_pem :: string
  sk_jwt_public_key :: string
  sk_node_cert_pem :: string
  sk_node_key_pem :: string

text \<open>What a private key block is: a text that no parser takes, a key that cannot sign, or the public half.\<close>

datatype 'k private_key = Unparsable_Key | Not_A_Signer | Public_Half 'k

text \<open>pem.Decode gives the type and the bytes of the first block and the rest; the certificate, its dates, keys and
  signatures are those of crypto/x509.\<close>

record ('c, 'k) secret_env =
  sx_unmarshal :: "nat list \<Rightarrow> secret_payload option"
  sx_pem :: "string \<Rightarrow> (string \<times> string \<times> string) option"
  sx_cert :: "string \<Rightarrow> 'c option"
  sx_not_before :: "'c \<Rightarrow> int"
  sx_not_after :: "'c \<Rightarrow> int"
  sx_signed_by :: "'c \<Rightarrow> 'c \<Rightarrow> bool"
  sx_cert_key :: "'c \<Rightarrow> 'k"
  sx_private :: "string \<Rightarrow> string \<Rightarrow> 'k private_key"
  sx_pkix :: "string \<Rightarrow> 'k option"
  sx_pkcs1_public :: "string \<Rightarrow> 'k option"
  sx_der :: "'k \<Rightarrow> string option"
  sx_is_rsa :: "'k \<Rightarrow> bool"
  sx_now :: int

datatype secret_error =
    Secret_Empty | Secret_Not_Base64 | Secret_Not_Json | Missing_Fields "string list"
  | Not_A_Certificate string | Trailing_Data string | Cert_Unparsable string | Not_Yet_Valid string | Expired string
  | Bad_Self_Signature | Not_Signed_By_Ca | Bad_Private_Key | No_Public_Der string | Key_Mismatch
  | Bad_Jwt_Key | Jwt_Not_Rsa

definition decode_secret_base64 :: "string \<Rightarrow> nat list option" where
  "decode_secret_base64 encoded =
     (let trimmed = trim_space encoded in
      case base64_decode trimmed of
        Some bytes \<Rightarrow> Some bytes
      | None \<Rightarrow> Option.bind (all_some (map b64_digit (filter (\<lambda>c. c \<noteq> CHR 0x0A \<and> c \<noteq> CHR 0x0D) trimmed))) raw_quads)"

definition parse_certificate :: "('c, 'k) secret_env \<Rightarrow> string \<Rightarrow> string \<Rightarrow> secret_error + 'c" where
  "parse_certificate env field value = (case sx_pem env value of
     None \<Rightarrow> Inl (Not_A_Certificate field)
   | Some (kind, bytes, rest) \<Rightarrow>
       if kind \<noteq> ''CERTIFICATE'' then Inl (Not_A_Certificate field)
       else if trim_space rest \<noteq> [] then Inl (Trailing_Data field)
       else case sx_cert env bytes of None \<Rightarrow> Inl (Cert_Unparsable field) | Some c \<Rightarrow> Inr c)"

definition private_key_public :: "('c, 'k) secret_env \<Rightarrow> string \<Rightarrow> secret_error + 'k" where
  "private_key_public env value = (case sx_pem env value of
     None \<Rightarrow> Inl Bad_Private_Key
   | Some (kind, bytes, rest) \<Rightarrow>
       if trim_space rest \<noteq> [] then Inl Bad_Private_Key
       else if kind \<notin> {''PRIVATE KEY'', ''RSA PRIVATE KEY'', ''EC PRIVATE KEY''} then Inl Bad_Private_Key
       else case sx_private env kind bytes of Public_Half k \<Rightarrow> Inr k | _ \<Rightarrow> Inl Bad_Private_Key)"

definition parse_public_key :: "('c, 'k) secret_env \<Rightarrow> string \<Rightarrow> secret_error + 'k" where
  "parse_public_key env value = (case sx_pem env value of
     None \<Rightarrow> Inl Bad_Jwt_Key
   | Some (kind, bytes, rest) \<Rightarrow>
       if trim_space rest \<noteq> [] then Inl Bad_Jwt_Key
       else case sx_cert env bytes of
         Some c \<Rightarrow> Inr (sx_cert_key env c)
       | None \<Rightarrow> (case sx_pkix env bytes of
           Some k \<Rightarrow> Inr k
         | None \<Rightarrow> (case sx_pkcs1_public env bytes of Some k \<Rightarrow> Inr k | None \<Rightarrow> Inl Bad_Jwt_Key)))"

definition missing_fields :: "secret_payload \<Rightarrow> string list" where
  "missing_fields p =
     (if sk_ca_cert_pem p = [] then [''caCertPem''] else []) @ (if sk_jwt_public_key p = [] then [''jwtPublicKey''] else [])
     @ (if sk_node_cert_pem p = [] then [''nodeCertPem''] else []) @ (if sk_node_key_pem p = [] then [''nodeKeyPem''] else [])"

definition dates_error :: "('c, 'k) secret_env \<Rightarrow> string \<Rightarrow> 'c \<Rightarrow> secret_error option" where
  "dates_error env field c =
     (if sx_now env < sx_not_before env c then Some (Not_Yet_Valid field)
      else if sx_not_after env c < sx_now env then Some (Expired field) else None)"

definition keys_error :: "('c, 'k) secret_env \<Rightarrow> secret_payload \<Rightarrow> 'c \<Rightarrow> secret_error option" where
  "keys_error env p node = (case private_key_public env (sk_node_key_pem p) of
     Inl e \<Rightarrow> Some e
   | Inr private \<Rightarrow> (case sx_der env (sx_cert_key env node) of
       None \<Rightarrow> Some (No_Public_Der ''nodeCertPem'')
     | Some cert_der \<Rightarrow> (case sx_der env private of
         None \<Rightarrow> Some (No_Public_Der ''nodeKeyPem'')
       | Some private_der \<Rightarrow>
           if cert_der \<noteq> private_der then Some Key_Mismatch
           else case parse_public_key env (sk_jwt_public_key p) of
             Inl e \<Rightarrow> Some e
           | Inr k \<Rightarrow> if sx_is_rsa env k then None else Some Jwt_Not_Rsa)))"

definition validate_secret :: "('c, 'k) secret_env \<Rightarrow> secret_payload \<Rightarrow> secret_error option" where
  "validate_secret env p =
     (if missing_fields p \<noteq> [] then Some (Missing_Fields (missing_fields p))
      else case parse_certificate env ''caCertPem'' (sk_ca_cert_pem p) of
        Inl e \<Rightarrow> Some e
      | Inr ca \<Rightarrow>
          (case dates_error env ''caCertPem'' ca of
             Some e \<Rightarrow> Some e
           | None \<Rightarrow>
               if \<not> sx_signed_by env ca ca then Some Bad_Self_Signature
               else case parse_certificate env ''nodeCertPem'' (sk_node_cert_pem p) of
                 Inl e \<Rightarrow> Some e
               | Inr node \<Rightarrow>
                   (case dates_error env ''nodeCertPem'' node of
                      Some e \<Rightarrow> Some e
                    | None \<Rightarrow> if \<not> sx_signed_by env ca node then Some Not_Signed_By_Ca else keys_error env p node)))"

definition normalize_payload :: "secret_payload \<Rightarrow> secret_payload" where
  "normalize_payload p =
     \<lparr>sk_ca_cert_pem = normalize_pem (sk_ca_cert_pem p), sk_jwt_public_key = normalize_pem (sk_jwt_public_key p),
      sk_node_cert_pem = normalize_pem (sk_node_cert_pem p), sk_node_key_pem = normalize_pem (sk_node_key_pem p)\<rparr>"

definition parse_secret :: "('c, 'k) secret_env \<Rightarrow> string \<Rightarrow> secret_error + secret_payload" where
  "parse_secret env encoded =
     (if trim_space encoded = [] then Inl Secret_Empty
      else case decode_secret_base64 encoded of
        None \<Rightarrow> Inl Secret_Not_Base64
      | Some raw \<Rightarrow> (case sx_unmarshal env raw of
          None \<Rightarrow> Inl Secret_Not_Json
        | Some p \<Rightarrow> (case validate_secret env (normalize_payload p) of
            Some e \<Rightarrow> Inl e | None \<Rightarrow> Inr (normalize_payload p))))"

section \<open>An accepted secret\<close>

lemma parse_certificate_Inr:
  "parse_certificate env field value = Inr c \<longleftrightarrow>
     (\<exists>bytes rest. sx_pem env value = Some (''CERTIFICATE'', bytes, rest) \<and> trim_space rest = [] \<and> sx_cert env bytes = Some c)"
  by (auto simp: parse_certificate_def split: option.splits prod.splits)

lemma keys_error_None:
  "keys_error env p node = None \<longleftrightarrow>
     (\<exists>private der. private_key_public env (sk_node_key_pem p) = Inr private \<and> sx_der env private = Some der
        \<and> sx_der env (sx_cert_key env node) = Some der)
     \<and> (\<exists>k. parse_public_key env (sk_jwt_public_key p) = Inr k \<and> sx_is_rsa env k)"
  by (auto simp: keys_error_def split: sum.splits option.splits)

lemma validate_secret_None:
  "validate_secret env p = None \<longleftrightarrow> missing_fields p = [] \<and>
     (\<exists>ca node. parse_certificate env ''caCertPem'' (sk_ca_cert_pem p) = Inr ca
        \<and> parse_certificate env ''nodeCertPem'' (sk_node_cert_pem p) = Inr node
        \<and> sx_not_before env ca \<le> sx_now env \<and> sx_now env \<le> sx_not_after env ca
        \<and> sx_not_before env node \<le> sx_now env \<and> sx_now env \<le> sx_not_after env node
        \<and> sx_signed_by env ca ca \<and> sx_signed_by env ca node \<and> keys_error env p node = None)"
  by (auto simp: validate_secret_def dates_error_def not_less split: sum.splits if_splits)

text \<open>C27: The secret is accepted exactly when it decodes to four values and, after they are normalised, both certificates
  are single CERTIFICATE blocks valid at this time and signed by the CA certificate, the private key is that of the
  node certificate, and the key for the tokens is an RSA key.\<close>

theorem accepted_secret_is_consistent:
  "parse_secret env encoded = Inr p \<longleftrightarrow> trim_space encoded \<noteq> [] \<and>
     (\<exists>raw q ca node bytes rest bytes' rest' private der k.
        decode_secret_base64 encoded = Some raw \<and> sx_unmarshal env raw = Some q \<and> p = normalize_payload q \<and> missing_fields p = []
        \<and> sx_pem env (sk_ca_cert_pem p) = Some (''CERTIFICATE'', bytes, rest) \<and> trim_space rest = [] \<and> sx_cert env bytes = Some ca
        \<and> sx_pem env (sk_node_cert_pem p) = Some (''CERTIFICATE'', bytes', rest') \<and> trim_space rest' = []
        \<and> sx_cert env bytes' = Some node
        \<and> sx_now env \<in> {sx_not_before env ca..sx_not_after env ca} \<inter> {sx_not_before env node..sx_not_after env node}
        \<and> sx_signed_by env ca ca \<and> sx_signed_by env ca node
        \<and> private_key_public env (sk_node_key_pem p) = Inr private \<and> sx_der env private = Some der
        \<and> sx_der env (sx_cert_key env node) = Some der
        \<and> parse_public_key env (sk_jwt_public_key p) = Inr k \<and> sx_is_rsa env k)"
proof -
  have "parse_secret env encoded = Inr p \<longleftrightarrow> trim_space encoded \<noteq> [] \<and>
      (\<exists>raw q. decode_secret_base64 encoded = Some raw \<and> sx_unmarshal env raw = Some q \<and> p = normalize_payload q
        \<and> validate_secret env p = None)"
    by (auto simp: parse_secret_def split: option.splits)
  then show ?thesis
    unfolding validate_secret_None parse_certificate_Inr keys_error_None by (simp, blast)
qed

text \<open>A text with an escaped line end, and no line end before its second marker.\<close>

lemma normalize_pem_sample:
  "normalize_pem (''-----BEGIN K-----'' @ [CHR 0x5C, CHR ''n''] @ ''QUJD-----END K-----'')
   = ''-----BEGIN K-----'' @ [CHR 0x0A] @ ''QUJD'' @ [CHR 0x0A] @ ''-----END K-----''"
  by code_simp

end
