(* ===== verification/SystemReport.thy ===== *)
theory SystemReport
  imports SystemStats Stats
begin

text \<open>The reports put together from the readers: GetInfo and GetStats of internal/system/system.go, GetSysStats of
  internal/xtls/stats.go and internal/xray/grpc.go, and the handlers of the system statistics and of the TCP
  connections of internal/stats/handler.go.  What the host answers is a record.\<close>

record host =
  ho_arch :: string
  ho_platform :: string
  ho_go_version :: string
  ho_cpus :: nat
  ho_hostname :: string
  ho_interfaces :: "string list option"
  ho_meminfo :: "string option"
  ho_runtime_sys :: nat
  ho_cpuinfo :: "string option"
  ho_osrelease :: "string option"
  ho_os_release_files :: "string option list"
  ho_dmi :: "string option list"
  ho_proc_entries :: "(string \<times> bool) list option"
  ho_tcp :: "string option list"
  ho_udp :: "string option list"
  ho_route :: "string option"
  ho_uptime :: "string option"
  ho_since_start :: rat
  ho_loadavg :: "string option"
  ho_number :: "string \<Rightarrow> rat option"
  ho_vnstat :: "int \<Rightarrow> jmap option"
  ho_listeners :: "string option"
  ho_now :: int
  ho_now_text :: string

section \<open>The host\<close>

record system_info =
  si_arch :: string
  si_cpus :: nat
  si_cpu_model :: string
  si_memory_total :: nat
  si_hostname :: string
  si_platform :: string
  si_release :: string
  si_type :: string
  si_version :: string
  si_interfaces :: "string list"
  si_os_name :: "string option"
  si_virtualization :: "string option"
  si_swap_total :: "nat option"

definition network_interfaces :: "string list option \<Rightarrow> string list" where
  "network_interfaces interfaces = (case interfaces of Some names \<Rightarrow> names | None \<Rightarrow> [])"

definition get_info :: "host \<Rightarrow> system_info" where
  "get_info h =
     (let memory = read_memory_info (ho_meminfo h) (ho_runtime_sys h) in
      \<lparr>si_arch = ho_arch h, si_cpus = ho_cpus h, si_cpu_model = cpu_model (ho_cpuinfo h), si_memory_total = me_total memory,
       si_hostname = ho_hostname h, si_platform = ho_platform h, si_release = kernel_release (ho_osrelease h),
       si_type = ho_platform h, si_version = ho_go_version h, si_interfaces = network_interfaces (ho_interfaces h),
       si_os_name = os_release_name (ho_os_release_files h),
       si_virtualization = Some (virtualization (ho_cpuinfo h) (ho_dmi h)), si_swap_total = me_swap_total memory\<rparr>)"

record system_stats =
  ss_resources :: resource_stats
  ss_memory_free :: nat
  ss_memory_used :: nat
  ss_swap_total :: "nat option"
  ss_swap_free :: "nat option"
  ss_swap_used :: "nat option"
  ss_process_count :: "nat option"
  ss_udp_connections :: "nat option"
  ss_uptime :: rat
  ss_load_avg :: "rat list"
  ss_interface :: "network_interface option"
  ss_tcp :: tcp_stats
  ss_vnstat_daily :: "daily_entry list option"
  ss_vnstat_error :: "vnstat_error option"
  ss_vnstat_total_bytes :: "rat option"

definition report_interface :: "host \<Rightarrow> network_monitor \<Rightarrow> string" where
  "report_interface h monitor = (case nm_current monitor of
     Some ni \<Rightarrow> if ni_interface ni \<noteq> [] then ni_interface ni else resolve_default_interface (ho_route h)
   | None \<Rightarrow> resolve_default_interface (ho_route h))"

text \<open>The resource snapshot and the monitor are only read; the vnStat service keeps its cache.\<close>

definition get_stats ::
  "(rat \<Rightarrow> rat) \<Rightarrow> host \<Rightarrow> resource_stats \<Rightarrow> network_monitor \<Rightarrow> vnstat_service \<Rightarrow> system_stats \<times> vnstat_service" where
  "get_stats fl h resources monitor vs =
     (let memory = read_memory_info (ho_meminfo h) (ho_runtime_sys h);
          (vnstat, vs') = vnstat_snapshot_at fl (ho_vnstat h) (ho_now h) (report_interface h monitor) vs in
      (\<lparr>ss_resources = resources, ss_memory_free = me_free memory, ss_memory_used = memory_used memory,
        ss_swap_total = me_swap_total memory, ss_swap_free = me_swap_free memory, ss_swap_used = swap_used memory,
        ss_process_count = process_count (ho_proc_entries h), ss_udp_connections = Some (read_udp_connection_count (ho_udp h)),
        ss_uptime = uptime (ho_number h) (ho_since_start h) (ho_uptime h),
        ss_load_avg = load_avg (ho_number h) (ho_loadavg h), ss_interface = nm_current monitor, ss_tcp = read_stats (ho_tcp h),
        ss_vnstat_daily = (case vnstat of Inr s \<Rightarrow> Some (vn_daily s) | Inl _ \<Rightarrow> None),
        ss_vnstat_error = (case vnstat of Inl e \<Rightarrow> Some e | Inr _ \<Rightarrow> None),
        ss_vnstat_total_bytes = (case vnstat of Inr s \<Rightarrow> Some (vn_total_bytes s) | Inl _ \<Rightarrow> None)\<rparr>, vs'))"

section \<open>The core\<close>

text \<open>The counters of the core's runtime, unsigned as in its reply and signed as reported.\<close>

record core_runtime =
  cr_goroutines :: nat
  cr_gcs :: nat
  cr_alloc :: nat
  cr_total_alloc :: nat
  cr_sys :: nat
  cr_mallocs :: nat
  cr_frees :: nat
  cr_live_objects :: nat
  cr_pause_total :: nat
  cr_uptime :: nat

record sys_stats =
  sy_goroutines :: int
  sy_gcs :: int
  sy_alloc :: int
  sy_total_alloc :: int
  sy_sys :: int
  sy_mallocs :: int
  sy_frees :: int
  sy_live_objects :: int
  sy_pause_total :: int
  sy_uptime :: int

definition sys_stats_of :: "core_runtime \<Rightarrow> sys_stats" where
  "sys_stats_of r =
     \<lparr>sy_goroutines = int (cr_goroutines r), sy_gcs = int (cr_gcs r), sy_alloc = to_int64 (cr_alloc r),
      sy_total_alloc = to_int64 (cr_total_alloc r), sy_sys = to_int64 (cr_sys r), sy_mallocs = to_int64 (cr_mallocs r),
      sy_frees = to_int64 (cr_frees r), sy_live_objects = to_int64 (cr_live_objects r),
      sy_pause_total = to_int64 (cr_pause_total r), sy_uptime = int (cr_uptime r)\<rparr>"

definition get_sys_stats :: "string option \<Rightarrow> manager \<Rightarrow> core_runtime grpc_reply \<Rightarrow> string + sys_stats" where
  "get_sys_stats dial_error m reply = map_sum id sys_stats_of (provider_stats dial_error m reply)"

section \<open>The handlers\<close>

record system_report =
  sp_xray_info :: "sys_stats option"
  sp_reports_count :: nat
  sp_info :: system_info
  sp_listening_ports :: "listening_port list option"
  sp_stats :: system_stats

definition handle_get_system_stats ::
  "(string + sys_stats) option \<Rightarrow> nat option \<Rightarrow> (rat \<Rightarrow> rat) \<Rightarrow> host \<Rightarrow> resource_stats \<Rightarrow> network_monitor \<Rightarrow> vnstat_service
   \<Rightarrow> (nat \<times> system_report) \<times> vnstat_service"
where
  "handle_get_system_stats provider reports fl h resources monitor vs =
     (let (stats, vs') = get_stats fl h resources monitor vs in
      ((200, \<lparr>sp_xray_info = (case provider of Some (Inr s) \<Rightarrow> Some s | _ \<Rightarrow> None),
         sp_reports_count = (case reports of Some n \<Rightarrow> n | None \<Rightarrow> 0), sp_info = get_info h,
         sp_listening_ports = collect_listening_ports (ho_listeners h), sp_stats = stats\<rparr>), vs'))"

definition handle_get_tcp_connections :: "host \<Rightarrow> nat \<times> string \<times> peer_connection list" where
  "handle_get_tcp_connections h = (200, ho_now_text h, read_peer_connections (ho_tcp h))"

section \<open>What a report says\<close>

text \<open>Used and free memory make up the total unless the host reports more free than total; the used swap is there
  when the swap is, unless it is reported likewise; the vnStat fields are those of a snapshot or an error; the core's
  figures are there only when it can be asked.\<close>

lemma system_report_consistent:
  assumes "handle_get_system_stats (Some (get_sys_stats dial_error m reply)) reports fl h resources monitor vs = ((status, r), vs')"
  shows "status = 200"
    "ss_memory_used (sp_stats r) + min (ss_memory_free (sp_stats r)) (si_memory_total (sp_info r)) = si_memory_total (sp_info r)"
    "ss_swap_used (sp_stats r) = Some u \<Longrightarrow> ss_swap_free (sp_stats r) = Some f \<Longrightarrow> ss_swap_total (sp_stats r) = Some (u + f)"
    "ss_vnstat_error (sp_stats r) = None \<longleftrightarrow> ss_vnstat_total_bytes (sp_stats r) \<noteq> None"
    "sp_xray_info r \<noteq> None \<Longrightarrow> stats_api dial_error True m = None"
proof -
  obtain v w where v: "vnstat_snapshot_at fl (ho_vnstat h) (ho_now h) (report_interface h monitor) vs = (v, w)" by fastforce
  note r = assms [unfolded handle_get_system_stats_def get_stats_def Let_def v prod.case, symmetric]
  show "status = 200" using r by simp
  show "ss_memory_used (sp_stats r) + min (ss_memory_free (sp_stats r)) (si_memory_total (sp_info r)) = si_memory_total (sp_info r)"
    using r by (simp add: memory_used_def get_info_def Let_def)
  show "ss_swap_used (sp_stats r) = Some u \<Longrightarrow> ss_swap_free (sp_stats r) = Some f \<Longrightarrow> ss_swap_total (sp_stats r) = Some (u + f)"
    using r by (auto simp: swap_used_def split: option.splits if_splits)
  show "ss_vnstat_error (sp_stats r) = None \<longleftrightarrow> ss_vnstat_total_bytes (sp_stats r) \<noteq> None"
    using r by (cases v) simp_all
  show "sp_xray_info r \<noteq> None \<Longrightarrow> stats_api dial_error True m = None"
    using r by (auto simp: get_sys_stats_def provider_stats_def split: option.splits sum.splits)
qed

end
