(* ===== verification/Spec2Isabelle.thy ===== *)
theory Spec2Isabelle
  imports ManagerConcurrency NodeHandler Stats AsnDb PluginSafety AuditService LogRotation XrayPing TcpStats Forwarding NodeAccess Vision WarpHealth Vnstat SystemStats NodeConfig Geodata Secret SystemReport
begin

text \<open>A model of remnanode-lite, the node agent of a proxy panel, written in Go under src/internal.
  The panel sends a start request with a configuration for the core program rw-core; the agent
  generates the final configuration, runs the core, keeps the users of its inbounds in step over the
  core's gRPC API, reads traffic counters for billing, filters addresses through nftables, keeps the
  logs of the core, and answers questions about the host, its routes and its targets.

  The standard library
    Prelude          Go strings (bytes), Go maps (association lists), decoded JSON values
    GoNet, NetPrefix the parts of net, net/netip, strconv, bufio, encoding/base64 and encoding/binary in use
    GoPath, GoTime, GoHttp  path/filepath, time and the query values of net/url
    Sha256           crypto/sha256 with hexadecimal output

  The core and its users
    HashedSet        xray/hashedset.go: a set with an incremental 64-bit hash
    ApiConfig        xray/apiconfig.go and xray/warp_guard.go: the generated configuration
    HashState        xray/hashstate.go and xray/inbounds.go: hashes that decide on a restart
    PreStart         xray/prestart.go: removal of stale sockets before a start
    Manager          xray/manager.go, grpc.go, persist.go: the operations of the core manager
    ManagerLifecycle what a call of Start does on each of its branches, and the faults of its error paths
    ManagerConcurrency  the critical sections of the calls of the manager, interleaved in any order, with
                     the lifecycle lock, startProcessing and the mutex as the code takes them
    CoreLoader       artifact/download.go and xray/core_loader.go: the custom core and its link
    Geodata          xray/geodata.go: the geodata files and their workers, as a step relation
    XtlsHandler      xtls/handler.go: the user operations of the core's API
    NodeHandler      nodehandler/ and connections/: the handlers that add, remove and drop users
    Vision           vision/service.go, xtls/router.go, xray/router.go: blocking an address
    WarpHealth       warp/service.go: the check of the WARP outbound

  Accounting and plugin
    Accounting       stats/accounting_snapshot.go: the journal traffic is billed from
    Stats            xtls/stats.go and stats/handler.go: counters, online users and their handlers
    AsnDb            asn/: writer and reader of the AS number database
    PluginConfig     plugin/: the configuration of the plugin, its validation and fingerprint
    PluginState      plugin/state.go, torrent.go, prestart.go: the state of the plugin
    PluginService    plugin/service.go, nft_linux.go, cidr.go, torrent.go: handlers, nft, webhook
    PluginSafety     what the plugin guarantees

  Logs
    AuditLog, AuditReader, AuditService  auditlog/service.go, httpserver/audit.go: chunks, cleaning, handlers
    LogSegments, LogRotation  xray/logrotate.go and the write loop of xray/managed_log.go

  Targets and the host
    Targets          backtrace/hostname.go, snihealth/hostname.go, network_policy.go: who may be contacted
    Backtrace        backtrace/model.go, service.go, httpserver/backtrace.go
    SniHealth, XrayPing  snihealth/probe.go, service.go, xray_ping.go, httpserver/sni_health.go
    TcpStats         tcpstats/: the tables of /proc/net and the listening ports
    Forwarding       forwarding/: telemetry of HAProxy mappings
    Vnstat           vnstat/: daily traffic
    SystemStats      system/resources.go, network.go and the readers of system.go
    SystemReport     the reports of system.go and their handlers of stats/handler.go

  Access and configuration
    NodeConfig       config/config.go: the .env file and the environment
    Secret           secret/secret.go: the secret of the node
    NodeAccess       auth/jwt.go, bodylimit/, unixconfig/server.go and the routes of httpserver/server.go

  Interaction.  A request passes the bearer check, the limits and the routes of NodeAccess before a
  handler; the settings come from NodeConfig, the key of the tokens from Secret.  NodeHandler updates
  the manager's hashes and tags through the operations of HashState; the locale inbound_registry names
  the laws of that interface and is interpreted on them.  HashState keeps one HashedSet for each
  inbound through the locale member_digest.  The plugin's state gives the manager its torrent options
  (ApiConfig) and socket patterns (PreStart), the dropper its whitelist (NodeHandler), and takes
  prefixes from AsnDb.  The pump of LogSegments writes the files that AuditReader and AuditService
  read and clean.  WarpHealth looks at outbounds that passed the guard of ApiConfig.  SniHealth takes
  its targets from the configuration of the manager and uses the ping of XrayPing; it and Backtrace
  contact the addresses Targets allows.  Geodata uses the download of CoreLoader.

  What the groups of lemmas show.  HashedSet and HashState: the incremental hash is that of the
  members, and a restart is needed exactly when the users differ.  ApiConfig: the shape of the
  generated rules, inbounds and outbounds.  ManagerLifecycle: what an answered and a failed Start leave
  behind.  ManagerConcurrency: invariants of every interleaving, that no call is blocked for ever, and
  that the operations of Manager are the calls between whose sections nothing happens; the locales
  shared_token and guarded_token state what a lock guarantees and are interpreted on lifecycleMu and
  on startProcessing.  CoreLoader and Geodata: only checked files take the place of
  others, whatever call fails and however the workers interleave.  Accounting: no byte is billed twice
  or lost.  AsnDb: what is written is found.  PluginSafety: accepted configurations are well formed,
  refused ones leave nothing, nft holds what was asked for and only gets well-formed commands, and no
  handler, of the users or of the plugin, kills the sockets of a whitelisted address.
  AuditReader: a follower of a growing log gets each line once.  AuditService: cleaning removes what
  it may.  LogRotation: no byte is lost at a crash unless the journal is torn.  Targets, Backtrace,
  SniHealth: private addresses are not contacted, and what a good verdict rests on.  TcpStats, Vnstat,
  Forwarding, SystemStats: the numbers are those of the source texts.  NodeAccess, Secret, NodeConfig:
  what has held when a request, a secret or a configuration is accepted.

  Conventions and bounds.  Case folding and white space are those of ASCII.  A float64 is the
  rational it stands for, and its conversion to an integer out of range is that of amd64; where sums
  round, the rounding is a parameter.  A Go map is an association list; results that depend on its
  order are up to permutation.  The IPv6 parser has fuel 8, one for each group, as its loop in
  net/netip; the search of AsnDb recurses on the size of its interval; the search for a free log
  segment has one try more than there are files, which find_free_segment_finds shows to be enough;
  RestoreOnBoot tries ten times, the pre-start cleanup removes at most 256 sockets, five geodata
  workers run, as the code says.  Everything else is structural recursion or recursion on a length.

  Parameters.  The core's gRPC services, HTTP, TLS and DNS, IDNA, url.Parse, JSON decoding where a body
  is given decoded, PEM and x509, the RSA verification, the zstd decoder, the file system (as answers,
  or as a plan of the calls that fail), clocks, random bytes, process control, filepath.Glob, nft, ss,
  nexttrace, vnstat and rw-core itself, the merging of prefixes by go4.org/netipx and strconv.ParseFloat
  are arguments of the definitions.

  Not modelled.  cmd/ and the construction in httpserver.New and main only wire the parts together;
  doctor prints diagnostics;
  logging rewrites log texts by regular expressions; instance holds a lock socket; netadmin calls the
  kernel; version holds texts; xtls/client.go opens a connection; release-archive.go is a build tool.
  What they do is input and output, or is decided by the libraries they call.\<close>

end
